(* ===== verification/Carrels_Prelude.thy ===== *)
theory Carrels_Prelude
  imports Main "HOL-Library.Word"
begin

text \<open>
  What every component of the development shares: the machine integers of the C code, the ways
  a protection domain can stop without returning (a failed assertion, a crash, an endless loop,
  undefined behaviour), the result type of a C function that can stop, and the generic lemmas
  on lists, words and results that the component proofs use.
\<close>

unbundle bit_operations_syntax

section \<open>Machine integers\<close>

type_synonym u8 = "8 word"
type_synonym u16 = "16 word"
type_synonym u32 = "32 word"
type_synonym u64 = "64 word"

text \<open>Widening conversions keep the value; the instances below are the ones the code makes.\<close>

lemma unat_ucast_up:
  fixes w :: "'a::len word"
  assumes "LENGTH('a) \<le> LENGTH('b::len)"
  shows "unat (ucast w :: 'b word) = unat w"
proof -
  have "unat w < 2 ^ LENGTH('a)" by (rule unsigned_less)
  also have "(2::nat) ^ LENGTH('a) \<le> 2 ^ LENGTH('b)"
    using assms by (rule power_increasing) simp
  finally have "unat w < 2 ^ LENGTH('b)" .
  then show ?thesis by (simp add: unsigned_ucast_eq take_bit_nat_eq_self)
qed

lemma unat_ucast_widen [simp]:
  "unat (ucast (a :: u8) :: u32) = unat a"
  "unat (ucast (a :: u8) :: u64) = unat a"
  "unat (ucast (b :: u16) :: u32) = unat b"
  "unat (ucast (b :: u16) :: u64) = unat b"
  "unat (ucast (c :: u32) :: u64) = unat c"
  by (simp_all add: unat_ucast_up)

lemma u8_lt: "unat (w :: u8) < 256"
  using unsigned_less [of w, where ?'a = nat] by simp

lemma u16_lt: "unat (w :: u16) < 65536"
  using unsigned_less [of w, where ?'a = nat] by simp

lemma u32_lt: "unat (w :: u32) < 4294967296"
  using unsigned_less [of w, where ?'a = nat] by simp

lemma u64_lt: "unat (w :: u64) < 18446744073709551616"
  using unsigned_less [of w, where ?'a = nat] by simp

lemma unat_word_of_nat_lt: "n < 2 ^ LENGTH('a::len) \<Longrightarrow> unat (word_of_nat n :: 'a word) = n"
  by (simp add: unat_of_nat take_bit_nat_eq_self)

section \<open>Functions that may not return\<close>

text \<open>
  An \<open>assert\<close> that fails and \<open>TSLDR_ASSERT\<close> halt the protection domain, as does
  \<open>microkit_internal_crash\<close> (with its error code) and the \<open>while (1)\<close> loops of the error
  paths. \<open>UB\<close> is undefined behaviour of C that the code does not exclude: an array index out
  of range, a null pointer used for a copy, a read of an uninitialised variable.
\<close>

datatype stop = AssertFail | Crash u64 | Spin | UB

type_synonym 'a res = "stop + 'a"

definition bindR :: "'a res \<Rightarrow> ('a \<Rightarrow> 'b res) \<Rightarrow> 'b res" where
  "bindR r f = (case r of Inl e \<Rightarrow> Inl e | Inr a \<Rightarrow> f a)"

lemma bindR_simps [simp]:
  "bindR (Inl e) f = Inl e"
  "bindR (Inr a) f = f a"
  by (simp_all add: bindR_def)

lemma bindR_Inr_iff: "bindR r f = Inr b \<longleftrightarrow> (\<exists>a. r = Inr a \<and> f a = Inr b)"
  by (cases r) auto

lemma bindR_InrE:
  assumes "bindR r f = Inr b"
  obtains a where "r = Inr a" and "f a = Inr b"
  using assms by (cases r) auto

lemma bindR_pairE:
  assumes "bindR r (\<lambda>(a, b). f a b) = Inr c"
  obtains a b where "r = Inr (a, b)" and "f a b = Inr c"
  using assms by (cases r) auto

lemma bindR_tripleE:
  assumes "bindR r (\<lambda>(a, b, d). f a b d) = Inr c"
  obtains a b d where "r = Inr (a, b, d)" and "f a b d = Inr c"
  using assms by (cases r) auto

lemma bindR_assoc: "bindR (bindR r f) g = bindR r (\<lambda>a. bindR (f a) g)"
  by (cases r) auto

lemma if_Inl_eq_Inr_iff [simp]: "(if b then Inl e else r) = Inr x \<longleftrightarrow> \<not> b \<and> r = Inr x"
  by simp

text \<open>A condition the code asserts.\<close>

definition assertR :: "bool \<Rightarrow> unit res" where
  "assertR b = (if b then Inr () else Inl AssertFail)"

lemma assertR_simps [simp]: "assertR True = Inr ()" "assertR False = Inl AssertFail"
  by (simp_all add: assertR_def)

lemma assertR_Inr_iff [simp]: "assertR b = Inr u \<longleftrightarrow> b"
  by (simp add: assertR_def)

end
