(* ===== verification/Carrels_Memory.thy ===== *)
theory Carrels_Memory
  imports Carrels_Prelude
begin

text \<open>
  The byte-addressed memory of a protection domain: a total map from 64-bit addresses to bytes,
  with the reads, block writes, \<open>memset\<close> and \<open>memcpy\<close> the C code performs on it. Integers
  are little endian, as on both supported targets (AArch64 and x86-64). Address arithmetic wraps
  at 64 bits, as the machine's does.
\<close>

type_synonym mem = "u64 \<Rightarrow> u8"

section \<open>Reading\<close>

definition read_u16 :: "mem \<Rightarrow> u64 \<Rightarrow> u16" where
  "read_u16 m p = ucast (m p) OR push_bit 8 (ucast (m (p + 1)))"

definition read_u32 :: "mem \<Rightarrow> u64 \<Rightarrow> u32" where
  "read_u32 m p = ucast (m p) OR push_bit 8 (ucast (m (p + 1)))
     OR push_bit 16 (ucast (m (p + 2))) OR push_bit 24 (ucast (m (p + 3)))"

definition read_u64 :: "mem \<Rightarrow> u64 \<Rightarrow> u64" where
  "read_u64 m p = ucast (read_u32 m p) OR push_bit 32 (ucast (read_u32 m (p + 4)))"

definition mem_read :: "mem \<Rightarrow> u64 \<Rightarrow> nat \<Rightarrow> u8 list" where
  "mem_read m p n = map (\<lambda>i. m (p + word_of_nat i)) [0..<n]"

text \<open>\<open>memcmp(p, bs, sizeof(bs)) == 0\<close>, also read as: the bytes \<open>bs\<close> are stored at \<open>p\<close>.\<close>

definition mem_holds :: "mem \<Rightarrow> u64 \<Rightarrow> u8 list \<Rightarrow> bool" where
  "mem_holds m p bs \<longleftrightarrow> mem_read m p (length bs) = bs"

lemma length_mem_read [simp]: "length (mem_read m p n) = n"
  by (simp add: mem_read_def)

lemma nth_mem_read [simp]: "i < n \<Longrightarrow> mem_read m p n ! i = m (p + word_of_nat i)"
  by (simp add: mem_read_def)

lemma mem_read_0 [simp]: "mem_read m p 0 = []"
  by (simp add: mem_read_def)

lemma mem_read_Suc: "mem_read m p (Suc n) = m p # mem_read m (p + 1) n"
  by (rule nth_equalityI) (auto simp: nth_Cons add.assoc split: nat.split)

lemma mem_read_add: "mem_read m p (a + b) = mem_read m p a @ mem_read m (p + word_of_nat a) b"
  by (rule nth_equalityI) (auto simp: nth_append add.assoc simp flip: of_nat_add)

lemma mem_holds_Nil [simp]: "mem_holds m p []"
  by (simp add: mem_holds_def)

lemma mem_holds_Cons [simp]: "mem_holds m p (b # bs) \<longleftrightarrow> m p = b \<and> mem_holds m (p + 1) bs"
  by (simp add: mem_holds_def mem_read_Suc)

lemma mem_holds_append [simp]:
  "mem_holds m p (xs @ ys) \<longleftrightarrow> mem_holds m p xs \<and> mem_holds m (p + word_of_nat (length xs)) ys"
  by (simp add: mem_holds_def mem_read_add)

section \<open>Writing\<close>

definition mem_write :: "mem \<Rightarrow> u64 \<Rightarrow> u8 list \<Rightarrow> mem" where
  "mem_write m p bs = (\<lambda>a. let i = unat (a - p) in if i < length bs then bs ! i else m a)"

definition mem_fill :: "mem \<Rightarrow> u64 \<Rightarrow> u64 \<Rightarrow> u8 \<Rightarrow> mem" where
  "mem_fill m p n v = (\<lambda>a. if a - p < n then v else m a)"

definition mem_copy :: "mem \<Rightarrow> u64 \<Rightarrow> u64 \<Rightarrow> u64 \<Rightarrow> mem" where
  "mem_copy m d s n = (\<lambda>a. if a - d < n then m (s + (a - d)) else m a)"

text \<open>The addresses of a block of \<open>n\<close> bytes at \<open>p\<close>, with the wrap-around at \<open>2 ^ 64\<close>.\<close>

definition block :: "u64 \<Rightarrow> u64 \<Rightarrow> u64 set" where
  "block p n = {a. a - p < n}"

lemma mem_block_iff [simp]: "a \<in> block p n \<longleftrightarrow> a - p < n"
  by (simp add: block_def)

text \<open>A block that does not wrap around is a range of addresses.\<close>

lemma block_range:
  fixes p n a :: u64
  assumes "unat p + unat n \<le> 2 ^ 64"
  shows "a \<in> block p n \<longleftrightarrow> unat p \<le> unat a \<and> unat a < unat p + unat n"
proof (cases "unat p \<le> unat a")
  case True
  then have "unat (a - p) = unat a - unat p" by (simp add: unat_sub_if')
  then show ?thesis using True by (auto simp: word_less_nat_alt)
next
  case False
  then have "unat (a - p) = unat a + 2 ^ 64 - unat p" by (simp add: unat_sub_if')
  then show ?thesis using False assms by (auto simp: word_less_nat_alt)
qed

lemma mem_fill_outside: "a \<notin> block p n \<Longrightarrow> mem_fill m p n v a = m a"
  by (simp add: mem_fill_def)

lemma mem_fill_inside: "a \<in> block p n \<Longrightarrow> mem_fill m p n v a = v"
  by (simp add: mem_fill_def)

lemma mem_copy_outside: "a \<notin> block d n \<Longrightarrow> mem_copy m d s n a = m a"
  by (simp add: mem_copy_def)

lemma mem_copy_inside: "i < n \<Longrightarrow> mem_copy m d s n (d + i) = m (s + i)"
  by (simp add: mem_copy_def)

lemma mem_write_nth:
  assumes "i < length bs" and "length bs \<le> 2 ^ 64"
  shows "mem_write m p bs (p + word_of_nat i) = bs ! i"
proof -
  have "unat (word_of_nat i :: u64) = i"
    using assms by (intro unat_word_of_nat_lt) simp
  then show ?thesis
    using assms by (simp add: mem_write_def)
qed

lemma mem_holds_mem_write: "length bs \<le> 2 ^ 64 \<Longrightarrow> mem_holds (mem_write m p bs) p bs"
  unfolding mem_holds_def by (rule nth_equalityI) (simp_all add: mem_write_nth)

lemma mem_write_outside: "length bs \<le> unat (a - p) \<Longrightarrow> mem_write m p bs a = m a"
  by (simp add: mem_write_def Let_def)

section \<open>Little-endian encoding\<close>

definition le_bytes :: "nat \<Rightarrow> 'a::len word \<Rightarrow> u8 list" where
  "le_bytes n w = map (\<lambda>i. ucast (drop_bit (8 * i) w)) [0..<n]"

lemma length_le_bytes [simp]: "length (le_bytes n w) = n"
  by (simp add: le_bytes_def)

lemma le_bytes_unfold:
  "le_bytes 2 w = [ucast w, ucast (drop_bit 8 w)]"
  "le_bytes 4 w = [ucast w, ucast (drop_bit 8 w), ucast (drop_bit 16 w), ucast (drop_bit 24 w)]"
  "le_bytes 8 w = [ucast w, ucast (drop_bit 8 w), ucast (drop_bit 16 w), ucast (drop_bit 24 w),
     ucast (drop_bit 32 w), ucast (drop_bit 40 w), ucast (drop_bit 48 w), ucast (drop_bit 56 w)]"
  by (simp_all add: le_bytes_def upt_rec)

lemma read_u16_le_bytes: "mem_holds m p (le_bytes 2 w) \<Longrightarrow> read_u16 m p = w"
  by (rule bit_word_eqI) (auto simp: read_u16_def le_bytes_unfold bit_simps)

lemma read_u32_le_bytes:
  assumes "mem_holds m p (le_bytes 4 w)"
  shows "read_u32 m p = w"
proof (rule bit_word_eqI)
  fix n :: nat
  assume "n < LENGTH(32)"
  then consider "n < 8" | "8 \<le> n" "n < 16" | "16 \<le> n" "n < 24" | "24 \<le> n" "n < 32"
    by fastforce
  then show "bit (read_u32 m p) n = bit w n"
    using assms by cases (auto simp: read_u32_def le_bytes_unfold bit_simps add.assoc)
qed

lemma le_bytes_8_split:
  "le_bytes 8 (w :: u64) = le_bytes 4 (ucast w :: u32) @ le_bytes 4 (ucast (drop_bit 32 w) :: u32)"
  by (simp add: le_bytes_unfold) (auto intro!: bit_word_eqI simp: bit_simps)

lemma read_u64_le_bytes:
  assumes "mem_holds m p (le_bytes 8 w)"
  shows "read_u64 m p = w"
proof -
  have "read_u32 m p = ucast w" "read_u32 m (p + 4) = ucast (drop_bit 32 w)"
    using assms by (auto intro!: read_u32_le_bytes simp: le_bytes_8_split)
  then show ?thesis
    by (intro bit_word_eqI) (auto simp: read_u64_def bit_simps)
qed

end
