(* ===== verification/Record_Walk.thy ===== *)
theory Record_Walk
  imports Carrels_Memory
begin

text \<open>
  The interface that the two boot-time databases share: a header followed by a sequence of
  records of variable size, which a parser walks from record to record, storing a pointer to
  each. A parser provides its acceptance test \<open>ok\<close> for the record at an address, the size
  \<open>sz\<close> it then advances by, and its loop; the locale proves once that the loop succeeds exactly
  on the layouts described by \<open>laid_out\<close>, and where the stored pointers lie.
\<close>

section \<open>Layouts\<close>

text \<open>
  \<open>laid_out ok sz hdr lim p qs\<close>: starting at \<open>p\<close>, the addresses \<open>qs\<close> are those of consecutive
  accepted records, each with its fixed header and its whole body below \<open>lim\<close> (as numbers, with
  no wrap-around), and the last one ends exactly at \<open>lim\<close>.
\<close>

fun laid_out :: "(u64 \<Rightarrow> bool) \<Rightarrow> (u64 \<Rightarrow> u64) \<Rightarrow> u64 \<Rightarrow> u64 \<Rightarrow> u64 \<Rightarrow> u64 list \<Rightarrow> bool" where
  "laid_out ok sz hdr lim p [] \<longleftrightarrow> p = lim"
| "laid_out ok sz hdr lim p (q # qs) \<longleftrightarrow>
     q = p \<and> unat p + unat hdr \<le> unat lim \<and> ok p \<and> unat p + unat (sz p) \<le> unat lim
     \<and> laid_out ok sz hdr lim (p + sz p) qs"

lemma unat_add_below:
  fixes p s lim :: u64
  assumes "unat p + unat s \<le> unat lim"
  shows "unat (p + s) = unat p + unat s"
proof -
  have "unat p + unat s < 2 ^ LENGTH(64)"
    using assms unsigned_less [of lim, where ?'a = nat] by linarith
  then show ?thesis by (simp add: unat_word_ariths)
qed

text \<open>Below \<open>2 ^ 64 - 2 ^ 32\<close> the code's pointer comparisons mean what they say.\<close>

lemma add_le_limit_iff:
  fixes p s lim :: u64
  assumes "p \<le> lim" and "unat lim + 2 ^ 32 \<le> 2 ^ 64" and "unat s < 2 ^ 32"
  shows "p + s \<le> lim \<longleftrightarrow> unat p + unat s \<le> unat lim"
proof -
  have "unat p \<le> unat lim" using assms(1) by (simp add: word_le_nat_alt)
  with assms(2,3) have "unat p + unat s < 2 ^ LENGTH(64)" by simp
  then have "unat (p + s) = unat p + unat s" by (simp add: unat_word_ariths)
  then show ?thesis by (simp add: word_le_nat_alt)
qed

lemma laid_out_bounds:
  assumes "laid_out ok sz hdr lim p qs" and "q \<in> set qs"
  shows "unat p \<le> unat q" and "unat q + unat hdr \<le> unat lim"
    and "ok q" and "unat q + unat (sz q) \<le> unat lim"
proof -
  have "unat p \<le> unat q \<and> unat q + unat hdr \<le> unat lim \<and> ok q
      \<and> unat q + unat (sz q) \<le> unat lim"
    using assms
  proof (induction qs arbitrary: p)
    case (Cons q' qs)
    then have "unat (p + sz p) = unat p + unat (sz p)"
      by (intro unat_add_below [where lim = lim]) simp
    with Cons show ?case by force
  qed simp
  then show "unat p \<le> unat q" and "unat q + unat hdr \<le> unat lim"
    and "ok q" and "unat q + unat (sz q) \<le> unat lim" by simp_all
qed

text \<open>Records do not overlap: each starts at or after the end of every earlier one.\<close>

lemma laid_out_ordered:
  assumes "laid_out ok sz hdr lim p qs" and "i < j" and "j < length qs"
  shows "unat (qs ! i) + unat (sz (qs ! i)) \<le> unat (qs ! j)"
  using assms
proof (induction qs arbitrary: p i j)
  case (Cons q qs)
  then obtain j' where j': "j = Suc j'" "j' < length qs"
    by (cases j) auto
  show ?case
  proof (cases i)
    case 0
    have "unat (p + sz p) = unat p + unat (sz p)"
      using Cons.prems(1) by (intro unat_add_below [where lim = lim]) simp
    moreover have "unat (p + sz p) \<le> unat (qs ! j')"
      using Cons.prems(1) j'(2) by (auto intro: laid_out_bounds(1))
    ultimately show ?thesis using Cons.prems(1) 0 j' by simp
  next
    case (Suc i')
    with Cons.prems j' show ?thesis by (auto intro: Cons.IH)
  qed
qed simp

lemma laid_out_unique:
  "laid_out ok sz hdr lim p qs \<Longrightarrow> laid_out ok sz hdr lim p qs' \<Longrightarrow> length qs = length qs' \<Longrightarrow> qs = qs'"
proof (induction qs arbitrary: p qs')
  case (Cons q qs)
  then show ?case by (cases qs') auto
qed simp

text \<open>
  A database whose 32-bit total size is added to a base address at least \<open>2 ^ 33\<close> below the end of
  the address space ends where the sum says.
\<close>

lemma limit_below:
  fixes base :: u64 and t :: u32
  assumes "unat base + 2 ^ 33 \<le> 2 ^ 64"
  shows "unat (base + ucast t) = unat base + unat t"
    and "unat (base + ucast t) + 2 ^ 32 \<le> 2 ^ 64"
proof -
  have "unat base + unat (ucast t :: u64) < 2 ^ LENGTH(64)"
    using assms u32_lt [of t] by simp
  then show "unat (base + ucast t) = unat base + unat t" by (simp add: unat_word_ariths)
  then show "unat (base + ucast t) + 2 ^ 32 \<le> 2 ^ 64" using assms u32_lt [of t] by simp
qed

lemma header_le_limit:
  fixes base h :: u64 and t :: u32
  assumes "unat base + 2 ^ 33 \<le> 2 ^ 64" and "unat h \<le> unat t"
  shows "base + h \<le> base + ucast t"
proof -
  have "unat base + unat h < 2 ^ LENGTH(64)" using assms u32_lt [of t] by simp
  then have "unat (base + h) = unat base + unat h" by (simp add: unat_word_ariths)
  then show ?thesis using assms(2) limit_below(1) [OF assms(1)] by (simp add: word_le_nat_alt)
qed

section \<open>The interface\<close>

locale record_walk =
  fixes hdr :: u64
    and ok :: "mem \<Rightarrow> u64 \<Rightarrow> bool"
    and sz :: "mem \<Rightarrow> u64 \<Rightarrow> u64"
    and walk :: "mem \<Rightarrow> u64 \<Rightarrow> nat \<Rightarrow> nat \<Rightarrow> u64 \<Rightarrow> u64 list \<Rightarrow> bool \<times> u64 list"
  assumes hdr_small: "unat hdr < 2 ^ 32"
    and sz_small: "unat (sz m p) < 2 ^ 32"
    and walk_0: "walk m lim 0 i p ds = (p = lim, ds)"
    and walk_Suc: "walk m lim (Suc k) i p ds =
      (if p + hdr > lim \<or> \<not> ok m p \<or> p + sz m p > lim then (False, ds)
       else walk m lim k (Suc i) (p + sz m p) (ds[i := p]))"
begin

lemma walk_step:
  assumes "unat lim + 2 ^ 32 \<le> 2 ^ 64" and "p \<le> lim"
  shows "walk m lim (Suc k) i p ds =
    (if unat p + unat hdr \<le> unat lim \<and> ok m p \<and> unat p + unat (sz m p) \<le> unat lim
     then walk m lim k (Suc i) (p + sz m p) (ds[i := p]) else (False, ds))"
  using add_le_limit_iff [OF assms(2,1) hdr_small] add_le_limit_iff [OF assms(2,1) sz_small [of m p]]
  by (simp add: walk_Suc not_less [symmetric])

lemma update_take_drop:
  assumes "i < length ds" and "length qs = k"
  shows "take (Suc i) (ds[i := p]) @ qs @ drop (Suc i + k) (ds[i := p])
       = take i ds @ (p # qs) @ drop (i + Suc k) ds"
  using assms by (simp add: take_Suc_conv_app_nth)

theorem walk_iff:
  assumes "unat lim + 2 ^ 32 \<le> 2 ^ 64" and "p \<le> lim" and "i + k \<le> length ds"
  shows "walk m lim k i p ds = (True, ds') \<longleftrightarrow>
    (\<exists>qs. length qs = k \<and> laid_out (ok m) (sz m) hdr lim p qs
       \<and> ds' = take i ds @ qs @ drop (i + k) ds)"
  using assms(2,3)
proof (induction k arbitrary: i p ds)
  case 0
  then show ?case by (auto simp: walk_0)
next
  case (Suc k)
  let ?fits = "unat p + unat hdr \<le> unat lim \<and> ok m p \<and> unat p + unat (sz m p) \<le> unat lim"
  show ?case
  proof (cases ?fits)
    case True
    have next_le: "p + sz m p \<le> lim"
      using True add_le_limit_iff [OF Suc.prems(1) assms(1) sz_small] by blast
    have "walk m lim (Suc k) i p ds = (True, ds') \<longleftrightarrow>
        (\<exists>qs. length qs = k \<and> laid_out (ok m) (sz m) hdr lim (p + sz m p) qs
          \<and> ds' = take (Suc i) (ds[i := p]) @ qs @ drop (Suc i + k) (ds[i := p]))"
      using True Suc.prems(2) next_le
      by (simp add: walk_step [OF assms(1) Suc.prems(1)] Suc.IH)
    also have "\<dots> \<longleftrightarrow> (\<exists>qs. length qs = k \<and> laid_out (ok m) (sz m) hdr lim (p + sz m p) qs
          \<and> ds' = take i ds @ (p # qs) @ drop (i + Suc k) ds)"
    proof -
      have "i < length ds" using Suc.prems(2) by simp
      then show ?thesis
        by (intro ex_cong1 conj_cong refl) (simp only: update_take_drop)
    qed
    also have "\<dots> \<longleftrightarrow> (\<exists>qs. length qs = Suc k \<and> laid_out (ok m) (sz m) hdr lim p qs
          \<and> ds' = take i ds @ qs @ drop (i + Suc k) ds)"
      using True by (auto simp: length_Suc_conv)
    finally show ?thesis .
  next
    case False
    then show ?thesis
      by (auto simp: walk_step [OF assms(1) Suc.prems(1)] length_Suc_conv)
  qed
qed

text \<open>Whatever the outcome, the pointer array keeps its length and its entries before \<open>i\<close>.\<close>

lemma walk_frame:
  "walk m lim k i p ds = (r, ds') \<Longrightarrow> length ds' = length ds \<and> take i ds' = take i ds"
proof (induction k arbitrary: i p ds)
  case 0
  then show ?case by (simp add: walk_0)
next
  case (Suc k)
  show ?case
  proof (cases "p + hdr > lim \<or> \<not> ok m p \<or> p + sz m p > lim")
    case True
    with Suc.prems show ?thesis by (simp add: walk_Suc)
  next
    case False
    then have "walk m lim k (Suc i) (p + sz m p) (ds[i := p]) = (r, ds')"
      using Suc.prems by (simp only: walk_Suc if_False)
    from Suc.IH [OF this] have len: "length ds' = length ds"
      and tk: "take (Suc i) ds' = take (Suc i) (ds[i := p])" by simp_all
    from arg_cong [OF tk, of "take i"] have "take i ds' = take i ds"
      by (simp add: min_def)
    with len show ?thesis by simp
  qed
qed

end

text \<open>
  A table whose acceptance test also guarantees that a record is at least as long as its header:
  then no record is empty, so the stored pointers are pairwise different.
\<close>

locale record_table = record_walk +
  assumes sz_ge_hdr: "ok m p \<Longrightarrow> hdr \<le> sz m p"
    and hdr_pos: "0 < hdr"
begin

lemma distinct_records:
  assumes "laid_out (ok m) (sz m) hdr lim p qs"
  shows "distinct qs"
proof -
  have "qs ! i \<noteq> qs ! j" if "i < j" "j < length qs" for i j
  proof -
    have "ok m (qs ! i)"
      using that by (intro laid_out_bounds(3) [OF assms]) simp
    then have "0 < unat (sz m (qs ! i))"
      using sz_ge_hdr hdr_pos by (metis order_less_le_trans unat_gt_0 word_gt_0)
    with laid_out_ordered [OF assms that] show ?thesis by auto
  qed
  then show ?thesis
    by (auto simp: distinct_conv_nth) (metis nat_neq_iff)
qed

end

end
