(* ===== verification/Delegation.thy ===== *)
theory Delegation
  imports Record_Walk
begin

text \<open>
  The delegation database (\<open>include/monitor/delegation.h\<close>): the \<open>.dlg\<close> file that says which
  capabilities each dynamic protection domain was delegated. \<open>dlg_parse\<close> validates the file and
  records a pointer to each delegator; the accessors return the resources of a delegator and the
  delegator of a protection domain.
\<close>

section \<open>The parser and its accessors\<close>

definition DLG_MAX_DELEGATORS :: u32 where "DLG_MAX_DELEGATORS = 16"
definition DLG_HEADER_SIZE :: u64 where "DLG_HEADER_SIZE = 16"

text \<open>\<open>sizeof\<close> of the packed structs \<open>dlg_resource_t\<close> and \<open>dlg_delegator_t\<close>.\<close>

definition DLG_RESOURCE_SIZE :: u64 where "DLG_RESOURCE_SIZE = 22"
definition DLG_DELEGATOR_HEADER_SIZE :: u64 where "DLG_DELEGATOR_HEADER_SIZE = 16"

record dlg_resource =
  kind :: u8
  flags :: u8
  slot :: u16
  cap_count :: u16
  arg0 :: u64
  arg1 :: u64

definition dlg_resource_at :: "mem \<Rightarrow> u64 \<Rightarrow> dlg_resource" where
  "dlg_resource_at m p = \<lparr>kind = m p, flags = m (p + 1), slot = read_u16 m (p + 2),
     cap_count = read_u16 m (p + 4), arg0 = read_u64 m (p + 6), arg1 = read_u64 m (p + 14)\<rparr>"

record dlg_delegator =
  record_size :: u16
  resource_count :: u16
  delegation_cap :: u32
  pd_id :: u64

definition dlg_delegator_at :: "mem \<Rightarrow> u64 \<Rightarrow> dlg_delegator" where
  "dlg_delegator_at m p = \<lparr>record_size = read_u16 m p, resource_count = read_u16 m (p + 2),
     delegation_cap = read_u32 m (p + 4), pd_id = read_u64 m (p + 8)\<rparr>"

record dlg_header =
  delegator_count :: u32
  total_size :: u32
  delegators :: "u64 list"

text \<open>The zero-initialised global \<open>dlg_header_t dlg\<close>.\<close>

definition dlg_header_zero :: dlg_header where
  "dlg_header_zero = \<lparr>delegator_count = 0, total_size = 0, delegators = replicate 16 0\<rparr>"

definition dlg_read_u16 :: "mem \<Rightarrow> u64 \<Rightarrow> u16" where
  "dlg_read_u16 m p = ucast (m p) OR push_bit 8 (ucast (m (p + 1)))"

definition dlg_read_u32 :: "mem \<Rightarrow> u64 \<Rightarrow> u32" where
  "dlg_read_u32 m p = ucast (m p) OR push_bit 8 (ucast (m (p + 1)))
     OR push_bit 16 (ucast (m (p + 2))) OR push_bit 24 (ucast (m (p + 3)))"

lemma dlg_reads [simp]: "dlg_read_u16 = read_u16" "dlg_read_u32 = read_u32"
  by (simp_all add: fun_eq_iff dlg_read_u16_def dlg_read_u32_def read_u16_def read_u32_def)

definition dlg_delegator_resource :: "mem \<Rightarrow> u64 \<Rightarrow> u16 \<Rightarrow> u64 option" where
  "dlg_delegator_resource m delegator index =
     (if index \<ge> resource_count (dlg_delegator_at m delegator) then None
      else Some (delegator + DLG_DELEGATOR_HEADER_SIZE + ucast index * DLG_RESOURCE_SIZE))"

text \<open>
  The loop of \<open>dlg_find_delegator\<close>, with \<open>k\<close> iterations left at index \<open>i\<close>. The array has 16
  entries; an index beyond it is undefined.
\<close>

fun dlg_find_from :: "mem \<Rightarrow> u64 list \<Rightarrow> u64 \<Rightarrow> nat \<Rightarrow> nat \<Rightarrow> u64 option res" where
  "dlg_find_from m ds pd 0 i = Inr None"
| "dlg_find_from m ds pd (Suc k) i =
     (if i \<ge> length ds then Inl UB
      else if pd_id (dlg_delegator_at m (ds ! i)) = pd then Inr (Some (ds ! i))
      else dlg_find_from m ds pd k (Suc i))"

definition dlg_find_delegator :: "mem \<Rightarrow> dlg_header \<Rightarrow> u64 \<Rightarrow> u64 option res" where
  "dlg_find_delegator m dlg pd =
     dlg_find_from m (delegators dlg) pd (unat (delegator_count dlg)) 0"

definition dlg_magic :: "u8 list" where
  "dlg_magic = [0x43, 0x61, 0x70, 0x44, 0x65, 0x6C, 0x67, 0]"

text \<open>
  The record loop of \<open>dlg_parse\<close> and its final test, with \<open>k\<close> records left, the index \<open>i\<close>, the
  cursor \<open>p\<close> and the array filled so far. The sizes are compared as \<open>size_t\<close>.
\<close>

fun dlg_records :: "mem \<Rightarrow> u64 \<Rightarrow> nat \<Rightarrow> nat \<Rightarrow> u64 \<Rightarrow> u64 list \<Rightarrow> bool \<times> u64 list" where
  "dlg_records m lim 0 i p ds = (p = lim, ds)"
| "dlg_records m lim (Suc k) i p ds =
     (if p + DLG_DELEGATOR_HEADER_SIZE > lim then (False, ds)
      else
        let rs = dlg_read_u16 m p; rc = dlg_read_u16 m (p + 2)
        in if ucast rs < DLG_DELEGATOR_HEADER_SIZE
              \<or> ucast rs \<noteq> DLG_DELEGATOR_HEADER_SIZE + ucast rc * DLG_RESOURCE_SIZE
           then (False, ds)
           else if p + ucast rs > lim then (False, ds)
           else dlg_records m lim k (Suc i) (p + ucast rs) (ds[i := p]))"

definition dlg_parse :: "mem \<Rightarrow> u64 \<Rightarrow> dlg_header \<Rightarrow> bool \<times> dlg_header" where
  "dlg_parse m base dlg =
     (if \<not> mem_holds m base dlg_magic then (False, dlg)
      else
        let dlg = dlg\<lparr>delegator_count := dlg_read_u32 m (base + 8),
                      total_size := dlg_read_u32 m (base + 12)\<rparr>
        in if delegator_count dlg > DLG_MAX_DELEGATORS
              \<or> ucast (total_size dlg) < DLG_HEADER_SIZE
           then (False, dlg)
           else
             let (ok, ds) = dlg_records m (base + ucast (total_size dlg))
                  (unat (delegator_count dlg)) 0 (base + DLG_HEADER_SIZE) (delegators dlg)
             in (ok, dlg\<lparr>delegators := ds\<rparr>))"

lemmas dlg_consts = DLG_MAX_DELEGATORS_def DLG_HEADER_SIZE_def DLG_RESOURCE_SIZE_def
  DLG_DELEGATOR_HEADER_SIZE_def

section \<open>The parser is a record table\<close>

text \<open>The acceptance test of one record, and its size.\<close>

definition dlg_record_ok :: "mem \<Rightarrow> u64 \<Rightarrow> bool" where
  "dlg_record_ok m p \<longleftrightarrow> unat (record_size (dlg_delegator_at m p))
     = 16 + 22 * unat (resource_count (dlg_delegator_at m p))"

definition dlg_record_size :: "mem \<Rightarrow> u64 \<Rightarrow> u64" where
  "dlg_record_size m p = ucast (record_size (dlg_delegator_at m p))"

lemma dlg_size_test:
  fixes rs rc :: u16
  shows "(ucast rs :: u64) = 16 + ucast rc * 22 \<longleftrightarrow> unat rs = 16 + 22 * unat rc"
  using u16_lt [of rs] u16_lt [of rc]
  by (simp add: word_unat_eq_iff unat_word_ariths mult.commute)

lemma dlg_record_ok_code:
  "dlg_record_ok m p \<longleftrightarrow>
     \<not> (ucast (dlg_read_u16 m p) < DLG_DELEGATOR_HEADER_SIZE
        \<or> ucast (dlg_read_u16 m p)
           \<noteq> DLG_DELEGATOR_HEADER_SIZE + ucast (dlg_read_u16 m (p + 2)) * DLG_RESOURCE_SIZE)"
proof -
  have "(16::u64) \<le> ucast (read_u16 m p)" if "unat (read_u16 m p) = 16 + 22 * unat (read_u16 m (p + 2))"
    using that by (simp add: word_le_nat_alt)
  then show ?thesis
    by (auto simp: dlg_consts dlg_record_ok_def dlg_delegator_at_def dlg_size_test not_less)
qed

interpretation dlg_table: record_table DLG_DELEGATOR_HEADER_SIZE dlg_record_ok dlg_record_size dlg_records
proof unfold_locales
  show "unat DLG_DELEGATOR_HEADER_SIZE < 2 ^ 32" by (simp add: dlg_consts)
  show "unat (dlg_record_size m p) < 2 ^ 32" for m p
    using u16_lt [of "record_size (dlg_delegator_at m p)"] by (simp add: dlg_record_size_def)
  show "dlg_records m lim 0 i p ds = (p = lim, ds)" for m lim i p ds by simp
  show "dlg_records m lim (Suc k) i p ds =
      (if p + DLG_DELEGATOR_HEADER_SIZE > lim \<or> \<not> dlg_record_ok m p \<or> p + dlg_record_size m p > lim
       then (False, ds) else dlg_records m lim k (Suc i) (p + dlg_record_size m p) (ds[i := p]))"
    for m lim k i p ds
    unfolding dlg_record_ok_code dlg_record_size_def dlg_delegator_at_def
    by (auto simp only: dlg_records.simps Let_def dlg_reads dlg_delegator.simps split: if_splits)
  show "dlg_record_ok m p \<Longrightarrow> DLG_DELEGATOR_HEADER_SIZE \<le> dlg_record_size m p" for m p
    by (simp add: dlg_consts dlg_record_ok_def dlg_record_size_def word_le_nat_alt)
  show "0 < DLG_DELEGATOR_HEADER_SIZE" by (simp add: dlg_consts)
qed

section \<open>What the parser accepts\<close>

text \<open>
  The specification of a delegation database at \<open>base\<close>, in plain arithmetic: the magic, at most 16
  delegators, and records that follow each other without gaps from the header to the end.
\<close>

definition dlg_image :: "mem \<Rightarrow> u64 \<Rightarrow> u64 list \<Rightarrow> bool" where
  "dlg_image m base qs \<longleftrightarrow>
     mem_holds m base dlg_magic
     \<and> length qs = unat (read_u32 m (base + 8)) \<and> length qs \<le> 16
     \<and> 16 \<le> unat (read_u32 m (base + 12))
     \<and> laid_out (dlg_record_ok m) (dlg_record_size m) 16 (base + ucast (read_u32 m (base + 12)))
         (base + 16) qs"

lemma dlg_parse_accepts:
  assumes "unat base + 2 ^ 33 \<le> 2 ^ 64" and "length (delegators h) = 16"
  shows "dlg_parse m base h = (True, h') \<longleftrightarrow>
    (\<exists>qs. dlg_image m base qs
       \<and> h' = \<lparr>delegator_count = read_u32 m (base + 8), total_size = read_u32 m (base + 12),
                delegators = qs @ drop (length qs) (delegators h)\<rparr>)"
proof -
  let ?n = "read_u32 m (base + 8)" and ?t = "read_u32 m (base + 12)"
  have n16: "?n > DLG_MAX_DELEGATORS \<longleftrightarrow> \<not> unat ?n \<le> 16"
    by (simp add: dlg_consts word_less_nat_alt not_le)
  have t16: "ucast ?t < (16 :: u64) \<longleftrightarrow> \<not> 16 \<le> unat ?t"
    by (simp add: word_less_nat_alt not_le)
  have hdr: "DLG_DELEGATOR_HEADER_SIZE = 16" "DLG_HEADER_SIZE = 16"
    by (simp_all add: dlg_consts)
  show ?thesis
  proof (cases "mem_holds m base dlg_magic \<and> unat ?n \<le> 16 \<and> 16 \<le> unat ?t")
    case True
    then have le: "base + 16 \<le> base + ucast ?t"
      by (intro header_le_limit [OF assms(1)]) simp
    have walk: "dlg_records m (base + ucast ?t) (unat ?n) 0 (base + 16) (delegators h) = (True, ds)
      \<longleftrightarrow> (\<exists>qs. length qs = unat ?n
         \<and> laid_out (dlg_record_ok m) (dlg_record_size m) 16 (base + ucast ?t) (base + 16) qs
         \<and> ds = qs @ drop (unat ?n) (delegators h))" for ds
      using dlg_table.walk_iff [OF limit_below(2) [OF assms(1)] le, where i = 0 and k = "unat ?n"
          and ds = "delegators h" and m = m and ds' = ds] True assms(2)
      by (simp add: hdr)
    have "dlg_parse m base h = (True, h') \<longleftrightarrow>
      (\<exists>ds. dlg_records m (base + ucast ?t) (unat ?n) 0 (base + 16) (delegators h) = (True, ds)
        \<and> h' = \<lparr>delegator_count = ?n, total_size = ?t, delegators = ds\<rparr>)"
      using True
      by (auto simp: dlg_parse_def Let_def n16 t16 hdr split: prod.splits)
    with True show ?thesis by (auto simp: walk dlg_image_def)
  next
    case False
    then show ?thesis
      by (auto simp: dlg_parse_def Let_def n16 t16 hdr dlg_image_def split: if_splits)
  qed
qed

lemma dlg_image_result:
  assumes "unat base + 2 ^ 33 \<le> 2 ^ 64" and "length (delegators h) = 16"
    and "dlg_parse m base h = (True, h')"
  obtains qs where "dlg_image m base qs"
    and "take (unat (delegator_count h')) (delegators h') = qs"
    and "unat (delegator_count h') = length qs" and "length (delegators h') = 16"
    and "total_size h' = read_u32 m (base + 12)"
proof -
  obtain qs where qs: "dlg_image m base qs"
    and h': "h' = \<lparr>delegator_count = read_u32 m (base + 8), total_size = read_u32 m (base + 12),
                delegators = qs @ drop (length qs) (delegators h)\<rparr>"
    using assms dlg_parse_accepts by blast
  then have "unat (delegator_count h') = length qs" "length qs \<le> 16"
    by (simp_all add: dlg_image_def)
  with qs h' assms(2) show thesis by (intro that) simp_all
qed

lemma dlg_find_from_eq:
  "i + k \<le> length ds \<Longrightarrow> dlg_find_from m ds pd k i
     = Inr (List.find (\<lambda>d. pd_id (dlg_delegator_at m d) = pd) (take k (drop i ds)))"
proof (induction k arbitrary: i)
  case (Suc k)
  then have "take (Suc k) (drop i ds) = ds ! i # take k (drop (Suc i) ds)"
    by (simp add: Cons_nth_drop_Suc [symmetric])
  with Suc show ?case by simp
qed simp

lemma dlg_resource_in_record:
  fixes lim :: u64
  assumes "dlg_record_ok m d" and "unat d + unat (dlg_record_size m d) \<le> unat lim"
    and "j < resource_count (dlg_delegator_at m d)"
  shows "\<exists>r. dlg_delegator_resource m d j = Some r \<and> unat d + 16 \<le> unat r
    \<and> unat r + 22 \<le> unat d + unat (dlg_record_size m d)"
proof -
  let ?rc = "resource_count (dlg_delegator_at m d)"
  have j: "unat j < unat ?rc" using assms(3) by (simp add: word_less_nat_alt)
  have sz: "unat (dlg_record_size m d) = 16 + 22 * unat ?rc"
    using assms(1) by (simp add: dlg_record_ok_def dlg_record_size_def)
  have "unat d + (16 + 22 * unat j) < 2 ^ LENGTH(64)"
    using j sz assms(2) u64_lt [of lim] by simp
  then have "unat (d + 16 + ucast j * 22) = unat d + 16 + 22 * unat j"
    using u16_lt [of j] by (simp add: unat_word_ariths mult.commute add.assoc)
  then show ?thesis
    using assms(3) j sz by (simp add: dlg_delegator_resource_def dlg_consts not_le [symmetric])
qed

section \<open>Properties\<close>

text \<open>An accepted database: two delegators with one and no resource.\<close>

definition dlg_example :: "u8 list" where
  "dlg_example =
     dlg_magic @ le_bytes 4 (2 :: u32) @ le_bytes 4 (70 :: u32)
     @ (le_bytes 2 (38 :: u16) @ le_bytes 2 (1 :: u16) @ le_bytes 4 (5 :: u32) @ le_bytes 8 (0 :: u64)
        @ [1, 0] @ le_bytes 2 (3 :: u16) @ le_bytes 2 (1 :: u16) @ le_bytes 8 (7 :: u64) @ le_bytes 8 (9 :: u64))
     @ (le_bytes 2 (16 :: u16) @ le_bytes 2 (0 :: u16) @ le_bytes 4 (6 :: u32) @ le_bytes 8 (1 :: u64))"

definition dlg_example_mem :: mem where
  "dlg_example_mem = mem_write (\<lambda>_. 0) 0xAAAAA10000 dlg_example"

definition dlg_example_header :: dlg_header where
  "dlg_example_header = \<lparr>delegator_count = 2, total_size = 70,
     delegators = [0xAAAAA10010, 0xAAAAA10036] @ replicate 14 0\<rparr>"

lemma dlg_example_parses: "dlg_parse dlg_example_mem 0xAAAAA10000 dlg_header_zero
    = (True, dlg_example_header)"
  by code_simp

lemma dlg_example_premises:
  "unat (0xAAAAA10000 :: u64) + 2 ^ 33 \<le> 2 ^ 64" "length (delegators dlg_header_zero) = 16"
  by (simp_all add: dlg_header_zero_def)

text \<open>C7: the delegation parser accepts exactly the well-formed databases, and stores the
  addresses of their delegators in order.\<close>

theorem dlg_parse_iff:
  assumes "unat base + 2 ^ 33 \<le> 2 ^ 64" and "length (delegators h) = 16"
  shows "dlg_parse m base h = (True, h') \<longleftrightarrow>
    (\<exists>qs. dlg_image m base qs
       \<and> h' = \<lparr>delegator_count = read_u32 m (base + 8), total_size = read_u32 m (base + 12),
                delegators = qs @ drop (length qs) (delegators h)\<rparr>)"
  using assms by (rule dlg_parse_accepts)

theorem dlg_parse_iff_witness:
  "\<exists>qs. dlg_image dlg_example_mem 0xAAAAA10000 qs
     \<and> delegators dlg_example_header = qs @ drop (length qs) (delegators dlg_header_zero)"
  using dlg_parse_iff [OF dlg_example_premises] dlg_example_parses by (metis dlg_header.select_convs(3))

text \<open>in an accepted delegation database every delegator record lies between the header and
  the end of the file, every resource pointer handed out lies inside its record, and no two
  records overlap.\<close>

theorem dlg_delegators_in_bounds:
  assumes "unat base + 2 ^ 33 \<le> 2 ^ 64" and "length (delegators h) = 16"
    and "dlg_parse m base h = (True, h')"
    and "i < unat (delegator_count h')" and "d = delegators h' ! i"
  shows "unat base + 16 \<le> unat d
    \<and> unat d + unat (dlg_record_size m d) \<le> unat base + unat (total_size h')
    \<and> (\<forall>j. j < resource_count (dlg_delegator_at m d) \<longrightarrow>
         (\<exists>r. dlg_delegator_resource m d j = Some r \<and> unat d + 16 \<le> unat r
            \<and> unat r + 22 \<le> unat d + unat (dlg_record_size m d)))
    \<and> (\<forall>j. i < j \<and> j < unat (delegator_count h') \<longrightarrow>
         unat d + unat (dlg_record_size m d) \<le> unat (delegators h' ! j))"
proof -
  obtain qs where qs: "dlg_image m base qs" "unat (delegator_count h') = length qs"
      "total_size h' = read_u32 m (base + 12)"
    and nth: "\<And>j. j < length qs \<Longrightarrow> delegators h' ! j = qs ! j"
    using dlg_image_result [OF assms(1-3)] by (metis nth_take)
  let ?lim = "base + ucast (total_size h')"
  have lay: "laid_out (dlg_record_ok m) (dlg_record_size m) 16 ?lim (base + 16) qs"
    using qs by (simp add: dlg_image_def)
  have d: "d \<in> set qs" "d = qs ! i" using assms(4,5) qs(2) nth by simp_all
  have "unat base + unat (16 :: u64) < 2 ^ LENGTH(64)" using assms(1) by simp
  then have "unat (base + 16) = unat base + 16" by (simp add: unat_word_ariths)
  with laid_out_bounds [OF lay d(1)] limit_below(1) [OF assms(1)] show ?thesis
    using laid_out_ordered [OF lay] d qs(2) nth
    by (intro conjI allI impI dlg_resource_in_record [where lim = ?lim]) simp_all
qed

theorem dlg_delegators_in_bounds_witness:
  "unat (0xAAAAA10000 :: u64) + 16 \<le> unat (0xAAAAA10010 :: u64)
   \<and> unat (0xAAAAA10010 :: u64) + unat (dlg_record_size dlg_example_mem 0xAAAAA10010)
        \<le> unat (0xAAAAA10000 :: u64) + 70"
proof -
  have h: "0 < unat (delegator_count dlg_example_header)"
    "0xAAAAA10010 = delegators dlg_example_header ! 0" "unat (total_size dlg_example_header) = 70"
    by (simp_all add: dlg_example_header_def)
  from dlg_delegators_in_bounds [OF dlg_example_premises dlg_example_parses h(1,2)] h(3)
  show ?thesis by simp
qed

text \<open>after a successful parse the lookup of a delegator by protection domain never reads
  outside the table and returns the first delegator with that identifier, or NULL when the
  database has none.\<close>

theorem dlg_find_delegator_first:
  assumes "unat base + 2 ^ 33 \<le> 2 ^ 64" and "length (delegators h) = 16"
    and "dlg_parse m base h = (True, h')"
  shows "dlg_find_delegator m h' pd =
    Inr (List.find (\<lambda>d. pd_id (dlg_delegator_at m d) = pd)
          (take (unat (delegator_count h')) (delegators h')))"
proof -
  have "unat (delegator_count h') \<le> length (delegators h')"
    using dlg_image_result [OF assms] by (metis length_take min.absorb_iff2 min.commute)
  then show ?thesis by (simp add: dlg_find_delegator_def dlg_find_from_eq)
qed

theorem dlg_find_delegator_first_witness:
  "dlg_find_delegator dlg_example_mem dlg_example_header 1 = Inr (Some 0xAAAAA10036)
   \<and> dlg_find_delegator dlg_example_mem dlg_example_header 1 =
      Inr (List.find (\<lambda>d. pd_id (dlg_delegator_at dlg_example_mem d) = 1)
          (take 2 (delegators dlg_example_header)))"
proof
  show "dlg_find_delegator dlg_example_mem dlg_example_header 1 = Inr (Some 0xAAAAA10036)"
    by code_simp
  show "dlg_find_delegator dlg_example_mem dlg_example_header 1 =
      Inr (List.find (\<lambda>d. pd_id (dlg_delegator_at dlg_example_mem d) = 1)
          (take 2 (delegators dlg_example_header)))"
    using dlg_find_delegator_first [OF dlg_example_premises dlg_example_parses, of 1]
    by (simp add: dlg_example_header_def)
qed

end
