(* ===== verification/Service_Db.thy ===== *)
theory Service_Db
  imports Record_Walk
begin

text \<open>
  The service database (\<open>include/service/manifest.h\<close>): the \<open>.svc\<close> file that lists the operating
  system services offered to each dynamic protection domain, with the channels and mappings each
  needs and the path of its data file. All sizes are 32-bit and are computed with wrap-around.
\<close>

section \<open>The parser and its accessors\<close>

definition SVC_RESOURCE_CHANNEL_NOTIFY :: u8 where "SVC_RESOURCE_CHANNEL_NOTIFY = 1"
definition SVC_RESOURCE_CHANNEL_PPC :: u8 where "SVC_RESOURCE_CHANNEL_PPC = 2"
definition SVC_RESOURCE_MAP :: u8 where "SVC_RESOURCE_MAP = 3"

definition SVC_MAX_SERVICES :: u32 where "SVC_MAX_SERVICES = 64"
definition SVC_HEADER_SIZE :: u32 where "SVC_HEADER_SIZE = 20"
definition SVC_SERVICE_HEADER_SIZE :: u32 where "SVC_SERVICE_HEADER_SIZE = 22"
definition SVC_RESOURCE_SIZE :: u32 where "SVC_RESOURCE_SIZE = 9"
definition SVC_VERSION :: u16 where "SVC_VERSION = 1"

lemmas svc_consts = SVC_MAX_SERVICES_def SVC_HEADER_SIZE_def SVC_SERVICE_HEADER_SIZE_def
  SVC_RESOURCE_SIZE_def SVC_VERSION_def

record svc_resource =
  res_kind :: u8
  res_value :: u64

definition svc_resource_at :: "mem \<Rightarrow> u64 \<Rightarrow> svc_resource" where
  "svc_resource_at m p = \<lparr>res_kind = m p, res_value = read_u64 m (p + 1)\<rparr>"

record svc_service =
  svc_record_size :: u32
  svc_pd_id :: u64
  service_id :: u8
  service_type :: u8
  svc_resource_count :: u32
  path_len :: u32

definition svc_service_at :: "mem \<Rightarrow> u64 \<Rightarrow> svc_service" where
  "svc_service_at m p = \<lparr>svc_record_size = read_u32 m p, svc_pd_id = read_u64 m (p + 4),
     service_id = m (p + 12), service_type = m (p + 13),
     svc_resource_count = read_u32 m (p + 14), path_len = read_u32 m (p + 18)\<rparr>"

record svc_table =
  svc_version :: u16
  service_count :: u32
  svc_total_size :: u32
  services :: "u64 list"

definition svc_table_zero :: svc_table where
  "svc_table_zero = \<lparr>svc_version = 0, service_count = 0, svc_total_size = 0,
     services = replicate 64 0\<rparr>"

definition svc_read_u16 :: "mem \<Rightarrow> u64 \<Rightarrow> u16" where
  "svc_read_u16 m p = ucast (m p) OR push_bit 8 (ucast (m (p + 1)))"

definition svc_read_u32 :: "mem \<Rightarrow> u64 \<Rightarrow> u32" where
  "svc_read_u32 m p = ucast (m p) OR push_bit 8 (ucast (m (p + 1)))
     OR push_bit 16 (ucast (m (p + 2))) OR push_bit 24 (ucast (m (p + 3)))"

lemma svc_reads [simp]: "svc_read_u16 = read_u16" "svc_read_u32 = read_u32"
  by (simp_all add: fun_eq_iff svc_read_u16_def svc_read_u32_def read_u16_def read_u32_def)

text \<open>The byte offset of a resource is a product of 32-bit integers, added to the pointer.\<close>

definition svc_service_resource :: "mem \<Rightarrow> u64 \<Rightarrow> u32 \<Rightarrow> u64 option" where
  "svc_service_resource m service index =
     (if index \<ge> svc_resource_count (svc_service_at m service) then None
      else Some (service + ucast SVC_SERVICE_HEADER_SIZE + ucast (index * SVC_RESOURCE_SIZE)))"

definition svc_service_path :: "mem \<Rightarrow> u64 \<Rightarrow> u64" where
  "svc_service_path m service = service + ucast SVC_SERVICE_HEADER_SIZE
     + ucast (svc_resource_count (svc_service_at m service) * SVC_RESOURCE_SIZE)"

definition svc_magic :: "u8 list" where
  "svc_magic = [0x4F, 0x53, 0x53, 0x76, 0x63, 0, 0, 0]"

fun svc_records :: "mem \<Rightarrow> u64 \<Rightarrow> nat \<Rightarrow> nat \<Rightarrow> u64 \<Rightarrow> u64 list \<Rightarrow> bool \<times> u64 list" where
  "svc_records m lim 0 i p ss = (p = lim, ss)"
| "svc_records m lim (Suc k) i p ss =
     (if p + ucast SVC_SERVICE_HEADER_SIZE > lim then (False, ss)
      else
        let rs = svc_read_u32 m p;
            rc = svc_read_u32 m (p + 14);
            pl = svc_read_u32 m (p + 18);
            expected_size = SVC_SERVICE_HEADER_SIZE + rc * SVC_RESOURCE_SIZE + pl
        in if rs \<noteq> expected_size \<or> p + ucast rs > lim then (False, ss)
           else svc_records m lim k (Suc i) (p + ucast rs) (ss[i := p]))"

definition svc_parse :: "mem \<Rightarrow> u64 \<Rightarrow> svc_table \<Rightarrow> bool \<times> svc_table" where
  "svc_parse m base svc =
     (if \<not> mem_holds m base svc_magic then (False, svc)
      else
        let svc = svc\<lparr>svc_version := svc_read_u16 m (base + 8),
                      service_count := svc_read_u32 m (base + 12),
                      svc_total_size := svc_read_u32 m (base + 16)\<rparr>
        in if svc_version svc \<noteq> SVC_VERSION \<or> service_count svc > SVC_MAX_SERVICES
              \<or> svc_total_size svc < SVC_HEADER_SIZE
           then (False, svc)
           else
             let (ok, ss) = svc_records m (base + ucast (svc_total_size svc))
                  (unat (service_count svc)) 0 (base + ucast SVC_HEADER_SIZE) (services svc)
             in (ok, svc\<lparr>services := ss\<rparr>))"

section \<open>The parser is a record walk\<close>

definition svc_record_ok :: "mem \<Rightarrow> u64 \<Rightarrow> bool" where
  "svc_record_ok m p \<longleftrightarrow> (let s = svc_service_at m p in
     svc_record_size s = 22 + svc_resource_count s * 9 + path_len s)"

definition svc_size :: "mem \<Rightarrow> u64 \<Rightarrow> u64" where
  "svc_size m p = ucast (svc_record_size (svc_service_at m p))"

interpretation svc_walk: record_walk "ucast SVC_SERVICE_HEADER_SIZE" svc_record_ok svc_size svc_records
proof unfold_locales
  show "unat (ucast SVC_SERVICE_HEADER_SIZE :: u64) < 2 ^ 32" by (simp add: svc_consts)
  show "unat (svc_size m p) < 2 ^ 32" for m p
    using u32_lt [of "svc_record_size (svc_service_at m p)"] by (simp add: svc_size_def)
  show "svc_records m lim 0 i p ss = (p = lim, ss)" for m lim i p ss by simp
  show "svc_records m lim (Suc k) i p ss =
      (if p + ucast SVC_SERVICE_HEADER_SIZE > lim \<or> \<not> svc_record_ok m p \<or> p + svc_size m p > lim
       then (False, ss) else svc_records m lim k (Suc i) (p + svc_size m p) (ss[i := p]))"
    for m lim k i p ss
    unfolding svc_record_ok_def svc_size_def svc_service_at_def
    by (auto simp only: svc_records.simps Let_def svc_reads svc_service.simps svc_consts
        split: if_splits)
qed

text \<open>
  A database as the parser accepts it. The record sizes agree with the counts modulo \<open>2 ^ 32\<close> only.
\<close>

definition svc_image :: "mem \<Rightarrow> u64 \<Rightarrow> u64 list \<Rightarrow> bool" where
  "svc_image m base qs \<longleftrightarrow>
     mem_holds m base svc_magic \<and> read_u16 m (base + 8) = 1
     \<and> length qs = unat (read_u32 m (base + 12)) \<and> length qs \<le> 64
     \<and> 20 \<le> unat (read_u32 m (base + 16))
     \<and> laid_out (svc_record_ok m) (svc_size m) 22 (base + ucast (read_u32 m (base + 16)))
         (base + 20) qs"

lemma svc_parse_accepts:
  assumes "unat base + 2 ^ 33 \<le> 2 ^ 64" and "length (services s) = 64"
  shows "svc_parse m base s = (True, s') \<longleftrightarrow>
    (\<exists>qs. svc_image m base qs
       \<and> s' = \<lparr>svc_version = 1, service_count = read_u32 m (base + 12),
                svc_total_size = read_u32 m (base + 16),
                services = qs @ drop (length qs) (services s)\<rparr>)"
proof -
  let ?v = "read_u16 m (base + 8)" and ?n = "read_u32 m (base + 12)" and ?t = "read_u32 m (base + 16)"
  have n64: "?n > SVC_MAX_SERVICES \<longleftrightarrow> \<not> unat ?n \<le> 64"
    by (simp add: svc_consts word_less_nat_alt not_le)
  have t20: "?t < 20 \<longleftrightarrow> \<not> 20 \<le> unat ?t"
    by (simp add: word_less_nat_alt not_le)
  have hdr: "ucast SVC_SERVICE_HEADER_SIZE = (22 :: u64)" "SVC_HEADER_SIZE = 20" "SVC_VERSION = 1"
    by (simp_all add: svc_consts)
  show ?thesis
  proof (cases "mem_holds m base svc_magic \<and> ?v = 1 \<and> unat ?n \<le> 64 \<and> 20 \<le> unat ?t")
    case True
    then have le: "base + 20 \<le> base + ucast ?t"
      by (intro header_le_limit [OF assms(1)]) simp
    have walk: "svc_records m (base + ucast ?t) (unat ?n) 0 (base + 20) (services s) = (True, ss)
      \<longleftrightarrow> (\<exists>qs. length qs = unat ?n
         \<and> laid_out (svc_record_ok m) (svc_size m) 22 (base + ucast ?t) (base + 20) qs
         \<and> ss = qs @ drop (unat ?n) (services s))" for ss
      using svc_walk.walk_iff [OF limit_below(2) [OF assms(1)] le, where i = 0 and k = "unat ?n"
          and ds = "services s" and m = m and ds' = ss] True assms(2)
      by (simp add: hdr)
    have "svc_parse m base s = (True, s') \<longleftrightarrow>
      (\<exists>ss. svc_records m (base + ucast ?t) (unat ?n) 0 (base + 20) (services s) = (True, ss)
        \<and> s' = \<lparr>svc_version = 1, service_count = ?n, svc_total_size = ?t, services = ss\<rparr>)"
      using True
      by (auto simp: svc_parse_def Let_def n64 t20 hdr split: prod.splits)
    with True show ?thesis by (auto simp: walk svc_image_def)
  next
    case False
    then show ?thesis
      by (auto simp: svc_parse_def Let_def n64 t20 hdr svc_image_def split: if_splits)
  qed
qed

lemma svc_image_result:
  assumes "unat base + 2 ^ 33 \<le> 2 ^ 64" and "length (services s) = 64"
    and "svc_parse m base s = (True, s')"
  obtains qs where "svc_image m base qs"
    and "take (unat (service_count s')) (services s') = qs"
    and "unat (service_count s') = length qs" and "length (services s') = 64"
    and "svc_total_size s' = read_u32 m (base + 16)"
proof -
  obtain qs where qs: "svc_image m base qs"
    and s': "s' = \<lparr>svc_version = 1, service_count = read_u32 m (base + 12),
                svc_total_size = read_u32 m (base + 16),
                services = qs @ drop (length qs) (services s)\<rparr>"
    using assms svc_parse_accepts by blast
  then have "unat (service_count s') = length qs" "length qs \<le> 64"
    by (simp_all add: svc_image_def)
  with qs s' assms(2) show thesis by (intro that) simp_all
qed

text \<open>The counts of a record do not overflow its 32-bit size.\<close>

definition svc_counts_fit :: "mem \<Rightarrow> u64 \<Rightarrow> bool" where
  "svc_counts_fit m p \<longleftrightarrow> (let s = svc_service_at m p in
     22 + unat (svc_resource_count s) * 9 + unat (path_len s) < 2 ^ 32)"

lemma svc_size_exact:
  assumes "svc_record_ok m p" and "svc_counts_fit m p"
  shows "unat (svc_size m p) = 22 + unat (svc_resource_count (svc_service_at m p)) * 9
    + unat (path_len (svc_service_at m p))"
  using assms by (simp add: svc_record_ok_def svc_counts_fit_def svc_size_def Let_def unat_word_ariths)

lemma svc_offset_exact:
  fixes lim :: u64 and c :: u32
  assumes "svc_record_ok m p" and "svc_counts_fit m p"
    and "unat p + unat (svc_size m p) \<le> unat lim"
    and "unat c \<le> unat (svc_resource_count (svc_service_at m p))"
  shows "unat (p + ucast SVC_SERVICE_HEADER_SIZE + ucast (c * SVC_RESOURCE_SIZE))
    = unat p + 22 + unat c * 9"
proof -
  have "unat c * 9 < 2 ^ 32"
    using assms(2,4) by (simp add: svc_counts_fit_def Let_def)
  have "unat p + 22 + unat c * 9 < 2 ^ LENGTH(64)"
    using assms(3,4) svc_size_exact [OF assms(1,2)] u64_lt [of lim] by simp
  moreover have "(unat c * 9) mod 4294967296 = unat c * 9"
    using \<open>unat c * 9 < 2 ^ 32\<close> by simp
  ultimately show ?thesis by (simp add: svc_consts unat_word_ariths)
qed

section \<open>Properties\<close>

text \<open>An accepted database with one service: one notification channel and the path "a".\<close>

definition svc_example :: "u8 list" where
  "svc_example = svc_magic @ le_bytes 2 (1 :: u16) @ [0, 0] @ le_bytes 4 (1 :: u32)
     @ le_bytes 4 (52 :: u32)
     @ le_bytes 4 (32 :: u32) @ le_bytes 8 (0 :: u64) @ [3, 0] @ le_bytes 4 (1 :: u32)
     @ le_bytes 4 (1 :: u32) @ [1] @ le_bytes 8 (40 :: u64) @ [0x61]"

definition svc_example_mem :: mem where
  "svc_example_mem = mem_write (\<lambda>_. 0) 0xAAAAA00000 svc_example"

definition svc_example_table :: svc_table where
  "svc_example_table = \<lparr>svc_version = 1, service_count = 1, svc_total_size = 52,
     services = 0xAAAAA00014 # replicate 63 0\<rparr>"

lemma svc_example_parses:
  "svc_parse svc_example_mem 0xAAAAA00000 svc_table_zero = (True, svc_example_table)"
  by code_simp

lemma svc_example_premises:
  "unat (0xAAAAA00000 :: u64) + 2 ^ 33 \<le> 2 ^ 64" "length (services svc_table_zero) = 64"
  by (simp_all add: svc_table_zero_def)

text \<open>C8: the service parser accepts exactly the databases whose records follow each other from the
  header to the end, and stores their addresses in order.\<close>

theorem svc_parse_iff:
  assumes "unat base + 2 ^ 33 \<le> 2 ^ 64" and "length (services s) = 64"
  shows "svc_parse m base s = (True, s') \<longleftrightarrow>
    (\<exists>qs. svc_image m base qs
       \<and> s' = \<lparr>svc_version = 1, service_count = read_u32 m (base + 12),
                svc_total_size = read_u32 m (base + 16),
                services = qs @ drop (length qs) (services s)\<rparr>)"
  using assms by (rule svc_parse_accepts)

theorem svc_parse_iff_witness:
  "\<exists>qs. svc_image svc_example_mem 0xAAAAA00000 qs
     \<and> services svc_example_table = qs @ drop (length qs) (services svc_table_zero)"
  using svc_parse_iff [OF svc_example_premises] svc_example_parses by (metis svc_table.select_convs(4))

text \<open>in an accepted service database every record lies inside the file, and where the counts
  of a record do not overflow 32 bits, its resources and its path lie inside the record.\<close>

theorem svc_services_in_bounds:
  assumes "unat base + 2 ^ 33 \<le> 2 ^ 64" and "length (services s) = 64"
    and "svc_parse m base s = (True, s')"
    and "i < unat (service_count s')" and "p = services s' ! i"
  shows "unat base + 20 \<le> unat p
    \<and> unat p + unat (svc_size m p) \<le> unat base + unat (svc_total_size s')
    \<and> (svc_counts_fit m p \<longrightarrow>
        (\<forall>j. j < svc_resource_count (svc_service_at m p) \<longrightarrow>
          (\<exists>r. svc_service_resource m p j = Some r \<and> unat p + 22 \<le> unat r
             \<and> unat r + 9 \<le> unat (svc_service_path m p)))
        \<and> unat (svc_service_path m p) + unat (path_len (svc_service_at m p))
            = unat p + unat (svc_size m p))"
proof -
  obtain qs where qs: "svc_image m base qs" "unat (service_count s') = length qs"
      "svc_total_size s' = read_u32 m (base + 16)"
    and nth: "\<And>j. j < length qs \<Longrightarrow> services s' ! j = qs ! j"
    using svc_image_result [OF assms(1-3)] by (metis nth_take)
  let ?lim = "base + ucast (svc_total_size s')"
  have lay: "laid_out (svc_record_ok m) (svc_size m) 22 ?lim (base + 20) qs"
    using qs by (simp add: svc_image_def)
  have "p \<in> set qs" using assms(4,5) qs(2) nth by simp
  note b = laid_out_bounds [OF lay this]
  have "unat base + unat (20 :: u64) < 2 ^ LENGTH(64)" using assms(1) by simp
  then have b20: "unat (base + 20) = unat base + 20" by (simp add: unat_word_ariths)
  let ?rc = "svc_resource_count (svc_service_at m p)"
  have path: "unat (svc_service_path m p) = unat p + 22 + unat ?rc * 9" if "svc_counts_fit m p"
    unfolding svc_service_path_def by (rule svc_offset_exact [OF b(3) that b(4)]) simp
  have res: "\<exists>r. svc_service_resource m p j = Some r \<and> unat p + 22 \<le> unat r
      \<and> unat r + 9 \<le> unat (svc_service_path m p)"
    if "svc_counts_fit m p" "j < ?rc" for j
  proof -
    have j: "unat j < unat ?rc" using that(2) by (simp add: word_less_nat_alt)
    then have "unat (p + ucast SVC_SERVICE_HEADER_SIZE + ucast (j * SVC_RESOURCE_SIZE))
        = unat p + 22 + unat j * 9"
      by (intro svc_offset_exact [OF b(3) that(1) b(4)]) simp
    with j that path show ?thesis by (simp add: svc_service_resource_def not_le [symmetric])
  qed
  show ?thesis
    using b(1,4) b20 path res svc_size_exact [OF b(3)] limit_below(1) [OF assms(1)]
    by simp
qed

theorem svc_services_in_bounds_witness:
  "svc_counts_fit svc_example_mem 0xAAAAA00014
   \<and> unat (svc_service_path svc_example_mem 0xAAAAA00014)
        + unat (path_len (svc_service_at svc_example_mem 0xAAAAA00014))
      = unat (0xAAAAA00014 :: u64) + unat (svc_size svc_example_mem 0xAAAAA00014)"
proof -
  have "svc_resource_count (svc_service_at svc_example_mem 0xAAAAA00014) = 1"
    and "path_len (svc_service_at svc_example_mem 0xAAAAA00014) = 1" by code_simp+
  then have fit: "svc_counts_fit svc_example_mem 0xAAAAA00014"
    by (simp add: svc_counts_fit_def Let_def)
  have h: "0 < unat (service_count svc_example_table)"
    "0xAAAAA00014 = services svc_example_table ! 0"
    by (simp_all add: svc_example_table_def)
  from svc_services_in_bounds [OF svc_example_premises svc_example_parses h] fit
  show ?thesis by blast
qed

text \<open>
  A database of 43 bytes whose only service claims 954437177 resources: nine times that count is 1
  modulo \<open>2 ^ 32\<close>, so the 32-bit size check of the parser passes with a record of 23 bytes.
\<close>

definition svc_overflow_example :: "u8 list" where
  "svc_overflow_example = svc_magic @ le_bytes 2 (1 :: u16) @ [0, 0] @ le_bytes 4 (1 :: u32)
     @ le_bytes 4 (43 :: u32)
     @ le_bytes 4 (23 :: u32) @ le_bytes 8 (0 :: u64) @ [3, 0] @ le_bytes 4 (954437177 :: u32)
     @ le_bytes 4 (0 :: u32) @ [1]"

definition svc_overflow_mem :: mem where
  "svc_overflow_mem = mem_write (\<lambda>_. 0) 0xAAAAA00000 svc_overflow_example"

text \<open>the parser accepts a database in which a resource handed out by the accessor lies beyond
  the end of the whole file, because the record size check is computed modulo \<open>2 ^ 32\<close>.\<close>

theorem svc_parse_size_overflow:
  "\<exists>s'. svc_parse svc_overflow_mem 0xAAAAA00000 svc_table_zero = (True, s')
     \<and> svc_total_size s' = 43 \<and> services s' ! 0 = 0xAAAAA00014
     \<and> svc_service_resource svc_overflow_mem 0xAAAAA00014 2 = Some (0xAAAAA00000 + 60)"
proof -
  have "svc_parse svc_overflow_mem 0xAAAAA00000 svc_table_zero
      = (True, svc_example_table\<lparr>svc_total_size := 43\<rparr>)"
    by code_simp
  moreover have "svc_service_resource svc_overflow_mem 0xAAAAA00014 2 = Some (0xAAAAA00000 + 60)"
    by code_simp
  ultimately show ?thesis by (simp add: svc_example_table_def)
qed

end
