(* ===== verification/Elf_Image.thy ===== *)
theory Elf_Image
  imports Carrels_Memory
begin

text \<open>
  The ELF64 structures the monitor reads from a client's image. The structs come from the system
  header \<open>elf.h\<close>; the offsets are those of the System V ABI for little-endian ELF64.
\<close>

definition SHN_UNDEF :: u16 where "SHN_UNDEF = 0"
definition SHT_NOBITS :: u32 where "SHT_NOBITS = 8"
definition SIZEOF_ELF64_SHDR :: u16 where "SIZEOF_ELF64_SHDR = 64"

definition e_entry :: "mem \<Rightarrow> u64 \<Rightarrow> u64" where "e_entry m eh = read_u64 m (eh + 24)"
definition e_shoff :: "mem \<Rightarrow> u64 \<Rightarrow> u64" where "e_shoff m eh = read_u64 m (eh + 40)"
definition e_shentsize :: "mem \<Rightarrow> u64 \<Rightarrow> u16" where "e_shentsize m eh = read_u16 m (eh + 58)"
definition e_shnum :: "mem \<Rightarrow> u64 \<Rightarrow> u16" where "e_shnum m eh = read_u16 m (eh + 60)"
definition e_shstrndx :: "mem \<Rightarrow> u64 \<Rightarrow> u16" where "e_shstrndx m eh = read_u16 m (eh + 62)"

definition sh_type :: "mem \<Rightarrow> u64 \<Rightarrow> u32" where "sh_type m sh = read_u32 m (sh + 4)"
definition sh_addr :: "mem \<Rightarrow> u64 \<Rightarrow> u64" where "sh_addr m sh = read_u64 m (sh + 16)"
definition sh_offset :: "mem \<Rightarrow> u64 \<Rightarrow> u64" where "sh_offset m sh = read_u64 m (sh + 24)"
definition sh_size :: "mem \<Rightarrow> u64 \<Rightarrow> u64" where "sh_size m sh = read_u64 m (sh + 32)"

text \<open>The address of section header \<open>i\<close>: \<open>&sh[i]\<close> with \<open>sh = base + eh->e_shoff\<close>.\<close>

definition section_header :: "mem \<Rightarrow> u64 \<Rightarrow> nat \<Rightarrow> u64" where
  "section_header m eh i = eh + e_shoff m eh + 64 * word_of_nat i"

lemmas elf_defs = SHN_UNDEF_def SHT_NOBITS_def SIZEOF_ELF64_SHDR_def e_entry_def e_shoff_def
  e_shentsize_def e_shnum_def e_shstrndx_def sh_type_def sh_addr_def sh_offset_def sh_size_def

end
