(* ===== verification/Service_Manifest.thy ===== *)
theory Service_Manifest
  imports Elf_Image
begin

text \<open>
  The manifest in front of a client image (\<open>src/monitor/service/service_manifest.c\<close>, structs in
  \<open>include/service/manifest.h\<close>), and the host tool that writes it (\<open>tools/service-helper.py\<close>).
  \<open>service_manifest_header_parse\<close> checks the header in the payload region and locates the entries
  and the ELF; \<open>service_manifest_parse\<close> collects the supported entries into a request.
\<close>

section \<open>Data\<close>

definition SERVICE_DUMMY :: int where "SERVICE_DUMMY = -1"
definition SERVICE_RESERVED :: int where "SERVICE_RESERVED = 5"

definition MANIFEST_MAGIC :: u64 where "MANIFEST_MAGIC = 0x504353564D414E31"

record service_manifest_header =
  mf_magic :: u64
  mf_service_count :: u32
  mf_manifest_size :: u32
  mf_elf_size :: u64

definition manifest_header_at :: "mem \<Rightarrow> u64 \<Rightarrow> service_manifest_header" where
  "manifest_header_at m p = \<lparr>mf_magic = read_u64 m p, mf_service_count = read_u32 m (p + 8),
     mf_manifest_size = read_u32 m (p + 12), mf_elf_size = read_u64 m (p + 16)\<rparr>"

record service_manifest_entry =
  ent_type :: int
  ent_offset :: u64
  ent_size :: u64

definition manifest_entry_at :: "mem \<Rightarrow> u64 \<Rightarrow> service_manifest_entry" where
  "manifest_entry_at m p = \<lparr>ent_type = sint (read_u32 m p), ent_offset = read_u64 m (p + 4),
     ent_size = read_u64 m (p + 12)\<rparr>"

text \<open>\<open>payload_info_t\<close>: two pointers into the payload, the ELF size and the entry count.\<close>

record payload_info =
  header_payload :: u64
  elf_payload_size :: u64
  info_service_count :: u32
  info_service_entries :: u64

definition payload_info_zero :: payload_info where
  "payload_info_zero = \<lparr>header_payload = 0, elf_payload_size = 0, info_service_count = 0,
     info_service_entries = 0\<rparr>"

text \<open>\<open>protocon_svc_req_t\<close>: the entries are pointers into the payload; 8 types, 16 entries.\<close>

record protocon_svc_req =
  req_service_count :: u32
  service_count_per_type :: "u32 list"
  service_entries :: "u64 list"
  payload_e_entry :: u64

definition svc_req_zero :: protocon_svc_req where
  "svc_req_zero = \<lparr>req_service_count = 0, service_count_per_type = replicate 8 0,
     service_entries = replicate 16 0, payload_e_entry = 0\<rparr>"

section \<open>Operations\<close>

definition service_manifest_check_type :: "int \<Rightarrow> bool" where
  "service_manifest_check_type t \<longleftrightarrow> t < SERVICE_RESERVED \<and> t > SERVICE_DUMMY"

text \<open>\<open>seL4_Error\<close> values: 0 is \<open>seL4_NoError\<close>.\<close>

definition service_manifest_check :: "mem \<Rightarrow> u64 \<Rightarrow> int" where
  "service_manifest_check m header =
     (let h = manifest_header_at m header;
          expected_size = (24 :: u64) + ucast (mf_service_count h) * 20
      in if mf_magic h \<noteq> MANIFEST_MAGIC \<or> ucast (mf_manifest_size h) \<noteq> expected_size
         then -1 else 0)"

definition service_manifest_retrieve_elf :: "mem \<Rightarrow> u64 \<Rightarrow> u64 \<Rightarrow> u64" where
  "service_manifest_retrieve_elf m header base =
     base + ucast (mf_manifest_size (manifest_header_at m header))"

definition service_manifest_header_parse :: "mem \<Rightarrow> payload_info \<Rightarrow> u64 \<Rightarrow> int \<times> payload_info" where
  "service_manifest_header_parse m info base =
     (if service_manifest_check m base \<noteq> 0 then (-1, info)
      else
        let entries_num = mf_service_count (manifest_header_at m base);
            entries_start = base + 24;
            eh = service_manifest_retrieve_elf m base base
        in if e_shoff m eh = 0 \<or> e_shnum m eh = 0 \<or> e_shentsize m eh \<noteq> SIZEOF_ELF64_SHDR
              \<or> e_shstrndx m eh = SHN_UNDEF \<or> e_shstrndx m eh \<ge> e_shnum m eh
           then (-1, info)
           else
             let elf_size = mf_elf_size (manifest_header_at m base)
             in if elf_size = 0 then (-1, info)
                else (0, info\<lparr>header_payload := eh, elf_payload_size := elf_size,
                              info_service_count := entries_num,
                              info_service_entries := entries_start\<rparr>))"

text \<open>
  One iteration of the loop of \<open>service_manifest_parse\<close> for the entry at \<open>p\<close>. The request holds 16
  entries; storing a further one is a write past the array.
\<close>

definition manifest_add_entry :: "mem \<Rightarrow> protocon_svc_req \<Rightarrow> u64 \<Rightarrow> protocon_svc_req res" where
  "manifest_add_entry m req p =
     (let t = ent_type (manifest_entry_at m p)
      in if \<not> service_manifest_check_type t then Inr req
         else if unat (req_service_count req) \<ge> length (service_entries req) then Inl UB
         else Inr (req\<lparr>service_count_per_type :=
                         (service_count_per_type req)[nat t := service_count_per_type req ! nat t + 1],
                       service_entries :=
                         (service_entries req)[unat (req_service_count req) := p],
                       req_service_count := req_service_count req + 1\<rparr>))"

fun manifest_entries :: "mem \<Rightarrow> u64 \<Rightarrow> nat \<Rightarrow> nat \<Rightarrow> protocon_svc_req \<Rightarrow> protocon_svc_req res" where
  "manifest_entries m entries 0 i req = Inr req"
| "manifest_entries m entries (Suc k) i req =
     bindR (manifest_add_entry m req (entries + 20 * word_of_nat i))
       (\<lambda>req. manifest_entries m entries k (Suc i) req)"

definition service_manifest_parse :: "mem \<Rightarrow> payload_info \<Rightarrow> protocon_svc_req \<Rightarrow> protocon_svc_req res" where
  "service_manifest_parse m info req =
     bindR (manifest_entries m (info_service_entries info) (unat (info_service_count info)) 0 req)
       (\<lambda>req. Inr (req\<lparr>payload_e_entry := e_entry m (header_payload info)\<rparr>))"

section \<open>The host tool\<close>

text \<open>
  \<open>struct.pack\<close> with the formats \<open><QIIQ\<close> and \<open><iQQ\<close> raises \<open>struct.error\<close> (here None) for a value
  out of the range of its field.
\<close>

definition pack_unsigned :: "nat \<Rightarrow> int \<Rightarrow> u8 list option" where
  "pack_unsigned n v =
     (if 0 \<le> v \<and> v < 2 ^ (8 * n) then Some (le_bytes n (word_of_int v :: u64)) else None)"

definition pack_i32 :: "int \<Rightarrow> u8 list option" where
  "pack_i32 v = (if - (2 ^ 31) \<le> v \<and> v < 2 ^ 31 then Some (le_bytes 4 (word_of_int v :: u32)) else None)"

record tool_service =
  ts_type :: int
  ts_offset :: int
  ts_size :: int

fun serialize_services :: "tool_service list \<Rightarrow> u8 list option" where
  "serialize_services [] = Some []"
| "serialize_services (s # ss) =
     Option.bind (pack_i32 (ts_type s)) (\<lambda>a.
     Option.bind (pack_unsigned 8 (ts_offset s)) (\<lambda>b.
     Option.bind (pack_unsigned 8 (ts_size s)) (\<lambda>c.
     Option.bind (serialize_services ss) (\<lambda>rest. Some (a @ b @ c @ rest)))))"

definition serialize_manifest :: "tool_service list \<Rightarrow> int \<Rightarrow> u8 list option" where
  "serialize_manifest ss elf_size =
     Option.bind (serialize_services ss) (\<lambda>data.
     let total_size = 24 + int (length data) in
     Option.bind (pack_unsigned 8 0x504353564D414E31) (\<lambda>a.
     Option.bind (pack_unsigned 4 (int (length ss))) (\<lambda>b.
     Option.bind (pack_unsigned 4 total_size) (\<lambda>c.
     Option.bind (pack_unsigned 8 elf_size) (\<lambda>d. Some (a @ b @ c @ d @ data))))))"

section \<open>What the parsers compute\<close>

lemma manifest_supported_type:
  "service_manifest_check_type t \<longleftrightarrow> 0 \<le> t \<and> t < 5"
  by (auto simp: service_manifest_check_type_def SERVICE_DUMMY_def SERVICE_RESERVED_def)

definition supported_entry :: "mem \<Rightarrow> u64 \<Rightarrow> bool" where
  "supported_entry m p \<longleftrightarrow> service_manifest_check_type (ent_type (manifest_entry_at m p))"

definition entry_addresses :: "u64 \<Rightarrow> nat \<Rightarrow> u64 list" where
  "entry_addresses e n = map (\<lambda>i. e + 20 * word_of_nat i) [0..<n]"

text \<open>The request that collects the entries \<open>xs\<close>: the abstract value of the parser's state.\<close>

definition entries_of_type :: "mem \<Rightarrow> u64 list \<Rightarrow> nat \<Rightarrow> nat" where
  "entries_of_type m xs t = length (filter (\<lambda>p. ent_type (manifest_entry_at m p) = int t) xs)"

definition request_of :: "mem \<Rightarrow> u64 \<Rightarrow> u64 list \<Rightarrow> protocon_svc_req" where
  "request_of m entry xs = \<lparr>req_service_count = word_of_nat (length xs),
     service_count_per_type = map (\<lambda>t. word_of_nat (entries_of_type m xs t)) [0..<8],
     service_entries = xs @ replicate (16 - length xs) 0, payload_e_entry = entry\<rparr>"

lemma request_of_Nil: "request_of m 0 [] = svc_req_zero"
  by (simp add: request_of_def svc_req_zero_def entries_of_type_def list_eq_iff_nth_eq)

lemma length_request_of [simp]:
  "length xs \<le> 16 \<Longrightarrow> length (service_entries (request_of m e xs)) = 16"
  by (simp add: request_of_def)

lemma count_request_of [simp]:
  "length xs \<le> 16 \<Longrightarrow> unat (req_service_count (request_of m e xs)) = length xs"
  by (simp add: request_of_def unat_word_of_nat_lt)

lemma replicate_update_first: "n \<le> 15 \<Longrightarrow> (replicate (16 - n) x)[0 := p] = p # replicate (15 - n) x"
  by (cases "16 - n") (auto dest: arg_cong [where f = "\<lambda>k. k - 1"])

lemma manifest_add_entry_request:
  assumes "length xs \<le> 16"
  shows "manifest_add_entry m (request_of m e xs) p =
    (if \<not> supported_entry m p then Inr (request_of m e xs)
     else if length xs = 16 then Inl UB else Inr (request_of m e (xs @ [p])))"
proof -
  let ?t = "ent_type (manifest_entry_at m p)"
  have counts: "(map (\<lambda>t. word_of_nat (entries_of_type m xs t)) [0..<8])
      [nat ?t := map (\<lambda>t. word_of_nat (entries_of_type m xs t)) [0..<8] ! nat ?t + 1]
      = map (\<lambda>t. word_of_nat (entries_of_type m (xs @ [p]) t) :: u32) [0..<8]"
    if "0 \<le> ?t" "?t < 5"
    using that by (intro nth_equalityI) (auto simp: nth_list_update entries_of_type_def)
  show ?thesis
    using assms counts
    by (auto simp: manifest_add_entry_def supported_entry_def Let_def manifest_supported_type
        request_of_def list_update_append replicate_update_first unat_word_of_nat_lt)
qed

fun manifest_fold :: "mem \<Rightarrow> u64 list \<Rightarrow> protocon_svc_req \<Rightarrow> protocon_svc_req res" where
  "manifest_fold m [] req = Inr req"
| "manifest_fold m (p # ps) req = bindR (manifest_add_entry m req p) (manifest_fold m ps)"

lemma manifest_entries_fold:
  "manifest_entries m e k i req = manifest_fold m (map (\<lambda>i. e + 20 * word_of_nat i) [i..<i + k]) req"
proof (induction k arbitrary: i req)
  case (Suc k)
  have "[i..<i + Suc k] = i # [Suc i..<Suc i + k]"
    by (simp add: upt_conv_Cons del: upt_Suc)
  moreover have "manifest_entries m e k (Suc i)
      = manifest_fold m (map (\<lambda>i. e + 20 * word_of_nat i) [Suc i..<Suc i + k])"
    by (rule ext) (rule Suc)
  ultimately show ?case by (simp del: upt_Suc add_Suc add_Suc_right)
qed simp

lemma manifest_fold_request:
  "length xs \<le> 16 \<Longrightarrow> manifest_fold m ps (request_of m e xs) =
    (let ys = xs @ filter (supported_entry m) ps
     in if length ys \<le> 16 then Inr (request_of m e ys) else Inl UB)"
proof (induction ps arbitrary: xs)
  case (Cons p ps)
  then show ?case
    by (auto simp: manifest_add_entry_request Let_def)
qed simp

lemma manifest_parse_request:
  "service_manifest_parse m info svc_req_zero =
    (let xs = filter (supported_entry m)
          (entry_addresses (info_service_entries info) (unat (info_service_count info)))
     in if length xs \<le> 16 then Inr (request_of m (e_entry m (header_payload info)) xs) else Inl UB)"
proof -
  have "manifest_entries m (info_service_entries info) (unat (info_service_count info)) 0 svc_req_zero
    = manifest_fold m (entry_addresses (info_service_entries info) (unat (info_service_count info)))
        (request_of m 0 [])"
    by (simp add: manifest_entries_fold entry_addresses_def request_of_Nil)
  then show ?thesis
    by (simp add: service_manifest_parse_def manifest_fold_request Let_def) (simp add: request_of_def)
qed

section \<open>The host tool and the monitor agree\<close>

lemma pack_unsigned_Some:
  "pack_unsigned n v = Some bs \<longleftrightarrow> 0 \<le> v \<and> v < 2 ^ (8 * n) \<and> bs = le_bytes n (word_of_int v :: u64)"
  by (auto simp: pack_unsigned_def)

lemma le_bytes_4_u64: "le_bytes 4 (w :: u64) = le_bytes 4 (ucast w :: u32)"
  by (auto simp: le_bytes_unfold bit_simps intro!: bit_word_eqI)

lemma ucast_word_of_nat_32: "ucast (word_of_nat n :: u64) = (word_of_nat n :: u32)"
  by (simp add: word_unat_eq_iff unsigned_ucast_eq unsigned_of_nat)

lemma sint_word_of_int_i32:
  "- (2 ^ 31) \<le> v \<Longrightarrow> v < 2 ^ 31 \<Longrightarrow> sint (word_of_int v :: u32) = v"
  by (simp add: signed_of_int signed_take_bit_int_eq_self)

lemma serialize_services_entries:
  "serialize_services ss = Some data \<Longrightarrow> length data = 20 * length ss
     \<and> (\<forall>m p. mem_holds m p data \<longrightarrow> (\<forall>i < length ss.
          manifest_entry_at m (p + 20 * word_of_nat i) =
            \<lparr>ent_type = ts_type (ss ! i), ent_offset = word_of_int (ts_offset (ss ! i)),
             ent_size = word_of_int (ts_size (ss ! i))\<rparr>))"
proof (induction ss arbitrary: data)
  case (Cons s ss)
  then obtain a b c rest where parts: "pack_i32 (ts_type s) = Some a"
      "pack_unsigned 8 (ts_offset s) = Some b" "pack_unsigned 8 (ts_size s) = Some c"
      "serialize_services ss = Some rest" "data = a @ b @ c @ rest"
    by (auto split: Option.bind_splits)
  from parts(1) have a: "a = le_bytes 4 (word_of_int (ts_type s) :: u32)"
    and range: "- (2 ^ 31) \<le> ts_type s" "ts_type s < 2 ^ 31"
    by (auto simp: pack_i32_def split: if_splits)
  note bc = parts(2,3) [unfolded pack_unsigned_Some]
  note IH = Cons.IH [OF parts(4)]
  have "manifest_entry_at m (p + 20 * word_of_nat i) =
      \<lparr>ent_type = ts_type ((s # ss) ! i), ent_offset = word_of_int (ts_offset ((s # ss) ! i)),
       ent_size = word_of_int (ts_size ((s # ss) ! i))\<rparr>"
    if holds: "mem_holds m p data" and i: "i < Suc (length ss)" for m p i
  proof (cases i)
    case 0
    have "read_u32 m p = word_of_int (ts_type s)" "read_u64 m (p + 4) = word_of_int (ts_offset s)"
      "read_u64 m (p + 12) = word_of_int (ts_size s)"
      using holds parts(5) a bc
      by (auto intro!: read_u32_le_bytes read_u64_le_bytes simp: add.assoc)
    with 0 range show ?thesis by (simp add: manifest_entry_at_def sint_word_of_int_i32)
  next
    case (Suc j)
    have "mem_holds m (p + 20) rest" using holds parts(5) a bc by (simp add: add.assoc)
    with IH Suc i have "manifest_entry_at m (p + 20 + 20 * word_of_nat j) =
      \<lparr>ent_type = ts_type (ss ! j), ent_offset = word_of_int (ts_offset (ss ! j)),
       ent_size = word_of_int (ts_size (ss ! j))\<rparr>" by auto
    with Suc show ?thesis by (simp add: algebra_simps)
  qed
  with IH parts(5) a bc show ?case by simp
qed simp


definition elf_header_ok :: "mem \<Rightarrow> u64 \<Rightarrow> bool" where
  "elf_header_ok m eh \<longleftrightarrow> e_shoff m eh \<noteq> 0 \<and> e_shnum m eh \<noteq> 0 \<and> e_shentsize m eh = 64
     \<and> e_shstrndx m eh \<noteq> 0 \<and> e_shstrndx m eh < e_shnum m eh"

lemma header_parse_cases:
  "service_manifest_header_parse m info base =
    (let h = manifest_header_at m base; eh = base + ucast (mf_manifest_size h)
     in if mf_magic h = MANIFEST_MAGIC
           \<and> unat (mf_manifest_size h) = 24 + 20 * unat (mf_service_count h)
           \<and> elf_header_ok m eh \<and> mf_elf_size h \<noteq> 0
        then (0, \<lparr>header_payload = eh, elf_payload_size = mf_elf_size h,
                  info_service_count = mf_service_count h, info_service_entries = base + 24\<rparr>)
        else (-1, info))"
proof -
  let ?h = "manifest_header_at m base"
  have "ucast (mf_manifest_size ?h) = (24 :: u64) + ucast (mf_service_count ?h) * 20
      \<longleftrightarrow> unat (mf_manifest_size ?h) = 24 + 20 * unat (mf_service_count ?h)"
    using u32_lt [of "mf_service_count ?h"]
    by (simp add: word_unat_eq_iff unat_word_ariths mult.commute)
  then show ?thesis
    by (auto simp: service_manifest_header_parse_def service_manifest_check_def Let_def
        service_manifest_retrieve_elf_def elf_header_ok_def SHN_UNDEF_def SIZEOF_ELF64_SHDR_def)
qed

text \<open>The request of one service of type 3, as the host tool packs it, in front of an ELF header.\<close>

definition mf_example_services :: "tool_service list" where
  "mf_example_services = [\<lparr>ts_type = 3, ts_offset = 64, ts_size = 16\<rparr>]"

definition mf_example_mem :: mem where
  "mf_example_mem = mem_write (\<lambda>_. 0) 0x7000000
     (le_bytes 8 MANIFEST_MAGIC @ le_bytes 4 (1 :: u32) @ le_bytes 4 (44 :: u32) @ le_bytes 8 (512 :: u64)
      @ le_bytes 4 (3 :: u32) @ le_bytes 8 (64 :: u64) @ le_bytes 8 (16 :: u64)
      @ replicate 24 0 @ le_bytes 8 (0x1000 :: u64) @ replicate 8 0 @ le_bytes 8 (64 :: u64)
      @ replicate 10 0 @ le_bytes 2 (64 :: u16) @ le_bytes 2 (2 :: u16) @ le_bytes 2 (1 :: u16))"

section \<open>Properties\<close>

text \<open>C32: an image written by the host tool is accepted by the monitor, which finds the ELF right
  after the manifest, the tool's ELF size and every service entry with the type, offset and size
  the tool wrote.\<close>

theorem manifest_roundtrip:
  assumes "serialize_manifest ss elf_size = Some bs" and "mem_holds m base bs"
    and "elf_header_ok m (base + word_of_nat (length bs))" and "elf_size \<noteq> 0"
  shows "\<exists>info. service_manifest_header_parse m old base = (0, info)
    \<and> header_payload info = base + word_of_nat (length bs)
    \<and> elf_payload_size info = word_of_int elf_size
    \<and> unat (info_service_count info) = length ss
    \<and> (\<forall>i < length ss. manifest_entry_at m (info_service_entries info + 20 * word_of_nat i) =
         \<lparr>ent_type = ts_type (ss ! i), ent_offset = word_of_int (ts_offset (ss ! i)),
          ent_size = word_of_int (ts_size (ss ! i))\<rparr>)"
proof -
  obtain data a b c d where data: "serialize_services ss = Some data"
    and parts: "pack_unsigned 8 0x504353564D414E31 = Some a"
      "pack_unsigned 4 (int (length ss)) = Some b"
      "pack_unsigned 4 (24 + int (length data)) = Some c"
      "pack_unsigned 8 elf_size = Some d" "bs = a @ b @ c @ d @ data"
    using assms(1) by (auto simp: serialize_manifest_def Let_def split: Option.bind_splits)
  note p = parts(1-4) [unfolded pack_unsigned_Some]
  note ent = serialize_services_entries [OF data]
  have len: "length bs = 24 + 20 * length ss" using p parts(5) ent by simp
  have small: "24 + 20 * int (length ss) < 2 ^ 32" using p ent by simp
  have "read_u64 m base = MANIFEST_MAGIC"
    "read_u32 m (base + 8) = ucast (word_of_nat (length ss) :: u64)"
    "read_u32 m (base + 12) = ucast (word_of_nat (length bs) :: u64)"
    "read_u64 m (base + 16) = word_of_int elf_size"
    and rest: "mem_holds m (base + 24) data"
    using assms(2) parts(5) p ent len
    by (auto intro!: read_u32_le_bytes read_u64_le_bytes simp: le_bytes_4_u64 add.assoc MANIFEST_MAGIC_def)
  then have h: "manifest_header_at m base = \<lparr>mf_magic = MANIFEST_MAGIC,
      mf_service_count = word_of_nat (length ss), mf_manifest_size = word_of_nat (length bs),
      mf_elf_size = word_of_int elf_size\<rparr>"
    by (simp add: manifest_header_at_def ucast_word_of_nat_32)
  have u: "unat (word_of_nat (length ss) :: u32) = length ss"
      "unat (word_of_nat (length bs) :: u32) = length bs"
      "unat (word_of_nat (length bs) :: u64) = length bs"
    by (rule unat_word_of_nat_lt, use small len in simp)+
  have "word_of_int elf_size \<noteq> (0 :: u64)"
    using p(4) assms(4) by (auto simp: word_of_int_eq_0_iff dest: zdvd_imp_le)
  moreover have "ucast (word_of_nat (length bs) :: u32) = (word_of_nat (length bs) :: u64)"
    by (simp only: word_unat_eq_iff unat_ucast_widen u)
  ultimately show ?thesis
    using assms(3) h u len ent rest
    by (simp add: header_parse_cases Let_def)
qed

lemma mf_example_serialized: "serialize_manifest mf_example_services 512 =
    Some (mem_read mf_example_mem 0x7000000 44)"
  by code_simp

lemma mf_example_elf: "elf_header_ok mf_example_mem (0x7000000 + 44)"
  by code_simp

theorem manifest_roundtrip_witness:
  "\<exists>info. service_manifest_header_parse mf_example_mem payload_info_zero 0x7000000 = (0, info)
    \<and> header_payload info = 0x7000000 + 44 \<and> elf_payload_size info = 512"
proof -
  have "mem_holds mf_example_mem 0x7000000 (mem_read mf_example_mem 0x7000000 44)"
    by (simp add: mem_holds_def)
  moreover have "elf_header_ok mf_example_mem
      (0x7000000 + word_of_nat (length (mem_read mf_example_mem 0x7000000 44)))"
    using mf_example_elf by simp
  ultimately show ?thesis
    using manifest_roundtrip [OF mf_example_serialized, where m = mf_example_mem
        and base = "0x7000000" and old = payload_info_zero]
    by auto
qed

text \<open>the manifest header is accepted exactly when the magic, the size field and the ELF header
  are right and the ELF is not empty; otherwise the parser reports an error and changes nothing.\<close>

theorem manifest_header_parse_spec:
  "service_manifest_header_parse m info base =
    (let h = manifest_header_at m base; eh = base + ucast (mf_manifest_size h)
     in if mf_magic h = MANIFEST_MAGIC
           \<and> unat (mf_manifest_size h) = 24 + 20 * unat (mf_service_count h)
           \<and> elf_header_ok m eh \<and> mf_elf_size h \<noteq> 0
        then (0, \<lparr>header_payload = eh, elf_payload_size = mf_elf_size h,
                  info_service_count = mf_service_count h, info_service_entries = base + 24\<rparr>)
        else (-1, info))"
  by (rule header_parse_cases)

text \<open>C33: the request that the monitor builds holds exactly the supported entries, in order, with
  the number of each type; an image with more than 16 supported entries makes it write past the
  request's array.\<close>

theorem manifest_parse_collects:
  "service_manifest_parse m info svc_req_zero =
    (let xs = filter (supported_entry m)
          (entry_addresses (info_service_entries info) (unat (info_service_count info)))
     in if length xs \<le> 16 then Inr (request_of m (e_entry m (header_payload info)) xs) else Inl UB)"
  by (rule manifest_parse_request)

end
