(* ===== verification/Vm_Layout.thy ===== *)
theory Vm_Layout
  imports Carrels_Memory
begin

text \<open>
  The monitor's view of the memory of the dynamic protection domains: the regions configured in
  \<open>config/monitor_vm_layout.py\<close> and the address function that \<open>tools/gen_vm_layout.py\<close> writes
  into the generated header. Region \<open>r\<close> of domain \<open>cid\<close> starts at \<open>r.base + cid * r.size\<close>.
\<close>

record vm_region =
  region_base :: u64
  region_size :: u64

record monitor_vm_layout =
  loader_context :: vm_region
  txlo_xrt_req :: vm_region
  loader_metadata :: vm_region
  loader_program :: vm_region
  trampoline_image :: vm_region
  container_image :: vm_region

definition monitor_vm_layout :: monitor_vm_layout where
  "monitor_vm_layout =
     \<lparr>loader_context = \<lparr>region_base = 0x0FF40000, region_size = 0x1000\<rparr>,
      txlo_xrt_req = \<lparr>region_base = 0x0FF80000, region_size = 0x1000\<rparr>,
      loader_metadata = \<lparr>region_base = 0x0FFC0000, region_size = 0x1000\<rparr>,
      loader_program = \<lparr>region_base = 0x10000000, region_size = 0x00800000\<rparr>,
      trampoline_image = \<lparr>region_base = 0x30000000, region_size = 0x00800000\<rparr>,
      container_image = \<lparr>region_base = 0x50000000, region_size = 0x00800000\<rparr>\<rparr>"

definition monitor_vm_region_base :: "vm_region \<Rightarrow> u64 \<Rightarrow> u64" where
  "monitor_vm_region_base r cid = region_base r + cid * region_size r"

definition vm_regions :: "vm_region list" where
  "vm_regions = map (\<lambda>f. f monitor_vm_layout)
     [loader_context, txlo_xrt_req, loader_metadata, loader_program, trampoline_image,
      container_image]"

section \<open>The regions of the domains\<close>

text \<open>For the 16 domains no address of a region wraps around.\<close>

lemma region_base_exact:
  assumes "r \<in> set vm_regions" and "unat cid < 16"
  shows "unat (monitor_vm_region_base r cid)
    = unat (region_base r) + unat cid * unat (region_size r)"
proof -
  have sz: "unat (region_size r) \<le> 0x800000" "unat (region_base r) \<le> 0x50000000"
    using assms(1) by (auto simp: vm_regions_def monitor_vm_layout_def)
  have "unat cid * unat (region_size r) \<le> 15 * 0x800000"
    using assms(2) sz by (intro mult_le_mono) simp_all
  then have "unat (region_base r) + unat cid * unat (region_size r) < 2 ^ LENGTH(64)"
    using sz by simp
  then show ?thesis by (simp add: monitor_vm_region_base_def unat_word_ariths)
qed

text \<open>The regions of the configuration, with room for 16 domains, follow each other in memory.\<close>

lemma vm_regions_separated:
  assumes "r \<in> set vm_regions" and "r' \<in> set vm_regions" and "r \<noteq> r'"
  shows "unat (region_base r) + 16 * unat (region_size r) \<le> unat (region_base r')
    \<or> unat (region_base r') + 16 * unat (region_size r') \<le> unat (region_base r)"
  using assms by (auto simp: vm_regions_def monitor_vm_layout_def)

lemma region_slot:
  assumes "a < n"
  shows "b + a * s + s \<le> b + n * (s :: nat)"
proof -
  have "Suc a * s \<le> n * s" using assms by (intro mult_le_mono1) simp
  then show ?thesis by simp
qed

lemma region_bases_apart:
  assumes "r \<in> set vm_regions" and "r' \<in> set vm_regions"
    and "cid < 16" and "cid' < 16" and "r \<noteq> r' \<or> cid \<noteq> cid'"
  shows "unat (monitor_vm_region_base r cid) + unat (region_size r)
           \<le> unat (monitor_vm_region_base r' cid')
    \<or> unat (monitor_vm_region_base r' cid') + unat (region_size r')
           \<le> unat (monitor_vm_region_base r cid)"
proof -
  have c: "unat cid < 16" "unat cid' < 16"
    using assms(3,4) by (simp_all add: word_less_nat_alt)
  note base = region_base_exact [OF assms(1) c(1)] region_base_exact [OF assms(2) c(2)]
  have up: "unat (region_base r) + unat cid * unat (region_size r) + unat (region_size r)
      \<le> unat (region_base r) + 16 * unat (region_size r)"
    "unat (region_base r') + unat cid' * unat (region_size r') + unat (region_size r')
      \<le> unat (region_base r') + 16 * unat (region_size r')"
    using region_slot [OF c(1)] region_slot [OF c(2)] by blast+
  show ?thesis
  proof (cases "r = r'")
    case True
    then have "unat cid < unat cid' \<or> unat cid' < unat cid"
      using assms(5) by (auto simp: word_unat_eq_iff)
    then show ?thesis
    proof
      assume lt: "unat cid < unat cid'"
      show ?thesis unfolding base using region_slot [OF lt] by (simp add: True)
    next
      assume lt: "unat cid' < unat cid"
      show ?thesis unfolding base using region_slot [OF lt] by (simp add: True)
    qed
  next
    case False
    from vm_regions_separated [OF assms(1,2) False] up show ?thesis
      unfolding base by linarith
  qed
qed

text \<open>C40: the regions of two dynamic protection domains, and the different regions of one, never
  overlap in the monitor's address space.\<close>

theorem vm_regions_disjoint:
  assumes "r \<in> set vm_regions" and "r' \<in> set vm_regions"
    and "cid < 16" and "cid' < 16" and "r \<noteq> r' \<or> cid \<noteq> cid'"
  shows "unat (monitor_vm_region_base r cid) + unat (region_size r)
           \<le> unat (monitor_vm_region_base r' cid')
    \<or> unat (monitor_vm_region_base r' cid') + unat (region_size r')
           \<le> unat (monitor_vm_region_base r cid)"
  by (rule region_bases_apart [OF assms])

theorem vm_regions_disjoint_witness:
  "unat (monitor_vm_region_base (container_image monitor_vm_layout) 3) + 0x800000
     \<le> unat (monitor_vm_region_base (container_image monitor_vm_layout) 4)
   \<or> unat (monitor_vm_region_base (container_image monitor_vm_layout) 4) + 0x800000
     \<le> unat (monitor_vm_region_base (container_image monitor_vm_layout) 3)"
proof -
  let ?r = "container_image monitor_vm_layout"
  have r: "?r \<in> set vm_regions" "unat (region_size ?r) = 0x800000"
    by (simp_all add: vm_regions_def monitor_vm_layout_def)
  show ?thesis
    using vm_regions_disjoint [OF r(1) r(1), of 3 4] r(2) by simp
qed

end
