(* ===== verification/Slot_Pool.thy ===== *)
theory Slot_Pool
  imports Carrels_Prelude
begin

text \<open>
  Fixed pools of slots: the request table and the buffers of the file-system helpers; the search for the first
  free entry is also that of the tables of the container runtime. A pool hands out a free slot, or none when all are in use, and
  takes back a slot in use; the clients' reasoning about leaks and double frees is done once here,
  over the promises the two operations make.
\<close>

section \<open>The first element with a property\<close>

fun first_index :: "('a \<Rightarrow> bool) \<Rightarrow> 'a list \<Rightarrow> nat option" where
  "first_index P [] = None"
| "first_index P (x # xs) = (if P x then Some 0 else map_option Suc (first_index P xs))"

lemma first_index_None_iff [simp]: "first_index P xs = None \<longleftrightarrow> (\<forall>x \<in> set xs. \<not> P x)"
  by (induction xs) auto

lemma first_index_SomeD:
  "first_index P xs = Some i \<Longrightarrow> i < length xs \<and> P (xs ! i) \<and> (\<forall>j < i. \<not> P (xs ! j))"
proof (induction xs arbitrary: i)
  case (Cons x xs)
  then show ?case by (auto split: if_splits simp: nth_Cons' less_Suc_eq_0_disj)
qed simp

lemma first_index_SomeI:
  "\<lbrakk>i < length xs; P (xs ! i); \<And>j. j < i \<Longrightarrow> \<not> P (xs ! j)\<rbrakk> \<Longrightarrow> first_index P xs = Some i"
proof (induction xs arbitrary: i)
  case (Cons x xs)
  show ?case
  proof (cases i)
    case 0
    then show ?thesis using Cons.prems(2) by simp
  next
    case (Suc k)
    have "\<not> P (xs ! j)" if "j < k" for j
      using Cons.prems(3) [of "Suc j"] Suc that by simp
    then have "first_index P xs = Some k"
      using Cons.prems(1,2) Suc by (intro Cons.IH) auto
    then show ?thesis using Suc Cons.prems(3) [of 0] by simp
  qed
qed simp

lemma first_index_lt: "first_index P xs = Some i \<Longrightarrow> i < length xs"
  by (simp add: first_index_SomeD)

section \<open>The contract of a pool\<close>

locale slot_pool =
  fixes alloc :: "'s \<Rightarrow> ('s \<times> 'i) option"
    and release :: "'i \<Rightarrow> 's \<Rightarrow> 's res"
    and used :: "'s \<Rightarrow> 'i \<Rightarrow> bool"
    and slots :: "'i set"
    and inv :: "'s \<Rightarrow> bool"
  assumes finite_slots: "inv s \<Longrightarrow> finite slots"
    and alloc_None: "inv s \<Longrightarrow> alloc s = None \<longleftrightarrow> (\<forall>i \<in> slots. used s i)"
    and alloc_Some: "inv s \<Longrightarrow> alloc s = Some (s', i) \<Longrightarrow>
      i \<in> slots \<and> \<not> used s i \<and> inv s' \<and> (\<forall>j \<in> slots. used s' j \<longleftrightarrow> used s j \<or> j = i)"
    and release_used: "inv s \<Longrightarrow> i \<in> slots \<Longrightarrow> used s i \<Longrightarrow>
      \<exists>s'. release i s = Inr s' \<and> inv s' \<and> (\<forall>j \<in> slots. used s' j \<longleftrightarrow> used s j \<and> j \<noteq> i)"
    and release_free: "inv s \<Longrightarrow> i \<in> slots \<Longrightarrow> \<not> used s i \<Longrightarrow> release i s = Inl AssertFail"
begin

definition in_use :: "'s \<Rightarrow> 'i set" where
  "in_use s = {i \<in> slots. used s i}"

lemma finite_in_use: "inv s \<Longrightarrow> finite (in_use s)"
  using finite_slots by (simp add: in_use_def)

lemma alloc_in_use: "inv s \<Longrightarrow> alloc s = Some (s', i) \<Longrightarrow> in_use s' = insert i (in_use s) \<and> i \<notin> in_use s"
  using alloc_Some [of s s' i] by (auto simp: in_use_def)

lemma release_in_use:
  assumes "inv s" and "i \<in> in_use s"
  obtains s' where "release i s = Inr s'" and "inv s'" and "in_use s' = in_use s - {i}"
proof -
  have i: "i \<in> slots" "used s i" using assms(2) by (simp_all add: in_use_def)
  obtain s' where s': "release i s = Inr s'" "inv s'" "\<forall>j \<in> slots. used s' j \<longleftrightarrow> used s j \<and> j \<noteq> i"
    using release_used [OF assms(1) i] by blast
  have "in_use s' = in_use s - {i}" using s'(3) by (auto simp: in_use_def)
  then show ?thesis using that s'(1,2) by blast
qed

text \<open>A slot that was handed out can be taken back, and then the pool is what it was.\<close>

lemma alloc_release:
  assumes "inv s" and "alloc s = Some (s1, i)"
  obtains s2 where "release i s1 = Inr s2" and "inv s2" and "in_use s2 = in_use s"
proof -
  have 1: "in_use s1 = insert i (in_use s)" "i \<notin> in_use s"
    using alloc_in_use [OF assms] by simp_all
  have "inv s1" using alloc_Some [OF assms] by simp
  moreover have "i \<in> in_use s1" using 1 by simp
  ultimately obtain s2 where "release i s1 = Inr s2" "inv s2" "in_use s2 = in_use s1 - {i}"
    by (rule release_in_use)
  then show ?thesis using that 1 by simp
qed

text \<open>Giving the same slot back twice stops the program.\<close>

lemma release_twice:
  assumes "inv s" and "i \<in> in_use s" and "release i s = Inr s'"
  shows "release i s' = Inl AssertFail"
proof -
  obtain t where t: "release i s = Inr t" "inv t" "in_use t = in_use s - {i}"
    using release_in_use [OF assms(1,2)] .
  have "t = s'" using t(1) assms(3) by simp
  then have "inv s'" "i \<notin> in_use s'" using t by simp_all
  then show ?thesis using assms(2) release_free [of s' i] by (simp add: in_use_def)
qed

text \<open>Allocation fails exactly when no slot is left.\<close>

lemma alloc_fails_iff: "inv s \<Longrightarrow> alloc s = None \<longleftrightarrow> card (in_use s) = card slots"
proof
  assume inv: "inv s" and "alloc s = None"
  then have "in_use s = slots" using alloc_None by (auto simp: in_use_def)
  then show "card (in_use s) = card slots" by simp
next
  assume inv: "inv s" and "card (in_use s) = card slots"
  then have "in_use s = slots"
    using finite_slots by (intro card_subset_eq) (auto simp: in_use_def)
  then show "alloc s = None" using inv alloc_None by (auto simp: in_use_def)
qed

lemma alloc_count: "inv s \<Longrightarrow> alloc s = Some (s', i) \<Longrightarrow> card (in_use s') = Suc (card (in_use s))"
  using alloc_in_use [of s s' i] finite_in_use [of s] by simp

end

end
