(* ===== verification/Fs_Helpers.thy ===== *)
theory Fs_Helpers
  imports Slot_Pool Carrels_Memory "HOL-Library.Signed_Division"
begin

text \<open>
  The file-system client helpers (\<open>lib/fs/helpers/helpers.c\<close>) that the monitor and the orchestrator
  link: the table of outstanding requests, the pool of shared buffers, and the call that sends a
  command to the file-system server and waits for its completion.

  The server is another protection domain, and its queue type and constants come from the LionsOS
  headers, which are not part of this repository; they are the record \<open>fs_env\<close>. A server answers
  the commands issued so far by a list of wake-ups: each says how many commands the server took from
  the command queue, which completions it appended and how it left the memory. A list that ends
  without the completion that is waited for models a client that waits forever.
\<close>

section \<open>Commands and completions\<close>

datatype fs_body =
    FS_CMD_INITIALISE
  | FS_CMD_FILE_OPEN int u64 u64
  | FS_CMD_FILE_SIZE u64
  | FS_CMD_FILE_READ u64 u64 int u64
  | FS_CMD_FILE_CLOSE u64

text \<open>
  The parameters are, for opening, the offset and size of the path and the flags; for reading, the
  descriptor, the file offset, and the offset and size of the buffer; and else the descriptor.
\<close>

record fs_cmd =
  cmd_id :: u64
  cmd_body :: fs_body

record fs_cmpl =
  cmpl_id :: u64
  cmpl_status :: u64
  cmpl_fd :: u64
  cmpl_len_read :: u64

record fs_wake =
  wake_consumed :: nat
  wake_completions :: "fs_cmpl list"
  wake_memory :: mem

record fs_env =
  FS_QUEUE_CAPACITY :: nat
  FS_BUFFER_SIZE :: nat
  FS_STATUS_SUCCESS :: u64
  fs_share :: u64
  fs_server :: "fs_cmd list \<Rightarrow> mem \<Rightarrow> fs_wake list"

section \<open>State\<close>

record request_metadata =
  req_command :: fs_cmd
  req_completion :: fs_cmpl
  req_used :: bool
  req_complete :: bool

text \<open>
  The memory of the protection domain, the two tables, the two queues, whether the blocking function
  was set, and the commands issued so far.
\<close>

record fs_state =
  memory :: mem
  request_table :: "request_metadata list"
  buffer_table :: "bool list"
  fs_command_queue :: "fs_cmd list"
  fs_completion_queue :: "fs_cmpl list"
  blocking_wait_set :: bool
  issued :: "fs_cmd list"

definition REQUEST_ID_MAXIMUM :: "fs_env \<Rightarrow> nat" where
  "REQUEST_ID_MAXIMUM E = FS_QUEUE_CAPACITY E - 1"

definition NUM_BUFFERS :: "fs_env \<Rightarrow> nat" where
  "NUM_BUFFERS E = FS_QUEUE_CAPACITY E * 4"

section \<open>Requests\<close>

definition fs_request_allocate ::
  "fs_env \<Rightarrow> 'a fs_state_scheme \<Rightarrow> ('a fs_state_scheme \<times> u64) option" where
  "fs_request_allocate E s =
     (case first_index (\<lambda>r. \<not> req_used r) (request_table s) of
        None \<Rightarrow> None
      | Some i \<Rightarrow> Some (s\<lparr>request_table := (request_table s)[i := (request_table s ! i)\<lparr>req_used := True\<rparr>]\<rparr>,
                       word_of_nat i))"

definition fs_request_free :: "fs_env \<Rightarrow> u64 \<Rightarrow> 'a fs_state_scheme \<Rightarrow> 'a fs_state_scheme res" where
  "fs_request_free E request_id s =
     bindR (assertR (unat request_id \<le> REQUEST_ID_MAXIMUM E)) (\<lambda>_.
     bindR (assertR (req_used (request_table s ! unat request_id))) (\<lambda>_.
     Inr (s\<lparr>request_table := (request_table s)[unat request_id :=
              (request_table s ! unat request_id)\<lparr>req_used := False, req_complete := False\<rparr>]\<rparr>)))"

section \<open>Buffers\<close>

text \<open>A buffer is named by its offset in the share.\<close>

definition fs_buffer_allocate ::
  "fs_env \<Rightarrow> 'a fs_state_scheme \<Rightarrow> ('a fs_state_scheme \<times> int) option" where
  "fs_buffer_allocate E s =
     (case first_index Not (buffer_table s) of
        None \<Rightarrow> None
      | Some i \<Rightarrow> Some (s\<lparr>buffer_table := (buffer_table s)[i := True]\<rparr>, int i * int (FS_BUFFER_SIZE E)))"

definition fs_buffer_ptr :: "fs_env \<Rightarrow> int \<Rightarrow> u64" where
  "fs_buffer_ptr E buffer = fs_share E + word_of_int buffer"

definition fs_buffer_free :: "fs_env \<Rightarrow> int \<Rightarrow> 'a fs_state_scheme \<Rightarrow> 'a fs_state_scheme res" where
  "fs_buffer_free E buffer s =
     (let i = unat (word_of_int (buffer sdiv int (FS_BUFFER_SIZE E)) :: u64)
      in bindR (assertR (i < NUM_BUFFERS E)) (\<lambda>_.
         bindR (assertR (buffer_table s ! i)) (\<lambda>_.
         Inr (s\<lparr>buffer_table := (buffer_table s)[i := False],
                memory := mem_fill (memory s) (fs_buffer_ptr E buffer)
                            (word_of_nat (FS_BUFFER_SIZE E)) 0\<rparr>))))"

section \<open>Completions\<close>

definition fs_note_completion :: "fs_env \<Rightarrow> fs_cmpl \<Rightarrow> 'a fs_state_scheme \<Rightarrow> 'a fs_state_scheme" where
  "fs_note_completion E c s =
     (if unat (cmpl_id c) > REQUEST_ID_MAXIMUM E then s
      else s\<lparr>request_table := (request_table s)[unat (cmpl_id c) :=
               (request_table s ! unat (cmpl_id c))\<lparr>req_completion := c, req_complete := True\<rparr>]\<rparr>)"

text \<open>Both components pass no callback to \<open>fs_process_completions\<close>.\<close>

definition fs_process_completions :: "fs_env \<Rightarrow> 'a fs_state_scheme \<Rightarrow> 'a fs_state_scheme" where
  "fs_process_completions E s =
     (fold (fs_note_completion E) (fs_completion_queue s) s)\<lparr>fs_completion_queue := []\<rparr>"

section \<open>Commands\<close>

definition fs_command_issue :: "fs_env \<Rightarrow> fs_cmd \<Rightarrow> 'a fs_state_scheme \<Rightarrow> 'a fs_state_scheme res" where
  "fs_command_issue E cmd s =
     bindR (assertR (unat (cmd_id cmd) \<le> REQUEST_ID_MAXIMUM E)) (\<lambda>_.
     bindR (assertR (req_used (request_table s ! unat (cmd_id cmd)))) (\<lambda>_.
     bindR (assertR (length (fs_command_queue s) \<noteq> FS_QUEUE_CAPACITY E)) (\<lambda>_.
     Inr (s\<lparr>fs_command_queue := fs_command_queue s @ [cmd],
            issued := issued s @ [cmd],
            request_table := (request_table s)[unat (cmd_id cmd) :=
              (request_table s ! unat (cmd_id cmd))\<lparr>req_command := cmd\<rparr>]\<rparr>))))"

definition fs_command_complete ::
  "fs_env \<Rightarrow> u64 \<Rightarrow> 'a fs_state_scheme \<Rightarrow> (fs_cmd \<times> fs_cmpl) res" where
  "fs_command_complete E request_id s =
     bindR (assertR (req_complete (request_table s ! unat request_id))) (\<lambda>_.
     Inr (req_command (request_table s ! unat request_id),
          req_completion (request_table s ! unat request_id)))"

text \<open>
  While a client waits, the server runs and then the client's \<open>notified\<close> entry point, which calls
  \<open>fs_process_completions\<close> before it wakes the waiting coroutine.
\<close>

definition fs_wake_up :: "fs_env \<Rightarrow> fs_wake \<Rightarrow> 'a fs_state_scheme \<Rightarrow> 'a fs_state_scheme" where
  "fs_wake_up E w s = fs_process_completions E
     (s\<lparr>fs_command_queue := drop (wake_consumed w) (fs_command_queue s),
        fs_completion_queue := fs_completion_queue s @ wake_completions w,
        memory := wake_memory w\<rparr>)"

fun fs_await :: "fs_env \<Rightarrow> u64 \<Rightarrow> fs_wake list \<Rightarrow> 'a fs_state_scheme \<Rightarrow> 'a fs_state_scheme res" where
  "fs_await E request_id [] s =
     (if req_complete (request_table s ! unat request_id) then Inr s else Inl Spin)"
| "fs_await E request_id (w # ws) s =
     (if req_complete (request_table s ! unat request_id) then Inr s
      else fs_await E request_id ws (fs_wake_up E w s))"

text \<open>
  The completion is an output parameter, written only on success; None is a variable that was never
  written. The result is the error code, 0 or -1.
\<close>

definition fs_command_blocking ::
  "fs_env \<Rightarrow> fs_body \<Rightarrow> fs_cmpl option \<Rightarrow> 'a fs_state_scheme
     \<Rightarrow> (int \<times> fs_cmpl option \<times> 'a fs_state_scheme) res" where
  "fs_command_blocking E body completion s =
     bindR (assertR (blocking_wait_set s)) (\<lambda>_.
     case fs_request_allocate E s of
       None \<Rightarrow> Inr (-1, completion, s)
     | Some (s, request_id) \<Rightarrow>
         bindR (fs_command_issue E \<lparr>cmd_id = request_id, cmd_body = body\<rparr> s) (\<lambda>s.
         bindR (fs_await E request_id (fs_server E (issued s) (memory s)) s) (\<lambda>s.
         bindR (fs_command_complete E request_id s) (\<lambda>(_, c).
         bindR (fs_request_free E request_id s) (\<lambda>s.
         Inr (0, Some c, s))))))"

section \<open>The pools\<close>

text \<open>The documented sizes: the tables are not empty and fit the machine's integers.\<close>

definition fs_sizes_ok :: "fs_env \<Rightarrow> bool" where
  "fs_sizes_ok E \<longleftrightarrow> 0 < FS_QUEUE_CAPACITY E \<and> 0 < FS_BUFFER_SIZE E
     \<and> NUM_BUFFERS E * FS_BUFFER_SIZE E < 2 ^ 63"

definition fs_wf :: "fs_env \<Rightarrow> 'a fs_state_scheme \<Rightarrow> bool" where
  "fs_wf E s \<longleftrightarrow> fs_sizes_ok E \<and> length (request_table s) = FS_QUEUE_CAPACITY E
     \<and> length (buffer_table s) = NUM_BUFFERS E"

definition request_ids :: "fs_env \<Rightarrow> u64 set" where
  "request_ids E = {i. unat i < FS_QUEUE_CAPACITY E}"

definition buffer_offsets :: "fs_env \<Rightarrow> int set" where
  "buffer_offsets E = (\<lambda>i. int i * int (FS_BUFFER_SIZE E)) ` {..<NUM_BUFFERS E}"

abbreviation request_used :: "'a fs_state_scheme \<Rightarrow> u64 \<Rightarrow> bool" where
  "request_used s i \<equiv> req_used (request_table s ! unat i)"

abbreviation buffer_used :: "fs_env \<Rightarrow> 'a fs_state_scheme \<Rightarrow> int \<Rightarrow> bool" where
  "buffer_used E s b \<equiv> buffer_table s ! nat (b div int (FS_BUFFER_SIZE E))"

lemma capacity_lt:
  assumes "fs_sizes_ok E"
  shows "NUM_BUFFERS E < 2 ^ 63" and "FS_QUEUE_CAPACITY E < 2 ^ 63"
proof -
  have "NUM_BUFFERS E \<le> NUM_BUFFERS E * FS_BUFFER_SIZE E"
    using assms by (simp add: fs_sizes_ok_def)
  also have "\<dots> < 2 ^ 63" using assms by (simp add: fs_sizes_ok_def)
  finally show "NUM_BUFFERS E < 2 ^ 63" .
  then show "FS_QUEUE_CAPACITY E < 2 ^ 63" by (simp add: NUM_BUFFERS_def)
qed

lemma unat_index:
  assumes "fs_sizes_ok E" and "i < NUM_BUFFERS E"
  shows "unat (word_of_nat i :: u64) = i"
  using capacity_lt(1) [OF assms(1)] assms(2) by (intro unat_word_of_nat_lt) simp

lemma request_index:
  assumes "fs_sizes_ok E" and "i < FS_QUEUE_CAPACITY E"
  shows "unat (word_of_nat i :: u64) = i"
  using assms by (intro unat_index [of E]) (simp_all add: NUM_BUFFERS_def)

lemma buffer_index:
  assumes "fs_sizes_ok E" and "i < NUM_BUFFERS E"
  shows "(int i * int (FS_BUFFER_SIZE E)) sdiv int (FS_BUFFER_SIZE E) = int i"
    and "nat (int i * int (FS_BUFFER_SIZE E) div int (FS_BUFFER_SIZE E)) = i"
proof -
  have "0 < FS_BUFFER_SIZE E" using assms by (simp add: fs_sizes_ok_def)
  then show "(int i * int (FS_BUFFER_SIZE E)) sdiv int (FS_BUFFER_SIZE E) = int i"
    by (cases "i = 0") (simp_all add: signed_divide_int_def sgn_mult)
  show "nat (int i * int (FS_BUFFER_SIZE E) div int (FS_BUFFER_SIZE E)) = i"
    using \<open>0 < FS_BUFFER_SIZE E\<close> by simp
qed

lemma request_ids_maximum: "fs_sizes_ok E \<Longrightarrow> i \<in> request_ids E \<longleftrightarrow> unat i \<le> REQUEST_ID_MAXIMUM E"
  by (auto simp: request_ids_def REQUEST_ID_MAXIMUM_def fs_sizes_ok_def)

lemma fs_wf_request: "fs_wf E s \<Longrightarrow> i \<in> request_ids E \<Longrightarrow> unat i < length (request_table s)"
  by (simp add: fs_wf_def request_ids_def)

lemma request_allocate_SomeD:
  assumes "fs_wf E s" and "fs_request_allocate E s = Some (s', i)"
  shows "i \<in> request_ids E \<and> \<not> request_used s i \<and>
    s' = s\<lparr>request_table := (request_table s)[unat i := (request_table s ! unat i)\<lparr>req_used := True\<rparr>]\<rparr>"
proof -
  obtain k where k: "first_index (\<lambda>r. \<not> req_used r) (request_table s) = Some k"
    "s' = s\<lparr>request_table := (request_table s)[k := (request_table s ! k)\<lparr>req_used := True\<rparr>]\<rparr>"
    "i = word_of_nat k"
    using assms(2) by (auto simp: fs_request_allocate_def split: option.splits)
  have "k < FS_QUEUE_CAPACITY E" "\<not> req_used (request_table s ! k)"
    using first_index_SomeD [OF k(1)] assms(1) by (simp_all add: fs_wf_def)
  moreover have "unat i = k"
    using request_index [of E k] calculation(1) assms(1) k(3) by (simp add: fs_wf_def)
  ultimately show ?thesis using k(2) by (simp add: request_ids_def)
qed

lemma request_allocate_None:
  assumes "fs_wf E s"
  shows "fs_request_allocate E s = None \<longleftrightarrow> (\<forall>i \<in> request_ids E. request_used s i)"
proof -
  have "(\<forall>i \<in> request_ids E. request_used s i) \<longleftrightarrow> (\<forall>k < FS_QUEUE_CAPACITY E. req_used (request_table s ! k))"
  proof (intro iffI allI impI ballI)
    fix k assume all: "\<forall>i \<in> request_ids E. request_used s i" and k: "k < FS_QUEUE_CAPACITY E"
    have "unat (word_of_nat k :: u64) = k" using request_index [of E k] assms k by (simp add: fs_wf_def)
    then show "req_used (request_table s ! k)"
      using bspec [OF all, of "word_of_nat k"] k by (simp add: request_ids_def)
  qed (simp add: request_ids_def)
  moreover have "fs_request_allocate E s = None
      \<longleftrightarrow> first_index (\<lambda>r. \<not> req_used r) (request_table s) = None"
    by (simp add: fs_request_allocate_def del: first_index_None_iff split: option.split)
  ultimately show ?thesis
    using assms by (simp add: fs_wf_def all_set_conv_all_nth del: all_simps)
qed

lemma buffer_allocate_None:
  assumes "fs_wf E s"
  shows "fs_buffer_allocate E s = None \<longleftrightarrow> (\<forall>b \<in> buffer_offsets E. buffer_used E s b)"
proof -
  have pos: "0 < FS_BUFFER_SIZE E" using assms by (simp add: fs_wf_def fs_sizes_ok_def)
  have "fs_buffer_allocate E s = None \<longleftrightarrow> first_index Not (buffer_table s) = None"
    by (simp add: fs_buffer_allocate_def del: first_index_None_iff split: option.split)
  moreover have "(\<forall>b \<in> buffer_offsets E. buffer_used E s b) \<longleftrightarrow> (\<forall>i < NUM_BUFFERS E. buffer_table s ! i)"
    using pos by (auto simp: buffer_offsets_def)
  ultimately show ?thesis
    using assms by (simp add: fs_wf_def all_set_conv_all_nth)
qed

interpretation request_pool: slot_pool "fs_request_allocate E" "fs_request_free E" request_used
  "request_ids E" "fs_wf E"
proof unfold_locales
  fix s :: "'a fs_state_scheme" and s' i
  assume wf: "fs_wf E s"
  show "finite (request_ids E)" by simp
  show "(fs_request_allocate E s = None) = (\<forall>i \<in> request_ids E. request_used s i)"
    using wf by (rule request_allocate_None)
  { assume a: "fs_request_allocate E s = Some (s', i)"
    show "i \<in> request_ids E \<and> \<not> request_used s i \<and> fs_wf E s'
        \<and> (\<forall>j \<in> request_ids E. request_used s' j \<longleftrightarrow> request_used s j \<or> j = i)"
      using request_allocate_SomeD [OF wf a] wf
      by (auto simp: fs_wf_def request_ids_def nth_list_update word_unat_eq_iff) }
  { assume i: "i \<in> request_ids E" "request_used s i"
    have "unat i \<le> REQUEST_ID_MAXIMUM E" using i wf by (simp add: request_ids_maximum fs_wf_def)
    then show "\<exists>s'. fs_request_free E i s = Inr s' \<and> fs_wf E s'
        \<and> (\<forall>j \<in> request_ids E. request_used s' j \<longleftrightarrow> request_used s j \<and> j \<noteq> i)"
      using i wf by (auto simp: fs_request_free_def fs_wf_def request_ids_def nth_list_update word_unat_eq_iff) }
  { assume i: "i \<in> request_ids E" "\<not> request_used s i"
    have "unat i \<le> REQUEST_ID_MAXIMUM E" using i wf by (simp add: request_ids_maximum fs_wf_def)
    then show "fs_request_free E i s = Inl AssertFail" using i by (simp add: fs_request_free_def assertR_def) }
qed

lemma buffer_allocate_SomeD:
  assumes "fs_wf E s" and "fs_buffer_allocate E s = Some (s', b)"
  obtains i where "i < NUM_BUFFERS E" and "\<not> buffer_table s ! i"
    and "s' = s\<lparr>buffer_table := (buffer_table s)[i := True]\<rparr>" and "b = int i * int (FS_BUFFER_SIZE E)"
proof -
  obtain i where i: "first_index Not (buffer_table s) = Some i"
    "s' = s\<lparr>buffer_table := (buffer_table s)[i := True]\<rparr>" "b = int i * int (FS_BUFFER_SIZE E)"
    using assms(2) by (auto simp: fs_buffer_allocate_def split: option.splits)
  then show ?thesis
    using that [of i] first_index_SomeD [OF i(1)] assms(1) by (simp add: fs_wf_def)
qed

lemma buffer_free_index:
  assumes "fs_wf E s" and "i < NUM_BUFFERS E"
  shows "fs_buffer_free E (int i * int (FS_BUFFER_SIZE E)) s =
    (if buffer_table s ! i
     then Inr (s\<lparr>buffer_table := (buffer_table s)[i := False],
                 memory := mem_fill (memory s) (fs_buffer_ptr E (int i * int (FS_BUFFER_SIZE E)))
                             (word_of_nat (FS_BUFFER_SIZE E)) 0\<rparr>)
     else Inl AssertFail)"
  using assms buffer_index(1) [of E i] unat_index [of E i]
  by (simp add: fs_buffer_free_def fs_wf_def assertR_def)

interpretation buffer_pool: slot_pool "fs_buffer_allocate E" "fs_buffer_free E" "buffer_used E"
  "buffer_offsets E" "fs_wf E"
proof unfold_locales
  fix s :: "'a fs_state_scheme" and s' b
  assume wf: "fs_wf E s"
  then have ok: "fs_sizes_ok E" and len: "length (buffer_table s) = NUM_BUFFERS E"
    by (simp_all add: fs_wf_def)
  have pos: "0 < FS_BUFFER_SIZE E" using ok by (simp add: fs_sizes_ok_def)
  show "finite (buffer_offsets E)" by (simp add: buffer_offsets_def)
  show "(fs_buffer_allocate E s = None) = (\<forall>b \<in> buffer_offsets E. buffer_used E s b)"
    using wf by (rule buffer_allocate_None)
  have eq: "int i * int (FS_BUFFER_SIZE E) = int j * int (FS_BUFFER_SIZE E) \<longleftrightarrow> i = j" for i j
    using ok by (simp add: fs_sizes_ok_def)
  { assume "fs_buffer_allocate E s = Some (s', b)"
    then obtain i where i: "i < NUM_BUFFERS E" "\<not> buffer_table s ! i"
      "s' = s\<lparr>buffer_table := (buffer_table s)[i := True]\<rparr>" "b = int i * int (FS_BUFFER_SIZE E)"
      by (rule buffer_allocate_SomeD [OF wf])
    have "b \<in> buffer_offsets E" using i by (auto simp: buffer_offsets_def)
    moreover have "\<not> buffer_used E s b" using i buffer_index(2) [OF ok i(1)] by simp
    moreover have "fs_wf E s'" using wf i(3) by (simp add: fs_wf_def)
    moreover have "buffer_used E s' c \<longleftrightarrow> buffer_used E s c \<or> c = b" if c: "c \<in> buffer_offsets E" for c
    proof -
      obtain j where j: "j < NUM_BUFFERS E" "c = int j * int (FS_BUFFER_SIZE E)"
        using c unfolding buffer_offsets_def by blast
      show ?thesis unfolding i(3,4) j(2) eq
        using i(1) j(1) len pos by (simp add: nth_list_update)
    qed
    ultimately show "b \<in> buffer_offsets E \<and> \<not> buffer_used E s b \<and> fs_wf E s'
        \<and> (\<forall>c \<in> buffer_offsets E. buffer_used E s' c \<longleftrightarrow> buffer_used E s c \<or> c = b)"
      by blast }
  { assume b: "b \<in> buffer_offsets E" "buffer_used E s b"
    then obtain i where i: "i < NUM_BUFFERS E" "b = int i * int (FS_BUFFER_SIZE E)"
      by (auto simp: buffer_offsets_def)
    have "buffer_table s ! i" using b(2) pos by (simp add: i(2))
    then obtain m where "fs_buffer_free E b s = Inr (s\<lparr>buffer_table := (buffer_table s)[i := False], memory := m\<rparr>)"
      using buffer_free_index [OF wf i(1)] i(2) by simp
    moreover have "buffer_used E (s\<lparr>buffer_table := (buffer_table s)[i := False], memory := m\<rparr>) c
        \<longleftrightarrow> buffer_used E s c \<and> c \<noteq> b" if c: "c \<in> buffer_offsets E" for c m
    proof -
      obtain j where j: "j < NUM_BUFFERS E" "c = int j * int (FS_BUFFER_SIZE E)"
        using c unfolding buffer_offsets_def by blast
      show ?thesis unfolding i(2) j(2) eq
        using i(1) j(1) len pos by (simp add: nth_list_update)
    qed
    moreover have "fs_wf E (s\<lparr>buffer_table := (buffer_table s)[i := False], memory := m\<rparr>)"
      using wf by (simp add: fs_wf_def)
    ultimately show "\<exists>s'. fs_buffer_free E b s = Inr s' \<and> fs_wf E s'
        \<and> (\<forall>c \<in> buffer_offsets E. buffer_used E s' c \<longleftrightarrow> buffer_used E s c \<and> c \<noteq> b)"
      by blast }
  { assume b: "b \<in> buffer_offsets E" "\<not> buffer_used E s b"
    then obtain i where i: "i < NUM_BUFFERS E" "b = int i * int (FS_BUFFER_SIZE E)"
      by (auto simp: buffer_offsets_def)
    have "\<not> buffer_table s ! i" using b(2) pos by (simp add: i(2))
    then show "fs_buffer_free E b s = Inl AssertFail"
      using buffer_free_index [OF wf i(1)] i(2) by simp }
qed

section \<open>Waiting for an answer\<close>

text \<open>
  \<open>fs_ready\<close>: the client may send a command. Its queues are empty, a request is free, and no free
  request is marked complete.
\<close>

definition fs_ready :: "fs_env \<Rightarrow> 'a fs_state_scheme \<Rightarrow> bool" where
  "fs_ready E s \<longleftrightarrow> fs_wf E s \<and> blocking_wait_set s \<and> fs_command_queue s = [] \<and> fs_completion_queue s = []
     \<and> (\<exists>r \<in> set (request_table s). \<not> req_used r)
     \<and> (\<forall>r \<in> set (request_table s). req_complete r \<longrightarrow> req_used r)"

definition next_request :: "'a fs_state_scheme \<Rightarrow> nat" where
  "next_request s = the (first_index (\<lambda>r. \<not> req_used r) (request_table s))"

text \<open>
  \<open>fs_answers\<close>: the server takes the last command of the history, may wake the client for nothing,
  and then completes the command with \<open>c\<close>, having left the memory as \<open>m'\<close>.
\<close>

definition fs_answers :: "fs_env \<Rightarrow> fs_cmd list \<Rightarrow> mem \<Rightarrow> fs_cmpl \<Rightarrow> mem \<Rightarrow> bool" where
  "fs_answers E cmds m c m' \<longleftrightarrow> (\<exists>idle w later.
     fs_server E cmds m = idle @ w # later \<and> (\<forall>v \<in> set idle. wake_completions v = [])
     \<and> wake_completions w = [c] \<and> wake_memory w = m' \<and> cmpl_id c = cmd_id (last cmds)
     \<and> 0 < sum_list (map wake_consumed idle) + wake_consumed w)"

lemma next_request:
  assumes "fs_ready E s"
  shows "first_index (\<lambda>r. \<not> req_used r) (request_table s) = Some (next_request s)"
    and "next_request s < FS_QUEUE_CAPACITY E" and "next_request s < length (request_table s)"
    and "\<not> req_used (request_table s ! next_request s)"
    and "\<not> req_complete (request_table s ! next_request s)"
    and "unat (word_of_nat (next_request s) :: u64) = next_request s"
proof -
  have "first_index (\<lambda>r. \<not> req_used r) (request_table s) \<noteq> None"
    using assms by (simp add: fs_ready_def)
  then show *: "first_index (\<lambda>r. \<not> req_used r) (request_table s) = Some (next_request s)"
    by (simp add: next_request_def del: first_index_None_iff)
  from first_index_SomeD [OF this]
  show len: "next_request s < length (request_table s)" and unused: "\<not> req_used (request_table s ! next_request s)"
    by blast+
  then show lt: "next_request s < FS_QUEUE_CAPACITY E" using assms by (simp add: fs_ready_def fs_wf_def)
  show "\<not> req_complete (request_table s ! next_request s)"
    using assms len unused nth_mem by (auto simp: fs_ready_def)
  show "unat (word_of_nat (next_request s) :: u64) = next_request s"
    using assms lt by (intro request_index [of E]) (simp_all add: fs_ready_def fs_wf_def)
qed

lemma fs_wake_up_idle:
  assumes "wake_completions w = []" and "fs_completion_queue s = []"
  shows "fs_wake_up E w s =
    s\<lparr>fs_command_queue := drop (wake_consumed w) (fs_command_queue s), memory := wake_memory w\<rparr>"
  using assms by (simp add: fs_wake_up_def fs_process_completions_def)

lemma fs_await_answer:
  assumes "\<forall>v \<in> set idle. wake_completions v = []" and "wake_completions w = [c]"
    and "\<not> req_complete (request_table s ! unat (cmpl_id c))" and "fs_completion_queue s = []"
    and "unat (cmpl_id c) \<le> REQUEST_ID_MAXIMUM E" and "unat (cmpl_id c) < length (request_table s)"
  shows "fs_await E (cmpl_id c) (idle @ w # later) s =
    Inr (s\<lparr>fs_command_queue :=
             drop (sum_list (map wake_consumed idle) + wake_consumed w) (fs_command_queue s),
           memory := wake_memory w,
           request_table := (request_table s)[unat (cmpl_id c) :=
             (request_table s ! unat (cmpl_id c))\<lparr>req_completion := c, req_complete := True\<rparr>]\<rparr>)"
  using assms
proof (induction idle arbitrary: s)
  case Nil
  then show ?case
    by (cases later) (simp_all add: fs_wake_up_def fs_process_completions_def fs_note_completion_def)
next
  case (Cons v idle)
  then have wake: "fs_wake_up E v s =
      s\<lparr>fs_command_queue := drop (wake_consumed v) (fs_command_queue s), memory := wake_memory v\<rparr>"
    by (simp add: fs_wake_up_idle)
  have "fs_await E (cmpl_id c) ((v # idle) @ w # later) s = fs_await E (cmpl_id c) (idle @ w # later) (fs_wake_up E v s)"
    using Cons.prems(3) by simp
  also have "\<dots> = Inr ((fs_wake_up E v s)\<lparr>fs_command_queue :=
             drop (sum_list (map wake_consumed idle) + wake_consumed w) (fs_command_queue (fs_wake_up E v s)),
           memory := wake_memory w,
           request_table := (request_table (fs_wake_up E v s))[unat (cmpl_id c) :=
             (request_table (fs_wake_up E v s) ! unat (cmpl_id c))\<lparr>req_completion := c, req_complete := True\<rparr>]\<rparr>)"
    using Cons.prems by (intro Cons.IH) (simp_all add: wake)
  finally show ?case by (simp add: wake add.commute add.left_commute)
qed

text \<open>The effect of an answered command: one request record, the memory and the history change.\<close>

definition fs_answered :: "fs_body \<Rightarrow> fs_cmpl \<Rightarrow> mem \<Rightarrow> 'a fs_state_scheme \<Rightarrow> 'a fs_state_scheme" where
  "fs_answered body c m s =
     (let i = next_request s; cmd = \<lparr>cmd_id = word_of_nat i, cmd_body = body\<rparr>
      in s\<lparr>memory := m, issued := issued s @ [cmd],
           request_table := (request_table s)[i :=
             (request_table s ! i)\<lparr>req_command := cmd, req_completion := c\<rparr>]\<rparr>)"

lemma request_eqI: "\<not> req_used r \<Longrightarrow> \<not> req_complete r \<Longrightarrow>
  r\<lparr>req_command := cmd, req_completion := c\<rparr> =
  \<lparr>req_command = cmd, req_completion = c, req_used = False, req_complete = False\<rparr>"
  by (cases r) simp

lemma fs_command_blocking_answered:
  assumes ready: "fs_ready E s"
    and ans: "fs_answers E (issued s @ [\<lparr>cmd_id = word_of_nat (next_request s), cmd_body = body\<rparr>])
      (memory s) c m'"
  shows "fs_command_blocking E body x s = Inr (0, Some c, fs_answered body c m' s)"
proof -
  let ?i = "next_request s" and ?id = "word_of_nat (next_request s) :: u64"
  let ?cmd = "\<lparr>cmd_id = ?id, cmd_body = body\<rparr>"
  note r = next_request [OF ready]
  have q: "blocking_wait_set s" "fs_command_queue s = []" "fs_completion_queue s = []"
      "length (request_table s) = FS_QUEUE_CAPACITY E" "0 < FS_QUEUE_CAPACITY E"
    using ready by (simp_all add: fs_ready_def fs_wf_def fs_sizes_ok_def)
  have max: "?i \<le> REQUEST_ID_MAXIMUM E" using r(2) by (simp add: REQUEST_ID_MAXIMUM_def)
  let ?s1 = "s\<lparr>request_table := (request_table s)[?i := (request_table s ! ?i)\<lparr>req_used := True\<rparr>]\<rparr>"
  have alloc: "fs_request_allocate E s = Some (?s1, ?id)"
    by (simp add: fs_request_allocate_def r(1))
  let ?s2 = "s\<lparr>fs_command_queue := [?cmd], issued := issued s @ [?cmd], request_table :=
      (request_table s)[?i := (request_table s ! ?i)\<lparr>req_used := True, req_command := ?cmd\<rparr>]\<rparr>"
  have issue: "fs_command_issue E ?cmd ?s1 = Inr ?s2"
    using max q r by (simp add: fs_command_issue_def)
  obtain idle w later where srv: "fs_server E (issued s @ [?cmd]) (memory s) = idle @ w # later"
    "\<forall>v \<in> set idle. wake_completions v = []" "wake_completions w = [c]" "wake_memory w = m'"
    "cmpl_id c = ?id" "0 < sum_list (map wake_consumed idle) + wake_consumed w"
    using ans by (auto simp: fs_answers_def)
  have gone: "drop (sum_list (map wake_consumed idle) + wake_consumed w) [?cmd] = []"
    using srv(6) by (cases "sum_list (map wake_consumed idle) + wake_consumed w") simp_all
  let ?s3 = "?s2\<lparr>fs_command_queue := [], memory := m',
      request_table := (request_table ?s2)[?i := (request_table ?s2 ! ?i)\<lparr>req_completion := c, req_complete := True\<rparr>]\<rparr>"
  have await: "fs_await E ?id (fs_server E (issued ?s2) (memory ?s2)) ?s2 = Inr ?s3"
    using fs_await_answer [OF srv(2,3), of ?s2 E later] r max gone srv(4,5) q
    by (simp add: srv(1))
  show ?thesis
    using q r max
    by (simp add: fs_command_blocking_def alloc issue await [simplified] fs_command_complete_def fs_request_free_def
        fs_answered_def request_eqI Let_def)
qed


lemma fs_answered_simps [simp]:
  "memory (fs_answered body c m s) = m"
  "buffer_table (fs_answered body c m s) = buffer_table s"
  "length (request_table (fs_answered body c m s)) = length (request_table s)"
  "issued (fs_answered body c m s) =
     issued s @ [\<lparr>cmd_id = word_of_nat (next_request s), cmd_body = body\<rparr>]"
  "blocking_wait_set (fs_answered body c m s) = blocking_wait_set s"
  "fs_command_queue (fs_answered body c m s) = fs_command_queue s"
  "fs_completion_queue (fs_answered body c m s) = fs_completion_queue s"
  by (simp_all add: fs_answered_def Let_def)

lemma first_index_update:
  "first_index P xs = Some i \<Longrightarrow> P y \<Longrightarrow> first_index P (xs[i := y]) = Some i"
  using first_index_SomeD [of P xs i] by (intro first_index_SomeI) auto

lemma fs_answered_ready:
  assumes ready: "fs_ready E s"
  shows "fs_ready E (fs_answered body c m s)" and "next_request (fs_answered body c m s) = next_request s"
proof -
  note r = next_request [OF ready]
  let ?t = "request_table (fs_answered body c m s)"
  have len: "length (request_table s) = FS_QUEUE_CAPACITY E" using ready by (simp add: fs_ready_def fs_wf_def)
  have t: "?t = (request_table s)[next_request s := (request_table s ! next_request s)
      \<lparr>req_command := \<lparr>cmd_id = word_of_nat (next_request s), cmd_body = body\<rparr>, req_completion := c\<rparr>]"
    by (simp add: fs_answered_def Let_def)
  have 1: "first_index (\<lambda>r. \<not> req_used r) ?t = Some (next_request s)"
    unfolding t using r by (intro first_index_update) simp_all
  then have "first_index (\<lambda>r. \<not> req_used r) ?t \<noteq> None" by simp
  then have "\<exists>r \<in> set ?t. \<not> req_used r" by simp
  moreover have "\<forall>r \<in> set ?t. req_complete r \<longrightarrow> req_used r"
  proof
    fix q assume "q \<in> set ?t"
    then consider "q \<in> set (request_table s)" | "\<not> req_complete q"
      using r set_update_subset_insert unfolding t by (fastforce dest: subsetD [OF set_update_subset_insert])
    then show "req_complete q \<longrightarrow> req_used q" using ready by cases (simp_all add: fs_ready_def)
  qed
  ultimately show "fs_ready E (fs_answered body c m s)"
    using ready by (simp add: fs_ready_def fs_wf_def)
  show "next_request (fs_answered body c m s) = next_request s"
    using 1 by (simp add: next_request_def)
qed

text \<open>Updates of the memory and of the buffers do not touch the requests.\<close>

lemma fs_ready_update [simp]:
  "fs_ready E (s\<lparr>memory := m\<rparr>) = fs_ready E s"
  "length bs = length (buffer_table s) \<Longrightarrow> fs_ready E (s\<lparr>buffer_table := bs\<rparr>) = fs_ready E s"
  "next_request (s\<lparr>memory := m\<rparr>) = next_request s"
  "next_request (s\<lparr>buffer_table := bs\<rparr>) = next_request s"
  by (simp_all add: fs_ready_def fs_wf_def next_request_def)

end
