(* ===== verification/Pico_Vfs.thy ===== *)
theory Pico_Vfs
  imports Fs_Helpers
begin

text \<open>
  Reading whole files (\<open>src/util/pico_vfs.c\<close>), on top of the helpers of \<open>Fs_Helpers\<close>. A C string is
  the list of its bytes without the terminator. File descriptors and positions are 64-bit; the
  value -1 reports an error.
\<close>

section \<open>Operations\<close>

text \<open>
  The error codes of the commands are ignored in \<open>openfile\<close>; the completion is then whatever the
  variable held. When no buffer is left the code loops for ever.
\<close>

definition openfile :: "fs_env \<Rightarrow> u8 list \<Rightarrow> 'a fs_state_scheme \<Rightarrow> (u64 \<times> 'a fs_state_scheme) res" where
  "openfile E fname s =
     (case fs_buffer_allocate E s of
        None \<Rightarrow> Inl Spin
      | Some (s, buffer) \<Rightarrow>
          let path_len = word_of_nat (length fname + 1) :: u64;
              s = s\<lparr>memory := mem_write (memory s) (fs_buffer_ptr E buffer) (fname @ [0])\<rparr>
          in bindR (fs_command_blocking E (FS_CMD_FILE_OPEN buffer path_len 0) None s)
               (\<lambda>(_, completion, s).
             bindR (fs_buffer_free E buffer s) (\<lambda>s.
             case completion of
               None \<Rightarrow> Inl UB
             | Some c \<Rightarrow>
                 if cmpl_status c \<noteq> FS_STATUS_SUCCESS E then Inr (-1, s)
                 else
                   let fd = cmpl_fd c
                   in bindR (fs_command_blocking E (FS_CMD_FILE_SIZE fd) completion s)
                        (\<lambda>(_, completion, s).
                      case completion of
                        None \<Rightarrow> Inl UB
                      | Some c \<Rightarrow>
                          if cmpl_status c \<noteq> FS_STATUS_SUCCESS E
                          then bindR (fs_command_blocking E (FS_CMD_FILE_CLOSE fd) completion s)
                                 (\<lambda>(_, _, s).
                               bindR (fs_buffer_free E buffer s) (\<lambda>s. Inr (-1, s)))
                          else Inr (fd, s)))))"

definition readfile ::
  "fs_env \<Rightarrow> u64 \<Rightarrow> u64 \<Rightarrow> u64 \<Rightarrow> u64 \<Rightarrow> 'a fs_state_scheme \<Rightarrow> (u64 \<times> 'a fs_state_scheme) res" where
  "readfile E dest sz fd pos s =
     (case fs_buffer_allocate E s of
        None \<Rightarrow> Inl Spin
      | Some (s, read_buffer) \<Rightarrow>
          bindR (fs_command_blocking E (FS_CMD_FILE_READ fd pos read_buffer sz) None s)
            (\<lambda>(err, completion, s).
          if err \<noteq> 0 \<or> cmpl_status (the completion) \<noteq> FS_STATUS_SUCCESS E
          then bindR (fs_buffer_free E read_buffer s) (\<lambda>s. Inr (-1, s))
          else
            let len_read = cmpl_len_read (the completion);
                s = s\<lparr>memory := mem_copy (memory s) dest (fs_buffer_ptr E read_buffer) len_read\<rparr>
            in bindR (fs_buffer_free E read_buffer s) (\<lambda>s. Inr (pos + len_read, s))))"

definition closefile :: "fs_env \<Rightarrow> u64 \<Rightarrow> 'a fs_state_scheme \<Rightarrow> 'a fs_state_scheme res" where
  "closefile E fd s =
     bindR (fs_command_blocking E (FS_CMD_FILE_CLOSE fd) None s) (\<lambda>(_, _, s). Inr s)"

definition pico_vfs_file_exists :: "fs_env \<Rightarrow> u8 list \<Rightarrow> 'a fs_state_scheme \<Rightarrow> (bool \<times> 'a fs_state_scheme) res" where
  "pico_vfs_file_exists E path s =
     bindR (openfile E path s) (\<lambda>(fd, s).
     if fd = -1 then Inr (False, s)
     else bindR (closefile E fd s) (\<lambda>s. Inr (True, s)))"

text \<open>
  The loop of \<open>pico_vfs_readfile2buf\<close> from the position \<open>pos\<close> with the destination \<open>buf\<close>; it returns
  the end position, or None after a read error. The loop ends only when a read returns no data: the
  first argument bounds the number of reads, and reaching the bound counts as not returning. That
  the bound is no restriction is part of what is proved below.
\<close>

fun read_loop :: "nat \<Rightarrow> fs_env \<Rightarrow> u64 \<Rightarrow> u64 \<Rightarrow> u64 \<Rightarrow> 'a fs_state_scheme
    \<Rightarrow> (u64 option \<times> 'a fs_state_scheme) res" where
  "read_loop 0 E buf fd pos s = Inl Spin"
| "read_loop (Suc fuel) E buf fd pos s =
     bindR (readfile E buf (word_of_nat (FS_BUFFER_SIZE E)) fd pos s) (\<lambda>(pos', s).
     if pos' = -1 then Inr (None, s)
     else if pos' = pos then Inr (Some pos', s)
     else read_loop fuel E (buf + (pos' - pos)) fd pos' s)"

text \<open>The result is the error code, the size and the state.\<close>

definition pico_vfs_readfile2buf ::
  "nat \<Rightarrow> fs_env \<Rightarrow> u64 \<Rightarrow> u8 list \<Rightarrow> 'a fs_state_scheme \<Rightarrow> (int \<times> u64 \<times> 'a fs_state_scheme) res" where
  "pico_vfs_readfile2buf fuel E buf path s =
     bindR (openfile E path s) (\<lambda>(file_fd, s).
     if file_fd = -1 then Inr (-1, 0, s)
     else bindR (read_loop fuel E buf file_fd 0 s) (\<lambda>(final, s).
       case final of
         None \<Rightarrow> Inr (-1, 0, s)
       | Some pos \<Rightarrow> bindR (closefile E file_fd s) (\<lambda>s. Inr (0, pos, s))))"

section \<open>A server that has a file\<close>

definition agree_outside :: "u64 set \<Rightarrow> mem \<Rightarrow> mem \<Rightarrow> bool" where
  "agree_outside A m m' \<longleftrightarrow> (\<forall>a. a \<notin> A \<longrightarrow> m' a = m a)"

lemma agree_outsideD: "agree_outside A m m' \<Longrightarrow> a \<notin> A \<Longrightarrow> m' a = m a"
  by (simp add: agree_outside_def)

lemma agree_outside_trans:
  "agree_outside A m m' \<Longrightarrow> agree_outside B m' m'' \<Longrightarrow> A \<union> B \<subseteq> C \<Longrightarrow> agree_outside C m m''"
  unfolding agree_outside_def by (metis UnI1 UnI2 subsetD)

lemma agree_outside_fill: "block p n \<subseteq> A \<Longrightarrow> agree_outside A m (mem_fill m p n v)"
  unfolding agree_outside_def by (metis mem_fill_outside subsetD)

lemma agree_outside_copy: "block d n \<subseteq> A \<Longrightarrow> agree_outside A m (mem_copy m d p n)"
  unfolding agree_outside_def by (metis mem_copy_outside subsetD)

definition share_region :: "fs_env \<Rightarrow> u64 set" where
  "share_region E = block (fs_share E) (word_of_nat (NUM_BUFFERS E * FS_BUFFER_SIZE E))"

lemma buffer_size_lt:
  assumes "fs_sizes_ok E"
  shows "FS_BUFFER_SIZE E < 2 ^ 63"
proof -
  have "0 < NUM_BUFFERS E" using assms by (simp add: fs_sizes_ok_def NUM_BUFFERS_def)
  then have "FS_BUFFER_SIZE E \<le> NUM_BUFFERS E * FS_BUFFER_SIZE E" by simp
  also have "\<dots> < 2 ^ 63" using assms by (simp add: fs_sizes_ok_def)
  finally show ?thesis .
qed

lemma buffer_in_share:
  assumes "fs_sizes_ok E" and "b \<in> buffer_offsets E" and "n \<le> FS_BUFFER_SIZE E"
  shows "block (fs_buffer_ptr E b) (word_of_nat n) \<subseteq> share_region E"
proof
  fix a assume a: "a \<in> block (fs_buffer_ptr E b) (word_of_nat n)"
  let ?z = "FS_BUFFER_SIZE E" and ?N = "NUM_BUFFERS E * FS_BUFFER_SIZE E"
  obtain i where i: "i < NUM_BUFFERS E" "b = int i * int ?z"
    using assms(2) by (auto simp: buffer_offsets_def)
  have N: "?N < 2 ^ 63" "?z \<le> ?N" using assms(1) i(1) by (auto simp: fs_sizes_ok_def)
  have iz: "i * ?z + ?z \<le> ?N"
    using i(1) by (metis Suc_leI mult_le_mono1 mult_Suc add.commute)
  have b: "word_of_int b = (word_of_nat (i * ?z) :: u64)" by (simp add: i(2))
  have "unat (word_of_nat n :: u64) = n" using assms(3) buffer_size_lt [OF assms(1)] by (intro unat_word_of_nat_lt) simp
  then have "unat (a - fs_buffer_ptr E b) < n" using a by (simp add: word_less_nat_alt)
  moreover have shift: "a - fs_share E = (a - fs_buffer_ptr E b) + word_of_nat (i * ?z)"
    by (simp add: fs_buffer_ptr_def b)
  moreover have "unat (a - fs_buffer_ptr E b + word_of_nat (i * ?z))
      \<le> unat (a - fs_buffer_ptr E b) + unat (word_of_nat (i * ?z) :: u64)"
    unfolding unat_word_ariths(1) by (rule mod_less_eq_dividend)
  moreover have "unat (word_of_nat (i * ?z) :: u64) = i * ?z"
    using iz N by (intro unat_word_of_nat_lt) simp
  ultimately have "unat (a - fs_share E) < ?N"
    unfolding shift using iz assms(3) by linarith
  moreover have "unat (word_of_nat ?N :: u64) = ?N"
    using N by (intro unat_word_of_nat_lt) simp
  ultimately show "a \<in> share_region E"
    unfolding share_region_def mem_block_iff word_less_nat_alt by linarith
qed

definition serves_file :: "fs_env \<Rightarrow> u8 list \<Rightarrow> u64 \<Rightarrow> u8 list \<Rightarrow> bool" where
  "serves_file E path fd data \<longleftrightarrow> (\<forall>cmds m. cmds \<noteq> [] \<longrightarrow>
     (case cmd_body (last cmds) of
        FS_CMD_INITIALISE \<Rightarrow> True
      | FS_CMD_FILE_OPEN b n flags \<Rightarrow> mem_holds m (fs_buffer_ptr E b) (path @ [0]) \<longrightarrow>
          (\<exists>c m'. fs_answers E cmds m c m' \<and> cmpl_status c = FS_STATUS_SUCCESS E \<and> cmpl_fd c = fd
             \<and> agree_outside (share_region E) m m')
      | FS_CMD_FILE_SIZE f \<Rightarrow> f = fd \<longrightarrow>
          (\<exists>c m'. fs_answers E cmds m c m' \<and> cmpl_status c = FS_STATUS_SUCCESS E
             \<and> agree_outside (share_region E) m m')
      | FS_CMD_FILE_READ f pos b n \<Rightarrow> f = fd \<and> b \<in> buffer_offsets E \<and> unat n \<le> FS_BUFFER_SIZE E \<longrightarrow>
          (\<exists>c m'. fs_answers E cmds m c m' \<and> cmpl_status c = FS_STATUS_SUCCESS E
             \<and> cmpl_len_read c = word_of_nat (length (take (unat n) (drop (unat pos) data)))
             \<and> mem_holds m' (fs_buffer_ptr E b) (take (unat n) (drop (unat pos) data))
             \<and> agree_outside (share_region E) m m')
      | FS_CMD_FILE_CLOSE f \<Rightarrow> f = fd \<longrightarrow>
          (\<exists>c m'. fs_answers E cmds m c m' \<and> cmpl_status c = FS_STATUS_SUCCESS E
             \<and> agree_outside (share_region E) m m')))"

section \<open>One step of the client\<close>

text \<open>\<open>vfs_ready\<close>: a command can be sent and a buffer is free.\<close>

definition vfs_ready :: "fs_env \<Rightarrow> 'a fs_state_scheme \<Rightarrow> bool" where
  "vfs_ready E s \<longleftrightarrow> fs_ready E s \<and> (\<exists>u \<in> set (buffer_table s). \<not> u)"

lemma with_buffer:
  assumes "vfs_ready E s"
  obtains s1 b where "fs_buffer_allocate E s = Some (s1, b)" and "fs_ready E s1"
    and "memory s1 = memory s" and "issued s1 = issued s" and "b \<in> buffer_offsets E"
    and "\<And>t :: 'a fs_state_scheme. fs_ready E t \<Longrightarrow> buffer_table t = buffer_table s1 \<Longrightarrow>
      fs_buffer_free E b t = Inr (t\<lparr>buffer_table := buffer_table s,
        memory := mem_fill (memory t) (fs_buffer_ptr E b) (word_of_nat (FS_BUFFER_SIZE E)) 0\<rparr>)"
proof -
  have r: "fs_ready E s" and wf: "fs_wf E s" using assms by (simp_all add: vfs_ready_def fs_ready_def)
  have "first_index Not (buffer_table s) \<noteq> None" using assms by (simp add: vfs_ready_def)
  then obtain i where i: "first_index Not (buffer_table s) = Some i"
    by (cases "first_index Not (buffer_table s)") (simp_all del: first_index_None_iff)
  let ?s1 = "s\<lparr>buffer_table := (buffer_table s)[i := True]\<rparr>" and ?b = "int i * int (FS_BUFFER_SIZE E)"
  have al: "fs_buffer_allocate E s = Some (?s1, ?b)" by (simp add: fs_buffer_allocate_def i)
  have lt: "i < NUM_BUFFERS E" "\<not> buffer_table s ! i"
    using first_index_SomeD [OF i] wf by (simp_all add: fs_wf_def)
  have same: "(buffer_table s)[i := False] = buffer_table s"
    using lt(2) list_update_id [of "buffer_table s" i] by simp
  have free: "fs_buffer_free E ?b t = Inr (t\<lparr>buffer_table := buffer_table s,
        memory := mem_fill (memory t) (fs_buffer_ptr E ?b) (word_of_nat (FS_BUFFER_SIZE E)) 0\<rparr>)"
    if "fs_ready E t" and "buffer_table t = (buffer_table s)[i := True]" for t :: "'a fs_state_scheme"
    using buffer_free_index [of E t i] that lt wf same by (simp add: fs_ready_def fs_wf_def)
  have "?b \<in> buffer_offsets E" unfolding buffer_offsets_def using lt(1) by blast
  then show ?thesis
    by (intro that [OF al]) (use r lt free in simp_all)
qed

lemma readfile_reads:
  assumes srv: "serves_file E path fd data" and ready: "vfs_ready E s"
    and pos: "p \<le> length data" and len: "length data < 2 ^ 63"
    and dest: "block dest (word_of_nat (length (take (FS_BUFFER_SIZE E) (drop p data)))) \<inter> share_region E = {}"
  defines "xs \<equiv> take (FS_BUFFER_SIZE E) (drop p data)"
  shows "\<exists>s'. readfile E dest (word_of_nat (FS_BUFFER_SIZE E)) fd (word_of_nat p) s
       = Inr (word_of_nat (p + length xs), s')
     \<and> mem_holds (memory s') dest xs \<and> vfs_ready E s' \<and> buffer_table s' = buffer_table s
     \<and> agree_outside (block dest (word_of_nat (length xs)) \<union> share_region E) (memory s) (memory s')"
proof -
  have ok: "fs_sizes_ok E" using ready by (simp add: vfs_ready_def fs_ready_def fs_wf_def)
  note z = buffer_size_lt [OF ok]
  have uz: "unat (word_of_nat (FS_BUFFER_SIZE E) :: u64) = FS_BUFFER_SIZE E"
      and up: "unat (word_of_nat p :: u64) = p"
    using z pos len by (simp_all add: unat_word_of_nat_lt)
  obtain s1 b where b: "fs_buffer_allocate E s = Some (s1, b)" "fs_ready E s1" "memory s1 = memory s"
    "b \<in> buffer_offsets E" "\<And>t :: 'a fs_state_scheme. fs_ready E t \<Longrightarrow> buffer_table t = buffer_table s1 \<Longrightarrow>
      fs_buffer_free E b t = Inr (t\<lparr>buffer_table := buffer_table s,
        memory := mem_fill (memory t) (fs_buffer_ptr E b) (word_of_nat (FS_BUFFER_SIZE E)) 0\<rparr>)"
    using with_buffer [OF ready] by metis
  let ?body = "FS_CMD_FILE_READ fd (word_of_nat p) b (word_of_nat (FS_BUFFER_SIZE E))"
  let ?cmds = "issued s1 @ [\<lparr>cmd_id = word_of_nat (next_request s1), cmd_body = ?body\<rparr>]"
  obtain c m' where a: "fs_answers E ?cmds (memory s1) c m'" "cmpl_status c = FS_STATUS_SUCCESS E"
    "cmpl_len_read c = word_of_nat (length xs)" "mem_holds m' (fs_buffer_ptr E b) xs"
    "agree_outside (share_region E) (memory s1) m'"
    using srv [unfolded serves_file_def, rule_format, of ?cmds "memory s1"] b(4)
    by (auto simp: uz up xs_def)
  let ?t = "fs_answered ?body c m' s1"
  note cmd = fs_command_blocking_answered [OF b(2) a(1), where x = None]
  have tr: "fs_ready E ?t" using b(2) by (rule fs_answered_ready)
  have xl: "length xs \<le> FS_BUFFER_SIZE E" "length xs < 2 ^ 64" using z by (simp_all add: xs_def)
  let ?m2 = "mem_copy m' dest (fs_buffer_ptr E b) (word_of_nat (length xs))"
  let ?m3 = "mem_fill ?m2 (fs_buffer_ptr E b) (word_of_nat (FS_BUFFER_SIZE E)) 0"
  let ?s' = "?t\<lparr>buffer_table := buffer_table s, memory := ?m3\<rparr>"
  have "readfile E dest (word_of_nat (FS_BUFFER_SIZE E)) fd (word_of_nat p) s
       = Inr (word_of_nat (p + length xs), ?s')"
    using b(5) [of "?t\<lparr>memory := ?m2\<rparr>"] tr by (simp add: readfile_def b(1) cmd a(2,3) Let_def)
  moreover have "mem_holds ?m3 dest xs"
  proof -
    have inside: "?m3 (dest + word_of_nat i) = xs ! i" if i: "i < length xs" for i
    proof -
      have ui: "unat (word_of_nat i :: u64) = i" "unat (word_of_nat (length xs) :: u64) = length xs"
        using i xl by (simp_all add: unat_word_of_nat_lt)
      then have blk: "dest + word_of_nat i \<in> block dest (word_of_nat (length xs))"
        using i by (simp add: word_less_nat_alt)
      then have "dest + word_of_nat i \<notin> block (fs_buffer_ptr E b) (word_of_nat (FS_BUFFER_SIZE E))"
        using dest buffer_in_share [OF ok b(4), of "FS_BUFFER_SIZE E"] unfolding xs_def by blast
      then have "?m3 (dest + word_of_nat i) = ?m2 (dest + word_of_nat i)" by (rule mem_fill_outside)
      also have "\<dots> = m' (fs_buffer_ptr E b + word_of_nat i)"
        using i ui by (intro mem_copy_inside) (simp add: word_less_nat_alt)
      also have "\<dots> = xs ! i"
        using a(4) i nth_mem_read [of i "length xs" m' "fs_buffer_ptr E b"] by (simp add: mem_holds_def)
      finally show ?thesis .
    qed
    show ?thesis unfolding mem_holds_def by (rule nth_equalityI) (simp_all add: inside)
  qed
  moreover have "vfs_ready E ?s'"
    using tr ready by (simp add: vfs_ready_def fs_ready_def fs_wf_def)
  moreover have "agree_outside (block dest (word_of_nat (length xs)) \<union> share_region E) (memory s) (memory ?s')"
  proof -
    let ?A = "block dest (word_of_nat (length xs)) \<union> share_region E"
    have "agree_outside ?A m' ?m2" by (rule agree_outside_copy) blast
    moreover have "agree_outside ?A ?m2 ?m3"
      using buffer_in_share [OF ok b(4), of "FS_BUFFER_SIZE E"] by (intro agree_outside_fill) blast
    ultimately have "agree_outside ?A m' ?m3" by (rule agree_outside_trans) simp
    then show ?thesis using agree_outside_trans [OF a(5), of ?A ?m3 ?A] b(3) by simp
  qed
  ultimately show ?thesis by (intro exI [of _ ?s'] conjI) simp_all
qed

lemma mem_write_share:
  assumes "fs_sizes_ok E" and "b \<in> buffer_offsets E" and "length bs \<le> FS_BUFFER_SIZE E"
  shows "agree_outside (share_region E) m (mem_write m (fs_buffer_ptr E b) bs)"
  unfolding agree_outside_def
proof (intro allI impI)
  fix a assume a: "a \<notin> share_region E"
  have un: "unat (word_of_nat (length bs) :: u64) = length bs"
    using assms(3) buffer_size_lt [OF assms(1)] by (intro unat_word_of_nat_lt) simp
  have "a \<notin> block (fs_buffer_ptr E b) (word_of_nat (length bs))"
    using a buffer_in_share [OF assms] by blast
  then have "length bs \<le> unat (a - fs_buffer_ptr E b)"
    unfolding mem_block_iff word_less_nat_alt un by simp
  then show "mem_write m (fs_buffer_ptr E b) bs a = m a" by (rule mem_write_outside)
qed

lemma openfile_opens:
  assumes srv: "serves_file E path fd data" and ready: "vfs_ready E s"
    and name: "length path < FS_BUFFER_SIZE E"
  shows "\<exists>s'. openfile E path s = Inr (fd, s') \<and> vfs_ready E s' \<and> buffer_table s' = buffer_table s
     \<and> agree_outside (share_region E) (memory s) (memory s')"
proof -
  have ok: "fs_sizes_ok E" using ready by (simp add: vfs_ready_def fs_ready_def fs_wf_def)
  obtain s1 b where b: "fs_buffer_allocate E s = Some (s1, b)" "fs_ready E s1" "memory s1 = memory s"
    "b \<in> buffer_offsets E" "\<And>t :: 'a fs_state_scheme. fs_ready E t \<Longrightarrow> buffer_table t = buffer_table s1 \<Longrightarrow>
      fs_buffer_free E b t = Inr (t\<lparr>buffer_table := buffer_table s,
        memory := mem_fill (memory t) (fs_buffer_ptr E b) (word_of_nat (FS_BUFFER_SIZE E)) 0\<rparr>)"
    using with_buffer [OF ready] by metis
  let ?m1 = "mem_write (memory s1) (fs_buffer_ptr E b) (path @ [0])"
  let ?s2 = "s1\<lparr>memory := ?m1\<rparr>"
  have s2: "fs_ready E ?s2" using b(2) by simp
  let ?open = "FS_CMD_FILE_OPEN b (word_of_nat (length path + 1)) 0"
  let ?cmds = "issued ?s2 @ [\<lparr>cmd_id = word_of_nat (next_request ?s2), cmd_body = ?open\<rparr>]"
  have "mem_holds ?m1 (fs_buffer_ptr E b) (path @ [0])"
    using name buffer_size_lt [OF ok] by (intro mem_holds_mem_write) simp
  then obtain c m2 where a: "fs_answers E ?cmds (memory ?s2) c m2" "cmpl_status c = FS_STATUS_SUCCESS E"
    "cmpl_fd c = fd" "agree_outside (share_region E) ?m1 m2"
    using srv [unfolded serves_file_def, rule_format, of ?cmds "memory ?s2"] by auto
  let ?t = "fs_answered ?open c m2 ?s2"
  let ?m3 = "mem_fill m2 (fs_buffer_ptr E b) (word_of_nat (FS_BUFFER_SIZE E)) 0"
  let ?u = "?t\<lparr>buffer_table := buffer_table s, memory := ?m3\<rparr>"
  note cmd = fs_command_blocking_answered [OF s2 a(1), where x = None]
  have tr: "fs_ready E ?t" using s2 by (rule fs_answered_ready)
  have free: "fs_buffer_free E b ?t = Inr ?u" using b(5) [OF tr] by simp
  have ur: "fs_ready E ?u" using tr ready by (simp add: vfs_ready_def fs_ready_def fs_wf_def)
  let ?cmds2 = "issued ?u @ [\<lparr>cmd_id = word_of_nat (next_request ?u), cmd_body = FS_CMD_FILE_SIZE fd\<rparr>]"
  obtain c2 m4 where a2: "fs_answers E ?cmds2 (memory ?u) c2 m4" "cmpl_status c2 = FS_STATUS_SUCCESS E"
    "agree_outside (share_region E) (memory ?u) m4"
    using srv [unfolded serves_file_def, rule_format, of ?cmds2 "memory ?u"] by auto
  let ?v = "fs_answered (FS_CMD_FILE_SIZE fd) c2 m4 ?u"
  note cmd2 = fs_command_blocking_answered [OF ur a2(1), where x = "Some c"]
  have "openfile E path s = Inr (fd, ?v)"
    using cmd cmd2 free by (simp add: openfile_def b(1) a(2,3) a2(2) Let_def)
  moreover have "vfs_ready E ?v"
    using fs_answered_ready(1) [OF ur, of "FS_CMD_FILE_SIZE fd" c2 m4] ready by (simp add: vfs_ready_def)
  moreover have "agree_outside (share_region E) (memory s) (memory ?v)"
  proof -
    have "agree_outside (share_region E) (memory s) ?m1"
      using mem_write_share [OF ok b(4), of "path @ [0]"] name b(3) by simp
    moreover have "agree_outside (share_region E) m2 ?m3"
      using buffer_in_share [OF ok b(4), of "FS_BUFFER_SIZE E"] by (intro agree_outside_fill) blast
    ultimately show ?thesis
      using a(4) a2(3) by (simp add: agree_outside_def)
  qed
  ultimately show ?thesis by (intro exI [of _ ?v] conjI) simp_all
qed

lemma closefile_closes:
  assumes srv: "serves_file E path fd data" and ready: "vfs_ready E s"
  shows "\<exists>s'. closefile E fd s = Inr s' \<and> vfs_ready E s' \<and> buffer_table s' = buffer_table s
     \<and> agree_outside (share_region E) (memory s) (memory s')
     \<and> cmd_body (last (issued s')) = FS_CMD_FILE_CLOSE fd"
proof -
  have r: "fs_ready E s" using ready by (simp add: vfs_ready_def)
  let ?cmds = "issued s @ [\<lparr>cmd_id = word_of_nat (next_request s), cmd_body = FS_CMD_FILE_CLOSE fd\<rparr>]"
  obtain c m where a: "fs_answers E ?cmds (memory s) c m" "agree_outside (share_region E) (memory s) m"
    using srv [unfolded serves_file_def, rule_format, of ?cmds "memory s"] by auto
  show ?thesis
    using fs_command_blocking_answered [OF r a(1), where x = None] fs_answered_ready(1) [OF r] ready a(2)
    by (intro exI [of _ "fs_answered (FS_CMD_FILE_CLOSE fd) c m s"])
      (simp add: closefile_def vfs_ready_def)
qed

text \<open>The loop: from the position \<open>p\<close> it reads the rest of the file to the destination.\<close>

lemma block_split:
  assumes "p \<le> n" and "n < 2 ^ 64"
  shows "block (d + word_of_nat p) (word_of_nat (n - p)) \<subseteq> block d (word_of_nat n :: u64)"
proof
  fix a assume a: "a \<in> block (d + word_of_nat p) (word_of_nat (n - p))"
  have un: "unat (word_of_nat p :: u64) = p" "unat (word_of_nat (n - p) :: u64) = n - p"
    "unat (word_of_nat n :: u64) = n"
    using assms by (simp_all add: unat_word_of_nat_lt del: of_nat_diff)
  have "a - d = (a - (d + word_of_nat p)) + word_of_nat p" by simp
  then have "unat (a - d) \<le> unat (a - (d + word_of_nat p)) + p"
    using un(1) by (metis unat_word_ariths(1) mod_less_eq_dividend)
  then show "a \<in> block d (word_of_nat n)"
    using a assms unfolding mem_block_iff word_less_nat_alt un by linarith
qed

lemma mem_holds_agree:
  assumes "mem_holds m p xs" and "agree_outside A m m'"
    and "A \<inter> block p (word_of_nat (length xs)) = {}" and "length xs < 2 ^ 64"
  shows "mem_holds m' p xs"
  unfolding mem_holds_def
proof (rule nth_equalityI)
  fix i assume "i < length (mem_read m' p (length xs))"
  then have i: "i < length xs" by simp
  then have "unat (word_of_nat i :: u64) = i" "unat (word_of_nat (length xs) :: u64) = length xs"
    using assms(4) by (simp_all add: unat_word_of_nat_lt)
  then have "p + word_of_nat i \<in> block p (word_of_nat (length xs))"
    using i by (simp add: word_less_nat_alt)
  then have "m' (p + word_of_nat i) = m (p + word_of_nat i)"
    using assms(2,3) by (auto simp: agree_outside_def)
  also have "\<dots> = xs ! i"
    using assms(1) i nth_mem_read [of i "length xs" m p] by (simp add: mem_holds_def)
  finally show "mem_read m' p (length xs) ! i = xs ! i" using i by simp
qed simp

lemma blocks_disjoint:
  assumes "n + k < 2 ^ 64"
  shows "block p (word_of_nat n) \<inter> block (p + word_of_nat n :: u64) (word_of_nat k) = {}"
proof (rule equals0I)
  fix a assume a: "a \<in> block p (word_of_nat n) \<inter> block (p + word_of_nat n) (word_of_nat k)"
  have un: "unat (word_of_nat n :: u64) = n" "unat (word_of_nat k :: u64) = k"
    using assms by (simp_all add: unat_word_of_nat_lt)
  have lt: "unat (a - p) < n" "unat (a - (p + word_of_nat n)) < k"
    using a unfolding Int_iff mem_block_iff word_less_nat_alt un by blast+
  have "a - p = (a - (p + word_of_nat n)) + word_of_nat n" by simp
  then have "unat (a - p) = (unat (a - (p + word_of_nat n)) + n) mod 2 ^ 64"
    using un(1) unat_word_ariths(1) [of "a - (p + word_of_nat n)" "word_of_nat n"] by simp
  also have "\<dots> = unat (a - (p + word_of_nat n)) + n"
    using lt(2) assms by (intro mod_less) linarith
  finally show False using lt(1) by simp
qed

lemma read_loop_reads:
  assumes srv: "serves_file E path fd data"
    and len: "length data < 2 ^ 63"
    and dest: "block dest (word_of_nat (length data)) \<inter> share_region E = {}"
  shows "\<lbrakk>length data - p < fuel; p \<le> length data; vfs_ready E s\<rbrakk> \<Longrightarrow>
    \<exists>s'. read_loop fuel E (dest + word_of_nat p) fd (word_of_nat p) s
        = Inr (Some (word_of_nat (length data)), s')
      \<and> mem_holds (memory s') (dest + word_of_nat p) (drop p data) \<and> vfs_ready E s'
      \<and> buffer_table s' = buffer_table s
      \<and> agree_outside (block (dest + word_of_nat p) (word_of_nat (length data - p)) \<union> share_region E)
          (memory s) (memory s')"
proof (induction fuel arbitrary: p s)
  case (Suc fuel)
  let ?xs = "take (FS_BUFFER_SIZE E) (drop p data)" and ?d = "dest + word_of_nat p :: u64"
  let ?n = "length ?xs" and ?A = "\<lambda>p. block (dest + word_of_nat p :: u64) (word_of_nat (length data - p)) \<union> share_region E"
  have ok: "fs_sizes_ok E" using Suc.prems(3) by (simp add: vfs_ready_def fs_ready_def fs_wf_def)
  have n: "?n \<le> length data - p" by simp
  have sub: "block ?d (word_of_nat (length data - p)) \<subseteq> block dest (word_of_nat (length data))"
    using Suc.prems(2) len by (intro block_split) simp_all
  have sub1: "block ?d (word_of_nat ?n) \<subseteq> block ?d (word_of_nat (length data - p))"
    using n len by (auto simp: block_def word_less_nat_alt unat_word_of_nat_lt intro: less_le_trans)
  have clear: "block ?d (word_of_nat ?n) \<inter> share_region E = {}" using sub sub1 dest by blast
  then obtain s1 where s1: "readfile E ?d (word_of_nat (FS_BUFFER_SIZE E)) fd (word_of_nat p) s
       = Inr (word_of_nat (p + ?n), s1)" "mem_holds (memory s1) ?d ?xs" "vfs_ready E s1"
     "buffer_table s1 = buffer_table s"
     "agree_outside (block ?d (word_of_nat ?n) \<union> share_region E) (memory s) (memory s1)"
    using readfile_reads [OF srv Suc.prems(3,2) len] by blast
  have un: "unat (word_of_nat (p + ?n) :: u64) = p + ?n" "unat (word_of_nat p :: u64) = p"
    using n Suc.prems(2) len by (simp_all add: unat_word_of_nat_lt del: length_take length_drop of_nat_add)
  have not1: "(word_of_nat (p + ?n) :: u64) \<noteq> -1"
  proof
    assume "(word_of_nat (p + ?n) :: u64) = -1"
    then have "p + ?n = unat (-1 :: u64)" using un(1) by metis
    also have "\<dots> = 18446744073709551615" by (simp add: unsigned_minus_1_eq_mask mask_eq_exp_minus_1)
    finally have "p + ?n = 18446744073709551615" .
    moreover have "p + ?n < 2 ^ 63" using n Suc.prems(2) len by linarith
    ultimately show False by (simp del: length_take length_drop)
  qed
  have eq: "(word_of_nat (p + ?n) :: u64) = word_of_nat p \<longleftrightarrow> ?n = 0"
    using un by (simp add: word_unat_eq_iff del: length_take length_drop of_nat_add)
  show ?case
  proof (cases "?n = 0")
    case True
    then have p: "p = length data" using Suc.prems(2) ok by (auto simp: fs_sizes_ok_def)
    then show ?thesis
      using s1 not1 eq by (intro exI [of _ s1]) simp
  next
    case False
    have q: "p + ?n \<le> length data" "length data - (p + ?n) < fuel" using False n Suc.prems by linarith+
    obtain s2 where s2: "read_loop fuel E (dest + word_of_nat (p + ?n)) fd (word_of_nat (p + ?n)) s1
        = Inr (Some (word_of_nat (length data)), s2)"
      "mem_holds (memory s2) (dest + word_of_nat (p + ?n)) (drop (p + ?n) data)" "vfs_ready E s2"
      "buffer_table s2 = buffer_table s1" "agree_outside (?A (p + ?n)) (memory s1) (memory s2)"
      using Suc.IH [OF q(2,1) s1(3)] by blast
    have d2: "dest + word_of_nat (p + ?n) = ?d + word_of_nat ?n" by simp
    have "read_loop (Suc fuel) E ?d fd (word_of_nat p) s = Inr (Some (word_of_nat (length data)), s2)"
      using s1(1) s2(1) not1 eq False
      by (simp add: d2 algebra_simps del: length_take length_drop)
    moreover have "mem_holds (memory s2) ?d (drop p data)"
    proof -
      have "?n + (length data - (p + ?n)) \<le> length data" using q(1) by linarith
      also have "length data < 2 ^ 64" using len by simp
      finally have "?n + (length data - (p + ?n)) < 2 ^ 64" .
      from blocks_disjoint [OF this, of ?d] clear
      have "?A (p + ?n) \<inter> block ?d (word_of_nat ?n) = {}" unfolding d2 by blast
      then have "mem_holds (memory s2) ?d ?xs"
        using n len by (intro mem_holds_agree [OF s1(2) s2(5)]) simp_all
      moreover have "drop p data = ?xs @ drop (p + ?n) data"
        by (metis append_take_drop_id drop_drop add.commute append_eq_conv_conj length_take)
      ultimately show ?thesis using s2(2) unfolding d2 by (metis mem_holds_append)
    qed
    moreover have "agree_outside (?A p) (memory s) (memory s2)"
    proof (rule agree_outside_trans [OF s1(5) s2(5)])
      have "block (?d + word_of_nat ?n) (word_of_nat (length data - p - ?n)) \<subseteq> block ?d (word_of_nat (length data - p))"
        using n len by (intro block_split) simp_all
      then show "block ?d (word_of_nat ?n) \<union> share_region E \<union> ?A (p + ?n) \<subseteq> ?A p"
        using sub1 unfolding d2 by (auto simp: diff_diff_left simp del: length_take length_drop)
    qed
    ultimately show ?thesis using s1(4) s2 by (intro exI [of _ s2] conjI) simp_all
  qed
qed simp

lemma read_loop_more_fuel:
  "read_loop fuel E buf fd pos s = r \<Longrightarrow> r \<noteq> Inl Spin \<Longrightarrow> read_loop (fuel + k) E buf fd pos s = r"
proof (induction fuel arbitrary: buf pos s)
  case (Suc fuel)
  show ?case
  proof (cases "readfile E buf (word_of_nat (FS_BUFFER_SIZE E)) fd pos s")
    case (Inr r)
    then show ?thesis using Suc by (cases r) (auto split: if_splits)
  qed (use Suc in auto)
qed simp

section \<open>Servers that report errors\<close>

text \<open>\<open>answers_with\<close>: every command is answered, with the status \<open>st\<close> gives it.\<close>

definition answers_with :: "fs_env \<Rightarrow> u64 \<Rightarrow> (fs_body \<Rightarrow> u64) \<Rightarrow> bool" where
  "answers_with E fd st \<longleftrightarrow> (\<forall>cmds m. cmds \<noteq> [] \<longrightarrow>
     (\<exists>c m'. fs_answers E cmds m c m' \<and> cmpl_status c = st (cmd_body (last cmds)) \<and> cmpl_fd c = fd))"

lemma answered_command:
  assumes "answers_with E fd st" and "fs_ready E s"
  obtains c m where "fs_command_blocking E body x s = Inr (0, Some c, fs_answered body c m s)"
    and "cmpl_status c = st body" and "cmpl_fd c = fd" and "fs_ready E (fs_answered body c m s)"
proof -
  let ?cmds = "issued s @ [\<lparr>cmd_id = word_of_nat (next_request s), cmd_body = body\<rparr>]"
  obtain c m where a: "fs_answers E ?cmds (memory s) c m" "cmpl_status c = st body" "cmpl_fd c = fd"
    using assms(1) [unfolded answers_with_def, rule_format, of ?cmds "memory s"] by auto
  show ?thesis
    using that [OF fs_command_blocking_answered [OF assms(2) a(1)] a(2,3) fs_answered_ready(1) [OF assms(2)]] .
qed

text \<open>
  Up to the answer about the size \<open>openfile\<close> has given its buffer back, whatever the server's
  further answers are.
\<close>

lemma openfile_status:
  assumes srv: "answers_with E fd st" and ready: "vfs_ready E s"
    and "\<And>b n. st (FS_CMD_FILE_OPEN b n 0) = FS_STATUS_SUCCESS E"
  obtains s' b c cmd cmd' where "fs_ready E s'" and "buffer_table s' = buffer_table s"
    and "\<not> buffer_used E s b" and "b \<in> buffer_offsets E"
    and "issued s' = issued s @ [cmd, cmd']" and "cmd_body cmd' = FS_CMD_FILE_SIZE fd"
    and "cmd_body cmd = FS_CMD_FILE_OPEN b (word_of_nat (length path + 1)) 0"
    and "openfile E path s =
      (if st (FS_CMD_FILE_SIZE fd) = FS_STATUS_SUCCESS E then Inr (fd, s')
       else bindR (fs_command_blocking E (FS_CMD_FILE_CLOSE fd) (Some c) s') (\<lambda>(_, _, s).
            bindR (fs_buffer_free E b s) (\<lambda>s. Inr (-1, s))))"
proof -
  have r: "fs_ready E s" and wf: "fs_wf E s" using ready by (simp_all add: vfs_ready_def fs_ready_def)
  obtain s1 b where b: "fs_buffer_allocate E s = Some (s1, b)" "fs_ready E s1" "issued s1 = issued s"
    "b \<in> buffer_offsets E" "\<And>t :: 'a fs_state_scheme. fs_ready E t \<Longrightarrow> buffer_table t = buffer_table s1 \<Longrightarrow>
      fs_buffer_free E b t = Inr (t\<lparr>buffer_table := buffer_table s,
        memory := mem_fill (memory t) (fs_buffer_ptr E b) (word_of_nat (FS_BUFFER_SIZE E)) 0\<rparr>)"
    using with_buffer [OF ready] by metis
  define s2 where "s2 = s1\<lparr>memory := mem_write (memory s1) (fs_buffer_ptr E b) (path @ [0])\<rparr>"
  let ?open = "FS_CMD_FILE_OPEN b (word_of_nat (length path + 1)) 0"
  have s2: "fs_ready E s2" "buffer_table s2 = buffer_table s1" "issued s2 = issued s"
    using b(2,3) by (simp_all add: s2_def)
  obtain c m where a: "fs_command_blocking E ?open None s2 = Inr (0, Some c, fs_answered ?open c m s2)"
    "cmpl_status c = st ?open" "cmpl_fd c = fd" "fs_ready E (fs_answered ?open c m s2)"
    by (rule answered_command [OF srv s2(1)])
  define t where "t = fs_answered ?open c m s2"
  have t: "buffer_table t = buffer_table s1" "issued t = issued s @ [\<lparr>cmd_id = word_of_nat (next_request s2), cmd_body = ?open\<rparr>]"
    using s2 by (simp_all add: t_def)
  define u where "u = t\<lparr>buffer_table := buffer_table s,
      memory := mem_fill (memory t) (fs_buffer_ptr E b) (word_of_nat (FS_BUFFER_SIZE E)) 0\<rparr>"
  have free: "fs_buffer_free E b t = Inr u" using b(5) [OF a(4)] t by (simp add: t_def u_def)
  have u: "fs_ready E u" "buffer_table u = buffer_table s" "issued u = issued t"
    using a(4) ready by (simp_all add: u_def t_def vfs_ready_def fs_ready_def fs_wf_def)
  obtain c2 m2 where a2: "fs_command_blocking E (FS_CMD_FILE_SIZE fd) (Some c) u
       = Inr (0, Some c2, fs_answered (FS_CMD_FILE_SIZE fd) c2 m2 u)"
    "cmpl_status c2 = st (FS_CMD_FILE_SIZE fd)" "cmpl_fd c2 = fd"
    "fs_ready E (fs_answered (FS_CMD_FILE_SIZE fd) c2 m2 u)"
    by (rule answered_command [OF srv u(1)])
  define v where "v = fs_answered (FS_CMD_FILE_SIZE fd) c2 m2 u"
  have unused: "\<not> buffer_used E s b" using buffer_pool.alloc_Some [OF wf b(1)] by simp
  have o: "openfile E path s =
      (if st (FS_CMD_FILE_SIZE fd) = FS_STATUS_SUCCESS E then Inr (fd, v)
       else bindR (fs_command_blocking E (FS_CMD_FILE_CLOSE fd) (Some c2) v) (\<lambda>(_, _, s).
            bindR (fs_buffer_free E b s) (\<lambda>s. Inr (-1, s))))"
    unfolding openfile_def b(1) option.case prod.case Let_def s2_def [symmetric] a(1) t_def [symmetric]
      bindR_simps free a(2,3) assms(3) a2(1) v_def [symmetric] a2(2)
    by simp
  have i: "issued v = issued s @ [\<lparr>cmd_id = word_of_nat (next_request s2), cmd_body = ?open\<rparr>,
      \<lparr>cmd_id = word_of_nat (next_request u), cmd_body = FS_CMD_FILE_SIZE fd\<rparr>]"
    by (simp add: v_def u t)
  show ?thesis
  proof (rule that [of v b _ _ c2])
    show "fs_ready E v" using a2(4) by (simp add: v_def)
    show "buffer_table v = buffer_table s" using u by (simp add: v_def)
    show "issued v = issued s @ [\<lparr>cmd_id = word_of_nat (next_request s2), cmd_body = ?open\<rparr>,
      \<lparr>cmd_id = word_of_nat (next_request u), cmd_body = FS_CMD_FILE_SIZE fd\<rparr>]" by (rule i)
  qed (use unused b(4) o in simp_all)
qed

section \<open>An example server\<close>

text \<open>
  A server with one file of 20 bytes and buffers of 16 bytes; and one that answers every command
  with a fixed status per kind of command.
\<close>

definition ex_data :: "u8 list" where
  "ex_data = map word_of_nat [0..<20]"

definition ex_file_server :: "fs_cmd list \<Rightarrow> mem \<Rightarrow> fs_wake list" where
  "ex_file_server cmds m =
     (let answer = \<lambda>l m'. [\<lparr>wake_consumed = 1, wake_completions =
            [\<lparr>cmpl_id = cmd_id (last cmds), cmpl_status = 0, cmpl_fd = 7, cmpl_len_read = l\<rparr>],
            wake_memory = m'\<rparr>]
      in case cmd_body (last cmds) of
           FS_CMD_FILE_READ f pos b n \<Rightarrow>
             let chunk = take (unat n) (drop (unat pos) ex_data)
             in answer (word_of_nat (length chunk)) (mem_write m (0x1000 + word_of_int b) chunk)
         | _ \<Rightarrow> answer 0 m)"

definition ex_status_server :: "(fs_body \<Rightarrow> u64) \<Rightarrow> fs_cmd list \<Rightarrow> mem \<Rightarrow> fs_wake list" where
  "ex_status_server st cmds m = [\<lparr>wake_consumed = 1, wake_completions =
     [\<lparr>cmpl_id = cmd_id (last cmds), cmpl_status = st (cmd_body (last cmds)), cmpl_fd = 7,
       cmpl_len_read = 0\<rparr>], wake_memory = m\<rparr>]"

definition ex_fs_env :: "(fs_cmd list \<Rightarrow> mem \<Rightarrow> fs_wake list) \<Rightarrow> fs_env" where
  "ex_fs_env srv = \<lparr>FS_QUEUE_CAPACITY = 2, FS_BUFFER_SIZE = 16, FS_STATUS_SUCCESS = 0,
     fs_share = 0x1000, fs_server = srv\<rparr>"

definition ex_request :: request_metadata where
  "ex_request = \<lparr>req_command = \<lparr>cmd_id = 0, cmd_body = FS_CMD_INITIALISE\<rparr>,
     req_completion = \<lparr>cmpl_id = 0, cmpl_status = 0, cmpl_fd = 0, cmpl_len_read = 0\<rparr>,
     req_used = False, req_complete = False\<rparr>"

definition ex_fs_state :: fs_state where
  "ex_fs_state = \<lparr>memory = (\<lambda>_. 0), request_table = [ex_request, ex_request],
     buffer_table = [False, False, False, False, False, False, False, False], fs_command_queue = [], fs_completion_queue = [],
     blocking_wait_set = True, issued = []\<rparr>"

lemma ex_sizes: "fs_sizes_ok (ex_fs_env srv)"
  by (simp add: fs_sizes_ok_def ex_fs_env_def NUM_BUFFERS_def)

lemma ex_vfs_ready: "vfs_ready (ex_fs_env srv) ex_fs_state"
proof -
  have "False \<in> set (buffer_table ex_fs_state)" by (simp add: ex_fs_state_def)
  then have "\<exists>u \<in> set (buffer_table ex_fs_state). \<not> u" by blast
  moreover have "fs_ready (ex_fs_env srv) ex_fs_state"
    by (simp add: fs_ready_def fs_wf_def fs_sizes_ok_def ex_fs_env_def ex_fs_state_def
        ex_request_def NUM_BUFFERS_def)
  ultimately show ?thesis unfolding vfs_ready_def by blast
qed

lemma ex_serves_file: "serves_file (ex_fs_env ex_file_server) path 7 ex_data"
  unfolding serves_file_def
proof (intro allI impI)
  fix cmds :: "fs_cmd list" and m :: mem
  let ?E = "ex_fs_env ex_file_server"
  let ?c = "\<lambda>l. \<lparr>cmpl_id = cmd_id (last cmds), cmpl_status = 0, cmpl_fd = 7, cmpl_len_read = l\<rparr>"
  have ans: "fs_answers ?E cmds m (?c l) m'"
    if "ex_file_server cmds m = [\<lparr>wake_consumed = 1, wake_completions = [?c l], wake_memory = m'\<rparr>]" for l m'
    unfolding fs_answers_def using that
    by (intro exI [of _ "[]"] exI [of _ "\<lparr>wake_consumed = 1, wake_completions = [?c l], wake_memory = m'\<rparr>"])
      (simp add: ex_fs_env_def)
  have same: "agree_outside A m m" for A m by (simp add: agree_outside_def)
  show "case cmd_body (last cmds) of
        FS_CMD_INITIALISE \<Rightarrow> True
      | FS_CMD_FILE_OPEN b n flags \<Rightarrow> mem_holds m (fs_buffer_ptr ?E b) (path @ [0]) \<longrightarrow>
          (\<exists>c m'. fs_answers ?E cmds m c m' \<and> cmpl_status c = FS_STATUS_SUCCESS ?E \<and> cmpl_fd c = 7
             \<and> agree_outside (share_region ?E) m m')
      | FS_CMD_FILE_SIZE f \<Rightarrow> f = 7 \<longrightarrow>
          (\<exists>c m'. fs_answers ?E cmds m c m' \<and> cmpl_status c = FS_STATUS_SUCCESS ?E
             \<and> agree_outside (share_region ?E) m m')
      | FS_CMD_FILE_READ f pos b n \<Rightarrow> f = 7 \<and> b \<in> buffer_offsets ?E \<and> unat n \<le> FS_BUFFER_SIZE ?E \<longrightarrow>
          (\<exists>c m'. fs_answers ?E cmds m c m' \<and> cmpl_status c = FS_STATUS_SUCCESS ?E
             \<and> cmpl_len_read c = word_of_nat (length (take (unat n) (drop (unat pos) ex_data)))
             \<and> mem_holds m' (fs_buffer_ptr ?E b) (take (unat n) (drop (unat pos) ex_data))
             \<and> agree_outside (share_region ?E) m m')
      | FS_CMD_FILE_CLOSE f \<Rightarrow> f = 7 \<longrightarrow>
          (\<exists>c m'. fs_answers ?E cmds m c m' \<and> cmpl_status c = FS_STATUS_SUCCESS ?E
             \<and> agree_outside (share_region ?E) m m')"
  proof (cases "cmd_body (last cmds)")
    case (FS_CMD_FILE_READ f pos b n)
    let ?chunk = "take (unat n) (drop (unat pos) ex_data)"
    let ?m = "mem_write m (fs_buffer_ptr ?E b) ?chunk"
    have a: "fs_answers ?E cmds m (?c (word_of_nat (length ?chunk))) ?m"
      by (rule ans) (simp add: ex_file_server_def FS_CMD_FILE_READ fs_buffer_ptr_def ex_fs_env_def)
    have "agree_outside (share_region ?E) m ?m" if "b \<in> buffer_offsets ?E" "unat n \<le> FS_BUFFER_SIZE ?E"
      using that by (intro mem_write_share ex_sizes) simp_all
    moreover have "mem_holds ?m (fs_buffer_ptr ?E b) ?chunk"
      by (rule mem_holds_mem_write) (simp add: ex_data_def)
    ultimately have "b \<in> buffer_offsets ?E \<and> unat n \<le> FS_BUFFER_SIZE ?E \<longrightarrow>
        (\<exists>c m'. fs_answers ?E cmds m c m' \<and> cmpl_status c = FS_STATUS_SUCCESS ?E
             \<and> cmpl_len_read c = word_of_nat (length ?chunk) \<and> mem_holds m' (fs_buffer_ptr ?E b) ?chunk
             \<and> agree_outside (share_region ?E) m m')"
      using a by (intro impI exI [of _ "?c (word_of_nat (length ?chunk))"] exI [of _ ?m])
        (simp add: ex_fs_env_def)
    then show ?thesis by (simp only: FS_CMD_FILE_READ fs_body.case) blast
  qed (use ans [of 0 m] same in \<open>auto simp: ex_file_server_def ex_fs_env_def intro!: exI [of _ "?c 0"] exI [of _ m]\<close>)
qed

lemma ex_answers_with: "answers_with (ex_fs_env (ex_status_server st)) 7 st"
  unfolding answers_with_def
proof (intro allI impI)
  fix cmds :: "fs_cmd list" and m :: mem
  let ?c = "\<lparr>cmpl_id = cmd_id (last cmds), cmpl_status = st (cmd_body (last cmds)), cmpl_fd = 7, cmpl_len_read = 0\<rparr>"
  show "\<exists>c m'. fs_answers (ex_fs_env (ex_status_server st)) cmds m c m'
      \<and> cmpl_status c = st (cmd_body (last cmds)) \<and> cmpl_fd c = 7"
    by (intro exI [of _ ?c] exI [of _ m] conjI, unfold fs_answers_def,
        intro exI [of _ "[]"] exI [of _ "\<lparr>wake_consumed = 1, wake_completions = [?c], wake_memory = m\<rparr>"])
      (simp_all add: ex_fs_env_def ex_status_server_def)
qed

lemma readfile2buf_whole_file:
  assumes srv: "serves_file E path fd data" and ready: "vfs_ready E s"
    and name: "length path < FS_BUFFER_SIZE E" and fd: "fd \<noteq> -1"
    and len: "length data < 2 ^ 63" "length data < fuel"
    and dest: "block buf (word_of_nat (length data)) \<inter> share_region E = {}"
  shows "\<exists>s'. pico_vfs_readfile2buf fuel E buf path s = Inr (0, word_of_nat (length data), s')
     \<and> mem_holds (memory s') buf data
     \<and> agree_outside (block buf (word_of_nat (length data)) \<union> share_region E) (memory s) (memory s')
     \<and> vfs_ready E s' \<and> buffer_table s' = buffer_table s
     \<and> cmd_body (last (issued s')) = FS_CMD_FILE_CLOSE fd"
proof -
  let ?A = "block buf (word_of_nat (length data)) \<union> share_region E"
  obtain s1 where s1: "openfile E path s = Inr (fd, s1)" "vfs_ready E s1" "buffer_table s1 = buffer_table s"
    "agree_outside (share_region E) (memory s) (memory s1)"
    using openfile_opens [OF srv ready name] by blast
  obtain s2 where s2: "read_loop fuel E buf fd 0 s1 = Inr (Some (word_of_nat (length data)), s2)"
    "mem_holds (memory s2) buf data" "vfs_ready E s2" "buffer_table s2 = buffer_table s1"
    "agree_outside ?A (memory s1) (memory s2)"
    using read_loop_reads [OF srv len(1) dest, of 0 fuel s1] len(2) s1(2) by auto
  obtain s3 where s3: "closefile E fd s2 = Inr s3" "vfs_ready E s3" "buffer_table s3 = buffer_table s2"
    "agree_outside (share_region E) (memory s2) (memory s3)"
    "cmd_body (last (issued s3)) = FS_CMD_FILE_CLOSE fd"
    using closefile_closes [OF srv s2(3)] by blast
  have "mem_holds (memory s3) buf data"
    using dest len by (intro mem_holds_agree [OF s2(2) s3(4)]) auto
  moreover have "agree_outside ?A (memory s) (memory s3)"
    using s1(4) s2(5) s3(4) by (simp add: agree_outside_def)
  moreover have "pico_vfs_readfile2buf fuel E buf path s = Inr (0, word_of_nat (length data), s3)"
    using fd by (simp add: pico_vfs_readfile2buf_def s1(1) s2(1) s3(1))
  ultimately show ?thesis using s1(3) s2(4) s3 by (intro exI [of _ s3]) simp
qed

lemma openfile_double_free:
  assumes srv: "answers_with E fd st" and ready: "vfs_ready E s"
    and opens: "\<And>b n. st (FS_CMD_FILE_OPEN b n 0) = FS_STATUS_SUCCESS E"
    and size_fails: "st (FS_CMD_FILE_SIZE fd) \<noteq> FS_STATUS_SUCCESS E"
  shows "openfile E path s = Inl AssertFail"
proof -
  obtain s' b c cmd cmd' where o: "fs_ready E s'" "buffer_table s' = buffer_table s" "\<not> buffer_used E s b"
    "b \<in> buffer_offsets E" "issued s' = issued s @ [cmd, cmd']" "cmd_body cmd' = FS_CMD_FILE_SIZE fd"
    "cmd_body cmd = FS_CMD_FILE_OPEN b (word_of_nat (length path + 1)) 0" "openfile E path s =
      (if st (FS_CMD_FILE_SIZE fd) = FS_STATUS_SUCCESS E then Inr (fd, s')
       else bindR (fs_command_blocking E (FS_CMD_FILE_CLOSE fd) (Some c) s') (\<lambda>(_, _, s).
            bindR (fs_buffer_free E b s) (\<lambda>s. Inr (-1, s))))"
    by (rule openfile_status [OF srv ready opens])
  obtain c2 m where close: "fs_command_blocking E (FS_CMD_FILE_CLOSE fd) (Some c) s'
      = Inr (0, Some c2, fs_answered (FS_CMD_FILE_CLOSE fd) c2 m s')"
    "cmpl_status c2 = st (FS_CMD_FILE_CLOSE fd)" "cmpl_fd c2 = fd"
    "fs_ready E (fs_answered (FS_CMD_FILE_CLOSE fd) c2 m s')"
    by (rule answered_command [OF srv o(1)])
  have "fs_buffer_free E b (fs_answered (FS_CMD_FILE_CLOSE fd) c2 m s') = Inl AssertFail"
    by (rule buffer_pool.release_free) (use close(4) o(2-4) in \<open>simp_all add: fs_ready_def\<close>)
  then show ?thesis unfolding o(8) by (simp add: size_fails close(1))
qed

text \<open>When a read fails, no command follows it.\<close>

lemma read_error_result:
  assumes srv: "answers_with E fd st" and ready: "vfs_ready E s"
    and fails: "\<And>pos b. st (FS_CMD_FILE_READ fd pos b (word_of_nat (FS_BUFFER_SIZE E))) \<noteq> FS_STATUS_SUCCESS E"
  shows "\<exists>s' cmd. read_loop (Suc fuel) E buf fd pos s = Inr (None, s') \<and> issued s' = issued s @ [cmd]
    \<and> (\<exists>b. cmd_body cmd = FS_CMD_FILE_READ fd pos b (word_of_nat (FS_BUFFER_SIZE E)))"
proof -
  obtain s1 b where b: "fs_buffer_allocate E s = Some (s1, b)" "fs_ready E s1" "issued s1 = issued s"
    "\<And>t :: 'a fs_state_scheme. fs_ready E t \<Longrightarrow> buffer_table t = buffer_table s1 \<Longrightarrow>
      fs_buffer_free E b t = Inr (t\<lparr>buffer_table := buffer_table s,
        memory := mem_fill (memory t) (fs_buffer_ptr E b) (word_of_nat (FS_BUFFER_SIZE E)) 0\<rparr>)"
    using with_buffer [OF ready] by metis
  let ?body = "FS_CMD_FILE_READ fd pos b (word_of_nat (FS_BUFFER_SIZE E))"
  obtain c m where a: "fs_command_blocking E ?body None s1 = Inr (0, Some c, fs_answered ?body c m s1)"
    "cmpl_status c = st ?body" "cmpl_fd c = fd" "fs_ready E (fs_answered ?body c m s1)"
    by (rule answered_command [OF srv b(2)])
  define t where "t = fs_answered ?body c m s1"
  have t: "fs_buffer_free E b t = Inr (t\<lparr>buffer_table := buffer_table s,
        memory := mem_fill (memory t) (fs_buffer_ptr E b) (word_of_nat (FS_BUFFER_SIZE E)) 0\<rparr>)"
    using b(4) [OF a(4)] by (simp add: t_def)
  have "readfile E buf (word_of_nat (FS_BUFFER_SIZE E)) fd pos s = Inr (-1, t\<lparr>buffer_table := buffer_table s,
        memory := mem_fill (memory t) (fs_buffer_ptr E b) (word_of_nat (FS_BUFFER_SIZE E)) 0\<rparr>)"
    by (simp add: readfile_def b(1) a(1) t_def [symmetric] a(2) fails t)
  then show ?thesis using b(3) by (simp add: t_def)
qed

lemma readfile2buf_read_error:
  assumes srv: "answers_with E fd st" and ready: "vfs_ready E s" and fd: "fd \<noteq> -1" and fuel: "0 < fuel"
    and opens: "\<And>b n. st (FS_CMD_FILE_OPEN b n 0) = FS_STATUS_SUCCESS E"
    and sizes: "st (FS_CMD_FILE_SIZE fd) = FS_STATUS_SUCCESS E"
    and fails: "\<And>pos b. st (FS_CMD_FILE_READ fd pos b (word_of_nat (FS_BUFFER_SIZE E))) \<noteq> FS_STATUS_SUCCESS E"
  shows "\<exists>s' cmds. pico_vfs_readfile2buf fuel E buf path s = Inr (-1, 0, s')
    \<and> issued s' = issued s @ cmds \<and> (\<exists>b n. FS_CMD_FILE_OPEN b n 0 \<in> cmd_body ` set cmds)
    \<and> FS_CMD_FILE_CLOSE fd \<notin> cmd_body ` set cmds"
proof -
  obtain s1 b c cmd cmd' where o: "fs_ready E s1" "buffer_table s1 = buffer_table s" "\<not> buffer_used E s b"
    "b \<in> buffer_offsets E" "issued s1 = issued s @ [cmd, cmd']" "cmd_body cmd' = FS_CMD_FILE_SIZE fd"
    "cmd_body cmd = FS_CMD_FILE_OPEN b (word_of_nat (length path + 1)) 0" "openfile E path s =
      (if st (FS_CMD_FILE_SIZE fd) = FS_STATUS_SUCCESS E then Inr (fd, s1)
       else bindR (fs_command_blocking E (FS_CMD_FILE_CLOSE fd) (Some c) s1) (\<lambda>(_, _, s).
            bindR (fs_buffer_free E b s) (\<lambda>s. Inr (-1, s))))"
    by (rule openfile_status [OF srv ready opens])
  have "vfs_ready E s1" using o(1,2) ready by (simp add: vfs_ready_def)
  from read_error_result [OF srv this fails] obtain s2 cmd3 b3 where
    r: "read_loop fuel E buf fd 0 s1 = Inr (None, s2)" "issued s2 = issued s1 @ [cmd3]"
    "cmd_body cmd3 = FS_CMD_FILE_READ fd 0 b3 (word_of_nat (FS_BUFFER_SIZE E))"
    using fuel by (cases fuel) (simp, blast)
  have "pico_vfs_readfile2buf fuel E buf path s = Inr (-1, 0, s2)"
    using fd by (simp add: pico_vfs_readfile2buf_def o(8) sizes r(1))
  moreover have "issued s2 = issued s @ [cmd, cmd', cmd3]" by (simp add: r(2) o(5))
  moreover have "FS_CMD_FILE_OPEN b (word_of_nat (length path + 1)) 0 \<in> cmd_body ` set [cmd, cmd', cmd3]"
    using o(7) by simp
  moreover have "FS_CMD_FILE_CLOSE fd \<notin> cmd_body ` set [cmd, cmd', cmd3]"
    using o(6,7) r(3) by simp
  ultimately show ?thesis by blast
qed

lemma blocking_stale:
  assumes wf: "fs_wf E s" and blocking: "blocking_wait_set s"
    and free: "first_index (\<lambda>r. \<not> req_used r) (request_table s) = Some i"
    and stale: "req_complete (request_table s ! i)"
    and room: "length (fs_command_queue s) \<noteq> FS_QUEUE_CAPACITY E"
  shows "\<exists>s'. fs_command_blocking E body x s = Inr (0, Some (req_completion (request_table s ! i)), s')
    \<and> memory s' = memory s"
proof -
  have i: "i < FS_QUEUE_CAPACITY E" "i < length (request_table s)"
    using first_index_SomeD [OF free] wf by (simp_all add: fs_wf_def)
  have ui: "unat (word_of_nat i :: u64) = i" using request_index [of E i] i wf by (simp add: fs_wf_def)
  have max: "i \<le> REQUEST_ID_MAXIMUM E" using i by (simp add: REQUEST_ID_MAXIMUM_def)
  have await: "fs_await E (word_of_nat i) ws t = Inr t" if "req_complete (request_table t ! i)" for ws and t :: "'a fs_state_scheme"
    using that ui by (cases ws) simp_all
  show ?thesis
    using blocking stale room max i
    by (simp add: fs_command_blocking_def fs_request_allocate_def free fs_command_issue_def ui await
        fs_command_complete_def fs_request_free_def)
qed

lemma buffer_block_index:
  assumes ok: "fs_sizes_ok E" and i: "i < NUM_BUFFERS E"
    and a: "a \<in> block (fs_buffer_ptr E (int i * int (FS_BUFFER_SIZE E))) (word_of_nat (FS_BUFFER_SIZE E))"
  shows "unat (a - fs_share E) div FS_BUFFER_SIZE E = i"
proof -
  let ?z = "FS_BUFFER_SIZE E" and ?p = "fs_buffer_ptr E (int i * int (FS_BUFFER_SIZE E))"
  have z: "unat (word_of_nat ?z :: u64) = ?z" and pos: "0 < ?z"
    using ok buffer_size_lt [OF ok] by (simp_all add: unat_word_of_nat_lt fs_sizes_ok_def)
  have r: "unat (a - ?p) < ?z" using a unfolding mem_block_iff word_less_nat_alt z .
  have "Suc i * ?z \<le> NUM_BUFFERS E * ?z" using i by (intro mult_le_mono1) simp
  then have iz: "i * ?z + ?z \<le> NUM_BUFFERS E * ?z" by simp
  have N: "NUM_BUFFERS E * ?z < 2 ^ 63" using ok by (simp add: fs_sizes_ok_def)
  have shift: "a - fs_share E = (a - ?p) + word_of_nat (i * ?z)" by (simp add: fs_buffer_ptr_def)
  have "unat (word_of_nat (i * ?z) :: u64) = i * ?z" using iz N by (intro unat_word_of_nat_lt) simp
  then have "unat (a - fs_share E) = unat (a - ?p) + i * ?z"
    unfolding shift unat_word_ariths(1) using r iz N by (intro trans [OF mod_less]) simp_all
  then show ?thesis using r pos by simp
qed

section \<open>Properties\<close>

text \<open>a command that the server answers, after any number of wake-ups for nothing, returns that
  answer. Everything else but the memory, the history and the record of the request it used is as
  before; in particular the request is free again.\<close>

theorem fs_blocking_answer:
  assumes "fs_ready E s"
    and "fs_answers E (issued s @ [\<lparr>cmd_id = word_of_nat (next_request s), cmd_body = body\<rparr>])
      (memory s) c m"
  shows "fs_command_blocking E body x s = Inr (0, Some c, fs_answered body c m s)
    \<and> fs_ready E (fs_answered body c m s)"
  using fs_command_blocking_answered [OF assms] fs_answered_ready(1) [OF assms(1)] by blast

theorem fs_blocking_answer_witness:
  "\<exists>c. fs_command_blocking (ex_fs_env ex_file_server) (FS_CMD_FILE_SIZE 7) None ex_fs_state
     = Inr (0, Some c, fs_answered (FS_CMD_FILE_SIZE 7) c (\<lambda>_. 0) ex_fs_state) \<and> cmpl_fd c = 7"
proof -
  let ?E = "ex_fs_env ex_file_server"
  let ?cmds = "[\<lparr>cmd_id = word_of_nat (next_request ex_fs_state), cmd_body = FS_CMD_FILE_SIZE 7\<rparr>]"
  let ?c = "\<lparr>cmpl_id = word_of_nat (next_request ex_fs_state), cmpl_status = 0, cmpl_fd = 7, cmpl_len_read = 0\<rparr>"
  have "fs_answers ?E ?cmds (\<lambda>_. 0) ?c (\<lambda>_. 0)"
    unfolding fs_answers_def
    by (intro exI [of _ "[]"] exI [of _ "\<lparr>wake_consumed = 1, wake_completions = [?c], wake_memory = (\<lambda>_. 0)\<rparr>"])
      (simp add: ex_fs_env_def ex_file_server_def)
  moreover have "fs_ready ?E ex_fs_state" using ex_vfs_ready [of ex_file_server] by (simp add: vfs_ready_def)
  ultimately show ?thesis
    using fs_blocking_answer [of ?E ex_fs_state "FS_CMD_FILE_SIZE 7" ?c "\<lambda>_. 0" None]
    by (intro exI [of _ ?c]) (simp add: ex_fs_state_def)
qed

text \<open>the request table never loses a request and detects a double free: a request handed out
  was free, giving it back restores the set of requests in use, and giving it back once more stops
  the program.\<close>

theorem fs_request_accounting:
  assumes "fs_wf E s" and "fs_request_allocate E s = Some (s1, i)"
  shows "\<not> request_used s i \<and> (\<exists>s2. fs_request_free E i s1 = Inr s2
    \<and> (\<forall>j \<in> request_ids E. request_used s2 j \<longleftrightarrow> request_used s j)
    \<and> fs_request_free E i s2 = Inl AssertFail)"
proof -
  have wf1: "fs_wf E s1" and i: "i \<in> request_ids E" "\<not> request_used s i" "request_used s1 i"
    using request_pool.alloc_Some [OF assms] by auto
  obtain s2 where s2: "fs_request_free E i s1 = Inr s2" "fs_wf E s2"
    "request_pool.in_use E s2 = request_pool.in_use E s"
    by (rule request_pool.alloc_release [OF assms])
  have "i \<in> request_pool.in_use E s1" using i by (simp add: request_pool.in_use_def)
  from request_pool.release_twice [OF wf1 this s2(1)] s2 i(2) show ?thesis
    by (auto simp: request_pool.in_use_def set_eq_iff)
qed

theorem fs_request_accounting_witness:
  "\<exists>s1. fs_request_allocate (ex_fs_env ex_file_server) ex_fs_state = Some (s1, 0)
     \<and> (\<exists>s2. fs_request_free (ex_fs_env ex_file_server) 0 s1 = Inr s2
          \<and> fs_request_free (ex_fs_env ex_file_server) 0 s2 = Inl AssertFail)"
proof -
  let ?E = "ex_fs_env ex_file_server"
  have wf: "fs_wf ?E ex_fs_state" using ex_vfs_ready [of ex_file_server] by (simp add: vfs_ready_def fs_ready_def)
  obtain s1 where "fs_request_allocate ?E ex_fs_state = Some (s1, 0)"
    by (simp add: fs_request_allocate_def ex_fs_state_def ex_request_def)
  with fs_request_accounting [OF wf this] show ?thesis by blast
qed

text \<open>two buffers in use at the same time do not overlap, and both lie in the share.\<close>

theorem fs_buffers_disjoint:
  assumes "fs_wf E s" and "fs_buffer_allocate E s = Some (s1, b1)"
    and "fs_buffer_allocate E s1 = Some (s2, b2)"
  shows "block (fs_buffer_ptr E b1) (word_of_nat (FS_BUFFER_SIZE E)) \<subseteq> share_region E
    \<and> block (fs_buffer_ptr E b2) (word_of_nat (FS_BUFFER_SIZE E)) \<subseteq> share_region E
    \<and> block (fs_buffer_ptr E b1) (word_of_nat (FS_BUFFER_SIZE E))
      \<inter> block (fs_buffer_ptr E b2) (word_of_nat (FS_BUFFER_SIZE E)) = {}"
proof -
  let ?z = "FS_BUFFER_SIZE E"
  have ok: "fs_sizes_ok E" using assms(1) by (simp add: fs_wf_def)
  have 1: "b1 \<in> buffer_offsets E" "fs_wf E s1" "buffer_used E s1 b1"
    using buffer_pool.alloc_Some [OF assms(1,2)] by auto
  have 2: "b2 \<in> buffer_offsets E" "\<not> buffer_used E s1 b2"
    using buffer_pool.alloc_Some [OF 1(2) assms(3)] by auto
  obtain i j where ij: "i < NUM_BUFFERS E" "b1 = int i * int ?z" "j < NUM_BUFFERS E" "b2 = int j * int ?z"
    using 1(1) 2(1) by (auto simp: buffer_offsets_def)
  have "i \<noteq> j" using 1(3) 2(2) ij by auto
  then have "block (fs_buffer_ptr E b1) (word_of_nat ?z) \<inter> block (fs_buffer_ptr E b2) (word_of_nat ?z) = {}"
    using buffer_block_index [OF ok] ij by blast
  then show ?thesis using buffer_in_share [OF ok] 1(1) 2(1) by simp
qed

theorem fs_buffers_disjoint_witness:
  "block 0x1000 16 \<inter> block 0x1010 (16 :: u64) = {}"
proof -
  let ?E = "ex_fs_env ex_file_server"
  have wf: "fs_wf ?E ex_fs_state" using ex_vfs_ready [of ex_file_server] by (simp add: vfs_ready_def fs_ready_def)
  have a: "fs_buffer_allocate ?E ex_fs_state = Some (ex_fs_state\<lparr>buffer_table := True # replicate 7 False\<rparr>, 0)"
    "fs_buffer_allocate ?E (ex_fs_state\<lparr>buffer_table := True # replicate 7 False\<rparr>)
      = Some (ex_fs_state\<lparr>buffer_table := True # True # replicate 6 False\<rparr>, 16)"
    by (simp_all add: fs_buffer_allocate_def ex_fs_state_def ex_fs_env_def numeral_eq_Suc)
  show ?thesis using fs_buffers_disjoint [OF wf a] by (simp add: fs_buffer_ptr_def ex_fs_env_def)
qed

text \<open>a completion that the server sends for a request nobody uses is kept, and the next command
  that takes this request returns it at once, whatever the server answers.\<close>

theorem fs_spurious_completion:
  assumes "fs_wf E s" and "blocking_wait_set s" and "fs_completion_queue s = [c]"
    and "first_index (\<lambda>r. \<not> req_used r) (request_table s) = Some (unat (cmpl_id c))"
    and "length (fs_command_queue s) \<noteq> FS_QUEUE_CAPACITY E"
  shows "\<exists>s'. fs_command_blocking E body x (fs_process_completions E s) = Inr (0, Some c, s')"
proof -
  let ?i = "unat (cmpl_id c)" and ?t = "fs_process_completions E s"
  have i: "?i < FS_QUEUE_CAPACITY E" "?i < length (request_table s)" "\<not> req_used (request_table s ! ?i)"
    using first_index_SomeD [OF assms(4)] assms(1) by (simp_all add: fs_wf_def)
  have "\<not> ?i > REQUEST_ID_MAXIMUM E" using i(1) by (simp add: REQUEST_ID_MAXIMUM_def)
  then have t: "?t = s\<lparr>request_table := (request_table s)[?i :=
      (request_table s ! ?i)\<lparr>req_completion := c, req_complete := True\<rparr>], fs_completion_queue := []\<rparr>"
    by (simp add: fs_process_completions_def assms(3) fs_note_completion_def)
  have "first_index (\<lambda>r. \<not> req_used r) (request_table ?t) = Some ?i"
    using i(3) first_index_update [OF assms(4)] by (simp add: t)
  moreover have "fs_wf E ?t" "req_complete (request_table ?t ! ?i)" "req_completion (request_table ?t ! ?i) = c"
    using assms(1) i(2) by (simp_all add: t fs_wf_def)
  ultimately show ?thesis
    using blocking_stale [of E ?t ?i body x] assms(2,5) by (auto simp: t)
qed

theorem fs_spurious_completion_witness:
  "\<exists>s'. fs_command_blocking (ex_fs_env (\<lambda>_ _. [])) (FS_CMD_FILE_SIZE 7) None
     (fs_process_completions (ex_fs_env (\<lambda>_ _. [])) (ex_fs_state\<lparr>fs_completion_queue :=
        [\<lparr>cmpl_id = 0, cmpl_status = 0, cmpl_fd = 9, cmpl_len_read = 0\<rparr>]\<rparr>))
   = Inr (0, Some \<lparr>cmpl_id = 0, cmpl_status = 0, cmpl_fd = 9, cmpl_len_read = 0\<rparr>, s')"
proof (rule fs_spurious_completion)
  show "fs_wf (ex_fs_env (\<lambda>_ _. [])) (ex_fs_state\<lparr>fs_completion_queue :=
        [\<lparr>cmpl_id = 0, cmpl_status = 0, cmpl_fd = 9, cmpl_len_read = 0\<rparr>]\<rparr>)"
    using ex_vfs_ready [of "\<lambda>_ _. []"] by (simp add: vfs_ready_def fs_ready_def fs_wf_def)
qed (simp_all add: ex_fs_state_def ex_request_def ex_fs_env_def)

text \<open>C31: with a server that has the file, \<open>pico_vfs_readfile2buf\<close> returns its size without an error, the
  destination holds exactly its contents, nothing else outside the share changed, the buffers are
  free again, and the last command closed the file. The bound on the reads is the size of the file.\<close>

theorem readfile2buf_reads:
  assumes "serves_file E path fd data" and "vfs_ready E s"
    and "length path < FS_BUFFER_SIZE E" and "fd \<noteq> -1"
    and "length data < 2 ^ 63" and "length data < fuel"
    and "block buf (word_of_nat (length data)) \<inter> share_region E = {}"
  shows "\<exists>s'. pico_vfs_readfile2buf fuel E buf path s = Inr (0, word_of_nat (length data), s')
     \<and> mem_holds (memory s') buf data
     \<and> agree_outside (block buf (word_of_nat (length data)) \<union> share_region E) (memory s) (memory s')
     \<and> vfs_ready E s' \<and> buffer_table s' = buffer_table s
     \<and> cmd_body (last (issued s')) = FS_CMD_FILE_CLOSE fd"
  by (rule readfile2buf_whole_file [OF assms])

theorem readfile2buf_reads_witness:
  "\<exists>s'. pico_vfs_readfile2buf 21 (ex_fs_env ex_file_server) 0x8000 [97] ex_fs_state = Inr (0, 20, s')
     \<and> mem_holds (memory s') 0x8000 ex_data"
proof -
  let ?E = "ex_fs_env ex_file_server"
  have disj: "block 0x8000 (word_of_nat (length ex_data)) \<inter> share_region ?E = {}"
  proof (rule equals0I)
    fix a :: u64 assume "a \<in> block 0x8000 (word_of_nat (length ex_data)) \<inter> share_region ?E"
    then have a: "a - 0x8000 < 20" "a - 0x1000 < 128"
      by (simp_all add: share_region_def ex_fs_env_def NUM_BUFFERS_def ex_data_def)
    have e: "a - 0x1000 = (a - 0x8000) + 0x7000" by simp
    have "unat (a - 0x1000) = (unat (a - 0x8000) + 0x7000) mod 2 ^ 64"
      unfolding e unat_word_ariths(1) by simp
    then show False using a by (simp add: word_less_nat_alt)
  qed
  show ?thesis
    using readfile2buf_reads [OF ex_serves_file ex_vfs_ready _ _ _ _ disj, of "[97]" 21]
    by (auto simp: ex_fs_env_def ex_data_def)
qed

text \<open>when the server opens a file but cannot tell its size, \<open>openfile\<close> gives its buffer back a
  second time and stops at the assertion.\<close>

theorem openfile_size_failure:
  assumes "answers_with E fd st" and "vfs_ready E s"
    and "\<forall>b n. st (FS_CMD_FILE_OPEN b n 0) = FS_STATUS_SUCCESS E"
    and "st (FS_CMD_FILE_SIZE fd) \<noteq> FS_STATUS_SUCCESS E"
  shows "openfile E path s = Inl AssertFail"
  using openfile_double_free [OF assms(1,2) _ assms(4)] assms(3) by blast

theorem openfile_size_failure_witness:
  "openfile (ex_fs_env (ex_status_server (\<lambda>body. if body = FS_CMD_FILE_SIZE 7 then 1 else 0))) [97] ex_fs_state
     = Inl AssertFail"
  by (rule openfile_size_failure [OF ex_answers_with ex_vfs_ready]) (simp_all add: ex_fs_env_def)

text \<open>when a read fails, \<open>pico_vfs_readfile2buf\<close> reports the error but never closes the file it
  opened.\<close>

theorem readfile2buf_leaks:
  assumes "answers_with E fd st" and "vfs_ready E s" and "fd \<noteq> -1" and "0 < fuel"
    and "\<forall>b n. st (FS_CMD_FILE_OPEN b n 0) = FS_STATUS_SUCCESS E"
    and "st (FS_CMD_FILE_SIZE fd) = FS_STATUS_SUCCESS E"
    and "\<forall>pos b. st (FS_CMD_FILE_READ fd pos b (word_of_nat (FS_BUFFER_SIZE E))) \<noteq> FS_STATUS_SUCCESS E"
  shows "\<exists>s' cmds. pico_vfs_readfile2buf fuel E buf path s = Inr (-1, 0, s')
    \<and> issued s' = issued s @ cmds \<and> (\<exists>b n. FS_CMD_FILE_OPEN b n 0 \<in> cmd_body ` set cmds)
    \<and> FS_CMD_FILE_CLOSE fd \<notin> cmd_body ` set cmds"
  using readfile2buf_read_error [OF assms(1-4) _ assms(6)] assms(5,7) by blast

theorem readfile2buf_leaks_witness:
  "\<exists>s'. pico_vfs_readfile2buf 1 (ex_fs_env (ex_status_server
       (\<lambda>body. case body of FS_CMD_FILE_READ _ _ _ _ \<Rightarrow> 1 | _ \<Rightarrow> 0))) 0x8000 [97] ex_fs_state = Inr (-1, 0, s')
     \<and> FS_CMD_FILE_CLOSE 7 \<notin> cmd_body ` set (issued s')"
proof -
  let ?st = "\<lambda>body. case body of FS_CMD_FILE_READ _ _ _ _ \<Rightarrow> 1 :: u64 | _ \<Rightarrow> 0"
  let ?E = "ex_fs_env (ex_status_server ?st)"
  have st: "FS_STATUS_SUCCESS ?E = 0" by (simp add: ex_fs_env_def)
  have "\<exists>s' cmds. pico_vfs_readfile2buf 1 ?E 0x8000 [97] ex_fs_state = Inr (-1, 0, s')
    \<and> issued s' = issued ex_fs_state @ cmds \<and> (\<exists>b n. FS_CMD_FILE_OPEN b n 0 \<in> cmd_body ` set cmds)
    \<and> FS_CMD_FILE_CLOSE 7 \<notin> cmd_body ` set cmds"
    by (rule readfile2buf_leaks [OF ex_answers_with ex_vfs_ready]) (simp_all add: st)
  then show ?thesis by (auto simp: ex_fs_state_def)
qed

end
