(* ===== verification/Fs_Frame.thy ===== *)
theory Fs_Frame
  imports Pico_Vfs
begin

text \<open>
  The file-system operations touch nothing of a larger state: whatever record extends
  \<open>fs_state\<close>, its own fields are the same after every operation of \<open>Fs_Helpers\<close> and \<open>Pico_Vfs\<close>.
\<close>

abbreviation rest_of :: "'a fs_state_scheme \<Rightarrow> 'a" where
  "rest_of \<equiv> fs_state.more"

named_theorems fs_frame

lemma note_completion_rest [fs_frame]: "rest_of (fs_note_completion E c s) = rest_of s"
  by (simp add: fs_note_completion_def)

lemma process_completions_rest [fs_frame]: "rest_of (fs_process_completions E s) = rest_of s"
proof -
  have "rest_of (fold (fs_note_completion E) cs s) = rest_of s" for cs
    by (induction cs arbitrary: s) (simp_all add: note_completion_rest)
  then show ?thesis by (simp add: fs_process_completions_def)
qed

lemma wake_up_rest [fs_frame]: "rest_of (fs_wake_up E w s) = rest_of s"
  by (simp add: fs_wake_up_def process_completions_rest)

lemma await_rest: "fs_await E r ws s = Inr s' \<Longrightarrow> rest_of s' = rest_of s"
  by (induction ws arbitrary: s) (auto simp: wake_up_rest split: if_splits)

lemma request_allocate_rest: "fs_request_allocate E s = Some (s', r) \<Longrightarrow> rest_of s' = rest_of s"
  by (auto simp: fs_request_allocate_def split: option.splits)

lemma request_free_rest: "fs_request_free E r s = Inr s' \<Longrightarrow> rest_of s' = rest_of s"
  by (auto simp: fs_request_free_def bindR_Inr_iff)

lemma buffer_allocate_rest: "fs_buffer_allocate E s = Some (s', b) \<Longrightarrow> rest_of s' = rest_of s"
  by (auto simp: fs_buffer_allocate_def split: option.splits)

lemma buffer_free_rest: "fs_buffer_free E b s = Inr s' \<Longrightarrow> rest_of s' = rest_of s"
  by (auto simp: fs_buffer_free_def bindR_Inr_iff Let_def)

lemma command_issue_rest: "fs_command_issue E c s = Inr s' \<Longrightarrow> rest_of s' = rest_of s"
  by (auto simp: fs_command_issue_def bindR_Inr_iff)

lemmas helper_rest = await_rest request_allocate_rest request_free_rest buffer_allocate_rest buffer_free_rest
  command_issue_rest

lemma command_blocking_rest:
  "fs_command_blocking E body c s = Inr (err, c', s') \<Longrightarrow> rest_of s' = rest_of s"
  by (auto simp: fs_command_blocking_def split: option.splits prod.splits elim!: bindR_InrE dest!: helper_rest)

lemma closefile_rest: "closefile E fd s = Inr s' \<Longrightarrow> rest_of s' = rest_of s"
  by (auto simp: closefile_def elim!: bindR_InrE dest!: command_blocking_rest)

lemma readfile_rest: "readfile E dest sz fd pos s = Inr (pos', s') \<Longrightarrow> rest_of s' = rest_of s"
  by (auto simp: readfile_def Let_def split: option.splits prod.splits if_splits
      elim!: bindR_InrE dest!: helper_rest command_blocking_rest)

lemma openfile_rest: "openfile E fname s = Inr (fd, s') \<Longrightarrow> rest_of s' = rest_of s"
  by (auto simp: openfile_def Let_def split: option.splits prod.splits if_splits
      elim!: bindR_InrE dest!: helper_rest command_blocking_rest)

lemma read_loop_rest: "read_loop n E buf fd pos s = Inr (final, s') \<Longrightarrow> rest_of s' = rest_of s"
  by (induction n E buf fd pos s rule: read_loop.induct)
    (auto simp: split: if_splits elim!: bindR_InrE dest!: readfile_rest)

lemma readfile2buf_rest:
  "pico_vfs_readfile2buf n E buf path s = Inr (err, len, s') \<Longrightarrow> rest_of s' = rest_of s"
  by (auto simp: pico_vfs_readfile2buf_def split: option.splits prod.splits if_splits
      elim!: bindR_InrE dest!: openfile_rest read_loop_rest closefile_rest)

lemma file_exists_rest: "pico_vfs_file_exists E path s = Inr (b, s') \<Longrightarrow> rest_of s' = rest_of s"
  by (auto simp: pico_vfs_file_exists_def split: prod.splits if_splits
      elim!: bindR_InrE dest!: openfile_rest closefile_rest)

end
