(* ===== verification/Monitor_State.thy ===== *)
theory Monitor_State
  imports Delegation Service_Db Service_Manifest Vm_Layout Fs_Frame
begin

text \<open>
  The state of the monitor (\<open>include/carrels-monitor.h\<close>, \<open>include/pcmcall/deploy.h\<close>, the globals of
  \<open>src/monitor/\<close>) and what it calls outside the repository.

  The state extends the state of the file-system helpers, whose memory is the monitor's address
  space. Calls to the kernel and to other protection domains are recorded in the list of events.
  What they answer, the formats of libtrustedlo and the constants of the sDDF headers are the record
  \<open>mon_env\<close>; an answer may depend on everything that happened before.
\<close>

section \<open>Errors and events\<close>

datatype pc_monitor_error =
    MON_NO_ERROR
  | MON_DUMMY_ERROR
  | MON_INVALID_PC_ID
  | MON_INVALID_REQ_PC_NUM
  | MON_FAIL_TO_INIT_COROUTINE
  | MON_FAIL_TO_DEPLOY
  | MON_NO_AVAIL_PC
  | MON_VSWITCH_ERROR
  | MON_INVALID_PEER_SET
  | MON_PC_UNAVAILABLE
  | MON_DEPLOY_IN_PROGRESS

text \<open>A reply: its label and the number of message registers.\<close>

type_synonym msginfo = "pc_monitor_error \<times> nat"

text \<open>
  The events: a notification on a channel, stopping and resuming a domain, an ACL request to the
  switch (two ports, the value, whether it was accepted), lending the capabilities of a domain and
  writing its registers to start at an address.
\<close>

datatype event =
    Notify u32
  | PdStop u32
  | PdResume u32
  | VswitchAcl u64 u64 u64 bool
  | PrivilegeTemplate u32
  | WriteRegisters u32 u64

section \<open>Outside the repository\<close>

record mktsymb_header =
  sym_base :: u64
  sym_symbols :: u64
  sym_symbol_cnt :: u32

text \<open>\<open>trustedlo_xrtreq_t\<close>: the lists of requested resources; interrupts and I/O ports stay empty.\<close>

record trustedlo_xrtreq =
  xrt_notifications :: "u64 list"
  xrt_ppcs :: "u64 list"
  xrt_mappings :: "u64 list"

record mon_env =
  mon_fs :: fs_env
  read_bound :: nat
  VSWITCH_ACL_PORT0 :: nat
  VSWITCH_ACL_PORT1 :: nat
  VSWITCH_ACL_VALUE :: nat
  VSWITCH_ACL_RET_ERR :: nat
  VSWITCH_ERR_OKAY :: u32
  vswitch_ppcall :: "event list \<Rightarrow> (nat \<Rightarrow> u64) \<Rightarrow> u64 \<times> (nat \<Rightarrow> u64)"
  cothread_spawn :: "event list \<Rightarrow> bool"
  write_registers :: "event list \<Rightarrow> u32 \<Rightarrow> u64 \<Rightarrow> u64"
  seL4_Fault_VMFault :: u64
  seL4_VMFault_IP :: nat
  seL4_VMFault_Addr :: nat
  carrels_protocon_start :: u64
  carrels_protocon_end :: u64
  carrels_trampoline_start :: u64
  carrels_trampoline_end :: u64
  tsldr_loader_program_base :: u64
  load_elf :: "mem \<Rightarrow> u64 \<Rightarrow> u64 \<Rightarrow> u64 \<Rightarrow> u64 \<Rightarrow> u64 \<Rightarrow> bool \<times> mem"
  mktsymb_read_symbol :: "mem \<Rightarrow> u64 \<Rightarrow> u64"
  mktsymb_read :: "mem \<Rightarrow> u64 \<Rightarrow> mktsymb_header"
  sizeof_image_header :: u64
  image_header_bytes :: "u64 \<Rightarrow> u64 \<Rightarrow> u64 \<Rightarrow> u64 \<Rightarrow> u8 list"
  image_elf_offset :: "mem \<Rightarrow> u64 \<Rightarrow> u64"
  sizeof_ctxt :: nat
  TXLO_CTXT_MAX_SWITCH_CNT :: u64
  ctxt_switch_count :: "u8 list \<Rightarrow> u64"
  ctxt_set_switch_count :: "u64 \<Rightarrow> u8 list \<Rightarrow> u8 list"
  ctxt_set_monitor_call :: "u32 \<Rightarrow> u64 \<Rightarrow> u64 \<Rightarrow> u8 list \<Rightarrow> u8 list"
  sizeof_xrtreq_header :: u64
  xrtreq_header_bytes :: "u64 \<Rightarrow> u64 \<Rightarrow> u8 list"
  prepare_xrt_req_list :: "mem \<Rightarrow> u64 \<Rightarrow> trustedlo_xrtreq \<Rightarrow> mem"
  microkit_name :: "u8 list"

section \<open>State\<close>

definition PC_CHILD_PER_MONITOR_MAX_NUM :: nat where "PC_CHILD_PER_MONITOR_MAX_NUM = 16"
definition PC_MONITOR_ORCHESTRATOR_CHANNEL :: u32 where "PC_MONITOR_ORCHESTRATOR_CHANNEL = 15"
definition PC_MONITOR_PROTOCON_BASE_CHANNEL :: u32 where "PC_MONITOR_PROTOCON_BASE_CHANNEL = 24"
definition INVALID_PC_ID :: u32 where "INVALID_PC_ID = 0xffc"
definition ORC_MONITOR_REGION_SIZE :: u64 where "ORC_MONITOR_REGION_SIZE = 0x800000"
definition carrels_payload_start :: u64 where "carrels_payload_start = 0x7000000"

definition PROTOCON_ACTIVE :: u8 where "PROTOCON_ACTIVE = 1"
definition PROTOCON_PASSIVE :: u8 where "PROTOCON_PASSIVE = 2"
definition PROTOCON_SUSPENDED :: u8 where "PROTOCON_SUSPENDED = 3"

definition SVC_TYPE_MAX_NUM :: nat where "SVC_TYPE_MAX_NUM = 8"
definition SVC_PER_TYPE_MAX_NUM :: nat where "SVC_PER_TYPE_MAX_NUM = 8"

text \<open>
  \<open>pc_state_t\<close>: the loading context is kept as its bytes; a service reference is the address of its
  record, 0 for NULL.
\<close>

record pc_state =
  state_pc_id :: u32
  pc_context :: "u8 list"
  life_cycle_state :: u8
  avail_service_per_type :: "u32 list"
  avail_service_refs :: "u64 list list"
  sym_header :: mktsymb_header

record deploy_plan =
  plan_pc_id :: u32
  plan_pc_base :: u64
  plan_pc_entry :: u64
  plan_req :: "protocon_svc_req option"
  plan_service_sources :: "u64 list"
  plan_base_serialised_service :: u64

record monitor_deploy_request =
  num_req_pc :: u32
  target_pc :: u32
  req_peer_mask :: u32
  targeted :: bool

record monitor_deploy_result =
  res_target_pc :: u32
  connected_peer_mask :: u32
  rejected_peer_mask :: u32
  unavailable_peer_mask :: u32
  res_error :: pc_monitor_error
  res_ready :: bool

record monitor = fs_state +
  num_pc :: u64
  protocon_states :: "pc_state list"
  dlg :: dlg_header
  svc :: svc_table
  req_pc_num :: u32
  deploy_request_active :: bool
  deploy_request :: monitor_deploy_request
  deploy_result :: monitor_deploy_result
  peer_policy :: "u32 list"
  monitored_protocon_count :: u32
  pd_io_acl_rule :: u64
  mrs :: "nat \<Rightarrow> u64"
  events :: "event list"

definition emit :: "event \<Rightarrow> monitor \<Rightarrow> monitor" where
  "emit e s = s\<lparr>events := events s @ [e]\<rparr>"

lemma emit_simps [simp]:
  "events (emit e s) = events s @ [e]" "memory (emit e s) = memory s"
  "num_pc (emit e s) = num_pc s" "protocon_states (emit e s) = protocon_states s"
  "deploy_request_active (emit e s) = deploy_request_active s"
  "deploy_request (emit e s) = deploy_request s" "deploy_result (emit e s) = deploy_result s"
  "peer_policy (emit e s) = peer_policy s"
  "monitored_protocon_count (emit e s) = monitored_protocon_count s"
  "dlg (emit e s) = dlg s" "svc (emit e s) = svc s"
  "mrs (emit e s) = mrs s" "pd_io_acl_rule (emit e s) = pd_io_acl_rule s" "req_pc_num (emit e s) = req_pc_num s"
  by (simp_all add: emit_def)

section \<open>The accessors of \<open>carrels-monitor.h\<close>\<close>

definition deploy_plan_zero :: deploy_plan where
  "deploy_plan_zero = \<lparr>plan_pc_id = 0, plan_pc_base = 0, plan_pc_entry = 0, plan_req = None,
     plan_service_sources = replicate 16 0, plan_base_serialised_service = 0\<rparr>"

text \<open>The \<open>memset\<close> has the size of one pointer, so it clears the first source only.\<close>

definition deploy_plan_memzero_services :: "deploy_plan \<Rightarrow> deploy_plan" where
  "deploy_plan_memzero_services p = p\<lparr>plan_service_sources := (plan_service_sources p)[0 := 0]\<rparr>"

definition deploy_plan_reset :: "deploy_plan \<Rightarrow> deploy_plan" where
  "deploy_plan_reset p =
     (deploy_plan_memzero_services
       (p\<lparr>plan_pc_id := word_of_nat PC_CHILD_PER_MONITOR_MAX_NUM, plan_pc_base := 0, plan_pc_entry := 0,
          plan_req := None\<rparr>))\<lparr>plan_base_serialised_service := 0\<rparr>"

definition protocon_state_retrieve_context :: "u32 \<Rightarrow> monitor \<Rightarrow> u8 list option" where
  "protocon_state_retrieve_context cid s =
     (if unat cid \<ge> PC_CHILD_PER_MONITOR_MAX_NUM then None
      else Some (pc_context (protocon_states s ! unat cid)))"

definition update_pc :: "u32 \<Rightarrow> (pc_state \<Rightarrow> pc_state) \<Rightarrow> monitor \<Rightarrow> monitor" where
  "update_pc cid f s = s\<lparr>protocon_states := (protocon_states s)[unat cid := f (protocon_states s ! unat cid)]\<rparr>"

definition protocon_state_set_lifecycle_state :: "u32 \<Rightarrow> u8 \<Rightarrow> monitor \<Rightarrow> monitor" where
  "protocon_state_set_lifecycle_state cid st = update_pc cid (\<lambda>p. p\<lparr>life_cycle_state := st\<rparr>)"

definition protocon_state_get_lifecycle_state :: "u32 \<Rightarrow> monitor \<Rightarrow> u8" where
  "protocon_state_get_lifecycle_state cid s = life_cycle_state (protocon_states s ! unat cid)"

definition protocon_state_check_lifecycle_state :: "u32 \<Rightarrow> u8 \<Rightarrow> monitor \<Rightarrow> bool" where
  "protocon_state_check_lifecycle_state cid st s \<longleftrightarrow> protocon_state_get_lifecycle_state cid s = st"

definition protocon_state_memzero_services :: "u32 \<Rightarrow> monitor \<Rightarrow> monitor" where
  "protocon_state_memzero_services cid = update_pc cid (\<lambda>p.
     p\<lparr>avail_service_refs := replicate SVC_TYPE_MAX_NUM (replicate SVC_PER_TYPE_MAX_NUM 0),
       avail_service_per_type := replicate SVC_TYPE_MAX_NUM 0\<rparr>)"

definition protocon_state_memzero_context :: "mon_env \<Rightarrow> u32 \<Rightarrow> monitor \<Rightarrow> monitor" where
  "protocon_state_memzero_context E cid = update_pc cid (\<lambda>p. p\<lparr>pc_context := replicate (sizeof_ctxt E) 0\<rparr>)"

definition protocon_state_memzero_symb_header :: "u32 \<Rightarrow> monitor \<Rightarrow> monitor" where
  "protocon_state_memzero_symb_header cid = update_pc cid (\<lambda>p.
     p\<lparr>sym_header := \<lparr>sym_base = 0, sym_symbols = 0, sym_symbol_cnt = 0\<rparr>\<rparr>)"

definition monitor_main_notify_orchestrator :: "monitor \<Rightarrow> monitor" where
  "monitor_main_notify_orchestrator = emit (Notify PC_MONITOR_ORCHESTRATOR_CHANNEL)"

definition monitor_get_pcid_from_ch :: "u32 \<Rightarrow> u32" where
  "monitor_get_pcid_from_ch ch =
     (if ch < PC_MONITOR_PROTOCON_BASE_CHANNEL
         \<or> ch \<ge> PC_MONITOR_PROTOCON_BASE_CHANNEL + word_of_nat PC_CHILD_PER_MONITOR_MAX_NUM
      then INVALID_PC_ID else ch - PC_MONITOR_PROTOCON_BASE_CHANNEL)"

lemmas monitor_consts = PC_CHILD_PER_MONITOR_MAX_NUM_def PC_MONITOR_ORCHESTRATOR_CHANNEL_def
  PC_MONITOR_PROTOCON_BASE_CHANNEL_def INVALID_PC_ID_def SVC_TYPE_MAX_NUM_def SVC_PER_TYPE_MAX_NUM_def

lemmas lifecycle_consts = PROTOCON_ACTIVE_def PROTOCON_PASSIVE_def PROTOCON_SUSPENDED_def

section \<open>An example configuration\<close>

text \<open>
  Used by the witnesses: two protocons; a memory with the two example databases, a payload of one
  service of type 0 in front of an ELF with one section that holds the service's address, and the
  loader image; a switch that accepts every request.
\<close>

definition ex_payload :: "u8 list" where
  "ex_payload = le_bytes 8 MANIFEST_MAGIC @ le_bytes 4 (1 :: u32) @ le_bytes 4 (44 :: u32) @ le_bytes 8 (192 :: u64)
     @ le_bytes 4 (0 :: u32) @ le_bytes 8 (64 :: u64) @ le_bytes 8 (16 :: u64)
     @ replicate 24 0 @ le_bytes 8 (0x1000 :: u64) @ replicate 8 0 @ le_bytes 8 (64 :: u64)
     @ replicate 10 0 @ le_bytes 2 (64 :: u16) @ le_bytes 2 (2 :: u16) @ le_bytes 2 (1 :: u16)
     @ replicate 64 0
     @ le_bytes 4 (1 :: u32) @ le_bytes 4 (1 :: u32) @ le_bytes 8 (0 :: u64) @ le_bytes 8 (0x1000 :: u64)
     @ le_bytes 8 (192 :: u64) @ le_bytes 8 (256 :: u64)"

definition ex_patch :: "u64 \<Rightarrow> u8 list \<Rightarrow> mem \<Rightarrow> mem" where
  "ex_patch p bs m = (\<lambda>a. if a - p < word_of_nat (length bs) then bs ! unat (a - p) else m a)"

definition ex_memory :: mem where
  "ex_memory = ex_patch 0xAAAAA10000 dlg_example (ex_patch 0xAAAAA00000 svc_example
     (ex_patch 0x7000000 ex_payload (ex_patch 0x2000018 (le_bytes 8 (0x200000 :: u64)) (\<lambda>_. 0))))"

definition ex_mon_env :: mon_env where
  "ex_mon_env =
     \<lparr>mon_fs = ex_fs_env ex_file_server, read_bound = 32,
      VSWITCH_ACL_PORT0 = 1, VSWITCH_ACL_PORT1 = 2, VSWITCH_ACL_VALUE = 3, VSWITCH_ACL_RET_ERR = 0,
      VSWITCH_ERR_OKAY = 0, vswitch_ppcall = (\<lambda>_ regs. (0, regs(0 := 0))),
      cothread_spawn = (\<lambda>_. True), write_registers = (\<lambda>_ _ _. 0),
      seL4_Fault_VMFault = 5, seL4_VMFault_IP = 0, seL4_VMFault_Addr = 1,
      carrels_protocon_start = 0x2000000, carrels_protocon_end = 0x2000100,
      carrels_trampoline_start = 0x3000000, carrels_trampoline_end = 0x3000040,
      tsldr_loader_program_base = 0x200000,
      load_elf = (\<lambda>m src n dst vaddr room. if n \<le> room then (True, mem_copy m dst src n) else (False, m)),
      mktsymb_read_symbol = (\<lambda>m p. p + 8),
      mktsymb_read = (\<lambda>m b. \<lparr>sym_base = b, sym_symbols = b + 16, sym_symbol_cnt = read_u32 m b\<rparr>),
      sizeof_image_header = 40,
      image_header_bytes = (\<lambda>a b c d. replicate 8 0 @ le_bytes 8 a @ le_bytes 8 b @ le_bytes 8 c @ le_bytes 8 d),
      image_elf_offset = (\<lambda>m p. read_u64 m (p + 24)),
      sizeof_ctxt = 16, TXLO_CTXT_MAX_SWITCH_CNT = 4,
      ctxt_switch_count = (\<lambda>bs. ucast (bs ! 0)), ctxt_set_switch_count = (\<lambda>v bs. bs[0 := ucast v]),
      ctxt_set_monitor_call = (\<lambda>c ch call bs. bs[1 := ucast c, 2 := ucast ch, 3 := ucast call]),
      sizeof_xrtreq_header = 16,
      xrtreq_header_bytes = (\<lambda>n off. le_bytes 8 n @ le_bytes 8 off),
      prepare_xrt_req_list = (\<lambda>m p x. mem_write m p
        (concat (map (le_bytes 8) (xrt_notifications x @ xrt_ppcs x @ xrt_mappings x)))),
      microkit_name = [109]\<rparr>"

definition ex_pc :: "nat \<Rightarrow> u8 \<Rightarrow> pc_state" where
  "ex_pc i st = \<lparr>state_pc_id = word_of_nat i, pc_context = replicate 16 0, life_cycle_state = st,
     avail_service_per_type = (if i = 0 then 1 else 0) # replicate 7 0,
     avail_service_refs = ((if i = 0 then 0xAAAAA00014 else 0) # replicate 7 0) # replicate 7 (replicate 8 0),
     sym_header = \<lparr>sym_base = 0xAAAAA20000, sym_symbols = 0xAAAAA20010, sym_symbol_cnt = 0\<rparr>\<rparr>"

definition ex_monitor :: "u8 list \<Rightarrow> u32 list \<Rightarrow> monitor" where
  "ex_monitor states policy =
     \<lparr>memory = ex_memory, request_table = [ex_request, ex_request], buffer_table = replicate 8 False,
      fs_command_queue = [], fs_completion_queue = [], blocking_wait_set = True, issued = [],
      num_pc = 2,
      protocon_states = map (\<lambda>i. ex_pc i (if i < length states then states ! i else 0)) [0..<16],
      dlg = dlg_example_header, svc = svc_example_table, req_pc_num = 0, deploy_request_active = False,
      deploy_request = \<lparr>num_req_pc = 0, target_pc = 0, req_peer_mask = 0, targeted = False\<rparr>,
      deploy_result = \<lparr>res_target_pc = 0, connected_peer_mask = 0, rejected_peer_mask = 0,
        unavailable_peer_mask = 0, res_error = MON_NO_ERROR, res_ready = False\<rparr>,
      peer_policy = policy @ replicate (16 - length policy) 0, monitored_protocon_count = 2,
      pd_io_acl_rule = 0, mrs = (\<lambda>_. 0), events = []\<rparr>"

end
