(* ===== verification/Service_Registry.thy ===== *)
theory Service_Registry
  imports Monitor_State
begin

text \<open>
  The registry of services per protocon (\<open>src/monitor/service/service_registry.c\<close>): the services of
  the database are sorted by the protocon they belong to and by type, at most eight of each.
\<close>

section \<open>Operation\<close>

text \<open>
  One iteration for the service at \<open>p\<close>. The identifier of the domain is used as an index of the 16
  states without a check; beyond them the code writes outside the array.
\<close>

definition registry_add :: "mem \<Rightarrow> pc_state list \<Rightarrow> u64 \<Rightarrow> pc_state list res" where
  "registry_add m states p =
     (let service = svc_service_at m p;
          type = unat (service_type service)
      in if type \<ge> SVC_TYPE_MAX_NUM then Inr states
         else
           let pc = svc_pd_id service
           in if unat pc \<ge> PC_CHILD_PER_MONITOR_MAX_NUM then Inl UB
              else
                let state = states ! unat pc;
                    idx = avail_service_per_type state ! type
                in if unat idx \<ge> SVC_PER_TYPE_MAX_NUM then Inr states
                   else Inr (states[unat pc := state\<lparr>
                       avail_service_refs := (avail_service_refs state)[type :=
                         (avail_service_refs state ! type)[unat idx := p]],
                       avail_service_per_type := (avail_service_per_type state)[type := idx + 1]\<rparr>]))"

fun registry_add_all :: "mem \<Rightarrow> u64 list \<Rightarrow> pc_state list \<Rightarrow> pc_state list res" where
  "registry_add_all m [] states = Inr states"
| "registry_add_all m (p # ps) states =
     bindR (registry_add m states p) (registry_add_all m ps)"

text \<open>The number of protocons is an argument of the code that it does not use. None is a null pointer.\<close>

definition service_registry_create ::
  "mem \<Rightarrow> svc_table option \<Rightarrow> pc_state list \<Rightarrow> pc_state list res" where
  "service_registry_create m svcdb_list states =
     (case svcdb_list of
        None \<Rightarrow> Inr states
      | Some db \<Rightarrow> registry_add_all m (take (unat (service_count db)) (services db)) states)"

section \<open>What is registered\<close>

text \<open>The services among \<open>ps\<close> of a domain and a type, in the order of the database.\<close>

definition services_of :: "mem \<Rightarrow> u64 list \<Rightarrow> nat \<Rightarrow> nat \<Rightarrow> u64 list" where
  "services_of m ps pc type = filter (\<lambda>p. unat (svc_pd_id (svc_service_at m p)) = pc
     \<and> unat (service_type (svc_service_at m p)) = type) ps"

definition padded :: "u64 list \<Rightarrow> u64 list" where
  "padded ps = take 8 ps @ replicate (8 - length ps) 0"

definition registered :: "mem \<Rightarrow> u64 list \<Rightarrow> pc_state list \<Rightarrow> pc_state list" where
  "registered m ps states = map (\<lambda>i. (states ! i)\<lparr>
     avail_service_per_type := map (\<lambda>type. word_of_nat (min 8 (length (services_of m ps i type)))) [0..<8],
     avail_service_refs := map (\<lambda>type. padded (services_of m ps i type)) [0..<8]\<rparr>) [0..<16]"

lemma length_padded [simp]: "length (padded ps) = 8"
  by (simp add: padded_def)

lemma padded_snoc:
  "length ps < 8 \<Longrightarrow> (padded ps)[length ps := p] = padded (ps @ [p])"
proof -
  assume lt: "length ps < 8"
  then obtain k where k: "8 - length ps = Suc k" by (cases "8 - length ps") simp_all
  then have "8 - length (ps @ [p]) = k" by simp
  then show ?thesis using lt k by (simp add: padded_def list_update_append)
qed

lemma services_of_snoc:
  "services_of m (ps @ [p]) pc type = services_of m ps pc type
     @ (if unat (svc_pd_id (svc_service_at m p)) = pc \<and> unat (service_type (svc_service_at m p)) = type
        then [p] else [])"
  by (simp add: services_of_def)

lemma length_registered [simp]: "length (registered m ps states) = 16"
  by (simp add: registered_def)

text \<open>The services \<open>registry_add\<close> can place: an unknown type is skipped, a domain must exist.\<close>

definition placeable :: "mem \<Rightarrow> u64 \<Rightarrow> bool" where
  "placeable m p \<longleftrightarrow> unat (service_type (svc_service_at m p)) < 8 \<longrightarrow> unat (svc_pd_id (svc_service_at m p)) < 16"

lemma registered_skip:
  assumes "\<And>pc type. pc < 16 \<Longrightarrow> type < 8 \<Longrightarrow>
      min 8 (length (services_of m (ps @ [p]) pc type)) = min 8 (length (services_of m ps pc type))
      \<and> padded (services_of m (ps @ [p]) pc type) = padded (services_of m ps pc type)"
  shows "registered m (ps @ [p]) states = registered m ps states"
  unfolding registered_def using assms by (intro map_cong refl) (simp cong: map_cong)

lemma registry_add_registered:
  assumes "placeable m p"
  shows "registry_add m (registered m ps states) p = Inr (registered m (ps @ [p]) states)"
proof -
  let ?pc = "unat (svc_pd_id (svc_service_at m p))" and ?ty = "unat (service_type (svc_service_at m p))"
  let ?ss = "services_of m ps ?pc ?ty"
  consider (unknown) "?ty \<ge> 8" | (full) "?ty < 8" "length ?ss \<ge> 8" | (room) "?ty < 8" "length ?ss < 8"
    by linarith
  then show ?thesis
  proof cases
    case unknown
    then have "registered m (ps @ [p]) states = registered m ps states"
      by (intro registered_skip) (simp add: services_of_snoc)
    then show ?thesis using unknown by (simp add: registry_add_def SVC_TYPE_MAX_NUM_def)
  next
    case full
    then have pc: "?pc < 16" using assms by (simp add: placeable_def)
    have "registered m (ps @ [p]) states = registered m ps states"
      using full(2) by (intro registered_skip) (auto simp: services_of_snoc padded_def)
    moreover have "unat (avail_service_per_type (registered m ps states ! ?pc) ! ?ty) = 8"
      using full pc by (simp add: registered_def)
    ultimately show ?thesis
      using full pc by (simp add: registry_add_def monitor_consts)
  next
    case room
    then have pc: "?pc < 16" using assms by (simp add: placeable_def)
    let ?s = "registered m ps states ! ?pc"
    have idx: "avail_service_per_type ?s ! ?ty = word_of_nat (length ?ss)"
      using room pc by (simp add: registered_def)
    have un: "unat (word_of_nat (length ?ss) :: u32) = length ?ss"
      using room by (intro unat_word_of_nat_lt) simp
    have "registered m (ps @ [p]) states = (registered m ps states)[?pc := ?s\<lparr>
        avail_service_refs := (avail_service_refs ?s)[?ty := (avail_service_refs ?s ! ?ty)[length ?ss := p]],
        avail_service_per_type := (avail_service_per_type ?s)[?ty := word_of_nat (length ?ss) + 1]\<rparr>]"
    proof (rule nth_equalityI)
      fix i assume "i < length (registered m (ps @ [p]) states)"
      then have i: "i < 16" by simp
      show "registered m (ps @ [p]) states ! i = (registered m ps states)[?pc := ?s\<lparr>
        avail_service_refs := (avail_service_refs ?s)[?ty := (avail_service_refs ?s ! ?ty)[length ?ss := p]],
        avail_service_per_type := (avail_service_per_type ?s)[?ty := word_of_nat (length ?ss) + 1]\<rparr>] ! i"
      proof (cases "i = ?pc")
        case False
        then show ?thesis using i by (simp add: registered_def services_of_snoc)
      next
        case True
        have refs: "map (\<lambda>type. padded (services_of m (ps @ [p]) ?pc type)) [0..<8] =
            (map (\<lambda>type. padded (services_of m ps ?pc type)) [0..<8])[?ty := (padded ?ss)[length ?ss := p]]"
          using room by (intro nth_equalityI) (auto simp: services_of_snoc padded_snoc nth_list_update)
        have nums: "map (\<lambda>type. word_of_nat (min 8 (length (services_of m (ps @ [p]) ?pc type))) :: u32) [0..<8] =
            (map (\<lambda>type. word_of_nat (min 8 (length (services_of m ps ?pc type)))) [0..<8])[?ty :=
              word_of_nat (length ?ss) + 1]"
          using room by (intro nth_equalityI) (auto simp: services_of_snoc nth_list_update)
        show ?thesis
          using True pc room refs nums by (simp add: registered_def)
      qed
    qed simp
    then show ?thesis
      using room pc idx un by (simp add: registry_add_def monitor_consts Let_def)
  qed
qed

lemma registry_add_all_registered:
  "\<forall>p \<in> set ps. placeable m p \<Longrightarrow>
   registry_add_all m ps (registered m before states) = Inr (registered m (before @ ps) states)"
proof (induction ps arbitrary: before)
  case (Cons p ps)
  then show ?case using registry_add_registered [of m p before states] Cons.IH [of "before @ [p]"] by simp
qed simp

text \<open>A state without services, as the initialisation leaves it.\<close>

definition no_services :: "pc_state list \<Rightarrow> bool" where
  "no_services states \<longleftrightarrow> length states = 16
     \<and> (\<forall>st \<in> set states. avail_service_per_type st = replicate 8 0
          \<and> avail_service_refs st = replicate 8 (replicate 8 0))"

lemma no_services_registered:
  assumes "no_services states"
  shows "registered m [] states = states"
proof (rule nth_equalityI)
  show "length (registered m [] states) = length states" using assms by (simp add: no_services_def)
  fix i assume "i < length (registered m [] states)"
  then have i: "i < 16" and st: "states ! i \<in> set states" using assms by (simp_all add: no_services_def)
  have e: "map (\<lambda>type. word_of_nat (min 8 (length (services_of m [] i type))) :: u32) [0..<8] = replicate 8 0"
    "map (\<lambda>type. padded (services_of m [] i type)) [0..<8] = replicate 8 (replicate 8 0)"
    by (simp_all add: services_of_def padded_def map_replicate_const)
  have "registered m [] states ! i = (states ! i)\<lparr>avail_service_per_type := replicate 8 0,
      avail_service_refs := replicate 8 (replicate 8 0)\<rparr>"
    using i by (simp add: registered_def e del: upt_Suc)
  also have "\<dots> = states ! i" using assms st by (simp add: no_services_def)
  finally show "registered m [] states ! i = states ! i" .
qed

section \<open>Properties\<close>

text \<open>the registry holds, per protocon and type, the addresses of the first eight services of that
  protocon and type in the order of the database, their number, and null pointers after them;
  everything else of the states is kept. A service of a protocon that does not exist makes the code
  write outside the array.\<close>

theorem registry_collects:
  assumes "no_services states"
  shows "((\<forall>p \<in> set (take (unat (service_count db)) (services db)). placeable m p) \<longrightarrow>
      service_registry_create m (Some db) states
        = Inr (registered m (take (unat (service_count db)) (services db)) states))
    \<and> ((\<exists>p rest. take (unat (service_count db)) (services db) = p # rest \<and> \<not> placeable m p) \<longrightarrow>
      service_registry_create m (Some db) states = Inl UB)"
proof -
  have "service_registry_create m (Some db) states = Inl UB"
    if "take (unat (service_count db)) (services db) = p # rest" "\<not> placeable m p" for p rest
    using that by (simp add: service_registry_create_def registry_add_def placeable_def monitor_consts Let_def)
  then show ?thesis
    using registry_add_all_registered [of _ m "[]" states] no_services_registered [OF assms, of m]
    by (auto simp: service_registry_create_def)
qed

theorem registry_collects_witness:
  "\<exists>states. service_registry_create svc_example_mem (Some svc_example_table)
      (replicate 16 \<lparr>state_pc_id = 0, pc_context = [], life_cycle_state = 2,
        avail_service_per_type = replicate 8 0, avail_service_refs = replicate 8 (replicate 8 0),
        sym_header = \<lparr>sym_base = 0, sym_symbols = 0, sym_symbol_cnt = 0\<rparr>\<rparr>) = Inr states
    \<and> avail_service_per_type (states ! 0) ! 0 = 1 \<and> avail_service_refs (states ! 0) ! 0 ! 0 = 0xAAAAA00014"
proof -
  let ?z = "replicate 16 \<lparr>state_pc_id = 0, pc_context = [], life_cycle_state = 2,
        avail_service_per_type = replicate 8 0, avail_service_refs = replicate 8 (replicate 8 0),
        sym_header = \<lparr>sym_base = 0, sym_symbols = 0, sym_symbol_cnt = 0\<rparr>\<rparr>"
  have z: "no_services ?z" by (simp add: no_services_def)
  have t: "take (unat (service_count svc_example_table)) (services svc_example_table) = [0xAAAAA00014]"
    by (simp add: svc_example_table_def)
  have f: "unat (svc_pd_id (svc_service_at svc_example_mem 0xAAAAA00014)) = 0"
    "unat (service_type (svc_service_at svc_example_mem 0xAAAAA00014)) = 0"
    by code_simp+
  have "placeable svc_example_mem 0xAAAAA00014" by (simp add: placeable_def f)
  then have "service_registry_create svc_example_mem (Some svc_example_table) ?z
      = Inr (registered svc_example_mem [0xAAAAA00014] ?z)"
    using registry_collects [OF z, of svc_example_table svc_example_mem] t by simp
  moreover have "services_of svc_example_mem [0xAAAAA00014] 0 0 = [0xAAAAA00014]"
    by (simp add: services_of_def f)
  ultimately show ?thesis by (simp add: registered_def padded_def)
qed

end
