(* ===== verification/Service_Planner.thy ===== *)
theory Service_Planner
  imports Service_Registry
begin

text \<open>
  The choice of a protocon for a payload and of its services
  (\<open>src/monitor/service/service_planner.c\<close>).
\<close>

section \<open>Operations\<close>

definition service_planner_can_satisfy_request :: "protocon_svc_req \<Rightarrow> u32 list \<Rightarrow> bool" where
  "service_planner_can_satisfy_request req avail \<longleftrightarrow>
     (\<forall>type \<in> set [0..<SVC_TYPE_MAX_NUM]. \<not> service_count_per_type req ! type > avail ! type)"

text \<open>
  The loop of \<open>service_planner_deploy_plan_init\<close> over the entries from the \<open>i\<close>-th: the cursors count
  down from the number of available services of each type.
\<close>

fun plan_services :: "mem \<Rightarrow> pc_state \<Rightarrow> u64 list \<Rightarrow> nat \<Rightarrow> u32 list \<Rightarrow> u64 list \<Rightarrow> u64 list res" where
  "plan_services m state [] i cursors sources = Inr sources"
| "plan_services m state (entry # entries) i cursors sources =
     (let type = ent_type (manifest_entry_at m entry)
      in if type < 0 \<or> nat type \<ge> SVC_TYPE_MAX_NUM then Inl UB
         else
           let index = cursors ! nat type - 1;
               cursors = cursors[nat type := index]
           in if unat index \<ge> SVC_PER_TYPE_MAX_NUM \<or> i \<ge> length sources then Inl UB
              else
                let source = avail_service_refs state ! nat type ! unat index
                in bindR (assertR (source \<noteq> 0)) (\<lambda>_.
                   plan_services m state entries (Suc i) cursors (sources[i := source])))"

definition service_planner_deploy_plan_init :: "mem \<Rightarrow> deploy_plan \<Rightarrow> pc_state \<Rightarrow> deploy_plan res" where
  "service_planner_deploy_plan_init m plan state =
     (case plan_req plan of
        None \<Rightarrow> Inl AssertFail
      | Some req \<Rightarrow>
          bindR (plan_services m state (take (unat (req_service_count req)) (service_entries req)) 0
                   (avail_service_per_type state) (plan_service_sources plan))
            (\<lambda>sources. Inr (plan\<lparr>plan_service_sources := sources\<rparr>)))"

text \<open>A protocon is eligible when it is free and offers enough services of every type.\<close>

definition eligible :: "protocon_svc_req \<Rightarrow> pc_state list \<Rightarrow> nat \<Rightarrow> bool" where
  "eligible req states i \<longleftrightarrow> life_cycle_state (states ! i) = PROTOCON_PASSIVE
     \<and> service_planner_can_satisfy_request req (avail_service_per_type (states ! i))"

definition planner_assign :: "mem \<Rightarrow> protocon_svc_req \<Rightarrow> nat \<Rightarrow> deploy_plan \<Rightarrow> pc_state list \<Rightarrow> deploy_plan res" where
  "planner_assign m req i plan states =
     service_planner_deploy_plan_init m
       (plan\<lparr>plan_pc_id := word_of_nat i, plan_req := Some req,
             plan_base_serialised_service :=
               monitor_vm_region_base (txlo_xrt_req monitor_vm_layout) (word_of_nat i)\<rparr>) (states ! i)"

definition service_planner_select_protocon ::
  "mem \<Rightarrow> protocon_svc_req \<Rightarrow> deploy_plan \<Rightarrow> pc_state list \<Rightarrow> deploy_plan res" where
  "service_planner_select_protocon m req plan states =
     (case first_index (eligible req states) [0..<PC_CHILD_PER_MONITOR_MAX_NUM] of
        None \<Rightarrow> Inr (deploy_plan_reset plan)
      | Some i \<Rightarrow> planner_assign m req i (deploy_plan_reset plan) states)"

definition service_planner_select_protocon_by_id ::
  "mem \<Rightarrow> protocon_svc_req \<Rightarrow> deploy_plan \<Rightarrow> pc_state list \<Rightarrow> u32 \<Rightarrow> deploy_plan res" where
  "service_planner_select_protocon_by_id m req plan states pc =
     (if unat pc \<ge> PC_CHILD_PER_MONITOR_MAX_NUM \<or> \<not> eligible req states (unat pc)
      then Inr (deploy_plan_reset plan)
      else planner_assign m req (unat pc) (deploy_plan_reset plan) states)"

section \<open>The assignment\<close>

abbreviation entry_type :: "mem \<Rightarrow> u64 \<Rightarrow> nat" where
  "entry_type m e \<equiv> nat (ent_type (manifest_entry_at m e))"

text \<open>\<open>offers_ok\<close>: a state as the registry builds it, at most eight references per type, none null.\<close>

definition offers_ok :: "pc_state \<Rightarrow> bool" where
  "offers_ok st \<longleftrightarrow> length (avail_service_per_type st) = 8 \<and> (\<forall>ty < 8. unat (avail_service_per_type st ! ty) \<le> 8
     \<and> (\<forall>k < unat (avail_service_per_type st ! ty). avail_service_refs st ! ty ! k \<noteq> 0))"

text \<open>Entries take the offers of their type from the last to the first.\<close>

definition entries_before :: "mem \<Rightarrow> u64 list \<Rightarrow> nat \<Rightarrow> nat" where
  "entries_before m es i = length (filter (\<lambda>e. entry_type m e = entry_type m (es ! i)) (take i es))"

definition assigned_service :: "mem \<Rightarrow> pc_state \<Rightarrow> u64 list \<Rightarrow> nat \<Rightarrow> u64" where
  "assigned_service m st es i =
     (let ty = entry_type m (es ! i)
      in avail_service_refs st ! ty ! (unat (avail_service_per_type st ! ty) - 1 - entries_before m es i))"

lemma supported_entry_type:
  assumes "supported_entry m e"
  shows "entry_type m e < 8" and "\<not> ent_type (manifest_entry_at m e) < 0"
    and "ent_type (manifest_entry_at m e) = int (entry_type m e)"
  using assms by (auto simp: supported_entry_def manifest_supported_type)

lemma entries_of_type_alt:
  "\<forall>e \<in> set es. supported_entry m e \<Longrightarrow> entries_of_type m es ty = length (filter (\<lambda>e. entry_type m e = ty) es)"
  unfolding entries_of_type_def using supported_entry_type(3)
  by (intro arg_cong [where f = length] filter_cong) auto

lemma filter_take_le: "length (filter P (take i xs)) \<le> length (filter P xs)"
  by (metis append_take_drop_id filter_append le_add1 length_append)

lemma entries_before_lt:
  assumes "i < length es"
  shows "entries_before m es i < length (filter (\<lambda>e. entry_type m e = entry_type m (es ! i)) es)"
proof -
  let ?P = "\<lambda>e. entry_type m e = entry_type m (es ! i)"
  have "entries_before m es i < length (filter ?P (take (Suc i) es))"
    using assms by (simp add: entries_before_def take_Suc_conv_app_nth)
  also have "\<dots> \<le> length (filter ?P es)" by (rule filter_take_le)
  finally show ?thesis .
qed

lemma entries_before_mono:
  assumes "i < j" and "j < length es" and "entry_type m (es ! i) = entry_type m (es ! j)"
  shows "entries_before m es i < entries_before m es j"
proof -
  let ?P = "\<lambda>e. entry_type m e = entry_type m (es ! j)"
  have "entries_before m es i < length (filter ?P (take (Suc i) es))"
    using assms by (simp add: entries_before_def take_Suc_conv_app_nth)
  also have "take (Suc i) es = take (Suc i) (take j es)" using assms(1) by (simp add: min_def)
  also have "length (filter ?P (take (Suc i) (take j es))) \<le> length (filter ?P (take j es))"
    by (rule filter_take_le)
  finally show ?thesis by (simp add: entries_before_def)
qed

lemma plan_services_assigned:
  assumes ok: "offers_ok st" and all: "es = done @ rest" and sup: "\<forall>e \<in> set es. supported_entry m e"
    and enough: "\<And>ty. ty < 8 \<Longrightarrow> length (filter (\<lambda>e. entry_type m e = ty) es) \<le> unat (avail_service_per_type st ! ty)"
    and room: "length es \<le> length sources"
    and cursors: "length cursors = 8" "\<And>ty. ty < 8 \<Longrightarrow> unat (cursors ! ty)
        = unat (avail_service_per_type st ! ty) - length (filter (\<lambda>e. entry_type m e = ty) done)"
    and src: "take (length done) sources = map (assigned_service m st es) [0..<length done]"
  shows "plan_services m st rest (length done) cursors sources =
    Inr (map (assigned_service m st es) [0..<length es] @ drop (length es) sources)"
  using all room cursors src
proof (induction rest arbitrary: "done" cursors sources)
  case Nil
  then show ?case by simp (metis append_take_drop_id)
next
  case (Cons e rest)
  let ?i = "length done" and ?ty = "entry_type m e"
  have e: "es ! ?i = e" "?i < length es" using Cons.prems(1) by simp_all
  have supp: "supported_entry m e" using sup Cons.prems(1) by simp
  note ty = supported_entry_type [OF supp]
  have before: "length (filter (\<lambda>x. entry_type m x = ?ty) done) = entries_before m es ?i"
    by (simp add: entries_before_def e Cons.prems(1))
  let ?a = "unat (avail_service_per_type st ! ?ty)"
  have lt: "entries_before m es ?i < ?a"
    using entries_before_lt [OF e(2), of m] enough [OF ty(1)] e(1) by simp
  have cur: "unat (cursors ! ?ty) = ?a - entries_before m es ?i"
    using Cons.prems(4) [OF ty(1)] before by simp
  have pos: "1 \<le> cursors ! ?ty" using cur lt by (simp add: word_le_nat_alt)
  have idx: "unat (cursors ! ?ty - 1) = ?a - 1 - entries_before m es ?i"
    using pos cur lt by (simp add: unat_sub word_le_nat_alt)
  have a8: "?a \<le> 8" using ok ty(1) by (simp add: offers_ok_def)
  have small: "unat (cursors ! ?ty - 1) < 8" using idx a8 lt by linarith
  have source: "avail_service_refs st ! ?ty ! unat (cursors ! ?ty - 1) = assigned_service m st es ?i"
    by (simp add: assigned_service_def e(1) idx Let_def)
  have nz: "assigned_service m st es ?i \<noteq> 0"
    using ok ty(1) lt by (auto simp: assigned_service_def e(1) offers_ok_def Let_def)
  let ?c = "cursors[?ty := cursors ! ?ty - 1]" and ?s = "sources[?i := assigned_service m st es ?i]"
  have "plan_services m st (e # rest) ?i cursors sources = plan_services m st rest (length (done @ [e])) ?c ?s"
    using ty(1,2) small Cons.prems(2) e(2) source nz
    by (simp add: SVC_TYPE_MAX_NUM_def SVC_PER_TYPE_MAX_NUM_def Let_def)
  also have "\<dots> = Inr (map (assigned_service m st es) [0..<length es] @ drop (length es) ?s)"
  proof (rule Cons.IH)
    show "es = (done @ [e]) @ rest" using Cons.prems(1) by simp
    show "length es \<le> length ?s" using Cons.prems(2) by simp
    show "length ?c = 8" using Cons.prems(3) by simp
    show "unat (?c ! ty) = unat (avail_service_per_type st ! ty)
        - length (filter (\<lambda>x. entry_type m x = ty) (done @ [e]))" if "ty < 8" for ty
      using that Cons.prems(3,4) idx before lt by (cases "ty = ?ty") (auto simp: nth_list_update)
    show "take (length (done @ [e])) ?s = map (assigned_service m st es) [0..<length (done @ [e])]"
      using Cons.prems(2,5) e(2) by (simp add: take_Suc_conv_app_nth)
  qed
  also have "drop (length es) ?s = drop (length es) sources" using e(2) by simp
  finally show ?case .
qed

text \<open>An eligible protocon gets a plan.\<close>

lemma planner_assign_plan:
  assumes sup: "\<forall>e \<in> set es. supported_entry m e" and n: "length es \<le> 16"
    and sat: "service_planner_can_satisfy_request (request_of m entry es) (avail_service_per_type (states ! i))"
    and ok: "offers_ok (states ! i)" and room: "length (plan_service_sources plan) = 16"
  shows "planner_assign m (request_of m entry es) i plan states = Inr (plan\<lparr>plan_pc_id := word_of_nat i,
     plan_req := Some (request_of m entry es),
     plan_base_serialised_service := monitor_vm_region_base (txlo_xrt_req monitor_vm_layout) (word_of_nat i),
     plan_service_sources := map (assigned_service m (states ! i) es) [0..<length es]
       @ drop (length es) (plan_service_sources plan)\<rparr>)"
proof -
  have enough: "length (filter (\<lambda>e. entry_type m e = ty) es) \<le> unat (avail_service_per_type (states ! i) ! ty)"
    if "ty < 8" for ty
  proof -
    have "length (filter (\<lambda>e. entry_type m e = ty) es) \<le> 16" using n le_trans length_filter_le by blast
    then have "unat (word_of_nat (entries_of_type m es ty) :: u32) = length (filter (\<lambda>e. entry_type m e = ty) es)"
      using entries_of_type_alt [OF sup] by (intro trans [OF unat_word_of_nat_lt]) simp_all
    moreover have "service_count_per_type (request_of m entry es) ! ty = word_of_nat (entries_of_type m es ty)"
      using that by (simp add: request_of_def)
    moreover have "\<not> service_count_per_type (request_of m entry es) ! ty > avail_service_per_type (states ! i) ! ty"
      using sat that by (simp add: service_planner_can_satisfy_request_def SVC_TYPE_MAX_NUM_def)
    ultimately show ?thesis by (simp add: word_le_nat_alt not_less)
  qed
  have "length (avail_service_per_type (states ! i)) = 8" using ok by (simp add: offers_ok_def)
  then have "plan_services m (states ! i) es 0 (avail_service_per_type (states ! i)) (plan_service_sources plan)
      = Inr (map (assigned_service m (states ! i) es) [0..<length es] @ drop (length es) (plan_service_sources plan))"
    using plan_services_assigned [OF ok, of es "[]" es m "plan_service_sources plan"
        "avail_service_per_type (states ! i)"] sup enough n room by simp
  moreover have "take (unat (req_service_count (request_of m entry es))) (service_entries (request_of m entry es)) = es"
    using n by (simp add: count_request_of) (simp add: request_of_def)
  ultimately show ?thesis
    by (simp add: planner_assign_def service_planner_deploy_plan_init_def)
qed

lemma deploy_plan_reset_room: "length (plan_service_sources (deploy_plan_reset p)) = length (plan_service_sources p)"
  by (simp add: deploy_plan_reset_def deploy_plan_memzero_services_def)

text \<open>The references lead to services of their type, all different, as they come from the registry.\<close>

definition offers_of :: "mem \<Rightarrow> nat \<Rightarrow> pc_state \<Rightarrow> bool" where
  "offers_of m pc st \<longleftrightarrow> offers_ok st \<and> (\<forall>ty < 8.
     distinct (take (unat (avail_service_per_type st ! ty)) (avail_service_refs st ! ty))
     \<and> length (avail_service_refs st ! ty) = 8
     \<and> (\<forall>k < unat (avail_service_per_type st ! ty).
          unat (service_type (svc_service_at m (avail_service_refs st ! ty ! k))) = ty
          \<and> unat (svc_pd_id (svc_service_at m (avail_service_refs st ! ty ! k))) = pc))"

lemma registered_offers:
  assumes "distinct ps" and "0 \<notin> set ps" and "pc < 16"
  shows "offers_of m pc (registered m ps states ! pc)"
proof -
  let ?st = "registered m ps states ! pc" and ?ss = "services_of m ps pc"
  have n: "unat (avail_service_per_type ?st ! ty) = min 8 (length (?ss ty))" if "ty < 8" for ty
  proof -
    have "unat (word_of_nat (min 8 (length (?ss ty))) :: u32) = min 8 (length (?ss ty))"
      by (intro unat_word_of_nat_lt) simp
    then show ?thesis using that assms(3) by (simp add: registered_def)
  qed
  have r: "avail_service_refs ?st ! ty = padded (?ss ty)" if "ty < 8" for ty
    using that assms(3) by (simp add: registered_def)
  have mem: "padded (?ss ty) ! k \<in> set (?ss ty)" if "k < min 8 (length (?ss ty))" for ty k
    using that by (simp add: padded_def nth_append)
  have sub: "p \<in> set (?ss ty) \<Longrightarrow> p \<in> set ps \<and> unat (service_type (svc_service_at m p)) = ty
      \<and> unat (svc_pd_id (svc_service_at m p)) = pc" for p ty
    by (simp add: services_of_def)
  have "distinct (take (min 8 (length (?ss ty))) (padded (?ss ty)))" for ty
    using assms(1) by (auto simp: padded_def services_of_def min_def intro!: distinct_take distinct_filter)
  moreover have "length (avail_service_per_type ?st) = 8" using assms(3) by (simp add: registered_def)
  moreover have "padded (?ss ty) ! k \<noteq> 0 \<and> unat (service_type (svc_service_at m (padded (?ss ty) ! k))) = ty
      \<and> unat (svc_pd_id (svc_service_at m (padded (?ss ty) ! k))) = pc" if "k < min 8 (length (?ss ty))" for ty k
    using sub [OF mem [OF that]] assms(2) by auto
  ultimately show ?thesis
    unfolding offers_of_def offers_ok_def using n r by simp
qed

lemma planner_assign_matches:
  assumes sup: "\<forall>e \<in> set es. supported_entry m e" and n: "length es \<le> 16" and i: "i < 16"
    and elig: "eligible (request_of m entry es) states i"
    and ok: "offers_of m i (states ! i)" and room: "length (plan_service_sources plan) = 16"
  shows "\<exists>plan'. planner_assign m (request_of m entry es) i plan states = Inr plan'
    \<and> plan_pc_id plan' = word_of_nat i \<and> plan_req plan' = Some (request_of m entry es)
    \<and> length (plan_service_sources plan') = 16
    \<and> distinct (take (length es) (plan_service_sources plan'))
    \<and> (\<forall>k < length es. plan_service_sources plan' ! k \<noteq> 0
        \<and> unat (service_type (svc_service_at m (plan_service_sources plan' ! k))) = entry_type m (es ! k)
        \<and> unat (svc_pd_id (svc_service_at m (plan_service_sources plan' ! k))) = i)"
proof -
  let ?st = "states ! i" and ?f = "assigned_service m (states ! i) es"
  have sat: "service_planner_can_satisfy_request (request_of m entry es) (avail_service_per_type ?st)"
    using elig by (simp add: eligible_def)
  have ok': "offers_ok ?st" using ok by (simp add: offers_of_def)
  note plan = planner_assign_plan [OF sup n sat ok' room]
  have enough: "length (filter (\<lambda>e. entry_type m e = ty) es) \<le> unat (avail_service_per_type ?st ! ty)" if "ty < 8" for ty
  proof -
    have "length (filter (\<lambda>e. entry_type m e = ty) es) \<le> 16" using n le_trans length_filter_le by blast
    then have "unat (word_of_nat (entries_of_type m es ty) :: u32) = length (filter (\<lambda>e. entry_type m e = ty) es)"
      using entries_of_type_alt [OF sup] by (intro trans [OF unat_word_of_nat_lt]) simp_all
    moreover have "service_count_per_type (request_of m entry es) ! ty = word_of_nat (entries_of_type m es ty)"
      using that by (simp add: request_of_def)
    moreover have "\<not> service_count_per_type (request_of m entry es) ! ty > avail_service_per_type ?st ! ty"
      using sat that by (simp add: service_planner_can_satisfy_request_def SVC_TYPE_MAX_NUM_def)
    ultimately show ?thesis by (simp add: word_le_nat_alt not_less)
  qed
  define slot where "slot k = unat (avail_service_per_type ?st ! entry_type m (es ! k)) - 1 - entries_before m es k" for k
  have f: "?f k = avail_service_refs ?st ! entry_type m (es ! k) ! slot k" for k
    by (simp add: assigned_service_def slot_def Let_def)
  have slot: "slot k < unat (avail_service_per_type ?st ! entry_type m (es ! k))" "entry_type m (es ! k) < 8"
    if "k < length es" for k
  proof -
    have "supported_entry m (es ! k)" using sup that by simp
    then show ty: "entry_type m (es ! k) < 8" by (rule supported_entry_type)
    show "slot k < unat (avail_service_per_type ?st ! entry_type m (es ! k))"
      using entries_before_lt [OF that, of m] enough [OF ty] by (simp add: slot_def)
  qed
  have good: "?f k \<noteq> 0 \<and> unat (service_type (svc_service_at m (?f k))) = entry_type m (es ! k)
      \<and> unat (svc_pd_id (svc_service_at m (?f k))) = i" if "k < length es" for k
    using ok slot [OF that] unfolding f offers_of_def offers_ok_def by blast
  have differ: "?f j \<noteq> ?f k" if jk: "j < k" "k < length es" for j k
  proof
    assume eq: "?f j = ?f k"
    then have ty: "entry_type m (es ! j) = entry_type m (es ! k)"
      using good [of j] good [of k] jk by simp
    let ?ty = "entry_type m (es ! k)" and ?n = "unat (avail_service_per_type ?st ! entry_type m (es ! k))"
    have lt: "slot j < ?n" "slot k < ?n" "?ty < 8" using slot [of j] slot [of k] jk ty by simp_all
    have d: "distinct (take ?n (avail_service_refs ?st ! ?ty))" "length (avail_service_refs ?st ! ?ty) = 8" "?n \<le> 8"
      using ok lt(3) by (simp_all add: offers_of_def offers_ok_def)
    have "take ?n (avail_service_refs ?st ! ?ty) ! slot j = take ?n (avail_service_refs ?st ! ?ty) ! slot k"
      using eq lt ty by (simp add: f)
    then have "slot j = slot k" using nth_eq_iff_index_eq [OF d(1)] lt d(2,3) by simp
    moreover have "entries_before m es j < entries_before m es k" using jk ty by (intro entries_before_mono)
    moreover have "entries_before m es k < ?n"
      using entries_before_lt [OF jk(2), of m] enough [OF lt(3)] by simp
    ultimately show False unfolding slot_def ty by linarith
  qed
  have d: "distinct (map ?f [0..<length es])"
    by (auto simp: distinct_map inj_on_def) (metis differ linorder_neqE_nat)
  show ?thesis unfolding plan
    by (rule exI, rule conjI, rule refl) (use d good n room in \<open>simp add: nth_append\<close>)
qed

section \<open>Properties\<close>

text \<open>C28: a targeted plan goes to the protocon asked for exactly when it is free and offers enough
  services, and then gives every entry of the payload a service of its type that belongs to that
  protocon, no service twice; otherwise the plan is the empty plan, with the number 16.\<close>

theorem planner_by_id_assigns:
  assumes "\<forall>e \<in> set es. supported_entry m e" and "length es \<le> 16"
    and "unat pc < 16 \<longrightarrow> offers_of m (unat pc) (states ! unat pc)"
  shows "\<exists>plan. service_planner_select_protocon_by_id m (request_of m entry es) deploy_plan_zero states pc = Inr plan
    \<and> (if unat pc < 16 \<and> eligible (request_of m entry es) states (unat pc)
       then plan_pc_id plan = pc \<and> plan_req plan = Some (request_of m entry es)
         \<and> distinct (take (length es) (plan_service_sources plan))
         \<and> (\<forall>k < length es. plan_service_sources plan ! k \<noteq> 0
              \<and> unat (service_type (svc_service_at m (plan_service_sources plan ! k))) = entry_type m (es ! k)
              \<and> unat (svc_pd_id (svc_service_at m (plan_service_sources plan ! k))) = unat pc)
       else plan_pc_id plan = 16 \<and> plan_req plan = None)"
proof (cases "unat pc < 16 \<and> eligible (request_of m entry es) states (unat pc)")
  case True
  have "length (plan_service_sources (deploy_plan_reset deploy_plan_zero)) = 16"
    by (simp add: deploy_plan_reset_room) (simp add: deploy_plan_zero_def)
  from planner_assign_matches [OF assms(1,2) _ _ _ this, of "unat pc" entry states] True assms(3)
  show ?thesis by (auto simp: service_planner_select_protocon_by_id_def PC_CHILD_PER_MONITOR_MAX_NUM_def)
next
  case False
  then show ?thesis
    by (auto simp: service_planner_select_protocon_by_id_def PC_CHILD_PER_MONITOR_MAX_NUM_def
        deploy_plan_reset_def deploy_plan_memzero_services_def)
qed

lemma ex_nth: "ty < 8 \<Longrightarrow> (x # replicate 7 y) ! ty = (if ty = 0 then x else y)"
  by (simp add: nth_Cons')

lemma ex_offers: "offers_of ex_memory 0 (ex_pc 0 st)"
proof -
  have f: "unat (service_type (svc_service_at ex_memory 0xAAAAA00014)) = 0"
    "unat (svc_pd_id (svc_service_at ex_memory 0xAAAAA00014)) = 0"
    by code_simp+
  show ?thesis
    by (simp add: offers_of_def offers_ok_def ex_pc_def ex_nth f)
qed

lemma ex_entry: "ent_type (manifest_entry_at ex_memory 0x7000018) = 0"
  by code_simp

lemma ex_states: "i < 16 \<Longrightarrow> protocon_states (ex_monitor sts pol) ! i = ex_pc i (if i < length sts then sts ! i else 0)"
  by (simp add: ex_monitor_def del: upt_Suc)

lemma ex_request_counts:
  "ty < 8 \<Longrightarrow> service_count_per_type (request_of ex_memory e [0x7000018]) ! ty = (if ty = 0 then 1 else 0)"
  by (simp add: request_of_def entries_of_type_def ex_entry)

lemma ex_eligible:
  assumes "i < 16"
  shows "eligible (request_of ex_memory e [0x7000018]) (protocon_states (ex_monitor [2, 2] [])) i \<longleftrightarrow> i = 0"
proof -
  have sat: "service_planner_can_satisfy_request (request_of ex_memory e [0x7000018]) (avail_service_per_type (ex_pc i st))
      \<longleftrightarrow> i = 0" for st
    unfolding service_planner_can_satisfy_request_def SVC_TYPE_MAX_NUM_def
    by (cases "i = 0") (auto simp: ex_request_counts ex_pc_def ex_nth intro!: bexI [of _ 0])
  show ?thesis unfolding eligible_def ex_states [OF assms] sat
    by (auto simp: ex_pc_def PROTOCON_PASSIVE_def)
qed

theorem planner_by_id_assigns_witness:
  "\<exists>plan. service_planner_select_protocon_by_id ex_memory (request_of ex_memory 0x1000 [0x7000018]) deploy_plan_zero
       (protocon_states (ex_monitor [2, 2] [])) 0 = Inr plan
    \<and> plan_pc_id plan = 0 \<and> plan_req plan = Some (request_of ex_memory 0x1000 [0x7000018])"
proof -
  let ?st = "protocon_states (ex_monitor [2, 2] [])"
  have st: "?st ! 0 = ex_pc 0 2" by (simp add: ex_states)
  have s: "\<forall>e \<in> set [0x7000018]. supported_entry ex_memory e"
    by (simp add: supported_entry_def manifest_supported_type ex_entry)
  have el: "eligible (request_of ex_memory 0x1000 [0x7000018]) ?st 0"
    by (simp add: ex_eligible)
  show ?thesis
    using planner_by_id_assigns [OF s, of 0 ?st "0x1000"] el ex_offers [of 2]
    unfolding unat_0 st by auto
qed

text \<open>without a target the first free protocon that offers enough services is chosen; when there is
  none the plan is the empty plan, which the deployment refuses.\<close>

theorem planner_first_fit:
  assumes "\<forall>e \<in> set es. supported_entry m e" and "length es \<le> 16"
    and "\<forall>i < 16. eligible (request_of m entry es) states i \<longrightarrow> offers_of m i (states ! i)"
  shows "\<exists>plan. service_planner_select_protocon m (request_of m entry es) deploy_plan_zero states = Inr plan
    \<and> ((\<exists>i < 16. eligible (request_of m entry es) states i \<and> plan_pc_id plan = word_of_nat i
          \<and> (\<forall>j < i. \<not> eligible (request_of m entry es) states j))
       \<or> (\<forall>i < 16. \<not> eligible (request_of m entry es) states i) \<and> plan_pc_id plan = 16)"
proof (cases "first_index (eligible (request_of m entry es) states) [0..<16]")
  case None
  then have no: "\<forall>i < 16. \<not> eligible (request_of m entry es) states i" by auto
  show ?thesis unfolding service_planner_select_protocon_def PC_CHILD_PER_MONITOR_MAX_NUM_def None option.case
    using no by (auto simp: deploy_plan_reset_def deploy_plan_memzero_services_def PC_CHILD_PER_MONITOR_MAX_NUM_def)
next
  case (Some i)
  from first_index_SomeD [OF Some] have i: "i < 16" "eligible (request_of m entry es) states i"
    "\<forall>j < i. \<not> eligible (request_of m entry es) states j" by auto
  have "length (plan_service_sources (deploy_plan_reset deploy_plan_zero)) = 16"
    by (simp add: deploy_plan_reset_room) (simp add: deploy_plan_zero_def)
  from planner_assign_matches [OF assms(1,2) i(1,2) _ this] assms(3) i obtain plan where
    "planner_assign m (request_of m entry es) i (deploy_plan_reset deploy_plan_zero) states = Inr plan"
    "plan_pc_id plan = word_of_nat i" by blast
  then show ?thesis
    using i Some by (auto simp: service_planner_select_protocon_def PC_CHILD_PER_MONITOR_MAX_NUM_def)
qed

theorem planner_first_fit_witness:
  "\<exists>plan. service_planner_select_protocon ex_memory (request_of ex_memory 0x1000 [0x7000018]) deploy_plan_zero
       (protocon_states (ex_monitor [2, 2] [])) = Inr plan
    \<and> ((\<exists>i < 16. eligible (request_of ex_memory 0x1000 [0x7000018]) (protocon_states (ex_monitor [2, 2] [])) i
          \<and> plan_pc_id plan = word_of_nat i
          \<and> (\<forall>j < i. \<not> eligible (request_of ex_memory 0x1000 [0x7000018]) (protocon_states (ex_monitor [2, 2] [])) j))
       \<or> (\<forall>i < 16. \<not> eligible (request_of ex_memory 0x1000 [0x7000018]) (protocon_states (ex_monitor [2, 2] [])) i)
         \<and> plan_pc_id plan = 16)"
proof (rule planner_first_fit)
  let ?st = "protocon_states (ex_monitor [2, 2] [])"
  show "\<forall>e \<in> set [0x7000018]. supported_entry ex_memory e"
    by (simp add: supported_entry_def manifest_supported_type ex_entry)
  have st: "?st ! 0 = ex_pc 0 2" by (simp add: ex_states)
  show "\<forall>i < 16. eligible (request_of ex_memory 0x1000 [0x7000018]) ?st i \<longrightarrow> offers_of ex_memory i (?st ! i)"
  proof (intro allI impI)
    fix i :: nat assume "i < 16" "eligible (request_of ex_memory 0x1000 [0x7000018]) ?st i"
    then have "i = 0" by (simp add: ex_eligible)
    then show "offers_of ex_memory i (?st ! i)" using ex_offers [of 2] st by simp
  qed
qed simp

end
