(* ===== verification/Service_Installer.thy ===== *)
theory Service_Installer
  imports Service_Planner Elf_Image
begin

text \<open>
  Installing the planned services into a client's image
  (\<open>src/monitor/service/service_installer.c\<close>): each service's data file is read to the address of
  its entry in the client's ELF, and the resources of the service are added to the request list of
  the trusted loader.
\<close>

section \<open>Operations\<close>

definition SVC_MAX_PATH_LEN :: u32 where "SVC_MAX_PATH_LEN = 128"

text \<open>
  The loop of \<open>service_installer_elf_get_sec_with_vaddr\<close> from section \<open>i\<close>, with \<open>k\<close> sections to go.
  Both callers' size argument is null.
\<close>

fun elf_search_section :: "mem \<Rightarrow> u64 \<Rightarrow> u64 \<Rightarrow> nat \<Rightarrow> nat \<Rightarrow> u64" where
  "elf_search_section m elf_base vaddr 0 i = -1"
| "elf_search_section m elf_base vaddr (Suc k) i =
     (let sh = section_header m elf_base i;
          start = sh_addr m sh;
          sz = sh_size m sh
      in if vaddr \<ge> start \<and> vaddr < start + sz
         then if sh_type m sh = SHT_NOBITS then -1
              else elf_base + sh_offset m sh + (vaddr - start)
         else elf_search_section m elf_base vaddr k (Suc i))"

definition service_installer_elf_get_sec_with_vaddr :: "mem \<Rightarrow> u64 \<Rightarrow> u64 \<Rightarrow> u64" where
  "service_installer_elf_get_sec_with_vaddr m elf_base vaddr =
     elf_search_section m elf_base vaddr (unat (e_shnum m elf_base)) 0"

definition service_installer_payload_add_service ::
  "mon_env \<Rightarrow> u64 \<Rightarrow> u8 list \<Rightarrow> u64 \<Rightarrow> monitor \<Rightarrow> monitor res" where
  "service_installer_payload_add_service E elf_base data_file vaddr s =
     (let target_sh = service_installer_elf_get_sec_with_vaddr (memory s) elf_base vaddr
      in if target_sh = 0 then Inr s
         else bindR (pico_vfs_readfile2buf (read_bound E) (mon_fs E) target_sh data_file s)
                (\<lambda>(err, _, s). Inr s))"

text \<open>One resource. The three lists hold 64 entries each; more are dropped.\<close>

definition xrt_add :: "svc_resource \<Rightarrow> trustedlo_xrtreq \<Rightarrow> trustedlo_xrtreq" where
  "xrt_add r x =
     (if res_kind r = SVC_RESOURCE_CHANNEL_NOTIFY then
        (if length (xrt_notifications x) \<ge> 64 then x
         else x\<lparr>xrt_notifications := xrt_notifications x @ [res_value r]\<rparr>)
      else if res_kind r = SVC_RESOURCE_CHANNEL_PPC then
        (if length (xrt_ppcs x) \<ge> 64 then x else x\<lparr>xrt_ppcs := xrt_ppcs x @ [res_value r]\<rparr>)
      else if res_kind r = SVC_RESOURCE_MAP then
        (if length (xrt_mappings x) \<ge> 64 then x
         else x\<lparr>xrt_mappings := xrt_mappings x @ [res_value r]\<rparr>)
      else x)"

text \<open>The loop of \<open>service_installer_append_acrtreq\<close> from resource \<open>i\<close>, with \<open>k\<close> to go.\<close>

fun append_resources :: "mem \<Rightarrow> u64 \<Rightarrow> nat \<Rightarrow> nat \<Rightarrow> trustedlo_xrtreq \<Rightarrow> trustedlo_xrtreq" where
  "append_resources m sv 0 i x = x"
| "append_resources m sv (Suc k) i x =
     append_resources m sv k (Suc i)
       (case svc_service_resource m sv (word_of_nat i) of
          None \<Rightarrow> x | Some p \<Rightarrow> xrt_add (svc_resource_at m p) x)"

definition service_installer_append_acrtreq :: "mem \<Rightarrow> u64 \<Rightarrow> trustedlo_xrtreq \<Rightarrow> trustedlo_xrtreq" where
  "service_installer_append_acrtreq m sv x =
     append_resources m sv (unat (svc_resource_count (svc_service_at m sv))) 0 x"

definition service_installer_initialise_ac_rt_req_header ::
  "mon_env \<Rightarrow> u64 \<Rightarrow> trustedlo_xrtreq \<Rightarrow> monitor \<Rightarrow> monitor" where
  "service_installer_initialise_ac_rt_req_header E header x s =
     (let total_num = word_of_nat (length (xrt_notifications x) + length (xrt_ppcs x) + length (xrt_mappings x)) :: u64;
          serialised_offset = sizeof_xrtreq_header E;
          m = mem_write (memory s) header (xrtreq_header_bytes E total_num serialised_offset)
      in s\<lparr>memory := prepare_xrt_req_list E m (header + serialised_offset) x\<rparr>)"

definition protocon_image_elf :: "mon_env \<Rightarrow> mem \<Rightarrow> u64 \<Rightarrow> u64" where
  "protocon_image_elf E m image_base = image_base + image_elf_offset E m image_base"

text \<open>
  The loop body of \<open>service_installer_apply\<close> for entry \<open>i\<close>: a service whose path is too long is
  skipped, its resources included.
\<close>

definition install_service ::
  "mon_env \<Rightarrow> deploy_plan \<Rightarrow> protocon_svc_req \<Rightarrow> u64 \<Rightarrow> nat \<Rightarrow> trustedlo_xrtreq \<times> monitor
     \<Rightarrow> (trustedlo_xrtreq \<times> monitor) res" where
  "install_service E plan req elf_base i xs =
     (let (x, s) = xs;
          sv = plan_service_sources plan ! i;
          len = path_len (svc_service_at (memory s) sv)
      in if len \<ge> SVC_MAX_PATH_LEN then Inr (x, s)
         else
           let path = takeWhile (\<lambda>b. b \<noteq> 0) (mem_read (memory s) (svc_service_path (memory s) sv) (unat len));
               vaddr = ent_offset (manifest_entry_at (memory s) (service_entries req ! i)) + payload_e_entry req
           in bindR (service_installer_payload_add_service E elf_base path vaddr s)
                (\<lambda>s. Inr (service_installer_append_acrtreq (memory s) sv x, s)))"

definition trustedlo_xrtreq_zero :: trustedlo_xrtreq where
  "trustedlo_xrtreq_zero = \<lparr>xrt_notifications = [], xrt_ppcs = [], xrt_mappings = []\<rparr>"

text \<open>
  The whole call when nothing else runs in between; the deployment coroutine of \<open>Monitor_Deploy\<close> takes
  the same steps one service at a time.
\<close>

definition service_installer_apply :: "mon_env \<Rightarrow> deploy_plan \<Rightarrow> monitor \<Rightarrow> monitor res" where
  "service_installer_apply E plan s =
     (case plan_req plan of
        None \<Rightarrow> Inl UB
      | Some req \<Rightarrow>
          bindR (fold (\<lambda>i r. bindR r (install_service E plan req (protocon_image_elf E (memory s) (plan_pc_base plan)) i))
                   [0..<unat (req_service_count req)] (Inr (trustedlo_xrtreq_zero, s)))
            (\<lambda>(x, s). Inr (service_installer_initialise_ac_rt_req_header E (plan_base_serialised_service plan) x s)))"

section \<open>Looking up a section\<close>

definition section_holds :: "mem \<Rightarrow> u64 \<Rightarrow> u64 \<Rightarrow> nat \<Rightarrow> bool" where
  "section_holds m elf vaddr i \<longleftrightarrow> sh_addr m (section_header m elf i) \<le> vaddr
     \<and> vaddr < sh_addr m (section_header m elf i) + sh_size m (section_header m elf i)"

lemma elf_search_section_first:
  "elf_search_section m elf vaddr k i =
    (case first_index (section_holds m elf vaddr) [i..<i + k] of
       None \<Rightarrow> -1
     | Some j \<Rightarrow> let sh = section_header m elf (i + j)
         in if sh_type m sh = SHT_NOBITS then -1 else elf + sh_offset m sh + (vaddr - sh_addr m sh))"
proof (induction k arbitrary: i)
  case (Suc k)
  have l: "[i..<i + Suc k] = i # [Suc i..<Suc i + k]" by (simp add: upt_conv_Cons del: upt_Suc)
  show ?case
  proof (cases "section_holds m elf vaddr i")
    case True
    then show ?thesis unfolding l by (simp add: section_holds_def Let_def del: upt_Suc)
  next
    case False
    then have "elf_search_section m elf vaddr (Suc k) i = elf_search_section m elf vaddr k (Suc i)"
      by (auto simp: section_holds_def Let_def)
    then show ?thesis using False unfolding l
      by (cases "first_index (section_holds m elf vaddr) [Suc i..<Suc i + k]")
        (simp_all add: Suc del: upt_Suc first_index_None_iff elf_search_section.simps)
  qed
qed simp

section \<open>Collecting resources\<close>

text \<open>The values of a kind among the resources of a service, in order.\<close>

definition resources_at :: "mem \<Rightarrow> u64 \<Rightarrow> nat \<Rightarrow> nat \<Rightarrow> svc_resource list" where
  "resources_at m sv i k = map (\<lambda>j. svc_resource_at m (the (svc_service_resource m sv (word_of_nat j)))) [i..<i + k]"

definition values_of :: "u8 \<Rightarrow> svc_resource list \<Rightarrow> u64 list" where
  "values_of k rs = map res_value (filter (\<lambda>r. res_kind r = k) rs)"

definition xrt_within :: "trustedlo_xrtreq \<Rightarrow> bool" where
  "xrt_within x \<longleftrightarrow> length (xrt_notifications x) \<le> 64 \<and> length (xrt_ppcs x) \<le> 64 \<and> length (xrt_mappings x) \<le> 64"

lemma take64_snoc:
  assumes "length xs \<le> 64"
  shows "take 64 ((if 64 \<le> length xs then xs else xs @ [v]) @ ys) = take 64 (xs @ v # ys)"
proof (cases "64 \<le> length xs")
  case True
  then show ?thesis using assms by simp
next
  case False
  then show ?thesis by (simp only: if_False append_assoc append.simps)
qed

lemma fold_xrt_add:
  assumes "xrt_within x"
  shows "fold xrt_add rs x = x\<lparr>
      xrt_notifications := take 64 (xrt_notifications x @ values_of SVC_RESOURCE_CHANNEL_NOTIFY rs),
      xrt_ppcs := take 64 (xrt_ppcs x @ values_of SVC_RESOURCE_CHANNEL_PPC rs),
      xrt_mappings := take 64 (xrt_mappings x @ values_of SVC_RESOURCE_MAP rs)\<rparr>"
  using assms
proof (induction rs arbitrary: x)
  case Nil
  then show ?case by (simp add: xrt_within_def values_of_def)
next
  case (Cons r rs)
  have "xrt_within (xrt_add r x)" using Cons.prems by (simp add: xrt_add_def xrt_within_def)
  note ih = Cons.IH [OF this]
  have w: "length (xrt_notifications x) \<le> 64" "length (xrt_ppcs x) \<le> 64" "length (xrt_mappings x) \<le> 64"
    using Cons.prems by (simp_all add: xrt_within_def)
  note kinds = SVC_RESOURCE_CHANNEL_NOTIFY_def SVC_RESOURCE_CHANNEL_PPC_def SVC_RESOURCE_MAP_def
  consider "res_kind r = 1" | "res_kind r = 2" | "res_kind r = 3" | "res_kind r \<notin> {1, 2, 3}" by auto
  then show ?case
  proof cases
    case 1
    then have r: "xrt_add r x = x\<lparr>xrt_notifications := if 64 \<le> length (xrt_notifications x)
        then xrt_notifications x else xrt_notifications x @ [res_value r]\<rparr>"
      by (simp add: xrt_add_def kinds)
    show ?thesis using ih take64_snoc [OF w(1), of "res_value r"] 1 by (simp add: r values_of_def kinds del: take_append)
  next
    case 2
    then have r: "xrt_add r x = x\<lparr>xrt_ppcs := if 64 \<le> length (xrt_ppcs x)
        then xrt_ppcs x else xrt_ppcs x @ [res_value r]\<rparr>"
      by (simp add: xrt_add_def kinds)
    show ?thesis using ih take64_snoc [OF w(2), of "res_value r"] 2 by (simp add: r values_of_def kinds del: take_append)
  next
    case 3
    then have r: "xrt_add r x = x\<lparr>xrt_mappings := if 64 \<le> length (xrt_mappings x)
        then xrt_mappings x else xrt_mappings x @ [res_value r]\<rparr>"
      by (simp add: xrt_add_def kinds)
    show ?thesis using ih take64_snoc [OF w(3), of "res_value r"] 3 by (simp add: r values_of_def kinds del: take_append)
  next
    case 4
    then have "xrt_add r x = x" by (simp add: xrt_add_def kinds)
    then show ?thesis using ih 4 by (simp add: values_of_def kinds)
  qed
qed

lemma append_resources_fold:
  assumes "i + k \<le> unat (svc_resource_count (svc_service_at m sv))"
  shows "append_resources m sv k i x = fold xrt_add (resources_at m sv i k) x"
  using assms
proof (induction k arbitrary: i x)
  case (Suc k)
  have lt: "i < 2 ^ 32" "i < unat (svc_resource_count (svc_service_at m sv))"
    using Suc.prems u32_lt [of "svc_resource_count (svc_service_at m sv)"] by simp_all
  then have "unat (word_of_nat i :: u32) = i" by (intro unat_word_of_nat_lt) simp
  then have "\<not> (word_of_nat i :: u32) \<ge> svc_resource_count (svc_service_at m sv)"
    using lt by (simp add: word_le_nat_alt)
  then obtain p where p: "svc_service_resource m sv (word_of_nat i) = Some p"
    by (auto simp: svc_service_resource_def)
  have l: "[i..<i + Suc k] = i # [Suc i..<Suc i + k]" by (simp add: upt_conv_Cons del: upt_Suc)
  show ?case
    using Suc.IH [of "Suc i" "xrt_add (svc_resource_at m p) x"] Suc.prems p
    unfolding resources_at_def l by (simp del: upt_Suc)
qed (simp add: resources_at_def)

text \<open>An ELF header and one section header, for a section of one byte at \<open>vaddr\<close> and any file offset.\<close>

definition one_section :: "u64 \<Rightarrow> u64 \<Rightarrow> u8 list" where
  "one_section vaddr offset = replicate 40 0 @ le_bytes 8 (64 :: u64) @ replicate 12 0 @ le_bytes 2 (1 :: u16)
     @ replicate 2 0 @ replicate 4 0 @ le_bytes 4 (1 :: u32) @ replicate 8 0 @ le_bytes 8 vaddr
     @ le_bytes 8 offset @ le_bytes 8 (1 :: u64)"

lemma one_section_lookup:
  assumes "mem_holds m elf (one_section vaddr offset)" and "vaddr \<noteq> -1"
  shows "service_installer_elf_get_sec_with_vaddr m elf vaddr = elf + offset"
proof -
  have h: "mem_holds m (elf + 40) (le_bytes 8 (64 :: u64))" "mem_holds m (elf + 60) (le_bytes 2 (1 :: u16))"
    "mem_holds m (elf + 68) (le_bytes 4 (1 :: u32))" "mem_holds m (elf + 80) (le_bytes 8 vaddr)"
    "mem_holds m (elf + 88) (le_bytes 8 offset)" "mem_holds m (elf + 96) (le_bytes 8 (1 :: u64))"
    using assms(1) by (simp_all add: one_section_def add.assoc)
  have e: "e_shoff m elf = 64" "e_shnum m elf = 1" "section_header m elf 0 = elf + 64"
    using read_u64_le_bytes [OF h(1)] read_u16_le_bytes [OF h(2)]
    by (simp_all add: e_shoff_def e_shnum_def section_header_def)
  have s: "sh_type m (elf + 64) = 1" "sh_addr m (elf + 64) = vaddr" "sh_offset m (elf + 64) = offset"
    "sh_size m (elf + 64) = 1"
    using read_u32_le_bytes [OF h(3)] read_u64_le_bytes [OF h(4)] read_u64_le_bytes [OF h(5)] read_u64_le_bytes [OF h(6)]
    by (simp_all add: sh_type_def sh_addr_def sh_offset_def sh_size_def add.assoc)
  have "vaddr < vaddr + 1" 
  proof -
    have "vaddr + 1 \<noteq> 0" using assms(2) by (metis add.commute add_eq_0_iff)
    then have "unat (vaddr + 1) = Suc (unat vaddr)" by (simp add: unatSuc add.commute)
    then show ?thesis by (simp add: word_less_nat_alt)
  qed
  then show ?thesis
    by (simp add: service_installer_elf_get_sec_with_vaddr_def e(2) e(3) s SHT_NOBITS_def Let_def)
qed

section \<open>Properties\<close>

text \<open>the section lookup finds the first section that holds the address, and returns the place of
  its contents in the image; without one, or when it has no contents, it returns -1.\<close>

theorem section_lookup_spec:
  "service_installer_elf_get_sec_with_vaddr m elf vaddr =
    (case first_index (section_holds m elf vaddr) [0..<unat (e_shnum m elf)] of
       None \<Rightarrow> -1
     | Some j \<Rightarrow> let sh = section_header m elf j
         in if sh_type m sh = SHT_NOBITS then -1 else elf + sh_offset m sh + (vaddr - sh_addr m sh))"
  by (simp only: service_installer_elf_get_sec_with_vaddr_def elf_search_section_first add_0)

text \<open>C35: when no section holds the address of an entry, the service's file is not skipped: it is read
  to the address -1, because the caller tests for a null address.\<close>

theorem missing_section_is_not_detected:
  assumes "\<forall>i < unat (e_shnum (memory s) elf). \<not> section_holds (memory s) elf vaddr i"
  shows "service_installer_payload_add_service E elf fname vaddr s =
    bindR (pico_vfs_readfile2buf (read_bound E) (mon_fs E) (-1) fname s) (\<lambda>(err, _, s). Inr s)"
proof -
  have "first_index (section_holds (memory s) elf vaddr) [0..<unat (e_shnum (memory s) elf)] = None"
    using assms by simp
  then have "service_installer_elf_get_sec_with_vaddr (memory s) elf vaddr = -1"
    using elf_search_section_first [of "memory s" elf vaddr "unat (e_shnum (memory s) elf)" 0]
    by (simp add: service_installer_elf_get_sec_with_vaddr_def del: first_index_None_iff)
  then show ?thesis by (simp add: service_installer_payload_add_service_def)
qed

theorem missing_section_is_not_detected_witness:
  "service_installer_payload_add_service ex_mon_env 0x4000 [97] 0x1234 (ex_monitor [2, 2] []) =
    bindR (pico_vfs_readfile2buf 32 (ex_fs_env ex_file_server) (-1) [97] (ex_monitor [2, 2] [])) (\<lambda>(err, _, s). Inr s)"
proof -
  have "e_shnum (memory (ex_monitor [2, 2] [])) 0x4000 = 0"
    unfolding ex_monitor_def by simp code_simp
  then show ?thesis
    using missing_section_is_not_detected [where s = "ex_monitor [2, 2] []" and elf = "0x4000" and vaddr = "0x1234"
        and E = ex_mon_env and fname = "[97]"]
    by (simp add: ex_mon_env_def)
qed

text \<open>the place a service's file is read to is the client's choice: for every address of the monitor
  there is an image whose section table leads the lookup there.\<close>

theorem install_target_unchecked:
  "\<forall>target. \<exists>m. service_installer_elf_get_sec_with_vaddr m 0x50000400 0x1000 = target"
proof
  fix target
  let ?m = "mem_write (\<lambda>_. 0) 0x50000400 (one_section 0x1000 (target - 0x50000400))"
  have "mem_holds ?m 0x50000400 (one_section 0x1000 (target - 0x50000400))"
    by (rule mem_holds_mem_write) (simp add: one_section_def)
  moreover have "(0x1000 :: u64) \<noteq> -1" by simp
  ultimately have "service_installer_elf_get_sec_with_vaddr ?m 0x50000400 0x1000 = 0x50000400 + (target - 0x50000400)"
    by (rule one_section_lookup)
  then have "service_installer_elf_get_sec_with_vaddr ?m 0x50000400 0x1000 = target"
    by (simp only: add_diff_cancel_left' diff_add_cancel add_diff_eq)
  then show "\<exists>m. service_installer_elf_get_sec_with_vaddr m 0x50000400 0x1000 = target" by blast
qed

text \<open>the request list of the loader gets the resources of a service in order and by kind, and at
  most 64 of a kind; the rest is dropped.\<close>

theorem installer_collects_resources:
  assumes "xrt_within x"
  shows "service_installer_append_acrtreq m sv x =
    (let rs = resources_at m sv 0 (unat (svc_resource_count (svc_service_at m sv)))
     in x\<lparr>xrt_notifications := take 64 (xrt_notifications x @ values_of SVC_RESOURCE_CHANNEL_NOTIFY rs),
          xrt_ppcs := take 64 (xrt_ppcs x @ values_of SVC_RESOURCE_CHANNEL_PPC rs),
          xrt_mappings := take 64 (xrt_mappings x @ values_of SVC_RESOURCE_MAP rs)\<rparr>)"
  unfolding service_installer_append_acrtreq_def Let_def fold_xrt_add [OF assms, symmetric]
  by (rule append_resources_fold) simp

theorem installer_collects_resources_witness:
  "xrt_notifications (service_installer_append_acrtreq ex_memory 0xAAAAA00014 trustedlo_xrtreq_zero) = [40]"
proof -
  have rs: "resources_at ex_memory 0xAAAAA00014 0 (unat (svc_resource_count (svc_service_at ex_memory 0xAAAAA00014)))
      = [\<lparr>res_kind = 1, res_value = 40\<rparr>]" by code_simp
  have w: "xrt_within trustedlo_xrtreq_zero" by (simp add: xrt_within_def trustedlo_xrtreq_zero_def)
  show ?thesis unfolding installer_collects_resources [OF w] rs
    by (simp add: trustedlo_xrtreq_zero_def values_of_def SVC_RESOURCE_CHANNEL_NOTIFY_def)
qed

end
