(* ===== verification/Monitor_Acl.thy ===== *)
theory Monitor_Acl
  imports Monitor_State
begin

unbundle bit_operations_syntax

text \<open>
  The peer policy and the switch ACLs (\<open>src/monitor/request/network.c\<close>). Each protocon has the set
  of peers it wants to talk to, a 32-bit mask; two protocons are connected when a deployment finds
  both masks to agree, and a stopped protocon is cut off.
\<close>

section \<open>Operations\<close>

definition monitor_call_set_vswitch_acl ::
  "mon_env \<Rightarrow> u64 \<Rightarrow> u64 \<Rightarrow> u64 \<Rightarrow> monitor \<Rightarrow> msginfo \<times> monitor" where
  "monitor_call_set_vswitch_acl E port0 port1 allow s =
     (let regs = (mrs s)(VSWITCH_ACL_PORT0 E := port0, VSWITCH_ACL_PORT1 E := port1,
                         VSWITCH_ACL_VALUE E := allow);
          (label, regs) = vswitch_ppcall E (events s) regs;
          error = ucast (regs (VSWITCH_ACL_RET_ERR E)) :: u32;
          ok = (label = 0 \<and> error = VSWITCH_ERR_OKAY E);
          s = emit (VswitchAcl port0 port1 allow ok) s
      in if \<not> ok then ((MON_VSWITCH_ERROR, 1), s\<lparr>mrs := regs(0 := ucast error)\<rparr>)
         else ((MON_NO_ERROR, 0), s\<lparr>mrs := regs\<rparr>))"

definition monitor_acl_initialise :: "u32 \<Rightarrow> monitor \<Rightarrow> monitor" where
  "monitor_acl_initialise num_protocons s =
     s\<lparr>monitored_protocon_count := num_protocons,
       peer_policy := replicate PC_CHILD_PER_MONITOR_MAX_NUM 0\<rparr>"

text \<open>One iteration of the loop of \<open>monitor_acl_release_protocon\<close>.\<close>

definition acl_release_peer :: "mon_env \<Rightarrow> u32 \<Rightarrow> nat \<Rightarrow> monitor \<Rightarrow> monitor" where
  "acl_release_peer E pc_id peer s =
     (if word_of_nat peer = pc_id then s
      else
        let s = snd (monitor_call_set_vswitch_acl E (ucast pc_id) (word_of_nat peer) 0 s)
        in s\<lparr>peer_policy := (peer_policy s)[peer :=
               peer_policy s ! peer AND NOT (push_bit (unat pc_id) 1)]\<rparr>)"

definition monitor_acl_release_protocon :: "mon_env \<Rightarrow> u32 \<Rightarrow> monitor \<Rightarrow> monitor" where
  "monitor_acl_release_protocon E pc_id s =
     (if pc_id \<ge> monitored_protocon_count s then s
      else
        let s = fold (acl_release_peer E pc_id) [0..<unat (monitored_protocon_count s)] s
        in s\<lparr>peer_policy := (peer_policy s)[unat pc_id := 0]\<rparr>)"

text \<open>
  The loop of \<open>monitor_acl_apply_deployment\<close> over the given peers, with the masks collected so far;
  None stands for the early return.
\<close>

fun acl_apply_peers :: "mon_env \<Rightarrow> u32 \<Rightarrow> u32 \<Rightarrow> nat list \<Rightarrow> u32 \<times> u32 \<times> u32 \<Rightarrow> monitor
    \<Rightarrow> (u32 \<times> u32 \<times> u32) option \<times> monitor" where
  "acl_apply_peers E pc_id wanted [] masks s = (Some masks, s)"
| "acl_apply_peers E pc_id wanted (peer # peers) (connected, rejected, unavailable) s =
     (let peer_bit = push_bit peer 1
      in if wanted AND peer_bit = 0
         then acl_apply_peers E pc_id wanted peers (connected, rejected, unavailable) s
         else if \<not> protocon_state_check_lifecycle_state (word_of_nat peer) PROTOCON_ACTIVE s
               \<and> \<not> protocon_state_check_lifecycle_state (word_of_nat peer) PROTOCON_SUSPENDED s
         then acl_apply_peers E pc_id wanted peers (connected, rejected, unavailable OR peer_bit) s
         else if peer_policy s ! peer AND push_bit (unat pc_id) 1 = 0
         then acl_apply_peers E pc_id wanted peers (connected, rejected OR peer_bit, unavailable) s
         else
           let (reply, s) = monitor_call_set_vswitch_acl E (ucast pc_id) (word_of_nat peer) 1 s
           in if fst reply \<noteq> MON_NO_ERROR then (None, s)
              else acl_apply_peers E pc_id wanted peers (connected OR peer_bit, rejected, unavailable) s)"

text \<open>The three masks are output parameters, written on success only.\<close>

definition monitor_acl_apply_deployment ::
  "mon_env \<Rightarrow> u32 \<Rightarrow> u32 \<Rightarrow> u32 \<times> u32 \<times> u32 \<Rightarrow> monitor
     \<Rightarrow> pc_monitor_error \<times> (u32 \<times> u32 \<times> u32) \<times> monitor" where
  "monitor_acl_apply_deployment E pc_id requested_peer_mask out s =
     (if pc_id \<ge> monitored_protocon_count s then (MON_INVALID_PC_ID, out, s)
      else
        let s = s\<lparr>peer_policy := (peer_policy s)[unat pc_id := requested_peer_mask]\<rparr>
        in case acl_apply_peers E pc_id requested_peer_mask
                  [0..<unat (monitored_protocon_count s)] (0, 0, 0) s of
             (None, s) \<Rightarrow> (MON_VSWITCH_ERROR, out, s)
           | (Some masks, s) \<Rightarrow> (MON_NO_ERROR, masks, s))"

section \<open>What the switch is told\<close>

text \<open>The ports a list of events connects or cuts, in the order of the requests.\<close>

definition acl_requests :: "event list \<Rightarrow> (u64 \<times> u64 \<times> u64) list" where
  "acl_requests es = concat (map (\<lambda>e. case e of VswitchAcl p q v ok \<Rightarrow> [(p, q, v)] | _ \<Rightarrow> []) es)"

lemma acl_requests_simps [simp]:
  "acl_requests [] = []"
  "acl_requests (es @ fs) = acl_requests es @ acl_requests fs"
  "acl_requests (VswitchAcl p q v ok # es) = (p, q, v) # acl_requests es"
  by (simp_all add: acl_requests_def)

text \<open>The state after an ACL request: registers and events change.\<close>

lemma set_vswitch_acl_cases:
  obtains ok regs where
    "monitor_call_set_vswitch_acl E p q v s =
       ((if ok then (MON_NO_ERROR, 0) else (MON_VSWITCH_ERROR, 1)),
        s\<lparr>events := events s @ [VswitchAcl p q v ok], mrs := regs\<rparr>)"
proof -
  obtain label regs where p: "vswitch_ppcall E (events s)
      ((mrs s)(VSWITCH_ACL_PORT0 E := p, VSWITCH_ACL_PORT1 E := q, VSWITCH_ACL_VALUE E := v)) = (label, regs)"
    by (cases "vswitch_ppcall E (events s)
      ((mrs s)(VSWITCH_ACL_PORT0 E := p, VSWITCH_ACL_PORT1 E := q, VSWITCH_ACL_VALUE E := v))") simp
  show ?thesis
    by (cases "label = 0 \<and> ucast (regs (VSWITCH_ACL_RET_ERR E)) = VSWITCH_ERR_OKAY E")
      (rule that [of True regs] that [of False "regs(0 := ucast (ucast (regs (VSWITCH_ACL_RET_ERR E)) :: u32))"],
        simp add: monitor_call_set_vswitch_acl_def p Let_def emit_def)+
qed

section \<open>Releasing a protocon\<close>

lemma fold_release:
  assumes "distinct peers" and "\<forall>p \<in> set peers. p < length (peer_policy s) \<and> p < 32"
  shows "\<exists>regs es. fold (acl_release_peer E cid) peers s =
      s\<lparr>peer_policy := map (\<lambda>i. if i \<in> set peers \<and> word_of_nat i \<noteq> cid
            then peer_policy s ! i AND NOT (push_bit (unat cid) 1) else peer_policy s ! i)
          [0..<length (peer_policy s)],
        mrs := regs, events := events s @ es\<rparr>
    \<and> acl_requests es = map (\<lambda>p. (ucast cid, word_of_nat p, 0)) (filter (\<lambda>p. word_of_nat p \<noteq> cid) peers)"
  using assms
proof (induction peers arbitrary: s)
  case Nil
  have "s = s\<lparr>peer_policy := map ((!) (peer_policy s)) [0..<length (peer_policy s)], mrs := mrs s, events := events s @ []\<rparr>"
    by (simp add: map_nth)
  then show ?case by (intro exI [of _ "mrs s"] exI [of _ "[]"]) simp
next
  case (Cons p peers)
  show ?case
  proof (cases "word_of_nat p = cid")
    case True
    have p: "acl_release_peer E cid p s = s" using True by (simp add: acl_release_peer_def)
    have pol: "map (\<lambda>i. if i \<in> set (p # peers) \<and> word_of_nat i \<noteq> cid
            then peer_policy s ! i AND NOT (push_bit (unat cid) 1) else peer_policy s ! i)
          [0..<length (peer_policy s)] =
        map (\<lambda>i. if i \<in> set peers \<and> word_of_nat i \<noteq> cid
            then peer_policy s ! i AND NOT (push_bit (unat cid) 1) else peer_policy s ! i)
          [0..<length (peer_policy s)]"
      using True by auto
    have "filter (\<lambda>p. word_of_nat p \<noteq> cid) (p # peers) = filter (\<lambda>p. word_of_nat p \<noteq> cid) peers"
      using True by simp
    then show ?thesis
      using Cons.IH [of s] Cons.prems p unfolding pol by simp
  next
    case False
    obtain ok regs where call: "monitor_call_set_vswitch_acl E (ucast cid) (word_of_nat p) 0 s =
       ((if ok then (MON_NO_ERROR, 0) else (MON_VSWITCH_ERROR, 1)),
        s\<lparr>events := events s @ [VswitchAcl (ucast cid) (word_of_nat p) 0 ok], mrs := regs\<rparr>)"
      by (rule set_vswitch_acl_cases)
    let ?t = "acl_release_peer E cid p s"
    have t: "?t = s\<lparr>events := events s @ [VswitchAcl (ucast cid) (word_of_nat p) 0 ok], mrs := regs,
        peer_policy := (peer_policy s)[p := peer_policy s ! p AND NOT (push_bit (unat cid) 1)]\<rparr>"
      using False by (simp add: acl_release_peer_def call)
    have "distinct peers" "\<forall>q \<in> set peers. q < length (peer_policy ?t) \<and> q < 32"
      using Cons.prems by (simp_all add: t)
    from Cons.IH [OF this] obtain regs' es where ih: "fold (acl_release_peer E cid) peers ?t =
      ?t\<lparr>peer_policy := map (\<lambda>i. if i \<in> set peers \<and> word_of_nat i \<noteq> cid
            then peer_policy ?t ! i AND NOT (push_bit (unat cid) 1) else peer_policy ?t ! i)
          [0..<length (peer_policy ?t)],
        mrs := regs', events := events ?t @ es\<rparr>"
      "acl_requests es = map (\<lambda>p. (ucast cid, word_of_nat p, 0)) (filter (\<lambda>p. word_of_nat p \<noteq> cid) peers)"
      by blast
    have pol: "map (\<lambda>i. if i \<in> set peers \<and> word_of_nat i \<noteq> cid
            then peer_policy ?t ! i AND NOT (push_bit (unat cid) 1) else peer_policy ?t ! i)
          [0..<length (peer_policy ?t)] =
        map (\<lambda>i. if i \<in> set (p # peers) \<and> word_of_nat i \<noteq> cid
            then peer_policy s ! i AND NOT (push_bit (unat cid) 1) else peer_policy s ! i)
          [0..<length (peer_policy s)]"
      using Cons.prems False by (auto simp: t nth_list_update)
    show ?thesis
      using ih False unfolding pol
      by (intro exI [of _ regs'] exI [of _ "VswitchAcl (ucast cid) (word_of_nat p) 0 ok # es"]) (simp add: t)
  qed
qed

unbundle bit_operations_syntax

section \<open>Applying a deployment\<close>

definition mask_of :: "nat list \<Rightarrow> u32" where
  "mask_of ps = foldr (\<lambda>p m. push_bit p 1 OR m) ps 0"

lemma mask_of_simps [simp]: "mask_of [] = 0" "mask_of (p # ps) = push_bit p 1 OR mask_of ps"
  by (simp_all add: mask_of_def)

lemma bit_mask_of: "bit (mask_of ps) n \<longleftrightarrow> n \<in> set ps \<and> n < 32"
  by (induction ps) (auto simp: bit_or_iff bit_push_bit_iff bit_1_iff simp del: push_bit_of_1)

text \<open>The three kinds of requested peers.\<close>

definition running :: "monitor \<Rightarrow> nat \<Rightarrow> bool" where
  "running s p \<longleftrightarrow> life_cycle_state (protocon_states s ! p) \<in> {PROTOCON_ACTIVE, PROTOCON_SUSPENDED}"

definition consents :: "monitor \<Rightarrow> nat \<Rightarrow> u32 \<Rightarrow> bool" where
  "consents s p cid \<longleftrightarrow> bit (peer_policy s ! p) (unat cid)"

definition mutual_peers :: "monitor \<Rightarrow> u32 \<Rightarrow> u32 \<Rightarrow> nat list \<Rightarrow> nat list" where
  "mutual_peers s cid wanted = filter (\<lambda>p. bit wanted p \<and> running s p \<and> consents s p cid)"

definition unwilling_peers :: "monitor \<Rightarrow> u32 \<Rightarrow> u32 \<Rightarrow> nat list \<Rightarrow> nat list" where
  "unwilling_peers s cid wanted = filter (\<lambda>p. bit wanted p \<and> running s p \<and> \<not> consents s p cid)"

definition absent_peers :: "monitor \<Rightarrow> u32 \<Rightarrow> nat list \<Rightarrow> nat list" where
  "absent_peers s wanted = filter (\<lambda>p. bit wanted p \<and> \<not> running s p)"

lemmas peer_kinds = mutual_peers_def unwilling_peers_def absent_peers_def

lemma mask_test: "(w :: u32) AND push_bit n 1 = 0 \<longleftrightarrow> \<not> bit w n"
  using bit_iff_and_push_bit_not_eq_0 [of w n] by simp

lemma check_running:
  "p < 2 ^ 32 \<Longrightarrow> protocon_state_check_lifecycle_state (word_of_nat p) PROTOCON_ACTIVE s
      \<or> protocon_state_check_lifecycle_state (word_of_nat p) PROTOCON_SUSPENDED s \<longleftrightarrow> running s p"
  by (simp add: protocon_state_check_lifecycle_state_def protocon_state_get_lifecycle_state_def running_def
      unat_word_of_nat_lt)

text \<open>One step of the loop, per kind of peer.\<close>

lemma acl_apply_step:
  assumes "p < 2 ^ 32"
  shows "acl_apply_peers E cid wanted (p # ps) (c, r, u) s =
    (if \<not> bit wanted p then acl_apply_peers E cid wanted ps (c, r, u) s
     else if \<not> running s p then acl_apply_peers E cid wanted ps (c, r, u OR push_bit p 1) s
     else if \<not> consents s p cid then acl_apply_peers E cid wanted ps (c, r OR push_bit p 1, u) s
     else case monitor_call_set_vswitch_acl E (ucast cid) (word_of_nat p) 1 s of
       (reply, s) \<Rightarrow> if fst reply \<noteq> MON_NO_ERROR then (None, s)
                      else acl_apply_peers E cid wanted ps (c OR push_bit p 1, r, u) s)"
proof -
  note run = check_running [OF assms, of s]
  show ?thesis
    unfolding acl_apply_peers.simps Let_def mask_test consents_def [symmetric] de_Morgan_disj [symmetric] run
    by simp
qed

lemma acl_apply_peers_spec:
  assumes "\<forall>p \<in> set ps. p < 32"
  shows "\<exists>regs es. snd (acl_apply_peers E cid wanted ps (c, r, u) s) = s\<lparr>events := events s @ es, mrs := regs\<rparr>
    \<and> (case fst (acl_apply_peers E cid wanted ps (c, r, u) s) of
         Some masks \<Rightarrow> masks = (c OR mask_of (mutual_peers s cid wanted ps),
             r OR mask_of (unwilling_peers s cid wanted ps), u OR mask_of (absent_peers s wanted ps))
           \<and> acl_requests es = map (\<lambda>p. (ucast cid, word_of_nat p, 1)) (mutual_peers s cid wanted ps)
       | None \<Rightarrow> \<exists>before p after. mutual_peers s cid wanted ps = before @ p # after
           \<and> acl_requests es = map (\<lambda>p. (ucast cid, word_of_nat p, 1)) (before @ [p]))"
  using assms
proof (induction ps arbitrary: c r u s)
  case Nil
  have "s = s\<lparr>events := events s @ [], mrs := mrs s\<rparr>" by simp
  then show ?case by (intro exI [of _ "mrs s"] exI [of _ "[]"]) (simp add: peer_kinds)
next
  case (Cons p ps)
  then have p: "p < 2 ^ 32" by simp
  consider "\<not> bit wanted p" | "bit wanted p" "\<not> running s p"
    | "bit wanted p" "running s p" "\<not> consents s p cid" | "bit wanted p" "running s p" "consents s p cid"
    by blast
  then show ?case
  proof cases
    case 4
    obtain ok regs where call: "monitor_call_set_vswitch_acl E (ucast cid) (word_of_nat p) 1 s =
       ((if ok then (MON_NO_ERROR, 0) else (MON_VSWITCH_ERROR, 1)),
        s\<lparr>events := events s @ [VswitchAcl (ucast cid) (word_of_nat p) 1 ok], mrs := regs\<rparr>)"
      by (rule set_vswitch_acl_cases)
    let ?t = "s\<lparr>events := events s @ [VswitchAcl (ucast cid) (word_of_nat p) 1 ok], mrs := regs\<rparr>"
    have kinds: "mutual_peers s cid wanted (p # ps) = p # mutual_peers ?t cid wanted ps"
      "unwilling_peers s cid wanted (p # ps) = unwilling_peers ?t cid wanted ps"
      "absent_peers s wanted (p # ps) = absent_peers ?t wanted ps"
      using 4 by (simp_all add: peer_kinds running_def consents_def)
    show ?thesis
    proof (cases ok)
      case False
      then have r: "acl_apply_peers E cid wanted (p # ps) (c, r, u) s = (None, ?t)"
        using 4 by (simp add: acl_apply_step [OF p] call del: acl_apply_peers.simps)
      show ?thesis unfolding r kinds
        by (intro exI [of _ regs] exI [of _ "[VswitchAcl (ucast cid) (word_of_nat p) 1 ok]"])
          (auto intro!: exI [of _ "[]"])
    next
      case True
      then have r: "acl_apply_peers E cid wanted (p # ps) (c, r, u) s
          = acl_apply_peers E cid wanted ps (c OR push_bit p 1, r, u) ?t"
        using 4 by (simp add: acl_apply_step [OF p] call del: acl_apply_peers.simps)
      from Cons.IH [of "c OR push_bit p 1" r u ?t] Cons.prems obtain regs' es where
        ih: "snd (acl_apply_peers E cid wanted ps (c OR push_bit p 1, r, u) ?t)
            = ?t\<lparr>events := events ?t @ es, mrs := regs'\<rparr>"
          "case fst (acl_apply_peers E cid wanted ps (c OR push_bit p 1, r, u) ?t) of
             Some masks \<Rightarrow> masks = ((c OR push_bit p 1) OR mask_of (mutual_peers ?t cid wanted ps),
             r OR mask_of (unwilling_peers ?t cid wanted ps), u OR mask_of (absent_peers ?t wanted ps))
           \<and> acl_requests es = map (\<lambda>p. (ucast cid, word_of_nat p, 1)) (mutual_peers ?t cid wanted ps)
           | None \<Rightarrow> \<exists>before p after. mutual_peers ?t cid wanted ps = before @ p # after
             \<and> acl_requests es = map (\<lambda>p. (ucast cid, word_of_nat p, 1)) (before @ [p])"
        by auto
      show ?thesis unfolding r kinds ih(1)
      proof (intro exI conjI)
        show "?t\<lparr>events := events ?t @ es, mrs := regs'\<rparr> =
            s\<lparr>events := events s @ VswitchAcl (ucast cid) (word_of_nat p) 1 ok # es, mrs := regs'\<rparr>" by simp
        show "case fst (acl_apply_peers E cid wanted ps (c OR push_bit p 1, r, u) ?t) of
             Some masks \<Rightarrow> masks = (c OR mask_of (p # mutual_peers ?t cid wanted ps),
             r OR mask_of (unwilling_peers ?t cid wanted ps), u OR mask_of (absent_peers ?t wanted ps))
           \<and> acl_requests (VswitchAcl (ucast cid) (word_of_nat p) 1 ok # es)
             = map (\<lambda>p. (ucast cid, word_of_nat p, 1)) (p # mutual_peers ?t cid wanted ps)
           | None \<Rightarrow> \<exists>before q after. p # mutual_peers ?t cid wanted ps = before @ q # after
             \<and> acl_requests (VswitchAcl (ucast cid) (word_of_nat p) 1 ok # es)
               = map (\<lambda>p. (ucast cid, word_of_nat p, 1)) (before @ [q])"
          using ih(2)
        proof (cases "fst (acl_apply_peers E cid wanted ps (c OR push_bit p 1, r, u) ?t)")
          case None
          with ih(2) obtain before q after where "mutual_peers ?t cid wanted ps = before @ q # after"
            "acl_requests es = map (\<lambda>p. (ucast cid, word_of_nat p, 1)) (before @ [q])" by auto
          then show ?thesis unfolding None option.case
            by (intro exI [of _ "p # before"] exI [of _ q] exI [of _ after]) simp
        qed (auto simp: ac_simps)
      qed
    qed
  next
    case 1
    then have eqs: "acl_apply_peers E cid wanted (p # ps) (c, r, u) s = acl_apply_peers E cid wanted ps (c, r, u) s"
      "mutual_peers s cid wanted (p # ps) = mutual_peers s cid wanted ps"
      "unwilling_peers s cid wanted (p # ps) = unwilling_peers s cid wanted ps"
      "absent_peers s wanted (p # ps) = absent_peers s wanted ps"
      by (simp_all add: acl_apply_step [OF p] peer_kinds del: acl_apply_peers.simps)
    show ?thesis unfolding eqs by (rule Cons.IH) (use Cons.prems in simp)
  next
    case 2
    then have eqs: "acl_apply_peers E cid wanted (p # ps) (c, r, u) s = acl_apply_peers E cid wanted ps (c, r, u OR push_bit p 1) s"
      "mutual_peers s cid wanted (p # ps) = mutual_peers s cid wanted ps"
      "unwilling_peers s cid wanted (p # ps) = unwilling_peers s cid wanted ps"
      "absent_peers s wanted (p # ps) = p # absent_peers s wanted ps"
      by (simp_all add: acl_apply_step [OF p] peer_kinds del: acl_apply_peers.simps)
    show ?thesis unfolding eqs mask_of_simps or.assoc [symmetric] by (rule Cons.IH) (use Cons.prems in simp)
  next
    case 3
    then have eqs: "acl_apply_peers E cid wanted (p # ps) (c, r, u) s = acl_apply_peers E cid wanted ps (c, r OR push_bit p 1, u) s"
      "mutual_peers s cid wanted (p # ps) = mutual_peers s cid wanted ps"
      "unwilling_peers s cid wanted (p # ps) = p # unwilling_peers s cid wanted ps"
      "absent_peers s wanted (p # ps) = absent_peers s wanted ps"
      by (simp_all add: acl_apply_step [OF p] peer_kinds del: acl_apply_peers.simps)
    show ?thesis unfolding eqs mask_of_simps or.assoc [symmetric] by (rule Cons.IH) (use Cons.prems in simp)
  qed
qed

unbundle bit_operations_syntax

lemma apply_deployment_result:
  fixes E cid wanted out s
  defines "t \<equiv> s\<lparr>peer_policy := (peer_policy s)[unat cid := wanted]\<rparr>"
    and "peers \<equiv> [0..<unat (monitored_protocon_count s)]"
  assumes "cid < monitored_protocon_count s" and "unat (monitored_protocon_count s) \<le> 16"
  obtains (ok) regs es where "monitor_acl_apply_deployment E cid wanted out s = (MON_NO_ERROR,
        (mask_of (mutual_peers t cid wanted peers), mask_of (unwilling_peers t cid wanted peers),
         mask_of (absent_peers t wanted peers)), t\<lparr>events := events s @ es, mrs := regs\<rparr>)"
      and "acl_requests es = map (\<lambda>p. (ucast cid, word_of_nat p, 1)) (mutual_peers t cid wanted peers)"
    | (err) regs es before p after where
      "monitor_acl_apply_deployment E cid wanted out s = (MON_VSWITCH_ERROR, out, t\<lparr>events := events s @ es, mrs := regs\<rparr>)"
      and "mutual_peers t cid wanted peers = before @ p # after"
      and "acl_requests es = map (\<lambda>p. (ucast cid, word_of_nat p, 1)) (before @ [p])"
proof -
  have "\<forall>p \<in> set peers. p < 32" using assms(4) by (auto simp: peers_def)
  from acl_apply_peers_spec [OF this, of E cid wanted 0 0 0 t] obtain regs es where
    r: "snd (acl_apply_peers E cid wanted peers (0, 0, 0) t) = t\<lparr>events := events t @ es, mrs := regs\<rparr>"
    "case fst (acl_apply_peers E cid wanted peers (0, 0, 0) t) of
         Some masks \<Rightarrow> masks = (0 OR mask_of (mutual_peers t cid wanted peers),
             0 OR mask_of (unwilling_peers t cid wanted peers), 0 OR mask_of (absent_peers t wanted peers))
           \<and> acl_requests es = map (\<lambda>p. (ucast cid, word_of_nat p, 1)) (mutual_peers t cid wanted peers)
       | None \<Rightarrow> \<exists>before p after. mutual_peers t cid wanted peers = before @ p # after
           \<and> acl_requests es = map (\<lambda>p. (ucast cid, word_of_nat p, 1)) (before @ [p])"
    by blast
  have ev: "events t = events s" by (simp add: t_def)
  have d: "monitor_acl_apply_deployment E cid wanted out s =
      (case acl_apply_peers E cid wanted peers (0, 0, 0) t of
         (None, s) \<Rightarrow> (MON_VSWITCH_ERROR, out, s) | (Some masks, s) \<Rightarrow> (MON_NO_ERROR, masks, s))"
    using assms(3) by (simp add: monitor_acl_apply_deployment_def t_def peers_def Let_def not_le)
  show ?thesis
  proof (cases "acl_apply_peers E cid wanted peers (0, 0, 0) t")
    case (Pair o' s')
    show ?thesis
    proof (cases o')
      case None
      then obtain before p after where "mutual_peers t cid wanted peers = before @ p # after"
        "acl_requests es = map (\<lambda>p. (ucast cid, word_of_nat p, 1)) (before @ [p])" using r(2) Pair by auto
      then show ?thesis by (intro err [of regs es]) (use d r(1) Pair None ev in simp_all)
    next
      case (Some masks)
      then show ?thesis by (intro ok [of regs es]) (use d r Pair Some ev in simp_all)
    qed
  qed
qed

section \<open>Properties\<close>

text \<open>C30: releasing a protocon asks the switch to cut it off from every other protocon, and afterwards no
  protocon's policy names it and its own policy is empty; other policies' other bits are kept.\<close>

theorem acl_release_revokes:
  assumes "cid < monitored_protocon_count s" and "unat (monitored_protocon_count s) \<le> 16"
    and "length (peer_policy s) = 16"
  shows "\<exists>regs es policy. monitor_acl_release_protocon E cid s =
      s\<lparr>peer_policy := policy, mrs := regs, events := events s @ es\<rparr>
    \<and> acl_requests es = map (\<lambda>p. (ucast cid, word_of_nat p, 0))
        (filter (\<lambda>p. p \<noteq> unat cid) [0..<unat (monitored_protocon_count s)])
    \<and> policy ! unat cid = 0
    \<and> (\<forall>p < unat (monitored_protocon_count s). \<not> bit (policy ! p) (unat cid)
        \<and> (p \<noteq> unat cid \<longrightarrow> (\<forall>n. n \<noteq> unat cid \<longrightarrow> bit (policy ! p) n = bit (peer_policy s ! p) n)))"
proof -
  let ?n = "unat (monitored_protocon_count s)"
  have c: "unat cid < ?n" "unat cid < 16" using assms(1,2) by (simp_all add: word_less_nat_alt)
  have eq: "word_of_nat p = cid \<longleftrightarrow> p = unat cid" if "p < 16" for p
    using that c by (auto simp: word_unat_eq_iff unat_word_of_nat_lt)
  have "distinct [0..<?n]" "\<forall>p \<in> set [0..<?n]. p < length (peer_policy s) \<and> p < 32"
    using assms(2,3) by auto
  from fold_release [OF this, of E cid] obtain regs es where
    f: "fold (acl_release_peer E cid) [0..<?n] s =
      s\<lparr>peer_policy := map (\<lambda>i. if i \<in> set [0..<?n] \<and> word_of_nat i \<noteq> cid
            then peer_policy s ! i AND NOT (push_bit (unat cid) 1) else peer_policy s ! i)
          [0..<length (peer_policy s)],
        mrs := regs, events := events s @ es\<rparr>"
    "acl_requests es = map (\<lambda>p. (ucast cid, word_of_nat p, 0)) (filter (\<lambda>p. word_of_nat p \<noteq> cid) [0..<?n])"
    by blast
  let ?pol = "(map (\<lambda>i. if i \<in> set [0..<?n] \<and> word_of_nat i \<noteq> cid
            then peer_policy s ! i AND NOT (push_bit (unat cid) 1) else peer_policy s ! i)
          [0..<length (peer_policy s)])[unat cid := 0]"
  have "monitor_acl_release_protocon E cid s = s\<lparr>peer_policy := ?pol, mrs := regs, events := events s @ es\<rparr>"
    using assms(1) by (simp add: monitor_acl_release_protocon_def f(1) not_le)
  moreover have "filter (\<lambda>p. word_of_nat p \<noteq> cid) [0..<?n] = filter (\<lambda>p. p \<noteq> unat cid) [0..<?n]"
    using assms(2) eq by (intro filter_cong) auto
  moreover have "?pol ! unat cid = 0" using c assms(3) by simp
  moreover have "\<not> bit (?pol ! p) (unat cid)
        \<and> (p \<noteq> unat cid \<longrightarrow> (\<forall>n. n \<noteq> unat cid \<longrightarrow> bit (?pol ! p) n = bit (peer_policy s ! p) n))"
    if p: "p < ?n" for p
  proof (cases "p = unat cid")
    case True
    then show ?thesis using c assms(3) by simp
  next
    case False
    then have "?pol ! p = peer_policy s ! p AND NOT (push_bit (unat cid) 1)"
      using p assms(2,3) eq [of p] by simp
    then show ?thesis
      using False c by (auto simp: bit_and_iff bit_not_iff bit_push_bit_iff bit_1_iff simp del: push_bit_of_1
          dest: bit_imp_le_length)
  qed
  ultimately show ?thesis
    using f(2) by (intro exI [of _ regs] exI [of _ es] exI [of _ ?pol] conjI) (simp_all only:, blast+)
qed

theorem acl_release_revokes_witness:
  "\<exists>regs es policy. monitor_acl_release_protocon ex_mon_env 1 (ex_monitor [1, 1] [2, 1]) =
      (ex_monitor [1, 1] [2, 1])\<lparr>peer_policy := policy, mrs := regs, events := es\<rparr>
    \<and> acl_requests es = [(1, 0, 0)] \<and> policy ! 1 = 0 \<and> \<not> bit (policy ! 0) 1"
proof -
  let ?s = "ex_monitor [1, 1] [2, 1]"
  have f: "filter (\<lambda>p. p \<noteq> unat (1 :: u32)) [0..<unat (monitored_protocon_count ?s)] = [0]"
    by (simp add: ex_monitor_def upt_rec)
  have e: "events ?s = []" by (simp add: ex_monitor_def)
  have p: "1 < monitored_protocon_count ?s" "unat (monitored_protocon_count ?s) \<le> 16"
    "length (peer_policy ?s) = 16" "0 < unat (monitored_protocon_count ?s)"
    by (simp_all add: ex_monitor_def)
  from acl_release_revokes [OF p(1-3), of ex_mon_env] obtain regs es policy where
    r: "monitor_acl_release_protocon ex_mon_env 1 ?s = ?s\<lparr>peer_policy := policy, mrs := regs, events := events ?s @ es\<rparr>"
    "acl_requests es = map (\<lambda>p. (ucast (1 :: u32), word_of_nat p, 0)) [0]" "policy ! unat (1 :: u32) = 0"
    "\<not> bit (policy ! 0) (unat (1 :: u32))"
    unfolding f using p(4) by blast
  then show ?thesis unfolding e by (intro exI [of _ regs] exI [of _ es] exI [of _ policy]) simp
qed

text \<open>C29: a deployment connects exactly the requested peers that are running and want the protocon too.
  On success the three masks name the connected, the unwilling and the absent requested peers, and
  one request per connected peer went to the switch. When the switch refuses one, the error is
  reported, the masks are not written, and the connections made before stay.\<close>

theorem acl_apply_connects:
  assumes "cid < monitored_protocon_count s" and "unat (monitored_protocon_count s) \<le> 16"
    and "\<not> bit wanted (unat cid)"
  shows "\<exists>regs es err masks. monitor_acl_apply_deployment E cid wanted out s =
      (err, masks, s\<lparr>peer_policy := (peer_policy s)[unat cid := wanted], events := events s @ es, mrs := regs\<rparr>)
    \<and> (let peers = [0..<unat (monitored_protocon_count s)]; mutual = mutual_peers s cid wanted peers
       in (err = MON_NO_ERROR \<and> acl_requests es = map (\<lambda>p. (ucast cid, word_of_nat p, 1)) mutual
           \<and> masks = (mask_of mutual, mask_of (unwilling_peers s cid wanted peers),
                mask_of (absent_peers s wanted peers)))
        \<or> (err = MON_VSWITCH_ERROR \<and> masks = out \<and> (\<exists>before p after. mutual = before @ p # after
           \<and> acl_requests es = map (\<lambda>p. (ucast cid, word_of_nat p, 1)) (before @ [p]))))"
proof -
  let ?t = "s\<lparr>peer_policy := (peer_policy s)[unat cid := wanted]\<rparr>"
    and ?peers = "[0..<unat (monitored_protocon_count s)]"
  have c: "consents ?t p cid = consents s p cid" if "bit wanted p" for p
    using that assms(3) by (cases "p = unat cid") (auto simp: consents_def)
  have kinds: "mutual_peers ?t cid wanted ?peers = mutual_peers s cid wanted ?peers"
    "unwilling_peers ?t cid wanted ?peers = unwilling_peers s cid wanted ?peers"
    "absent_peers ?t wanted ?peers = absent_peers s wanted ?peers"
    unfolding peer_kinds using c by (auto simp: running_def intro!: filter_cong)
  show ?thesis
  proof (rule apply_deployment_result [OF assms(1,2), of E wanted out], goal_cases)
    case (1 regs es)
    show ?case unfolding Let_def
      by (rule exI [of _ regs], rule exI [of _ es], rule exI [of _ MON_NO_ERROR], rule exI, rule conjI,
          rule 1(1) [unfolded kinds]) (simp add: 1(2) kinds)
  next
    case (2 regs es before p after)
    have "\<exists>before p after. mutual_peers s cid wanted ?peers = before @ p # after
        \<and> acl_requests es = map (\<lambda>p. (ucast cid, word_of_nat p, 1)) (before @ [p])"
      using 2(2,3) unfolding kinds by blast
    then show ?case unfolding Let_def
      by (intro exI [of _ regs] exI [of _ es] exI [of _ MON_VSWITCH_ERROR] exI [of _ out] conjI disjI2
          2(1) [unfolded kinds] refl)
  qed
qed

theorem acl_apply_connects_witness:
  "\<exists>regs es err masks. monitor_acl_apply_deployment ex_mon_env 0 2 (0, 0, 0) (ex_monitor [1, 1] [0, 1]) =
      (err, masks, (ex_monitor [1, 1] [0, 1])\<lparr>peer_policy := (peer_policy (ex_monitor [1, 1] [0, 1]))[0 := 2],
         events := es, mrs := regs\<rparr>)
    \<and> (err = MON_NO_ERROR \<longrightarrow> masks = (2, 0, 0))"
proof -
  let ?s = "ex_monitor [1, 1] [0, 1]"
  have p: "0 < monitored_protocon_count ?s" "unat (monitored_protocon_count ?s) \<le> 16" "\<not> bit (2 :: u32) (unat (0 :: u32))"
    by (simp_all add: ex_monitor_def)
  have e: "events ?s = []" by (simp add: ex_monitor_def)
  have k: "mutual_peers ?s 0 2 [0..<unat (monitored_protocon_count ?s)] = [1]"
    "unwilling_peers ?s 0 2 [0..<unat (monitored_protocon_count ?s)] = []"
    "absent_peers ?s 2 [0..<unat (monitored_protocon_count ?s)] = []"
    by code_simp+
  from acl_apply_connects [OF p, of ex_mon_env "(0, 0, 0)", unfolded Let_def k e] obtain regs es err masks where
    "monitor_acl_apply_deployment ex_mon_env 0 2 (0, 0, 0) ?s =
      (err, masks, ?s\<lparr>peer_policy := (peer_policy ?s)[unat (0 :: u32) := 2], events := [] @ es, mrs := regs\<rparr>)"
    "err = MON_NO_ERROR \<longrightarrow> masks = (mask_of [1], mask_of [], mask_of [])" by blast
  then show ?thesis by (intro exI [of _ regs] exI [of _ es] exI [of _ err] exI [of _ masks]) simp
qed

end
