(* ===== verification/Monitor_Control.thy ===== *)
theory Monitor_Control
  imports Monitor_Acl
begin

unbundle bit_operations_syntax

text \<open>
  The calls that control running protocons (\<open>src/monitor/request/\<close>: \<open>suspend.c\<close>, \<open>resume.c\<close>,
  \<open>stop.c\<close>, \<open>support.c\<close>, \<open>query.c\<close>) and the fault handler (\<open>src/monitor/fault/fault.c\<close>).
\<close>

section \<open>Loading and backing up\<close>

definition monitor_protocon_capacity :: "mon_env \<Rightarrow> u64" where
  "monitor_protocon_capacity E = carrels_protocon_end E - carrels_protocon_start E"

definition monitor_trampoline_capacity :: "mon_env \<Rightarrow> u64" where
  "monitor_trampoline_capacity E = carrels_trampoline_end E - carrels_trampoline_start E"

definition monitor_main_load_trustedlo :: "mon_env \<Rightarrow> u32 \<Rightarrow> monitor \<Rightarrow> monitor res" where
  "monitor_main_load_trustedlo E cid s =
     (let protocon_base = monitor_vm_region_base (loader_program monitor_vm_layout) (ucast cid);
          trampoline_base = monitor_vm_region_base (trampoline_image monitor_vm_layout) (ucast cid);
          payload_base = monitor_vm_region_base (container_image monitor_vm_layout) (ucast cid);
          m = mem_fill (memory s) protocon_base (monitor_protocon_capacity E) 0;
          m = mem_fill m trampoline_base (monitor_trampoline_capacity E) 0;
          (loaded, m) = load_elf E m (carrels_protocon_start E) (monitor_protocon_capacity E)
            protocon_base (tsldr_loader_program_base E) (region_size (loader_program monitor_vm_layout))
      in bindR (assertR loaded) (\<lambda>_.
         let m = mem_copy m trampoline_base (carrels_trampoline_start E) (monitor_trampoline_capacity E);
             m = mem_fill m payload_base ORC_MONITOR_REGION_SIZE 0
         in Inr (s\<lparr>memory := m\<rparr>)))"

text \<open>A channel that belongs to no protocon makes the code copy to a null pointer.\<close>

definition monitor_call_backup_protocon_loading_context ::
  "mon_env \<Rightarrow> u32 \<Rightarrow> monitor \<Rightarrow> (msginfo \<times> monitor) res" where
  "monitor_call_backup_protocon_loading_context E ch s =
     (let cid = monitor_get_pcid_from_ch ch;
          ctxt = monitor_vm_region_base (loader_context monitor_vm_layout) (ucast cid)
      in case protocon_state_retrieve_context cid s of
           None \<Rightarrow> Inl UB
         | Some _ \<Rightarrow> Inr ((MON_NO_ERROR, 0),
             update_pc cid (\<lambda>p. p\<lparr>pc_context := mem_read (memory s) ctxt (sizeof_ctxt E)\<rparr>) s))"

section \<open>Stopping, suspending, resuming\<close>

definition monitor_call_restore_protocon :: "mon_env \<Rightarrow> u32 \<Rightarrow> monitor \<Rightarrow> (msginfo \<times> monitor) res" where
  "monitor_call_restore_protocon E ch s =
     (let cid = monitor_get_pcid_from_ch ch
      in bindR (if cid = INVALID_PC_ID then Inr s
                else monitor_main_load_trustedlo E cid (protocon_state_set_lifecycle_state cid PROTOCON_PASSIVE s))
           (\<lambda>s. Inr ((MON_NO_ERROR, 0), monitor_main_notify_orchestrator s)))"

definition monitor_call_stop_and_restore_protocon :: "mon_env \<Rightarrow> u32 \<Rightarrow> monitor \<Rightarrow> (msginfo \<times> monitor) res" where
  "monitor_call_stop_and_restore_protocon E target_pd_id s =
     (if unat target_pd_id \<ge> PC_CHILD_PER_MONITOR_MAX_NUM then Inr ((MON_INVALID_PC_ID, 0), s)
      else
        let s = monitor_acl_release_protocon E target_pd_id s;
            s = emit (PdStop target_pd_id) s
        in monitor_call_restore_protocon E (target_pd_id + PC_MONITOR_PROTOCON_BASE_CHANNEL) s)"

definition monitor_call_suspend_protocon :: "u32 \<Rightarrow> monitor \<Rightarrow> msginfo \<times> monitor" where
  "monitor_call_suspend_protocon target_pd_id s =
     (if unat target_pd_id \<ge> PC_CHILD_PER_MONITOR_MAX_NUM then ((MON_INVALID_PC_ID, 0), s)
      else
        let cid = monitor_get_pcid_from_ch (target_pd_id + PC_MONITOR_PROTOCON_BASE_CHANNEL);
            s = (if cid = INVALID_PC_ID then s
                 else if \<not> protocon_state_check_lifecycle_state cid PROTOCON_ACTIVE s then s
                 else emit (PdStop target_pd_id) (protocon_state_set_lifecycle_state cid PROTOCON_SUSPENDED s))
        in ((MON_NO_ERROR, 0), monitor_main_notify_orchestrator s))"

definition monitor_call_resume_protocon :: "u32 \<Rightarrow> monitor \<Rightarrow> msginfo \<times> monitor" where
  "monitor_call_resume_protocon target_pd_id s =
     (if unat target_pd_id \<ge> PC_CHILD_PER_MONITOR_MAX_NUM then ((MON_INVALID_PC_ID, 0), s)
      else
        let cid = monitor_get_pcid_from_ch (target_pd_id + PC_MONITOR_PROTOCON_BASE_CHANNEL);
            s = (if cid = INVALID_PC_ID then s
                 else if \<not> protocon_state_check_lifecycle_state cid PROTOCON_SUSPENDED s then s
                 else protocon_state_set_lifecycle_state cid PROTOCON_ACTIVE (emit (PdResume target_pd_id) s))
        in ((MON_NO_ERROR, 0), monitor_main_notify_orchestrator s))"

section \<open>Queries\<close>

text \<open>What is printed for a protocon: its number and its state, or the unknown value.\<close>

datatype state_name = InUse | Avail | Suspended | Unknown u8

definition monitor_main_list_protocon_states :: "u32 \<Rightarrow> monitor \<Rightarrow> (nat \<times> state_name) list" where
  "monitor_main_list_protocon_states num_protocons s =
     (if unat num_protocons > PC_CHILD_PER_MONITOR_MAX_NUM then []
      else map (\<lambda>i.
        let state = protocon_state_get_lifecycle_state (word_of_nat i) s
        in (i, if state = PROTOCON_ACTIVE then InUse else if state = PROTOCON_PASSIVE then Avail
               else if state = PROTOCON_SUSPENDED then Suspended else Unknown state))
        [0..<unat num_protocons])"

text \<open>The list is printed on the console; the state does not change.\<close>

definition monitor_call_list_protocons :: "monitor \<Rightarrow> (msginfo \<times> (nat \<times> state_name) list) \<times> monitor" where
  "monitor_call_list_protocons s =
     (((MON_NO_ERROR, 0), monitor_main_list_protocon_states (ucast (num_pc s)) s), s)"

definition query_bitmap :: "u32 \<Rightarrow> monitor \<Rightarrow> u64" where
  "query_bitmap self_id s = fold (\<lambda>i bitmap.
     if (protocon_state_check_lifecycle_state (word_of_nat i) PROTOCON_ACTIVE s
         \<or> protocon_state_check_lifecycle_state (word_of_nat i) PROTOCON_SUSPENDED s)
        \<and> word_of_nat i \<noteq> self_id
     then bitmap OR push_bit i 1 else bitmap) [0..<PC_CHILD_PER_MONITOR_MAX_NUM] 0"

definition monitor_call_query_protocons :: "u32 \<Rightarrow> monitor \<Rightarrow> msginfo \<times> monitor" where
  "monitor_call_query_protocons ch s =
     (let bitmap = query_bitmap (monitor_get_pcid_from_ch ch) s
      in ((MON_NO_ERROR, 2),
          s\<lparr>mrs := (mrs s)(0 := bitmap, 1 := ucast (monitor_get_pcid_from_ch ch))\<rparr>))"

section \<open>Faults\<close>

definition monitor_main_handle_fault :: "mon_env \<Rightarrow> u32 \<Rightarrow> u64 \<Rightarrow> monitor \<Rightarrow> monitor res" where
  "monitor_main_handle_fault E child label s =
     (let notify_flag =
            (if label = seL4_Fault_VMFault E
             then mrs s (seL4_VMFault_IP E) OR mrs s (seL4_VMFault_Addr E) else 0);
          s = emit (PdStop child) s
      in if notify_flag = 0 then Inr s
         else bindR (monitor_call_restore_protocon E (child + PC_MONITOR_PROTOCON_BASE_CHANNEL)
                       (monitor_main_notify_orchestrator s))
                (\<lambda>(_, s). Inr s))"

unbundle bit_operations_syntax

section \<open>Isolation of the loader\<close>

text \<open>
  What the loader of libtrustedlo promises: it writes only into the room it is given. And the two
  images linked into the monitor fit their regions.
\<close>

definition load_elf_contained :: "mon_env \<Rightarrow> bool" where
  "load_elf_contained E \<longleftrightarrow> (\<forall>m src n dst vaddr room.
     agree_outside (block dst room) m (snd (load_elf E m src n dst vaddr room)))"

definition images_fit :: "mon_env \<Rightarrow> bool" where
  "images_fit E \<longleftrightarrow> monitor_protocon_capacity E \<le> region_size (loader_program monitor_vm_layout)
     \<and> monitor_trampoline_capacity E \<le> region_size (trampoline_image monitor_vm_layout)"

definition region_of :: "vm_region \<Rightarrow> u32 \<Rightarrow> u64 set" where
  "region_of r cid = block (monitor_vm_region_base r (ucast cid)) (region_size r)"

text \<open>The regions a (re)load writes.\<close>

definition loaded_regions :: "u32 \<Rightarrow> u64 set" where
  "loaded_regions cid = region_of (loader_program monitor_vm_layout) cid
     \<union> region_of (trampoline_image monitor_vm_layout) cid \<union> region_of (container_image monitor_vm_layout) cid"

lemma block_mono: "n \<le> k \<Longrightarrow> block p n \<subseteq> block p k"
  by (auto simp: block_def)

lemma agree_trans: "agree_outside A m m' \<Longrightarrow> agree_outside A m' m'' \<Longrightarrow> agree_outside A m m''"
  by (simp add: agree_outside_def)

lemma agree_mono: "agree_outside A m m' \<Longrightarrow> A \<subseteq> B \<Longrightarrow> agree_outside B m m'"
  unfolding agree_outside_def by blast

lemma load_trustedlo_frame:
  assumes "load_elf_contained E" and "images_fit E" and "monitor_main_load_trustedlo E cid s = Inr s'"
  shows "agree_outside (loaded_regions cid) (memory s) (memory s') \<and> s' = s\<lparr>memory := memory s'\<rparr>
    \<and> (\<forall>a \<in> region_of (container_image monitor_vm_layout) cid. memory s' a = 0)"
proof -
  let ?A = "loaded_regions cid"
  define pb tb cb where "pb = monitor_vm_region_base (loader_program monitor_vm_layout) (ucast cid)"
    and "tb = monitor_vm_region_base (trampoline_image monitor_vm_layout) (ucast cid)"
    and "cb = monitor_vm_region_base (container_image monitor_vm_layout) (ucast cid)"
  define m1 where "m1 = mem_fill (mem_fill (memory s) pb (monitor_protocon_capacity E) 0) tb (monitor_trampoline_capacity E) 0"
  obtain ok m2 where l: "load_elf E m1 (carrels_protocon_start E) (monitor_protocon_capacity E)
            pb (tsldr_loader_program_base E) (region_size (loader_program monitor_vm_layout)) = (ok, m2)"
    by (cases "load_elf E m1 (carrels_protocon_start E) (monitor_protocon_capacity E)
            pb (tsldr_loader_program_base E) (region_size (loader_program monitor_vm_layout))")
  define m3 where "m3 = mem_copy m2 tb (carrels_trampoline_start E) (monitor_trampoline_capacity E)"
  have s': "s' = s\<lparr>memory := mem_fill m3 cb ORC_MONITOR_REGION_SIZE 0\<rparr>"
    using assms(3) unfolding monitor_main_load_trustedlo_def Let_def pb_def [symmetric] tb_def [symmetric]
      cb_def [symmetric] m1_def [symmetric] l prod.case m3_def [symmetric]
    by (cases ok) simp_all
  have sub: "block pb (monitor_protocon_capacity E) \<subseteq> ?A" "block tb (monitor_trampoline_capacity E) \<subseteq> ?A"
    "block pb (region_size (loader_program monitor_vm_layout)) \<subseteq> ?A" "block cb ORC_MONITOR_REGION_SIZE \<subseteq> ?A"
    and cb: "block cb ORC_MONITOR_REGION_SIZE = region_of (container_image monitor_vm_layout) cid"
    using assms(2) block_mono [of "monitor_protocon_capacity E" "region_size (loader_program monitor_vm_layout)" pb]
      block_mono [of "monitor_trampoline_capacity E" "region_size (trampoline_image monitor_vm_layout)" tb]
    unfolding images_fit_def loaded_regions_def region_of_def pb_def tb_def cb_def
    by (auto simp: ORC_MONITOR_REGION_SIZE_def monitor_vm_layout_def)
  have "agree_outside ?A (memory s) m1"
    unfolding m1_def by (rule agree_trans; rule agree_outside_fill; rule sub)
  moreover have "agree_outside ?A m1 m2"
    using assms(1) l sub(3) unfolding load_elf_contained_def by (metis agree_mono snd_conv)
  moreover have "agree_outside ?A m2 m3" unfolding m3_def by (rule agree_outside_copy; rule sub)
  moreover have "agree_outside ?A m3 (memory s')" unfolding s' by (simp add: agree_outside_fill sub)
  ultimately have "agree_outside ?A (memory s) (memory s')" by (blast intro: agree_trans)
  moreover have "memory s' a = 0" if "a \<in> region_of (container_image monitor_vm_layout) cid" for a
    using that mem_fill_inside [of a cb ORC_MONITOR_REGION_SIZE m3 0] unfolding cb [symmetric] s' by simp
  ultimately show ?thesis using s' by simp
qed

lemma regions_apart:
  assumes "r \<in> set vm_regions" and "r' \<in> set vm_regions" and "unat cid < 16" and "unat cid' < 16"
    and "r \<noteq> r' \<or> cid \<noteq> cid'"
  shows "region_of r cid \<inter> region_of r' cid' = {}"
proof (rule equals0I)
  fix a assume a: "a \<in> region_of r cid \<inter> region_of r' cid'"
  have c: "(ucast cid :: u64) < 16" "(ucast cid' :: u64) < 16" "cid \<noteq> cid' \<longrightarrow> (ucast cid :: u64) \<noteq> ucast cid'"
    using assms(3,4) by (auto simp: word_less_nat_alt word_unat_eq_iff)
  have u: "unat (ucast cid :: u64) < 16" "unat (ucast cid' :: u64) < 16" using assms(3,4) by simp_all
  have range: "unat (monitor_vm_region_base q (ucast d)) \<le> unat a
      \<and> unat a < unat (monitor_vm_region_base q (ucast d)) + unat (region_size q)"
    if q: "q \<in> set vm_regions" and d: "unat (ucast d :: u64) < 16" and in_q: "a \<in> region_of q d" for q and d :: u32
  proof -
    let ?b = "monitor_vm_region_base q (ucast d)"
    have lt: "unat (a - ?b) < unat (region_size q)"
      using in_q by (simp add: region_of_def word_less_nat_alt)
    have sz: "unat (region_size q) \<le> 0x800000" "unat (region_base q) \<le> 0x50000000"
      using q by (auto simp: vm_regions_def monitor_vm_layout_def)
    have "unat (ucast d :: u64) * unat (region_size q) \<le> 15 * 0x800000"
      using d sz by (intro mult_le_mono) simp_all
    then have b: "unat ?b \<le> 0x50000000 + 15 * 0x800000"
      using region_base_exact [OF q d] sz by linarith
    have "a = (a - ?b) + ?b" by simp
    then have "unat a = (unat (a - ?b) + unat ?b) mod 2 ^ 64"
      using unat_word_ariths(1) [of "a - ?b" ?b] by simp
    also have "\<dots> = unat (a - ?b) + unat ?b" using lt sz b by (intro mod_less) simp
    finally show ?thesis using lt by simp
  qed
  show False
    using region_bases_apart [OF assms(1,2) c(1,2)] c(3) assms(5) range [OF assms(1) u(1)] range [OF assms(2) u(2)] a
    by (auto simp: word_unat_eq_iff)
qed

lemma loaded_regions_apart:
  assumes "r \<in> set vm_regions" and "unat cid < 16" and "unat cid' < 16" and "cid \<noteq> cid'"
  shows "region_of r cid' \<inter> loaded_regions cid = {}"
proof -
  have "loader_program monitor_vm_layout \<in> set vm_regions" "trampoline_image monitor_vm_layout \<in> set vm_regions"
    "container_image monitor_vm_layout \<in> set vm_regions"
    by (simp_all add: vm_regions_def)
  then show ?thesis
    unfolding loaded_regions_def using regions_apart [OF assms(1) _ assms(3,2)] assms(4) by blast
qed

unbundle bit_operations_syntax

lemma ex_load_contained: "load_elf_contained ex_mon_env"
  unfolding load_elf_contained_def
  by (auto simp: ex_mon_env_def intro!: agree_outside_copy block_mono) (simp add: agree_outside_def)

lemma ex_images_fit: "images_fit ex_mon_env"
  by (simp add: images_fit_def ex_mon_env_def monitor_protocon_capacity_def monitor_trampoline_capacity_def
      monitor_vm_layout_def)

lemma ex_loads: "\<exists>s'. monitor_main_load_trustedlo ex_mon_env cid s = Inr s'"
  by (simp add: monitor_main_load_trustedlo_def ex_mon_env_def monitor_protocon_capacity_def Let_def
      monitor_vm_layout_def)

section \<open>Channels and lifecycle states\<close>

lemma unat_less16: "unat (t :: u32) < 16 \<longleftrightarrow> t < 16"
  by (simp add: word_less_nat_alt)

lemma pcid_of_channel:
  assumes "unat t < 16"
  shows "monitor_get_pcid_from_ch (t + PC_MONITOR_PROTOCON_BASE_CHANNEL) = t" and "t \<noteq> INVALID_PC_ID"
proof -
  have "unat (t + 24) = unat t + 24" using assms by (simp add: unat_word_ariths)
  then have "\<not> t + 24 < 24" "\<not> t + 24 \<ge> 40" using assms by (simp_all add: word_less_nat_alt word_le_nat_alt)
  then show "monitor_get_pcid_from_ch (t + PC_MONITOR_PROTOCON_BASE_CHANNEL) = t"
    by (simp add: monitor_get_pcid_from_ch_def monitor_consts)
  show "t \<noteq> INVALID_PC_ID" using assms by (auto simp: monitor_consts)
qed

lemma pcid_range: "monitor_get_pcid_from_ch ch = INVALID_PC_ID \<or> unat (monitor_get_pcid_from_ch ch) < 16"
proof (cases "ch < 24 \<or> ch \<ge> 40")
  case False
  then have range: "24 \<le> unat ch" "unat ch < 40" by (simp_all add: word_le_nat_alt word_less_nat_alt not_less not_le)
  then have "unat (ch - 24) = unat ch - 24" by (simp add: unat_sub word_le_nat_alt)
  moreover have "unat ch - 24 < 16" using range by linarith
  ultimately show ?thesis using False by (simp add: monitor_get_pcid_from_ch_def monitor_consts)
qed (simp add: monitor_get_pcid_from_ch_def monitor_consts)

definition lifecycles :: "monitor \<Rightarrow> u8 list" where
  "lifecycles s = map life_cycle_state (protocon_states s)"

lemma lifecycles_set:
  "lifecycles (protocon_state_set_lifecycle_state cid st s) = (lifecycles s)[unat cid := st]"
  by (cases "unat cid < length (protocon_states s)")
    (simp_all add: lifecycles_def protocon_state_set_lifecycle_state_def update_pc_def map_update)

lemma check_lifecycle:
  "unat cid < length (protocon_states s) \<Longrightarrow>
   protocon_state_check_lifecycle_state cid st s \<longleftrightarrow> lifecycles s ! unat cid = st"
  by (simp add: lifecycles_def protocon_state_check_lifecycle_state_def protocon_state_get_lifecycle_state_def)

lemma lifecycles_frame [simp]:
  "lifecycles (emit e s) = lifecycles s" "lifecycles (s\<lparr>memory := m\<rparr>) = lifecycles s"
  "lifecycles (monitor_main_notify_orchestrator s) = lifecycles s"
  "lifecycles (s\<lparr>peer_policy := pol\<rparr>) = lifecycles s" "lifecycles (s\<lparr>mrs := regs\<rparr>) = lifecycles s"
  "lifecycles (s\<lparr>events := es\<rparr>) = lifecycles s"
  by (simp_all add: lifecycles_def emit_def monitor_main_notify_orchestrator_def)

lemma suspend_eq:
  assumes "unat t < 16" and "length (protocon_states s) = 16"
  shows "monitor_call_suspend_protocon t s = ((MON_NO_ERROR, 0),
    if lifecycles s ! unat t = PROTOCON_ACTIVE
    then (protocon_state_set_lifecycle_state t PROTOCON_SUSPENDED s)\<lparr>events :=
      events s @ [PdStop t, Notify PC_MONITOR_ORCHESTRATOR_CHANNEL]\<rparr>
    else s\<lparr>events := events s @ [Notify PC_MONITOR_ORCHESTRATOR_CHANNEL]\<rparr>)"
  using assms pcid_of_channel [OF assms(1)] check_lifecycle [of t s PROTOCON_ACTIVE]
  by (simp add: monitor_call_suspend_protocon_def PC_CHILD_PER_MONITOR_MAX_NUM_def emit_def
      monitor_main_notify_orchestrator_def protocon_state_set_lifecycle_state_def update_pc_def)

lemma resume_eq:
  assumes "unat t < 16" and "length (protocon_states s) = 16"
  shows "monitor_call_resume_protocon t s = ((MON_NO_ERROR, 0),
    if lifecycles s ! unat t = PROTOCON_SUSPENDED
    then (protocon_state_set_lifecycle_state t PROTOCON_ACTIVE s)\<lparr>events :=
      events s @ [PdResume t, Notify PC_MONITOR_ORCHESTRATOR_CHANNEL]\<rparr>
    else s\<lparr>events := events s @ [Notify PC_MONITOR_ORCHESTRATOR_CHANNEL]\<rparr>)"
  using assms pcid_of_channel [OF assms(1)] check_lifecycle [of t s PROTOCON_SUSPENDED]
  by (simp add: monitor_call_resume_protocon_def PC_CHILD_PER_MONITOR_MAX_NUM_def emit_def
      monitor_main_notify_orchestrator_def protocon_state_set_lifecycle_state_def update_pc_def)

section \<open>Queries\<close>

lemma fold_bitmap:
  "(\<forall>i \<in> set is. i < 64) \<Longrightarrow> bit (fold (\<lambda>i b. if P i then b OR push_bit i 1 else b) is (b :: u64)) n
     \<longleftrightarrow> bit b n \<or> (n \<in> set is \<and> P n)"
  by (induction "is" arbitrary: b) (auto simp: bit_or_iff bit_push_bit_iff bit_1_iff simp del: push_bit_of_1)

lemma query_bit:
  "bit (query_bitmap self s) n \<longleftrightarrow> n < 16 \<and> running s n \<and> word_of_nat n \<noteq> self"
proof -
  have "bit (query_bitmap self s) n \<longleftrightarrow> n < 16 \<and> (protocon_state_check_lifecycle_state (word_of_nat n) PROTOCON_ACTIVE s
         \<or> protocon_state_check_lifecycle_state (word_of_nat n) PROTOCON_SUSPENDED s) \<and> word_of_nat n \<noteq> self"
    unfolding query_bitmap_def PC_CHILD_PER_MONITOR_MAX_NUM_def by (subst fold_bitmap) auto
  then show ?thesis using check_running [of n s] by auto
qed

unbundle bit_operations_syntax

lemma set_lifecycle_same:
  assumes "unat t < length (protocon_states s)" and "lifecycles s ! unat t = st"
  shows "(protocon_states s)[unat t := (protocon_states s ! unat t)\<lparr>life_cycle_state := st\<rparr>] = protocon_states s"
proof -
  have "(protocon_states s ! unat t)\<lparr>life_cycle_state := st\<rparr> = protocon_states s ! unat t"
    using assms by (simp add: lifecycles_def)
  then show ?thesis using list_update_id [of "protocon_states s" "unat t"] by simp
qed

section \<open>Restoring\<close>

text \<open>What a successful restore of a protocon does.\<close>

lemma restore_result:
  assumes "load_elf_contained E" and "images_fit E" and "unat t < 16"
    and "monitor_call_restore_protocon E (t + PC_MONITOR_PROTOCON_BASE_CHANNEL) s = Inr (reply, s')"
  shows "reply = (MON_NO_ERROR, 0)
    \<and> s' = (protocon_state_set_lifecycle_state t PROTOCON_PASSIVE s)\<lparr>memory := memory s',
          events := events s @ [Notify PC_MONITOR_ORCHESTRATOR_CHANNEL]\<rparr>
    \<and> agree_outside (loaded_regions t) (memory s) (memory s')
    \<and> (\<forall>a \<in> region_of (container_image monitor_vm_layout) t. memory s' a = 0)"
proof -
  obtain s1 where l: "monitor_main_load_trustedlo E t (protocon_state_set_lifecycle_state t PROTOCON_PASSIVE s) = Inr s1"
    "reply = (MON_NO_ERROR, 0)" "s' = monitor_main_notify_orchestrator s1"
    using assms(4) pcid_of_channel [OF assms(3)]
    by (auto simp: monitor_call_restore_protocon_def Let_def elim!: bindR_InrE)
  let ?t = "protocon_state_set_lifecycle_state t PROTOCON_PASSIVE s"
  have t: "memory ?t = memory s" "events ?t = events s"
    by (simp_all add: protocon_state_set_lifecycle_state_def update_pc_def)
  note f = load_trustedlo_frame [OF assms(1,2) l(1)]
  then have s1: "s1 = ?t\<lparr>memory := memory s1\<rparr>" by blast
  have ev: "events s1 = events s" by (subst s1) (simp add: t)
  have m: "memory s' = memory s1" by (simp add: l(3) monitor_main_notify_orchestrator_def)
  have "s' = s1\<lparr>events := events s @ [Notify PC_MONITOR_ORCHESTRATOR_CHANNEL]\<rparr>"
    by (simp add: l(3) monitor_main_notify_orchestrator_def emit_def ev)
  also have "\<dots> = ?t\<lparr>memory := memory s1, events := events s @ [Notify PC_MONITOR_ORCHESTRATOR_CHANNEL]\<rparr>"
    by (subst s1) simp
  finally show ?thesis using f l(2) unfolding m t(1) by blast
qed

lemma restore_succeeds:
  assumes "\<exists>s1. monitor_main_load_trustedlo E t (protocon_state_set_lifecycle_state t PROTOCON_PASSIVE s) = Inr s1"
    and "unat t < 16"
  shows "\<exists>s'. monitor_call_restore_protocon E (t + PC_MONITOR_PROTOCON_BASE_CHANNEL) s = Inr ((MON_NO_ERROR, 0), s')"
  using assms(1) pcid_of_channel [OF assms(2)] by (auto simp: monitor_call_restore_protocon_def Let_def)

text \<open>Releasing changes the policies, the registers and the events only.\<close>

lemma release_frame:
  assumes "unat (monitored_protocon_count s) \<le> 16" and "length (peer_policy s) = 16"
  shows "\<exists>regs es pol. monitor_acl_release_protocon E cid s =
      s\<lparr>peer_policy := pol, mrs := regs, events := events s @ es\<rparr>
    \<and> length pol = 16
    \<and> acl_requests es = (if cid < monitored_protocon_count s then map (\<lambda>p. (ucast cid, word_of_nat p, 0))
        (filter (\<lambda>p. word_of_nat p \<noteq> cid) [0..<unat (monitored_protocon_count s)]) else [])
    \<and> (\<forall>p < 16. \<forall>n. bit (pol ! p) n \<longrightarrow> bit (peer_policy s ! p) n)"
proof (cases "cid < monitored_protocon_count s")
  case False
  show ?thesis using False assms
    by (intro exI [of _ "mrs s"] exI [of _ "[]"] exI [of _ "peer_policy s"])
      (simp add: monitor_acl_release_protocon_def)
next
  case True
  let ?n = "unat (monitored_protocon_count s)"
  have "distinct [0..<?n]" "\<forall>p \<in> set [0..<?n]. p < length (peer_policy s) \<and> p < 32"
    using assms by auto
  from fold_release [OF this, of E cid] obtain regs es where
    f: "fold (acl_release_peer E cid) [0..<?n] s =
      s\<lparr>peer_policy := map (\<lambda>i. if i \<in> set [0..<?n] \<and> word_of_nat i \<noteq> cid
            then peer_policy s ! i AND NOT (push_bit (unat cid) 1) else peer_policy s ! i)
          [0..<length (peer_policy s)],
        mrs := regs, events := events s @ es\<rparr>"
    "acl_requests es = map (\<lambda>p. (ucast cid, word_of_nat p, 0)) (filter (\<lambda>p. word_of_nat p \<noteq> cid) [0..<?n])"
    by blast
  define pol where "pol = (map (\<lambda>i. if i \<in> set [0..<?n] \<and> word_of_nat i \<noteq> cid
            then peer_policy s ! i AND NOT (push_bit (unat cid) 1) else peer_policy s ! i)
          [0..<length (peer_policy s)])[unat cid := 0]"
  have eq: "monitor_acl_release_protocon E cid s = s\<lparr>peer_policy := pol, mrs := regs, events := events s @ es\<rparr>"
    using True by (simp add: monitor_acl_release_protocon_def f(1) not_le pol_def)
  have len: "length pol = 16" using assms(2) by (simp add: pol_def)
  have "bit (peer_policy s ! p) n" if "p < 16" "bit (pol ! p) n" for p n
  proof (cases "p = unat cid")
    case True
    then show ?thesis using that assms(2) by (simp add: pol_def)
  next
    case False
    then have "pol ! p = peer_policy s ! p \<or> pol ! p = peer_policy s ! p AND NOT (push_bit (unat cid) 1)"
      using that(1) assms(2) by (simp add: pol_def)
    then show ?thesis using that(2) by (auto simp: bit_and_iff)
  qed
  then show ?thesis unfolding eq
    by (intro exI [of _ regs] exI [of _ es] exI [of _ pol]) (use len True f(2) in simp)
qed

lemma no_acl_in_stop: "acl_requests [PdStop t, Notify ch] = []" "acl_requests [PdStop t] = []"
  "acl_requests [Notify ch] = []" "acl_requests [PdStop t, Notify ch, Notify ch'] = []"
  by (simp_all add: acl_requests_def)

section \<open>Properties\<close>

text \<open>C9: loading the trusted loader into one protocon changes no memory of another protocon, in any of
  its regions.\<close>

theorem load_trustedlo_isolated:
  assumes "load_elf_contained E" and "images_fit E" and "unat cid < 16" and "unat cid' < 16"
    and "cid \<noteq> cid'" and "r \<in> set vm_regions"
    and "monitor_main_load_trustedlo E cid s = Inr s'" and "a \<in> region_of r cid'"
  shows "memory s' a = memory s a"
proof (rule agree_outsideD)
  show "agree_outside (loaded_regions cid) (memory s) (memory s')"
    using load_trustedlo_frame [OF assms(1,2,7)] by blast
  show "a \<notin> loaded_regions cid"
    using loaded_regions_apart [OF assms(6,3-5)] assms(8) by blast
qed

theorem load_trustedlo_isolated_witness:
  "\<exists>s'. monitor_main_load_trustedlo ex_mon_env 0 (ex_monitor [1, 1] []) = Inr s'
    \<and> memory s' 0x50800000 = memory (ex_monitor [1, 1] []) 0x50800000"
proof -
  obtain s' where s': "monitor_main_load_trustedlo ex_mon_env 0 (ex_monitor [1, 1] []) = Inr s'"
    using ex_loads by blast
  have "0x50800000 \<in> region_of (container_image monitor_vm_layout) 1"
    by (simp add: region_of_def monitor_vm_region_base_def monitor_vm_layout_def)
  moreover have "container_image monitor_vm_layout \<in> set vm_regions" by (simp add: vm_regions_def)
  ultimately show ?thesis
    using load_trustedlo_isolated [OF ex_load_contained ex_images_fit _ _ _ _ s', of 1] s' by simp
qed

text \<open>C36: stopping a protocon asks the switch to cut its connections first, then stops the thread, then makes the slot
  available and wipes the payload region, and notifies the orchestrator last; memory outside the
  three loaded regions and the other slots are as before. It returns whenever the loader image loads.\<close>

theorem stop_and_restore_effect:
  assumes "load_elf_contained E" and "images_fit E" and "unat t < 16"
    and "t < monitored_protocon_count s" and "unat (monitored_protocon_count s) \<le> 16"
    and "length (peer_policy s) = 16" and "\<forall>s. \<exists>s'. monitor_main_load_trustedlo E t s = Inr s'"
  shows "\<exists>s' es. monitor_call_stop_and_restore_protocon E t s = Inr ((MON_NO_ERROR, 0), s')
    \<and> events s' = events s @ es @ [PdStop t, Notify PC_MONITOR_ORCHESTRATOR_CHANNEL]
    \<and> acl_requests es = map (\<lambda>p. (ucast t, word_of_nat p, 0))
        (filter (\<lambda>p. word_of_nat p \<noteq> t) [0..<unat (monitored_protocon_count s)])
    \<and> lifecycles s' = (lifecycles s)[unat t := PROTOCON_PASSIVE]
    \<and> agree_outside (loaded_regions t) (memory s) (memory s')
    \<and> (\<forall>a \<in> region_of (container_image monitor_vm_layout) t. memory s' a = 0)"
proof -
  obtain regs es pol where rel: "monitor_acl_release_protocon E t s =
      s\<lparr>peer_policy := pol, mrs := regs, events := events s @ es\<rparr>"
    "acl_requests es = map (\<lambda>p. (ucast t, word_of_nat p, 0))
        (filter (\<lambda>p. word_of_nat p \<noteq> t) [0..<unat (monitored_protocon_count s)])"
    using release_frame [OF assms(5,6), of E t] assms(4) by auto
  let ?s1 = "emit (PdStop t) (monitor_acl_release_protocon E t s)"
  obtain s' where s': "monitor_call_restore_protocon E (t + PC_MONITOR_PROTOCON_BASE_CHANNEL) ?s1 = Inr ((MON_NO_ERROR, 0), s')"
    using restore_succeeds [OF _ assms(3)] assms(7) by blast
  have call: "monitor_call_stop_and_restore_protocon E t s = Inr ((MON_NO_ERROR, 0), s')"
    using assms(3) s' by (simp add: monitor_call_stop_and_restore_protocon_def PC_CHILD_PER_MONITOR_MAX_NUM_def)
  note r = restore_result [OF assms(1-3) s']
  have s'eq: "s' = (protocon_state_set_lifecycle_state t PROTOCON_PASSIVE ?s1)\<lparr>memory := memory s',
          events := events ?s1 @ [Notify PC_MONITOR_ORCHESTRATOR_CHANNEL]\<rparr>" using r by blast
  have "events s' = events ?s1 @ [Notify PC_MONITOR_ORCHESTRATOR_CHANNEL]" by (subst s'eq) simp
  moreover have "lifecycles s' = (lifecycles s)[unat t := PROTOCON_PASSIVE]"
    by (subst s'eq) (simp add: lifecycles_set rel(1))
  ultimately show ?thesis
    using r call rel by (intro exI [of _ s'] exI [of _ es]) simp
qed

theorem stop_and_restore_effect_witness:
  "\<exists>s' es. monitor_call_stop_and_restore_protocon ex_mon_env 1 (ex_monitor [1, 1] [2, 1]) = Inr ((MON_NO_ERROR, 0), s')
    \<and> events s' = es @ [PdStop 1, Notify PC_MONITOR_ORCHESTRATOR_CHANNEL] \<and> acl_requests es = [(1, 0, 0)]"
proof -
  let ?s = "ex_monitor [1, 1] [2, 1]"
  have f: "filter (\<lambda>p. word_of_nat p \<noteq> (1 :: u32)) [0..<unat (monitored_protocon_count ?s)] = [0]"
    by (simp add: ex_monitor_def upt_rec)
  have e: "events ?s = []" by (simp add: ex_monitor_def)
  have p: "unat (1 :: u32) < 16" "1 < monitored_protocon_count ?s" "unat (monitored_protocon_count ?s) \<le> 16"
    "length (peer_policy ?s) = 16" "\<forall>s. \<exists>s'. monitor_main_load_trustedlo ex_mon_env 1 s = Inr s'"
    using ex_loads by (simp_all add: ex_monitor_def)
  from stop_and_restore_effect [OF ex_load_contained ex_images_fit p, unfolded f e] obtain s' es where
    "monitor_call_stop_and_restore_protocon ex_mon_env 1 ?s = Inr ((MON_NO_ERROR, 0), s')"
    "events s' = [] @ es @ [PdStop 1, Notify PC_MONITOR_ORCHESTRATOR_CHANNEL]"
    "acl_requests es = map (\<lambda>p. (ucast (1 :: u32), word_of_nat p, 0)) [0]" by blast
  then show ?thesis by (intro exI [of _ s'] exI [of _ es]) simp
qed

text \<open>a slot number below 16 that was never configured is not refused: stopping it cuts no connection
  and makes the slot available to deployments.\<close>

theorem stop_unconfigured_slot:
  assumes "load_elf_contained E" and "images_fit E" and "unat t < 16"
    and "monitored_protocon_count s \<le> t" and "length (protocon_states s) = 16"
    and "monitor_call_stop_and_restore_protocon E t s = Inr (reply, s')"
  shows "reply = (MON_NO_ERROR, 0) \<and> lifecycles s' ! unat t = PROTOCON_PASSIVE
    \<and> events s' = events s @ [PdStop t, Notify PC_MONITOR_ORCHESTRATOR_CHANNEL]"
proof -
  have "monitor_acl_release_protocon E t s = s"
    using assms(4) by (simp add: monitor_acl_release_protocon_def)
  then have call: "monitor_call_restore_protocon E (t + PC_MONITOR_PROTOCON_BASE_CHANNEL) (emit (PdStop t) s) = Inr (reply, s')"
    using assms(3,6) by (simp add: monitor_call_stop_and_restore_protocon_def PC_CHILD_PER_MONITOR_MAX_NUM_def)
  note r = restore_result [OF assms(1-3) call]
  have s'eq: "s' = (protocon_state_set_lifecycle_state t PROTOCON_PASSIVE (emit (PdStop t) s))\<lparr>memory := memory s',
          events := events (emit (PdStop t) s) @ [Notify PC_MONITOR_ORCHESTRATOR_CHANNEL]\<rparr>" using r by blast
  have "lifecycles s' ! unat t = PROTOCON_PASSIVE"
    using assms(3,5) by (subst s'eq) (simp add: lifecycles_set, simp add: lifecycles_def)
  moreover have "events s' = events s @ [PdStop t, Notify PC_MONITOR_ORCHESTRATOR_CHANNEL]"
    by (subst s'eq) simp
  ultimately show ?thesis using r by blast
qed

theorem stop_unconfigured_slot_witness:
  "\<exists>s'. monitor_call_stop_and_restore_protocon ex_mon_env 5 (ex_monitor [1, 1] []) = Inr ((MON_NO_ERROR, 0), s')
    \<and> lifecycles s' ! 5 = PROTOCON_PASSIVE"
proof -
  let ?s = "ex_monitor [1, 1] []"
  have p: "unat (5 :: u32) < 16" "monitored_protocon_count ?s \<le> 5" "length (protocon_states ?s) = 16"
    by (simp_all add: ex_monitor_def)
  obtain reply s' where c: "monitor_call_stop_and_restore_protocon ex_mon_env 5 ?s = Inr (reply, s')"
    using restore_succeeds [OF ex_loads p(1), of "emit (PdStop 5) (monitor_acl_release_protocon ex_mon_env 5 ?s)"]
    by (auto simp: monitor_call_stop_and_restore_protocon_def PC_CHILD_PER_MONITOR_MAX_NUM_def Let_def)
  show ?thesis using stop_unconfigured_slot [OF ex_load_contained ex_images_fit p c] c by auto
qed

text \<open>suspending an active protocon and resuming it gives the state back, with the thread stopped and
  resumed in between and the orchestrator notified twice.\<close>

theorem suspend_resume_roundtrip:
  assumes "unat t < 16" and "length (protocon_states s) = 16" and "lifecycles s ! unat t = PROTOCON_ACTIVE"
  shows "snd (monitor_call_resume_protocon t (snd (monitor_call_suspend_protocon t s))) =
    s\<lparr>events := events s @ [PdStop t, Notify PC_MONITOR_ORCHESTRATOR_CHANNEL,
        PdResume t, Notify PC_MONITOR_ORCHESTRATOR_CHANNEL]\<rparr>"
proof -
  let ?s1 = "(protocon_state_set_lifecycle_state t PROTOCON_SUSPENDED s)\<lparr>events :=
      events s @ [PdStop t, Notify PC_MONITOR_ORCHESTRATOR_CHANNEL]\<rparr>"
  have len: "length (protocon_states ?s1) = 16"
    using assms(2) by (simp add: protocon_state_set_lifecycle_state_def update_pc_def)
  have "lifecycles ?s1 ! unat t = PROTOCON_SUSPENDED"
    using assms(1,2) by (simp add: lifecycles_set) (simp add: lifecycles_def)
  moreover have "protocon_state_set_lifecycle_state t PROTOCON_ACTIVE ?s1 =
      s\<lparr>events := events s @ [PdStop t, Notify PC_MONITOR_ORCHESTRATOR_CHANNEL]\<rparr>"
    using set_lifecycle_same [of t s PROTOCON_ACTIVE] assms
    by (simp add: protocon_state_set_lifecycle_state_def update_pc_def)
  ultimately show ?thesis
    using suspend_eq [OF assms(1,2)] resume_eq [OF assms(1) len] assms(3) by simp
qed

theorem suspend_resume_roundtrip_witness:
  "snd (monitor_call_resume_protocon 1 (snd (monitor_call_suspend_protocon 1 (ex_monitor [1, 1] [])))) =
    (ex_monitor [1, 1] [])\<lparr>events := [PdStop 1, Notify 15, PdResume 1, Notify 15]\<rparr>"
  using suspend_resume_roundtrip [of 1 "ex_monitor [1, 1] []"]
  by (simp add: ex_monitor_def lifecycles_def ex_pc_def PROTOCON_ACTIVE_def PC_MONITOR_ORCHESTRATOR_CHANNEL_def)

text \<open>a query answers with a bitmap of exactly the protocons that are active or suspended, the
  caller left out, and the caller's own number.\<close>

theorem query_protocons_reply:
  "fst (monitor_call_query_protocons ch s) = (MON_NO_ERROR, 2)
    \<and> (\<forall>n. bit (mrs (snd (monitor_call_query_protocons ch s)) 0) n \<longleftrightarrow>
        n < 16 \<and> running s n \<and> word_of_nat n \<noteq> monitor_get_pcid_from_ch ch)
    \<and> mrs (snd (monitor_call_query_protocons ch s)) 1 = ucast (monitor_get_pcid_from_ch ch)"
  by (simp add: monitor_call_query_protocons_def query_bit)

text \<open>C37: a memory fault of a protocon, with an address or an instruction pointer that is not zero, makes its slot available again, but unlike a stop it cuts no
  connection and leaves every peer policy as it was.\<close>

theorem vm_fault_keeps_connections:
  assumes "load_elf_contained E" and "images_fit E" and "unat child < 16"
    and "length (protocon_states s) = 16"
    and "mrs s (seL4_VMFault_IP E) OR mrs s (seL4_VMFault_Addr E) \<noteq> 0"
    and "monitor_main_handle_fault E child (seL4_Fault_VMFault E) s = Inr s'"
  shows "lifecycles s' ! unat child = PROTOCON_PASSIVE \<and> peer_policy s' = peer_policy s
    \<and> acl_requests (events s') = acl_requests (events s)"
proof -
  let ?s1 = "monitor_main_notify_orchestrator (emit (PdStop child) s)"
  obtain reply where c: "monitor_call_restore_protocon E (child + PC_MONITOR_PROTOCON_BASE_CHANNEL) ?s1 = Inr (reply, s')"
    using assms(5,6) by (auto simp: monitor_main_handle_fault_def Let_def elim!: bindR_InrE)
  have s'eq: "s' = (protocon_state_set_lifecycle_state child PROTOCON_PASSIVE ?s1)\<lparr>memory := memory s',
          events := events ?s1 @ [Notify PC_MONITOR_ORCHESTRATOR_CHANNEL]\<rparr>"
    using restore_result [OF assms(1-3) c] by blast
  have "lifecycles s' ! unat child = PROTOCON_PASSIVE"
    using assms(3,4) by (subst s'eq) (simp add: lifecycles_set, simp add: lifecycles_def)
  moreover have "peer_policy s' = peer_policy s"
    by (subst s'eq) (simp add: protocon_state_set_lifecycle_state_def update_pc_def monitor_main_notify_orchestrator_def)
  moreover have "acl_requests (events s') = acl_requests (events s)"
    by (subst s'eq) (simp add: monitor_main_notify_orchestrator_def no_acl_in_stop)
  ultimately show ?thesis by blast
qed

theorem vm_fault_keeps_connections_witness:
  "\<exists>s'. monitor_main_handle_fault ex_mon_env 1 5 ((ex_monitor [1, 1] [2, 1])\<lparr>mrs := (\<lambda>_. 0x1000)\<rparr>) = Inr s'
    \<and> peer_policy s' ! 0 = 2 \<and> lifecycles s' ! 1 = PROTOCON_PASSIVE"
proof -
  let ?s = "(ex_monitor [1, 1] [2, 1])\<lparr>mrs := (\<lambda>_. 0x1000)\<rparr>"
  have p: "unat (1 :: u32) < 16" "length (protocon_states ?s) = 16"
    "mrs ?s (seL4_VMFault_IP ex_mon_env) OR mrs ?s (seL4_VMFault_Addr ex_mon_env) \<noteq> 0"
    "seL4_Fault_VMFault ex_mon_env = 5" "peer_policy ?s ! 0 = 2"
    by (simp_all add: ex_monitor_def ex_mon_env_def)
  obtain s' where c: "monitor_main_handle_fault ex_mon_env 1 (seL4_Fault_VMFault ex_mon_env) ?s = Inr s'"
    using restore_succeeds [OF ex_loads p(1), of "monitor_main_notify_orchestrator (emit (PdStop 1) ?s)"] p(3)
    by (auto simp: monitor_main_handle_fault_def Let_def)
  show ?thesis
    using vm_fault_keeps_connections [OF ex_load_contained ex_images_fit p(1-3) c] c p(4,5) by auto
qed

text \<open>any other fault, such as an exception of the program, only stops the thread: the slot keeps
  its state, so an active protocon stays listed as in use, and nobody is notified.\<close>

theorem other_fault_only_stops:
  assumes "label \<noteq> seL4_Fault_VMFault E"
  shows "monitor_main_handle_fault E child label s = Inr (s\<lparr>events := events s @ [PdStop child]\<rparr>)"
  using assms by (simp add: monitor_main_handle_fault_def emit_def)

theorem other_fault_only_stops_witness:
  "monitor_main_handle_fault ex_mon_env 1 3 (ex_monitor [1, 1] []) =
     Inr ((ex_monitor [1, 1] [])\<lparr>events := [PdStop 1]\<rparr>)"
  using other_fault_only_stops [of 3 ex_mon_env 1 "ex_monitor [1, 1] []"]
  by (simp add: ex_mon_env_def) (simp add: ex_monitor_def)

text \<open>the backup call saves the loading context of the calling protocon, byte for byte, and nothing
  else; from a channel that belongs to no protocon it is undefined behaviour.\<close>

theorem backup_context_spec:
  "monitor_call_backup_protocon_loading_context E ch s =
    (if 24 \<le> ch \<and> ch < 40
     then Inr ((MON_NO_ERROR, 0), update_pc (ch - 24) (\<lambda>p. p\<lparr>pc_context :=
            mem_read (memory s) (0x0FF40000 + ucast (ch - 24) * 0x1000) (sizeof_ctxt E)\<rparr>) s)
     else Inl UB)"
proof (cases "24 \<le> ch \<and> ch < 40")
  case True
  then have "\<not> ch < 24" "\<not> 40 \<le> ch" by (simp_all add: not_less not_le)
  then have m: "monitor_get_pcid_from_ch ch = ch - 24"
    by (simp add: monitor_get_pcid_from_ch_def monitor_consts)
  then have "unat (ch - 24) < 16"
    using pcid_range [of ch] True by (auto simp: monitor_consts)
  then show ?thesis
    using True m by (simp add: monitor_call_backup_protocon_loading_context_def protocon_state_retrieve_context_def
        PC_CHILD_PER_MONITOR_MAX_NUM_def monitor_vm_region_base_def monitor_vm_layout_def Let_def)
next
  case False
  then have m: "monitor_get_pcid_from_ch ch = INVALID_PC_ID"
    by (auto simp: monitor_get_pcid_from_ch_def monitor_consts not_less not_le)
  then show ?thesis
    using False by (auto simp: monitor_call_backup_protocon_loading_context_def protocon_state_retrieve_context_def
        monitor_consts)
qed

end
