(* ===== verification/Monitor_Deploy.thy ===== *)
theory Monitor_Deploy
  imports Monitor_Control Service_Installer
begin

unbundle bit_operations_syntax

text \<open>
  Deployments (\<open>src/monitor/request/deploy.c\<close>). A request is accepted by a call, the first half, and
  carried out by a coroutine, the second half. The coroutine waits whenever the file system works
  for it; other calls run in the meantime. It is modelled twice: as the C functions read when
  nothing else runs (\<open>monitor_call_deploy_second_half\<close>), and as a machine that stops where the
  coroutine waits (\<open>co_step\<close>, \<open>co_settle\<close>). The two agree (\<open>co_run_is_second_half\<close>).
\<close>

section \<open>Call numbers\<close>

text \<open>From \<open>include/carrels-user.h\<close>.\<close>

definition PC_MONITOR_CALL_DEPLOY :: u64 where "PC_MONITOR_CALL_DEPLOY = 1"
definition PC_MONITOR_CALL_SUSPEND :: u64 where "PC_MONITOR_CALL_SUSPEND = 3"
definition PC_MONITOR_CALL_RESUME :: u64 where "PC_MONITOR_CALL_RESUME = 4"
definition PC_MONITOR_CALL_LIST_PROTOCONS :: u64 where "PC_MONITOR_CALL_LIST_PROTOCONS = 5"
definition PC_MONITOR_CALL_TERMINATE_EXT :: u64 where "PC_MONITOR_CALL_TERMINATE_EXT = 6"
definition PC_MONITOR_CALL_QUERY_PROTOCONS :: u64 where "PC_MONITOR_CALL_QUERY_PROTOCONS = 10"
definition PC_MONITOR_CALL_FLIP_ACL_RULE :: u64 where "PC_MONITOR_CALL_FLIP_ACL_RULE = 17"
definition PC_MONITOR_CALL_SET_VSWITCH_ACL :: u64 where "PC_MONITOR_CALL_SET_VSWITCH_ACL = 18"
definition PC_MONITOR_CALL_BACKUP_CONTEXT :: u64 where "PC_MONITOR_CALL_BACKUP_CONTEXT = 20"
definition PC_MONITOR_CALL_TERMINATE :: u64 where "PC_MONITOR_CALL_TERMINATE = 21"
definition PC_MONITOR_CALL_DEPLOY_TO_PROTOCON :: u64 where "PC_MONITOR_CALL_DEPLOY_TO_PROTOCON = 22"
definition PC_MONITOR_CALL_DEPLOY_RESULT :: u64 where "PC_MONITOR_CALL_DEPLOY_RESULT = 23"

lemmas call_numbers = PC_MONITOR_CALL_DEPLOY_def PC_MONITOR_CALL_SUSPEND_def PC_MONITOR_CALL_RESUME_def
  PC_MONITOR_CALL_LIST_PROTOCONS_def PC_MONITOR_CALL_TERMINATE_EXT_def PC_MONITOR_CALL_QUERY_PROTOCONS_def
  PC_MONITOR_CALL_FLIP_ACL_RULE_def PC_MONITOR_CALL_SET_VSWITCH_ACL_def PC_MONITOR_CALL_BACKUP_CONTEXT_def
  PC_MONITOR_CALL_TERMINATE_def PC_MONITOR_CALL_DEPLOY_TO_PROTOCON_def PC_MONITOR_CALL_DEPLOY_RESULT_def

section \<open>The request\<close>

definition empty_deploy_request :: monitor_deploy_request where
  "empty_deploy_request = \<lparr>num_req_pc = 0, target_pc = 0, req_peer_mask = 0, targeted = False\<rparr>"

definition monitor_reset_deploy_request :: "u64 \<Rightarrow> monitor \<Rightarrow> pc_monitor_error \<times> monitor" where
  "monitor_reset_deploy_request num s =
     (if deploy_request_active s then (MON_FAIL_TO_DEPLOY, s)
      else (MON_NO_ERROR, s\<lparr>deploy_request := empty_deploy_request\<lparr>num_req_pc := ucast num\<rparr>,
                            req_pc_num := ucast num, deploy_request_active := True\<rparr>))"

definition monitor_deploy_refresh_request :: "monitor \<Rightarrow> monitor" where
  "monitor_deploy_refresh_request s =
     s\<lparr>req_pc_num := 0, deploy_request := empty_deploy_request, deploy_request_active := False\<rparr>"

definition monitor_finish_deploy_request :: "monitor \<Rightarrow> monitor" where
  "monitor_finish_deploy_request s = monitor_main_notify_orchestrator (monitor_deploy_refresh_request s)"

definition monitor_check_deploy_num :: "u64 \<Rightarrow> monitor \<Rightarrow> pc_monitor_error" where
  "monitor_check_deploy_num num s =
     (if num < 1 \<or> num > num_pc s then MON_INVALID_REQ_PC_NUM else MON_NO_ERROR)"

section \<open>One deployment\<close>

definition mktsymb_bundle_size :: "mon_env \<Rightarrow> mem \<Rightarrow> mktsymb_header \<Rightarrow> u64" where
  "mktsymb_bundle_size E m header =
     fold (\<lambda>_ p. mktsymb_read_symbol E m p) [0..<unat (sym_symbol_cnt header)] (sym_symbols header) - sym_base header"

definition protocon_load_payload :: "mon_env \<Rightarrow> u32 \<Rightarrow> u64 \<Rightarrow> u64 \<Rightarrow> u64 \<Rightarrow> monitor \<Rightarrow> monitor" where
  "protocon_load_payload E pc_id dest src elf_size s =
     (let sym = sym_header (protocon_states s ! unat pc_id);
          sym_size = mktsymb_bundle_size E (memory s) sym;
          sym_offset = sizeof_image_header E;
          elf_offset = sym_offset + sym_size;
          m = mem_write (memory s) dest (image_header_bytes E sym_offset sym_size elf_offset elf_size);
          m = mem_copy m (dest + sym_offset) (sym_base sym) sym_size
      in s\<lparr>memory := mem_copy m (dest + elf_offset) src elf_size\<rparr>)"

definition protocon_deploy_plan_check :: "deploy_plan \<Rightarrow> pc_monitor_error" where
  "protocon_deploy_plan_check plan =
     (if unat (plan_pc_id plan) \<ge> PC_CHILD_PER_MONITOR_MAX_NUM then MON_NO_AVAIL_PC else MON_NO_ERROR)"

text \<open>The entry point of the loader image is the field \<open>e_entry\<close> of its ELF header.\<close>

definition protocon_pre_instantiate ::
  "mon_env \<Rightarrow> deploy_plan \<Rightarrow> payload_info \<Rightarrow> monitor \<Rightarrow> (deploy_plan \<times> monitor) res" where
  "protocon_pre_instantiate E plan payload s =
     (let dest = monitor_vm_region_base (container_image monitor_vm_layout) (ucast (plan_pc_id plan));
          plan = plan\<lparr>plan_pc_base := dest\<rparr>
      in bindR (assertR (plan_pc_base plan \<noteq> 0)) (\<lambda>_.
         let plan = plan\<lparr>plan_pc_entry := tsldr_loader_program_base E\<rparr>
         in bindR (assertR (plan_pc_entry plan = read_u64 (memory s) (carrels_protocon_start E + 24))) (\<lambda>_.
            Inr (plan, protocon_load_payload E (plan_pc_id plan) (plan_pc_base plan)
                         (header_payload payload) (elf_payload_size payload) s))))"

definition protocon_init_txlo_info :: "deploy_plan \<Rightarrow> monitor \<Rightarrow> monitor res" where
  "protocon_init_txlo_info plan s =
     bindR (dlg_find_delegator (memory s) (dlg s) (ucast (plan_pc_id plan))) (\<lambda>found.
     case found of
       None \<Rightarrow> Inl AssertFail
     | Some src \<Rightarrow>
         let size = record_size (dlg_delegator_at (memory s) src);
             dest = monitor_vm_region_base (loader_metadata monitor_vm_layout) (ucast (plan_pc_id plan))
         in bindR (assertR (size \<le> 4096)) (\<lambda>_. Inr (s\<lparr>memory := mem_copy (memory s) dest src (ucast size)\<rparr>)))"

definition protocon_init_txlo_context :: "mon_env \<Rightarrow> deploy_plan \<Rightarrow> monitor \<Rightarrow> monitor res" where
  "protocon_init_txlo_context E plan s =
     (let ctxt = monitor_vm_region_base (loader_context monitor_vm_layout) (ucast (plan_pc_id plan))
      in case protocon_state_retrieve_context (plan_pc_id plan) s of
           None \<Rightarrow> Inl UB
         | Some bytes \<Rightarrow>
             let bytes = (if ctxt_switch_count E bytes \<ge> TXLO_CTXT_MAX_SWITCH_CNT E
                          then ctxt_set_switch_count E 1 bytes else bytes);
                 bytes = ctxt_set_monitor_call E (plan_pc_id plan) (10 + 64 + 15) PC_MONITOR_CALL_BACKUP_CONTEXT bytes
             in Inr (s\<lparr>memory := mem_write (memory s) ctxt bytes\<rparr>))"

text \<open>The domain's registers are set so that it starts at the entry point of the loader.\<close>

definition protocon_restart_loader :: "mon_env \<Rightarrow> u32 \<Rightarrow> u64 \<Rightarrow> monitor \<Rightarrow> monitor res" where
  "protocon_restart_loader E pc_id entry_point s =
     (let err = write_registers E (events s) pc_id entry_point;
          s = emit (WriteRegisters pc_id entry_point) s
      in if err \<noteq> 0 then Inl (Crash err) else Inr s)"

definition protocon_start :: "mon_env \<Rightarrow> deploy_plan \<Rightarrow> monitor \<Rightarrow> monitor res" where
  "protocon_start E plan s =
     bindR (protocon_init_txlo_info plan s) (\<lambda>s.
     bindR (protocon_init_txlo_context E plan s) (\<lambda>s.
     let s = emit (PrivilegeTemplate (plan_pc_id plan)) s;
         s = protocon_state_set_lifecycle_state (plan_pc_id plan) PROTOCON_ACTIVE s
     in protocon_restart_loader E (plan_pc_id plan) (plan_pc_entry plan) s))"

text \<open>
  The common beginning of the two deployment functions, which differ in how the planner is asked:
  for the first protocon that fits, or for a given one. None is a failed check of the plan.
\<close>

definition protocon_prepare ::
  "mon_env \<Rightarrow> payload_info \<Rightarrow> u32 option \<Rightarrow> monitor \<Rightarrow> (deploy_plan option \<times> monitor) res" where
  "protocon_prepare E info target s =
     bindR (service_manifest_parse (memory s) info svc_req_zero) (\<lambda>req.
     bindR (case target of
              None \<Rightarrow> service_planner_select_protocon (memory s) req deploy_plan_zero (protocon_states s)
            | Some pc \<Rightarrow> service_planner_select_protocon_by_id (memory s) req deploy_plan_zero (protocon_states s) pc)
       (\<lambda>plan.
     if protocon_deploy_plan_check plan \<noteq> MON_NO_ERROR then Inr (None, s)
     else bindR (protocon_pre_instantiate E plan info s) (\<lambda>(plan, s). Inr (Some plan, s))))"

definition protocon_complete :: "mon_env \<Rightarrow> deploy_plan option \<times> monitor \<Rightarrow> (pc_monitor_error \<times> monitor) res" where
  "protocon_complete E ps =
     (case ps of
        (None, s) \<Rightarrow> Inr (MON_NO_AVAIL_PC, s)
      | (Some plan, s) \<Rightarrow>
          bindR (service_installer_apply E plan s) (\<lambda>s.
          bindR (protocon_start E plan s) (\<lambda>s. Inr (MON_NO_ERROR, s))))"

definition protocon_deploy :: "mon_env \<Rightarrow> payload_info \<Rightarrow> monitor \<Rightarrow> (pc_monitor_error \<times> monitor) res" where
  "protocon_deploy E info s = bindR (protocon_prepare E info None s) (protocon_complete E)"

definition protocon_deploy_to_protocon ::
  "mon_env \<Rightarrow> payload_info \<Rightarrow> u32 \<Rightarrow> monitor \<Rightarrow> (pc_monitor_error \<times> monitor) res" where
  "protocon_deploy_to_protocon E info pc_id s =
     bindR (protocon_prepare E info (Some pc_id) s) (protocon_complete E)"

section \<open>The second half\<close>

text \<open>The loop of an untargeted request, which stops at the first deployment that fails.\<close>

fun deploy_many :: "mon_env \<Rightarrow> payload_info \<Rightarrow> nat \<Rightarrow> monitor \<Rightarrow> monitor res" where
  "deploy_many E info 0 s = Inr s"
| "deploy_many E info (Suc k) s =
     bindR (protocon_deploy E info s)
       (\<lambda>(err, s). if err \<noteq> MON_NO_ERROR then Inr s else deploy_many E info k s)"

definition deploy_set_error :: "pc_monitor_error \<Rightarrow> monitor \<Rightarrow> monitor" where
  "deploy_set_error err s = s\<lparr>deploy_result := (deploy_result s)\<lparr>res_error := err\<rparr>\<rparr>"

definition deploy_set_ready :: "monitor \<Rightarrow> monitor" where
  "deploy_set_ready s = s\<lparr>deploy_result := (deploy_result s)\<lparr>res_ready := True\<rparr>\<rparr>"

text \<open>The end of a targeted request: its error is recorded and on success the peers are connected.\<close>

definition deploy_conclude :: "mon_env \<Rightarrow> pc_monitor_error \<Rightarrow> monitor \<Rightarrow> monitor" where
  "deploy_conclude E err s =
     (let s = deploy_set_error err s;
          s = (if err = MON_NO_ERROR
               then let r = deploy_result s;
                        (err, (connected, rejected, unavailable), s) =
                          monitor_acl_apply_deployment E (target_pc (deploy_request s)) (req_peer_mask (deploy_request s))
                            (connected_peer_mask r, rejected_peer_mask r, unavailable_peer_mask r) s
                    in deploy_set_error err (s\<lparr>deploy_result := (deploy_result s)\<lparr>
                         connected_peer_mask := connected, rejected_peer_mask := rejected,
                         unavailable_peer_mask := unavailable\<rparr>\<rparr>)
               else s)
      in deploy_set_ready s)"

definition monitor_call_deploy_second_half :: "mon_env \<Rightarrow> monitor \<Rightarrow> monitor res" where
  "monitor_call_deploy_second_half E s =
     (let num = num_req_pc (deploy_request s)
      in if \<not> targeted (deploy_request s) \<and> monitor_check_deploy_num (ucast num) s \<noteq> MON_NO_ERROR
         then Inr (monitor_finish_deploy_request s)
         else
           let (err, info) = service_manifest_header_parse (memory s) payload_info_zero carrels_payload_start
           in if err \<noteq> 0
              then Inr (monitor_finish_deploy_request
                     (if targeted (deploy_request s) then deploy_set_ready (deploy_set_error MON_FAIL_TO_DEPLOY s) else s))
              else if targeted (deploy_request s)
              then bindR (protocon_deploy_to_protocon E info (target_pc (deploy_request s)) s)
                     (\<lambda>(err, s). Inr (monitor_finish_deploy_request (deploy_conclude E err s)))
              else bindR (deploy_many E info (unat num) s) (\<lambda>s. Inr (monitor_finish_deploy_request s)))"

section \<open>What a deployment changes\<close>

lemma monitor_rest: "rest_of (s' :: monitor) = rest_of s \<Longrightarrow>
    s' = s\<lparr>memory := memory s', request_table := request_table s', buffer_table := buffer_table s',
          fs_command_queue := fs_command_queue s', fs_completion_queue := fs_completion_queue s',
          blocking_wait_set := blocking_wait_set s', issued := issued s'\<rparr>"
  by (cases s; cases s') simp

text \<open>
  The control state: everything but the memory, the file-system tables, the life cycles and the
  events. Installing and starting a service leaves it alone.
\<close>

definition control :: "monitor \<Rightarrow> monitor_deploy_request \<times> monitor_deploy_result \<times> bool \<times> u32 list \<times> u32 \<times> u64" where
  "control s = (deploy_request s, deploy_result s, deploy_request_active s, peer_policy s,
     monitored_protocon_count s, num_pc s)"

lemma rest_fields:
  assumes "rest_of (s' :: monitor) = rest_of s"
  shows "control s' = control s" and "protocon_states s' = protocon_states s" and "events s' = events s"
  by (subst monitor_rest [OF assms], simp add: control_def)+

lemma control_update [simp]:
  "control (s\<lparr>memory := m\<rparr>) = control s" "control (emit e s) = control s"
  "control (update_pc cid f s) = control s" "control (s\<lparr>mrs := r\<rparr>) = control s"
  by (simp_all add: control_def update_pc_def)

lemma install_rest:
  assumes "install_service E plan req elf i (x, s) = Inr (x', s')"
  shows "rest_of s' = rest_of s"
  using assms
  by (auto simp: install_service_def service_installer_payload_add_service_def Let_def bindR_Inr_iff
      split: if_splits prod.splits dest!: readfile2buf_rest)

lemma install_fold_rest:
  assumes "fold (\<lambda>i r. bindR r (install_service E plan req elf i)) is (Inr (x, s)) = Inr (x', s')"
  shows "rest_of s' = rest_of s"
proof -
  have stuck: "fold (\<lambda>i r. bindR r (install_service E plan req elf i)) is (Inl e) = Inl e" for "is" e
    by (induction "is") auto
  show ?thesis using assms
  proof (induction "is" arbitrary: x s)
    case (Cons i "is")
    then obtain y t where y: "install_service E plan req elf i (x, s) = Inr (y, t)"
      by (cases "install_service E plan req elf i (x, s)") (auto simp: stuck)
    then show ?case using Cons install_rest [OF y] by simp
  qed simp
qed

lemma installed_rest:
  assumes "service_installer_apply E plan s = Inr s'"
  shows "rest_of s' = rest_of s"
  using assms
  by (auto simp: service_installer_apply_def bindR_Inr_iff service_installer_initialise_ac_rt_req_header_def Let_def
      split: option.splits dest!: install_fold_rest)

lemma start_result:
  assumes "protocon_start E plan s = Inr s'"
  shows "control s' = control s"
    and "protocon_states s' = (protocon_states s)[unat (plan_pc_id plan) :=
           (protocon_states s ! unat (plan_pc_id plan))\<lparr>life_cycle_state := PROTOCON_ACTIVE\<rparr>]"
    and "events s' = events s @ [PrivilegeTemplate (plan_pc_id plan), WriteRegisters (plan_pc_id plan) (plan_pc_entry plan)]"
    and "unat (plan_pc_id plan) < 16"
  using assms
  by (auto simp: protocon_start_def bindR_Inr_iff protocon_init_txlo_info_def protocon_init_txlo_context_def
      protocon_restart_loader_def protocon_state_retrieve_context_def Let_def monitor_consts
      protocon_state_set_lifecycle_state_def update_pc_def control_def split: option.splits if_splits)

text \<open>Preparing writes memory only; the plan is for a free protocon, which the planner chose.\<close>

lemma assigned_plan:
  assumes "planner_assign m req i plan states = Inr plan'"
  shows "plan_pc_id plan' = word_of_nat i" and "plan_req plan' = Some req"
  using assms by (auto simp: planner_assign_def service_planner_deploy_plan_init_def bindR_Inr_iff)

lemma reset_plan_check: "protocon_deploy_plan_check (deploy_plan_reset p) = MON_NO_AVAIL_PC"
  by (simp add: protocon_deploy_plan_check_def deploy_plan_reset_def deploy_plan_memzero_services_def monitor_consts)

lemma first_index_upt: "first_index P [0..<n] = Some i \<Longrightarrow> i < n \<and> P i"
  using first_index_SomeD [of P "[0..<n]" i] by auto

lemma selected_plan:
  assumes "(case target of
              None \<Rightarrow> service_planner_select_protocon m req plan states
            | Some pc \<Rightarrow> service_planner_select_protocon_by_id m req plan states pc) = Inr plan'"
    and "protocon_deploy_plan_check plan' = MON_NO_ERROR"
  shows "plan_req plan' = Some req \<and> (\<exists>i < 16. plan_pc_id plan' = word_of_nat i
      \<and> life_cycle_state (states ! i) = PROTOCON_PASSIVE) \<and> (\<forall>pc. target = Some pc \<longrightarrow> plan_pc_id plan' = pc)"
proof (cases target)
  case None
  then obtain i where i: "first_index (eligible req states) [0..<16] = Some i"
    "planner_assign m req i (deploy_plan_reset plan) states = Inr plan'"
    using assms reset_plan_check
    by (auto simp: service_planner_select_protocon_def monitor_consts split: option.splits)
  have "i < 16" "eligible req states i" using first_index_upt [OF i(1)] by simp_all
  then show ?thesis using assigned_plan [OF i(2)] None by (auto simp: eligible_def)
next
  case (Some pc)
  then have i: "planner_assign m req (unat pc) (deploy_plan_reset plan) states = Inr plan'"
    and "unat pc < 16" "eligible req states (unat pc)"
    using assms reset_plan_check
    by (auto simp: service_planner_select_protocon_by_id_def monitor_consts split: if_splits)
  then show ?thesis using assigned_plan [OF i] Some by (auto simp: eligible_def)
qed

lemma load_payload_memory: "protocon_load_payload E pc dest src n s = s\<lparr>memory := memory (protocon_load_payload E pc dest src n s)\<rparr>"
  by (simp add: protocon_load_payload_def Let_def)

lemma prepareE:
  assumes "protocon_prepare E info target s = Inr (found, s')"
  obtains (failed) "found = None" and "s' = s"
    | (planned) req plan0 plan where
        "service_manifest_parse (memory s) info svc_req_zero = Inr req"
        "(case target of
              None \<Rightarrow> service_planner_select_protocon (memory s) req deploy_plan_zero (protocon_states s)
            | Some pc \<Rightarrow> service_planner_select_protocon_by_id (memory s) req deploy_plan_zero (protocon_states s) pc) = Inr plan0"
        "protocon_deploy_plan_check plan0 = MON_NO_ERROR"
        "found = Some plan"
        "plan = plan0\<lparr>plan_pc_base := monitor_vm_region_base (container_image monitor_vm_layout) (ucast (plan_pc_id plan0)),
                       plan_pc_entry := tsldr_loader_program_base E\<rparr>"
        "s' = protocon_load_payload E (plan_pc_id plan) (plan_pc_base plan) (header_payload info) (elf_payload_size info) s"
  using assms
  by (auto simp: protocon_prepare_def protocon_pre_instantiate_def Let_def split: if_splits elim!: bindR_InrE)

lemma prepared_memory:
  assumes "protocon_prepare E info target s = Inr (found, s')"
  shows "s' = s\<lparr>memory := memory s'\<rparr>" and "found = None \<Longrightarrow> s' = s"
proof -
  show "s' = s\<lparr>memory := memory s'\<rparr>" using assms
  proof (cases rule: prepareE)
    case (planned req plan0 plan)
    show ?thesis unfolding planned(6) by (rule load_payload_memory)
  qed simp
  show "found = None \<Longrightarrow> s' = s" using assms by (cases rule: prepareE) auto
qed

lemma prepared_plan:
  assumes "protocon_prepare E info target s = Inr (Some plan, s')"
  shows "\<exists>req. plan_req plan = Some req"
    and "\<exists>i < 16. plan_pc_id plan = word_of_nat i \<and> life_cycle_state (protocon_states s ! i) = PROTOCON_PASSIVE"
    and "\<forall>pc. target = Some pc \<longrightarrow> plan_pc_id plan = pc"
    and "plan_pc_entry plan = tsldr_loader_program_base E"
    and "plan_pc_base plan = monitor_vm_region_base (container_image monitor_vm_layout) (ucast (plan_pc_id plan))"
proof -
  have "(\<exists>req. plan_req plan = Some req)
    \<and> (\<exists>i < 16. plan_pc_id plan = word_of_nat i \<and> life_cycle_state (protocon_states s ! i) = PROTOCON_PASSIVE)
    \<and> (\<forall>pc. target = Some pc \<longrightarrow> plan_pc_id plan = pc) \<and> plan_pc_entry plan = tsldr_loader_program_base E
    \<and> plan_pc_base plan = monitor_vm_region_base (container_image monitor_vm_layout) (ucast (plan_pc_id plan))"
    using assms
  proof (cases rule: prepareE)
    case (planned req plan0 plan')
    note sel = selected_plan [OF planned(2,3)]
    have "plan = plan0\<lparr>plan_pc_base := monitor_vm_region_base (container_image monitor_vm_layout) (ucast (plan_pc_id plan0)),
                       plan_pc_entry := tsldr_loader_program_base E\<rparr>" using planned(4,5) by simp
    then show ?thesis using sel by simp
  qed simp
  then show "\<exists>req. plan_req plan = Some req"
    "\<exists>i < 16. plan_pc_id plan = word_of_nat i \<and> life_cycle_state (protocon_states s ! i) = PROTOCON_PASSIVE"
    "\<forall>pc. target = Some pc \<longrightarrow> plan_pc_id plan = pc" "plan_pc_entry plan = tsldr_loader_program_base E"
    "plan_pc_base plan = monitor_vm_region_base (container_image monitor_vm_layout) (ucast (plan_pc_id plan))"
    by blast+
qed

end
