(* ===== verification/Monitor_Coroutine.thy ===== *)
theory Monitor_Coroutine
  imports Monitor_Deploy
begin

text \<open>
  The second half of a deployment as the coroutine it is: a machine that stops where the coroutine
  waits for the file system (\<open>co_step\<close>, \<open>co_settle\<close>), shown to end and to do what the functions of
  \<open>Monitor_Deploy\<close> do (\<open>co_run_is_second_half\<close>).
\<close>

section \<open>The coroutine\<close>

text \<open>
  The coroutine of the monitor: none, spawned and not yet run, or inside \<open>service_installer_apply\<close>
  with its plan, the payload, the address of the client's ELF, the index of the next service, the
  resources collected so far and the number of deployments still to do, this one included.
\<close>

datatype coroutine =
    CoNone
  | CoSpawned
  | CoInstall deploy_plan payload_info u64 nat trustedlo_xrtreq nat

type_synonym monitor_system = "monitor \<times> coroutine"

text \<open>The end of the coroutine, with the error of the last deployment.\<close>

definition co_end :: "mon_env \<Rightarrow> pc_monitor_error \<Rightarrow> monitor \<Rightarrow> monitor_system" where
  "co_end E err s =
     (monitor_finish_deploy_request (if targeted (deploy_request s) then deploy_conclude E err s else s), CoNone)"

definition co_begin :: "mon_env \<Rightarrow> payload_info \<Rightarrow> u32 option \<Rightarrow> nat \<Rightarrow> monitor \<Rightarrow> monitor_system res" where
  "co_begin E info target remaining s =
     bindR (protocon_prepare E info target s) (\<lambda>(found, s).
     case found of
       None \<Rightarrow> Inr (co_end E MON_NO_AVAIL_PC s)
     | Some plan \<Rightarrow> Inr (s, CoInstall plan info (protocon_image_elf E (memory s) (plan_pc_base plan)) 0
                              trustedlo_xrtreq_zero remaining))"

definition co_start :: "mon_env \<Rightarrow> monitor \<Rightarrow> monitor_system res" where
  "co_start E s =
     (let request = deploy_request s
      in if \<not> targeted request \<and> monitor_check_deploy_num (ucast (num_req_pc request)) s \<noteq> MON_NO_ERROR
         then Inr (monitor_finish_deploy_request s, CoNone)
         else
           let (err, info) = service_manifest_header_parse (memory s) payload_info_zero carrels_payload_start
           in if err \<noteq> 0
              then Inr (monitor_finish_deploy_request
                     (if targeted request then deploy_set_ready (deploy_set_error MON_FAIL_TO_DEPLOY s) else s), CoNone)
              else if targeted request then co_begin E info (Some (target_pc request)) 1 s
              else co_begin E info None (unat (num_req_pc request)) s)"

text \<open>One step: the beginning, one service, or the start of the protocon and what follows it.\<close>

fun co_step :: "mon_env \<Rightarrow> monitor_system \<Rightarrow> monitor_system res" where
  "co_step E (s, CoNone) = Inr (s, CoNone)"
| "co_step E (s, CoSpawned) = co_start E s"
| "co_step E (s, CoInstall plan info elf_base i x remaining) =
     (case plan_req plan of
        None \<Rightarrow> Inl UB
      | Some req \<Rightarrow>
          if i < unat (req_service_count req)
          then bindR (install_service E plan req elf_base i (x, s))
                 (\<lambda>(x, s). Inr (s, CoInstall plan info elf_base (Suc i) x remaining))
          else bindR (protocon_start E plan
                   (service_installer_initialise_ac_rt_req_header E (plan_base_serialised_service plan) x s))
                 (\<lambda>s. if targeted (deploy_request s) \<or> remaining \<le> 1 then Inr (co_end E MON_NO_ERROR s)
                      else co_begin E info None (remaining - 1) s))"

text \<open>
  The coroutine waits for the file system when the next service has to be read. The commands for one
  file are taken together.
\<close>

fun co_waits :: "mon_env \<Rightarrow> monitor_system \<Rightarrow> bool" where
  "co_waits E (s, CoNone) = False"
| "co_waits E (s, CoSpawned) = False"
| "co_waits E (s, CoInstall plan info elf_base i x remaining) =
     (case plan_req plan of
        None \<Rightarrow> False
      | Some req \<Rightarrow> i < unat (req_service_count req)
          \<and> path_len (svc_service_at (memory s) (plan_service_sources plan ! i)) < SVC_MAX_PATH_LEN
          \<and> service_installer_elf_get_sec_with_vaddr (memory s) elf_base
              (ent_offset (manifest_entry_at (memory s) (service_entries req ! i)) + payload_e_entry req) \<noteq> 0)"

text \<open>The work left: beginnings, deployments, services.\<close>

fun co_phase :: "coroutine \<Rightarrow> nat" where
  "co_phase CoNone = 0"
| "co_phase CoSpawned = 2"
| "co_phase (CoInstall plan info elf_base i x remaining) = 1"

fun co_deployments :: "coroutine \<Rightarrow> nat" where
  "co_deployments (CoInstall plan info elf_base i x remaining) = remaining"
| "co_deployments co = 0"

fun co_services :: "coroutine \<Rightarrow> nat" where
  "co_services (CoInstall plan info elf_base i x remaining) =
     (case plan_req plan of None \<Rightarrow> 0 | Some req \<Rightarrow> unat (req_service_count req) - i)"
| "co_services co = 0"

definition co_order :: "(coroutine \<times> coroutine) set" where
  "co_order = measures [co_phase, co_deployments, co_services]"

lemma wf_co_order: "wf co_order"
  by (simp add: co_order_def)

lemma co_begin_cases:
  assumes "co_begin E info target remaining s = Inr (s', co)"
  shows "co = CoNone \<or> (\<exists>plan elf. co = CoInstall plan info elf 0 trustedlo_xrtreq_zero remaining)"
  using assms by (auto simp: co_begin_def co_end_def bindR_Inr_iff split: option.splits)

lemma co_step_decreases:
  assumes "co_step E (s, co) = Inr (s', co')" and "co \<noteq> CoNone"
  shows "(co', co) \<in> co_order"
proof (cases co)
  case CoNone
  then show ?thesis using assms by simp
next
  case CoSpawned
  then have "co' = CoNone \<or> (\<exists>plan info elf n. co' = CoInstall plan info elf 0 trustedlo_xrtreq_zero n)"
    using assms(1) by (auto simp: co_start_def Let_def split: if_splits prod.splits dest: co_begin_cases)
  then show ?thesis using CoSpawned by (auto simp: co_order_def)
next
  case (CoInstall plan info elf i x n)
  then obtain req where req: "plan_req plan = Some req"
    using assms(1) by (cases "plan_req plan") auto
  show ?thesis
  proof (cases "i < unat (req_service_count req)")
    case True
    then show ?thesis using assms(1) CoInstall req
      by (auto simp: bindR_Inr_iff co_order_def)
  next
    case False
    then have "co' = CoNone \<or> (n > 1 \<and> (\<exists>plan elf. co' = CoInstall plan info elf 0 trustedlo_xrtreq_zero (n - 1)))"
      using assms(1) CoInstall req
      by (auto simp: bindR_Inr_iff co_end_def split: if_splits dest: co_begin_cases)
    then show ?thesis using CoInstall by (auto simp: co_order_def)
  qed
qed

text \<open>The coroutine runs until it waits or ends.\<close>

function co_settle :: "mon_env \<Rightarrow> monitor_system \<Rightarrow> monitor_system res" where
  "co_settle E sys =
     (if snd sys = CoNone \<or> co_waits E sys then Inr sys
      else case co_step E sys of Inl e \<Rightarrow> Inl e | Inr sys' \<Rightarrow> co_settle E sys')"
  by pat_completeness auto
termination
  by (relation "inv_image co_order (snd \<circ> snd)") (auto simp: wf_co_order co_step_decreases)

text \<open>A notification of the file system: the coroutine goes on if it waits.\<close>

definition co_resume :: "mon_env \<Rightarrow> monitor_system \<Rightarrow> monitor_system res" where
  "co_resume E sys = bindR (co_step E sys) (co_settle E)"

text \<open>The coroutine run to its end with nothing in between.\<close>

function co_run :: "mon_env \<Rightarrow> monitor_system \<Rightarrow> monitor_system res" where
  "co_run E sys =
     (if snd sys = CoNone then Inr sys
      else case co_step E sys of Inl e \<Rightarrow> Inl e | Inr sys' \<Rightarrow> co_run E sys')"
  by pat_completeness auto
termination
  by (relation "inv_image co_order (snd \<circ> snd)") (auto simp: wf_co_order co_step_decreases)

declare co_settle.simps [simp del] co_run.simps [simp del]

lemma co_run_None: "co_run E (s, CoNone) = Inr (s, CoNone)"
  by (simp add: co_run.simps)

lemma co_run_step: "co \<noteq> CoNone \<Longrightarrow> co_run E (s, co) = bindR (co_step E (s, co)) (co_run E)"
  by (subst co_run.simps) (simp add: bindR_def)

lemma co_run_settle: "bindR (co_settle E sys) (co_run E) = co_run E sys"
proof (induction E sys rule: co_settle.induct)
  case (1 E sys)
  show ?case
  proof (cases "snd sys = CoNone \<or> co_waits E sys")
    case True
    then show ?thesis by (subst co_settle.simps) simp
  next
    case False
    then have "co_settle E sys = bindR (co_step E sys) (co_settle E)" "co_run E sys = bindR (co_step E sys) (co_run E)"
      by (simp_all add: bindR_def co_settle.simps [of E sys] co_run.simps [of E sys])
    then show ?thesis using False 1 by (cases "co_step E sys") (auto simp: bindR_assoc)
  qed
qed

section \<open>The coroutine does what the functions do\<close>

lemma co_run_install:
  assumes "plan_req plan = Some req"
  shows "co_run E (s, CoInstall plan info elf i x n) =
    bindR (fold (\<lambda>i r. bindR r (install_service E plan req elf i)) [i..<unat (req_service_count req)] (Inr (x, s)))
      (\<lambda>(x, s). bindR (protocon_start E plan
            (service_installer_initialise_ac_rt_req_header E (plan_base_serialised_service plan) x s))
         (\<lambda>s. bindR (if targeted (deploy_request s) \<or> n \<le> 1 then Inr (co_end E MON_NO_ERROR s)
                     else co_begin E info None (n - 1) s) (co_run E)))"
proof (induction "unat (req_service_count req) - i" arbitrary: i x s)
  case 0
  then show ?case using assms
    by (simp add: co_run_step bindR_assoc)
next
  case (Suc k)
  have l: "[i..<unat (req_service_count req)] = i # [Suc i..<unat (req_service_count req)]"
    and lt: "i < unat (req_service_count req)"
    using Suc.hyps(2) by (simp_all add: upt_conv_Cons)
  have stuck: "fold (\<lambda>i r. bindR r (install_service E plan req elf i)) is (Inl e) = Inl e" for "is" e
    by (induction "is") auto
  show ?case
  proof (cases "install_service E plan req elf i (x, s)")
    case (Inl e)
    then show ?thesis using assms lt by (simp add: co_run_step l stuck)
  next
    case (Inr xs)
    then show ?thesis using assms lt Suc.hyps(2) Suc.hyps(1) [of "Suc i" "snd xs" "fst xs"]
      by (cases xs) (simp add: co_run_step l)
  qed
qed


text \<open>One deployment: what is left after it depends on whether it succeeded.\<close>

lemma co_run_begin:
  "bindR (co_begin E info target n s) (co_run E) =
    bindR (bindR (protocon_prepare E info target s) (protocon_complete E))
      (\<lambda>(err, s). if err \<noteq> MON_NO_ERROR \<or> targeted (deploy_request s) \<or> n \<le> 1
                 then Inr (co_end E err s) else bindR (co_begin E info None (n - 1) s) (co_run E))"
proof (cases "protocon_prepare E info target s")
  case (Inl e)
  then show ?thesis by (simp add: co_begin_def)
next
  case (Inr ps)
  obtain found s' where ps: "ps = (found, s')" by (cases ps)
  show ?thesis
  proof (cases found)
    case None
    then show ?thesis using Inr ps by (simp add: co_begin_def protocon_complete_def co_end_def co_run_None)
  next
    case (Some plan)
    then obtain req where req: "plan_req plan = Some req" using Inr ps prepared_plan(1) by blast
    have "bindR (co_begin E info target n s) (co_run E) =
      co_run E (s', CoInstall plan info (protocon_image_elf E (memory s') (plan_pc_base plan)) 0 trustedlo_xrtreq_zero n)"
      using Inr ps Some by (simp add: co_begin_def)
    also have "\<dots> = bindR (bindR (service_installer_apply E plan s') (protocon_start E plan))
         (\<lambda>s. bindR (if targeted (deploy_request s) \<or> n \<le> 1 then Inr (co_end E MON_NO_ERROR s)
                     else co_begin E info None (n - 1) s) (co_run E))"
      unfolding co_run_install [OF req] service_installer_apply_def req option.case bindR_assoc
      by (intro arg_cong [where f = "bindR _"] ext) (simp add: bindR_assoc split: prod.splits)
    finally show ?thesis using Inr ps Some
      by (auto simp: protocon_complete_def bindR_assoc co_end_def co_run_None intro!: arg_cong [where f = "bindR _"] ext)
  qed
qed

lemma rest_request: "control s' = control s \<Longrightarrow> deploy_request s' = deploy_request s"
  by (simp add: control_def)

lemma deployed_request:
  assumes "bindR (protocon_prepare E info target s) (protocon_complete E) = Inr (err, s')"
  shows "deploy_request s' = deploy_request s"
proof -
  obtain found t where p: "protocon_prepare E info target s = Inr (found, t)"
    and c: "protocon_complete E (found, t) = Inr (err, s')"
    using assms by (auto elim!: bindR_InrE)
  have "deploy_request t = deploy_request s" by (subst prepared_memory(1) [OF p]) simp
  moreover have "deploy_request s' = deploy_request t"
    using c by (auto simp: protocon_complete_def split: option.splits elim!: bindR_InrE
        dest!: installed_rest rest_fields(1) start_result(1) rest_request)
  ultimately show ?thesis by simp
qed

lemma co_run_many:
  assumes "\<not> targeted (deploy_request s)"
  shows "bindR (co_begin E info None (Suc n) s) (co_run E) =
    bindR (deploy_many E info (Suc n) s) (\<lambda>s. Inr (monitor_finish_deploy_request s, CoNone))"
  using assms
proof (induction n arbitrary: s)
  case 0
  show ?case
  proof (cases "bindR (protocon_prepare E info None s) (protocon_complete E)")
    case (Inr es)
    obtain err t where es: "es = (err, t)" by (cases es)
    have "\<not> targeted (deploy_request t)" using deployed_request [OF Inr [unfolded es]] 0 by simp
    then show ?thesis unfolding co_run_begin [of E info None "Suc 0" s] Inr es using Inr es by (simp add: protocon_deploy_def co_end_def)
  qed (simp add: co_run_begin [of E info None "Suc 0" s] protocon_deploy_def)
next
  case (Suc n)
  show ?case
  proof (cases "bindR (protocon_prepare E info None s) (protocon_complete E)")
    case (Inr es)
    obtain err t where es: "es = (err, t)" by (cases es)
    have "\<not> targeted (deploy_request t)" using deployed_request [OF Inr [unfolded es]] Suc.prems by simp
    then show ?thesis unfolding co_run_begin [of E info None "Suc (Suc n)" s] Inr es using Suc.IH [of t] Inr es
      by (simp add: protocon_deploy_def co_end_def)
  qed (simp add: co_run_begin [of E info None "Suc (Suc n)" s] protocon_deploy_def)
qed

text \<open>
  Run to its end with nothing in between, the coroutine does what \<open>monitor_call_deploy_second_half\<close>
  says.
\<close>

lemma co_run_is_second_half:
  "co_run E (s, CoSpawned) = bindR (monitor_call_deploy_second_half E s) (\<lambda>s. Inr (s, CoNone))"
proof -
  obtain err info where h: "service_manifest_header_parse (memory s) payload_info_zero carrels_payload_start = (err, info)"
    by (cases "service_manifest_header_parse (memory s) payload_info_zero carrels_payload_start")
  have start: "co_run E (s, CoSpawned) = bindR (co_start E s) (co_run E)"
    by (simp add: co_run_step)
  consider (stopped) "\<not> targeted (deploy_request s)"
        "monitor_check_deploy_num (ucast (num_req_pc (deploy_request s))) s \<noteq> MON_NO_ERROR"
    | (bad) "targeted (deploy_request s) \<or> monitor_check_deploy_num (ucast (num_req_pc (deploy_request s))) s = MON_NO_ERROR" "err \<noteq> 0"
    | (one) "targeted (deploy_request s)" "err = 0"
    | (many) n where "\<not> targeted (deploy_request s)" "err = 0"
        "monitor_check_deploy_num (ucast (num_req_pc (deploy_request s))) s = MON_NO_ERROR"
        "unat (num_req_pc (deploy_request s)) = Suc n"
  proof -
    have "unat (num_req_pc (deploy_request s)) \<noteq> 0"
      if "monitor_check_deploy_num (ucast (num_req_pc (deploy_request s))) s = MON_NO_ERROR"
      using that by (auto simp: monitor_check_deploy_num_def unat_eq_0 split: if_splits)
    then show thesis using that by (metis not0_implies_Suc)
  qed
  then show ?thesis
  proof cases
    case stopped
    then show ?thesis unfolding start monitor_call_deploy_second_half_def co_start_def Let_def
      by (simp add: co_run_None)
  next
    case bad
    then have "\<not> (\<not> targeted (deploy_request s)
        \<and> monitor_check_deploy_num (ucast (num_req_pc (deploy_request s))) s \<noteq> MON_NO_ERROR)" by simp
    then show ?thesis using bad(2)
      unfolding start monitor_call_deploy_second_half_def co_start_def Let_def h prod.case
      by (simp only: if_False if_True bindR_simps co_run_None not_False_eq_True)
  next
    case one
    have "bindR (co_begin E info (Some (target_pc (deploy_request s))) 1 s) (co_run E) =
      bindR (protocon_deploy_to_protocon E info (target_pc (deploy_request s)) s)
        (\<lambda>(err, s). Inr (monitor_finish_deploy_request (deploy_conclude E err s), CoNone))"
    proof (cases "bindR (protocon_prepare E info (Some (target_pc (deploy_request s))) s) (protocon_complete E)")
      case (Inr es)
      obtain err t where es: "es = (err, t)" by (cases es)
      have "targeted (deploy_request t)" using deployed_request [OF Inr [unfolded es]] one by simp
      then show ?thesis unfolding co_run_begin [of E info "Some (target_pc (deploy_request s))" 1 s] protocon_deploy_to_protocon_def Inr es by (simp add: co_end_def)
    qed (simp add: co_run_begin [of E info "Some (target_pc (deploy_request s))" "Suc 0" s] protocon_deploy_to_protocon_def)
    then show ?thesis using one
      unfolding start monitor_call_deploy_second_half_def co_start_def Let_def h prod.case
      by (simp add: bindR_assoc split_def)
  next
    case many
    then show ?thesis using co_run_many [of s E info n]
      unfolding start monitor_call_deploy_second_half_def co_start_def Let_def h prod.case
      by (simp add: bindR_assoc)
  qed
qed

end
