(* ===== verification/Monitor_Call.thy ===== *)
theory Monitor_Call
  imports Monitor_Coroutine
begin

unbundle bit_operations_syntax

text \<open>
  The entry points of the monitor: the deployment calls (\<open>src/monitor/request/deploy.c\<close>), the
  dispatcher of protected calls (\<open>src/monitor/mcall.c\<close>), notifications and faults
  (\<open>src/monitor/entry.c\<close>).
\<close>

section \<open>Deployment calls\<close>

text \<open>\<open>monitor_deploy_second_half\<close>: the coroutine is spawned, or the request is given up.\<close>

definition monitor_deploy_second_half :: "mon_env \<Rightarrow> monitor_system \<Rightarrow> pc_monitor_error \<times> monitor_system" where
  "monitor_deploy_second_half E sys =
     (let (s, co) = sys
      in if \<not> cothread_spawn E (events s)
         then (MON_FAIL_TO_INIT_COROUTINE, (monitor_finish_deploy_request s, co))
         else (MON_NO_ERROR, (s, CoSpawned)))"

text \<open>After the request is accepted the caller yields, so the coroutine runs until it waits or ends.\<close>

definition monitor_call_deploy_first_half ::
  "mon_env \<Rightarrow> u64 \<Rightarrow> monitor_system \<Rightarrow> (msginfo \<times> monitor_system) res" where
  "monitor_call_deploy_first_half E num sys =
     (let (s, co) = sys;
          err = monitor_check_deploy_num num s
      in if err \<noteq> MON_NO_ERROR then Inr ((err, 0), sys)
         else
           let (err, s) = monitor_reset_deploy_request num s
           in if err \<noteq> MON_NO_ERROR then Inr ((err, 0), (s, co))
              else
                let (err, sys) = monitor_deploy_second_half E (s, co)
                in if err \<noteq> MON_NO_ERROR then Inr ((err, 0), sys)
                   else bindR (co_settle E sys) (\<lambda>sys. Inr ((err, 0), sys)))"

definition monitor_call_deploy_to_protocon ::
  "mon_env \<Rightarrow> u64 \<Rightarrow> u64 \<Rightarrow> u64 \<Rightarrow> monitor_system \<Rightarrow> (msginfo \<times> monitor_system) res" where
  "monitor_call_deploy_to_protocon E pc_id peer_mask peers_all sys =
     (let (s, co) = sys
      in if pc_id \<ge> num_pc s then Inr ((MON_INVALID_PC_ID, 0), sys)
         else if \<not> protocon_state_check_lifecycle_state (ucast pc_id) PROTOCON_PASSIVE s
         then Inr ((MON_PC_UNAVAILABLE, 0), sys)
         else if peers_all > 1 then Inr ((MON_INVALID_PEER_SET, 0), sys)
         else
           let valid_mask = push_bit (unat (num_pc s)) 1 - 1 :: u64;
               mask = (if peers_all \<noteq> 0 then valid_mask AND NOT (push_bit (unat pc_id) 1) else peer_mask)
           in if peers_all = 0 \<and> peer_mask AND NOT valid_mask \<noteq> 0 then Inr ((MON_INVALID_PEER_SET, 0), sys)
              else if mask AND push_bit (unat pc_id) 1 \<noteq> 0 then Inr ((MON_INVALID_PEER_SET, 0), sys)
              else if deploy_request_active s then Inr ((MON_FAIL_TO_DEPLOY, 0), sys)
              else
                let s = s\<lparr>deploy_request := \<lparr>num_req_pc = 1, target_pc = ucast pc_id, req_peer_mask = ucast mask,
                                            targeted = True\<rparr>,
                          deploy_request_active := True,
                          deploy_result := \<lparr>res_target_pc = ucast pc_id, connected_peer_mask = 0,
                            rejected_peer_mask = 0, unavailable_peer_mask = 0,
                            res_error = MON_DEPLOY_IN_PROGRESS, res_ready = False\<rparr>\<rparr>;
                    (err, sys) = monitor_deploy_second_half E (s, co)
                in if err \<noteq> MON_NO_ERROR
                   then Inr ((err, 0), (deploy_set_ready (deploy_set_error err (fst sys)), snd sys))
                   else bindR (co_settle E sys) (\<lambda>sys. Inr ((MON_NO_ERROR, 0), sys)))"

definition monitor_call_deploy_result :: "monitor \<Rightarrow> msginfo \<times> monitor" where
  "monitor_call_deploy_result s =
     (if \<not> res_ready (deploy_result s) then ((MON_DEPLOY_IN_PROGRESS, 0), s)
      else
        let r = deploy_result s
        in ((res_error r, 4), s\<lparr>mrs := (mrs s)(0 := ucast (res_target_pc r), 1 := ucast (connected_peer_mask r),
              2 := ucast (rejected_peer_mask r), 3 := ucast (unavailable_peer_mask r))\<rparr>))"

section \<open>The dispatcher\<close>

text \<open>A call that concerns the state only leaves the coroutine as it is.\<close>

definition with_state :: "(monitor \<Rightarrow> msginfo \<times> monitor) \<Rightarrow> monitor_system \<Rightarrow> (msginfo \<times> monitor_system) res" where
  "with_state f sys = (let (reply, s) = f (fst sys) in Inr (reply, (s, snd sys)))"

definition with_state_res ::
  "(monitor \<Rightarrow> (msginfo \<times> monitor) res) \<Rightarrow> monitor_system \<Rightarrow> (msginfo \<times> monitor_system) res" where
  "with_state_res f sys = bindR (f (fst sys)) (\<lambda>(reply, s). Inr (reply, (s, snd sys)))"

text \<open>
  The arguments are in the message registers. The arguments of the control calls are narrowed to 32
  bits by the functions they are passed to. The list of protocons is printed and not returned.
\<close>

definition monitor_main_handle_pccall :: "mon_env \<Rightarrow> u32 \<Rightarrow> monitor_system \<Rightarrow> (msginfo \<times> monitor_system) res" where
  "monitor_main_handle_pccall E ch sys =
     (let mr = mrs (fst sys);
          call_id = mr 0;
          arg = ucast (mr 1) :: u32
      in if call_id = PC_MONITOR_CALL_DEPLOY then monitor_call_deploy_first_half E (mr 1) sys
         else if call_id = PC_MONITOR_CALL_DEPLOY_TO_PROTOCON
         then monitor_call_deploy_to_protocon E (mr 1) (mr 2) (mr 3) sys
         else if call_id = PC_MONITOR_CALL_DEPLOY_RESULT then with_state monitor_call_deploy_result sys
         else if call_id = PC_MONITOR_CALL_FLIP_ACL_RULE
         then Inr ((MON_NO_ERROR, 0),
                ((fst sys)\<lparr>pd_io_acl_rule := (if pd_io_acl_rule (fst sys) = 0 then 1 else 0)\<rparr>, snd sys))
         else if call_id = PC_MONITOR_CALL_SET_VSWITCH_ACL
         then with_state (monitor_call_set_vswitch_acl E (mr 1) (mr 2) (mr 3)) sys
         else if call_id = PC_MONITOR_CALL_BACKUP_CONTEXT
         then with_state_res (monitor_call_backup_protocon_loading_context E ch) sys
         else if call_id = PC_MONITOR_CALL_TERMINATE
         then with_state_res (monitor_call_stop_and_restore_protocon E (ch - PC_MONITOR_PROTOCON_BASE_CHANNEL)) sys
         else if call_id = PC_MONITOR_CALL_SUSPEND then with_state (monitor_call_suspend_protocon arg) sys
         else if call_id = PC_MONITOR_CALL_RESUME then with_state (monitor_call_resume_protocon arg) sys
         else if call_id = PC_MONITOR_CALL_LIST_PROTOCONS
         then with_state (\<lambda>s. let ((reply, _), s) = monitor_call_list_protocons s in (reply, s)) sys
         else if call_id = PC_MONITOR_CALL_QUERY_PROTOCONS then with_state (monitor_call_query_protocons ch) sys
         else if call_id = PC_MONITOR_CALL_TERMINATE_EXT
         then with_state_res (monitor_call_stop_and_restore_protocon E
                (if ch \<ge> 24 then monitor_get_pcid_from_ch ch else arg)) sys
         else Inr ((MON_NO_ERROR, 0), sys))"

section \<open>Entry points\<close>

text \<open>
  \<open>protected\<close>, \<open>notified\<close> and \<open>fault\<close>: a notification of the file system resumes the coroutine when it
  waits, and a fault is never answered. The registers hold the message when an entry point runs.
\<close>

definition monitor_protected :: "mon_env \<Rightarrow> u32 \<Rightarrow> (nat \<Rightarrow> u64) \<Rightarrow> monitor_system \<Rightarrow> (msginfo \<times> monitor_system) res" where
  "monitor_protected E ch msg sys = monitor_main_handle_pccall E ch ((fst sys)\<lparr>mrs := msg\<rparr>, snd sys)"

definition monitor_notified :: "mon_env \<Rightarrow> bool \<Rightarrow> monitor_system \<Rightarrow> monitor_system res" where
  "monitor_notified E from_fs sys =
     (let sys = (fs_process_completions (mon_fs E) (fst sys), snd sys)
      in if from_fs \<and> co_waits E sys then co_resume E sys else Inr sys)"

definition monitor_fault :: "mon_env \<Rightarrow> u32 \<Rightarrow> u64 \<Rightarrow> (nat \<Rightarrow> u64) \<Rightarrow> monitor_system \<Rightarrow> (bool \<times> monitor_system) res" where
  "monitor_fault E child label msg sys =
     bindR (monitor_main_handle_fault E child label ((fst sys)\<lparr>mrs := msg\<rparr>)) (\<lambda>s. Inr (False, (s, snd sys)))"

end
