(* ===== verification/Monitor_Invariant.thy ===== *)
theory Monitor_Invariant
  imports Monitor_Call
begin

unbundle bit_operations_syntax

text \<open>
  The monitor as a transition system: calls, notifications and faults in any order, and what holds
  of every state it can reach. Between them the other domains write to the memory they share with it,
  the images that the orchestrator loads and the regions of the protocons.
\<close>

section \<open>The transition system\<close>

inductive monitor_step :: "mon_env \<Rightarrow> monitor_system \<Rightarrow> monitor_system \<Rightarrow> bool" for E where
  protected: "monitor_protected E ch msg sys = Inr (reply, sys') \<Longrightarrow> monitor_step E sys sys'"
| notified: "monitor_notified E from_fs sys = Inr sys' \<Longrightarrow> monitor_step E sys sys'"
| fault: "monitor_fault E child label msg sys = Inr (handled, sys') \<Longrightarrow> monitor_step E sys sys'"
| written: "monitor_step E (s, co) (s\<lparr>memory := m\<rparr>, co)"

inductive monitor_reaches :: "mon_env \<Rightarrow> monitor_system \<Rightarrow> monitor_system \<Rightarrow> bool" for E and start where
  start: "monitor_reaches E start start"
| step: "monitor_reaches E start sys \<Longrightarrow> monitor_step E sys sys' \<Longrightarrow> monitor_reaches E start sys'"

section \<open>The invariant\<close>

text \<open>A set of peers of \<open>self\<close>: protocons of the system other than itself.\<close>

definition mask_ok :: "nat \<Rightarrow> nat \<Rightarrow> u32 \<Rightarrow> bool" where
  "mask_ok n self w \<longleftrightarrow> (\<forall>j. bit w j \<longrightarrow> j < n \<and> j \<noteq> self)"

definition tables_ok :: "monitor \<Rightarrow> bool" where
  "tables_ok s \<longleftrightarrow> unat (num_pc s) \<le> 16 \<and> ucast (monitored_protocon_count s) = num_pc s
     \<and> length (protocon_states s) = 16 \<and> length (peer_policy s) = 16"

definition policies_ok :: "monitor \<Rightarrow> bool" where
  "policies_ok s \<longleftrightarrow> (\<forall>i < 16. mask_ok (unat (num_pc s)) i (peer_policy s ! i))"

definition request_ok :: "monitor \<Rightarrow> bool" where
  "request_ok s \<longleftrightarrow> (deploy_request_active s \<and> targeted (deploy_request s) \<longrightarrow>
     unat (target_pc (deploy_request s)) < unat (num_pc s)
     \<and> mask_ok (unat (num_pc s)) (unat (target_pc (deploy_request s))) (req_peer_mask (deploy_request s)))"

definition base_ok :: "monitor \<Rightarrow> bool" where
  "base_ok s \<longleftrightarrow> tables_ok s \<and> policies_ok s \<and> request_ok s"

lemmas base_defs = base_ok_def tables_ok_def policies_ok_def request_ok_def

text \<open>A plan in progress is for a free protocon, to be started at the loader.\<close>

definition plan_ok :: "mon_env \<Rightarrow> monitor \<Rightarrow> deploy_plan \<Rightarrow> bool" where
  "plan_ok E s plan \<longleftrightarrow> unat (plan_pc_id plan) < 16 \<and> lifecycles s ! unat (plan_pc_id plan) = PROTOCON_PASSIVE
     \<and> plan_pc_entry plan = tsldr_loader_program_base E
     \<and> (targeted (deploy_request s) \<longrightarrow> plan_pc_id plan = target_pc (deploy_request s))"

text \<open>A request is active exactly while there is a coroutine.\<close>

definition monitor_inv :: "mon_env \<Rightarrow> monitor_system \<Rightarrow> bool" where
  "monitor_inv E sys \<longleftrightarrow> base_ok (fst sys) \<and> (deploy_request_active (fst sys) \<longleftrightarrow> snd sys \<noteq> CoNone)
     \<and> (\<forall>plan info elf_base i x n. snd sys = CoInstall plan info elf_base i x n \<longrightarrow> plan_ok E (fst sys) plan)"

section \<open>Operations that leave deployments alone\<close>

text \<open>The request is the same, the policies still name peers, and a free protocon stays free.\<close>

definition calm :: "monitor \<Rightarrow> monitor \<Rightarrow> bool" where
  "calm s s' \<longleftrightarrow> deploy_request s' = deploy_request s \<and> deploy_request_active s' = deploy_request_active s
     \<and> num_pc s' = num_pc s \<and> monitored_protocon_count s' = monitored_protocon_count s
     \<and> length (protocon_states s') = length (protocon_states s)
     \<and> length (peer_policy s') = length (peer_policy s)
     \<and> (\<forall>i < 16. \<forall>n. length (peer_policy s) = 16 \<longrightarrow> bit (peer_policy s' ! i) n \<longrightarrow> bit (peer_policy s ! i) n)
     \<and> (\<forall>i < 16. lifecycles s ! i = PROTOCON_PASSIVE \<longrightarrow> lifecycles s' ! i = PROTOCON_PASSIVE)"

lemma calm_refl [simp]: "calm s s"
  by (simp add: calm_def)

lemma calm_trans [trans]: "calm s t \<Longrightarrow> calm t u \<Longrightarrow> calm s u"
  by (auto simp: calm_def)

lemma calm_base: "calm s s' \<Longrightarrow> base_ok s \<Longrightarrow> base_ok s'"
  by (auto simp: calm_def base_defs mask_ok_def)

lemma calm_plan: "calm s s' \<Longrightarrow> plan_ok E s plan \<Longrightarrow> plan_ok E s' plan"
  by (auto simp: calm_def plan_ok_def)

lemma calm_inv: "calm s s' \<Longrightarrow> monitor_inv E (s, co) \<Longrightarrow> monitor_inv E (s', co)"
  using calm_base [of s s'] calm_plan [of s s' E] by (auto simp: monitor_inv_def) (auto simp: calm_def)

named_theorems calm_ops

lemma calm_control: "control s' = control s \<Longrightarrow> protocon_states s' = protocon_states s \<Longrightarrow> calm s s'"
  by (simp add: calm_def control_def lifecycles_def)

lemma calm_updates [calm_ops, simp]:
  "calm s (s\<lparr>memory := m\<rparr>)" "calm s (s\<lparr>mrs := regs\<rparr>)" "calm s (emit e s)" "calm s (s\<lparr>pd_io_acl_rule := v\<rparr>)"
  "calm s (s\<lparr>events := es\<rparr>)" "calm s (monitor_main_notify_orchestrator s)"
  by (simp_all add: calm_def lifecycles_def monitor_main_notify_orchestrator_def)

lemma calm_rest: "rest_of s' = rest_of s \<Longrightarrow> calm s s'"
  by (rule calm_control) (rule rest_fields; assumption)+

lemma calm_acl [calm_ops]: "calm s (snd (monitor_call_set_vswitch_acl E p q v s))"
  by (rule set_vswitch_acl_cases [of E p q v s]) (simp add: calm_def lifecycles_def)

lemma calm_lifecycle:
  assumes "st = PROTOCON_PASSIVE \<or> lifecycles s ! unat cid \<noteq> PROTOCON_PASSIVE"
  shows "calm s (protocon_state_set_lifecycle_state cid st s)"
proof -
  have "(lifecycles s)[unat cid := st] ! i = PROTOCON_PASSIVE" if "lifecycles s ! i = PROTOCON_PASSIVE" for i
    using that assms by (cases "i = unat cid"; cases "unat cid < length (lifecycles s)") (auto simp: list_update_beyond)
  then show ?thesis
    by (simp add: calm_def lifecycles_set) (simp add: protocon_state_set_lifecycle_state_def update_pc_def)
qed

lemma calm_suspend [calm_ops]:
  assumes "length (protocon_states s) = 16"
  shows "calm s (snd (monitor_call_suspend_protocon t s))"
proof (cases "unat t < 16")
  case True
  then show ?thesis
    using calm_trans [OF calm_lifecycle [of PROTOCON_SUSPENDED s t] calm_updates(5)]
    by (simp add: suspend_eq [OF True assms] lifecycle_consts)
qed (simp add: monitor_call_suspend_protocon_def monitor_consts)

lemma calm_resume [calm_ops]:
  assumes "length (protocon_states s) = 16"
  shows "calm s (snd (monitor_call_resume_protocon t s))"
proof (cases "unat t < 16")
  case True
  then show ?thesis
    using calm_trans [OF calm_lifecycle [of PROTOCON_ACTIVE s t] calm_updates(5)]
    by (simp add: resume_eq [OF True assms] lifecycle_consts)
qed (simp add: monitor_call_resume_protocon_def monitor_consts)

lemma load_trustedlo_memory:
  "monitor_main_load_trustedlo E cid s = Inr s' \<Longrightarrow> s' = s\<lparr>memory := memory s'\<rparr>"
  by (auto simp: monitor_main_load_trustedlo_def Let_def split: prod.splits elim!: bindR_InrE)

lemma calm_restore:
  assumes "monitor_call_restore_protocon E ch s = Inr (reply, s')"
  shows "calm s s'"
proof -
  let ?cid = "monitor_get_pcid_from_ch ch"
  consider "s' = monitor_main_notify_orchestrator s"
    | t where "monitor_main_load_trustedlo E ?cid (protocon_state_set_lifecycle_state ?cid PROTOCON_PASSIVE s) = Inr t"
        "s' = monitor_main_notify_orchestrator t"
    using assms by (auto simp: monitor_call_restore_protocon_def Let_def split: if_splits elim!: bindR_InrE)
  then show ?thesis
  proof cases
    case 2
    let ?p = "protocon_state_set_lifecycle_state ?cid PROTOCON_PASSIVE s"
    have "calm s ?p" by (rule calm_lifecycle) simp
    also have "calm ?p t" by (subst load_trustedlo_memory [OF 2(1)]) (rule calm_updates)
    also have "calm t s'" unfolding 2(2) by (rule calm_updates)
    finally show ?thesis .
  qed simp
qed

lemma calm_stop:
  assumes "monitor_call_stop_and_restore_protocon E t s = Inr (reply, s')" and "tables_ok s"
  shows "calm s s'"
proof (cases "unat t < 16")
  case True
  have count: "unat (monitored_protocon_count s) \<le> 16"
  proof -
    have "unat (ucast (monitored_protocon_count s) :: u64) \<le> 16" using assms(2) by (simp add: tables_ok_def)
    then show ?thesis by simp
  qed
  let ?r = "monitor_acl_release_protocon E t s"
  obtain pol regs es where r: "?r = s\<lparr>peer_policy := pol, mrs := regs, events := events s @ es\<rparr>" "length pol = 16"
    "\<forall>p < 16. \<forall>n. bit (pol ! p) n \<longrightarrow> bit (peer_policy s ! p) n"
    using release_frame [OF count, of E t] assms(2) unfolding tables_ok_def by blast
  have "calm s ?r" using r assms(2) by (simp add: calm_def lifecycles_def tables_ok_def)
  also have "calm ?r (emit (PdStop t) ?r)" by (rule calm_updates)
  also have "calm (emit (PdStop t) ?r) s'"
    using assms(1) True calm_restore
    by (simp add: monitor_call_stop_and_restore_protocon_def monitor_consts Let_def)
  finally show ?thesis .
qed (use assms in \<open>simp add: monitor_call_stop_and_restore_protocon_def monitor_consts\<close>)

lemma calm_backup:
  assumes "monitor_call_backup_protocon_loading_context E ch s = Inr (reply, s')"
  shows "calm s s'"
proof -
  let ?cid = "monitor_get_pcid_from_ch ch"
  obtain f where s': "s' = update_pc ?cid f s" and f: "\<And>p. life_cycle_state (f p) = life_cycle_state p"
    using assms by (auto simp: monitor_call_backup_protocon_loading_context_def Let_def split: option.splits)
  have "lifecycles s' = lifecycles s"
    unfolding s' update_pc_def lifecycles_def
    by (cases "unat ?cid < length (protocon_states s)")
      (auto intro!: nth_equalityI simp: nth_list_update list_update_beyond f)
  then show ?thesis by (simp add: s' calm_def update_pc_def)
qed

lemma calm_fault:
  assumes "monitor_main_handle_fault E child label s = Inr s'"
  shows "calm s s'"
proof -
  consider "s' = emit (PdStop child) s"
    | reply where "monitor_call_restore_protocon E (child + PC_MONITOR_PROTOCON_BASE_CHANNEL)
        (monitor_main_notify_orchestrator (emit (PdStop child) s)) = Inr (reply, s')"
    using assms by (auto simp: monitor_main_handle_fault_def Let_def split: if_splits elim!: bindR_InrE)
  then show ?thesis
  proof cases
    case 2
    have "calm s (emit (PdStop child) s)" by (rule calm_updates)
    also have "calm (emit (PdStop child) s) (monitor_main_notify_orchestrator (emit (PdStop child) s))"
      by (rule calm_updates)
    finally show ?thesis using calm_restore [OF 2] calm_trans by blast
  qed simp
qed

section \<open>The coroutine\<close>

lemma mask_ok_0 [simp]: "mask_ok n self 0"
  by (simp add: mask_ok_def)

lemma finish_fields:
  "base_ok s \<Longrightarrow> base_ok (monitor_finish_deploy_request s)"
  "\<not> deploy_request_active (monitor_finish_deploy_request s)"
  by (auto simp: base_defs monitor_finish_deploy_request_def monitor_deploy_refresh_request_def
      monitor_main_notify_orchestrator_def)

lemma base_ok_count:
  assumes "base_ok s"
  shows "unat (monitored_protocon_count s) \<le> 16"
    and "unat p < unat (num_pc s) \<longleftrightarrow> p < monitored_protocon_count s"
proof -
  have n: "num_pc s = ucast (monitored_protocon_count s)" and le: "unat (num_pc s) \<le> 16"
    using assms by (simp_all add: base_defs)
  show "unat (monitored_protocon_count s) \<le> 16" using le by (simp add: n)
  show "unat p < unat (num_pc s) \<longleftrightarrow> p < monitored_protocon_count s" by (simp add: n word_less_nat_alt)
qed

lemma set_result_base [simp]:
  "base_ok (deploy_set_error err s) = base_ok s" "base_ok (deploy_set_ready s) = base_ok s"
  "base_ok (s\<lparr>deploy_result := r\<rparr>) = base_ok s"
  by (simp_all add: base_defs deploy_set_error_def deploy_set_ready_def)

lemma apply_base:
  assumes "base_ok s" and "unat cid < unat (num_pc s)" and "mask_ok (unat (num_pc s)) (unat cid) wanted"
    and "monitor_acl_apply_deployment E cid wanted out s = (err, out', s')"
  shows "base_ok s'" and "num_pc s' = num_pc s"
proof -
  let ?t = "s\<lparr>peer_policy := (peer_policy s)[unat cid := wanted]\<rparr>"
  have "base_ok ?t" using assms(1-3) by (auto simp: base_defs nth_list_update)
  moreover have t: "\<exists>es regs. s' = ?t\<lparr>events := es, mrs := regs\<rparr>"
    using assms(4)
    by (rule_tac apply_deployment_result [of cid s E wanted out])
      (use base_ok_count [OF assms(1)] assms(2) in auto)
  ultimately show "base_ok s'" by (auto simp: base_defs)
  show "num_pc s' = num_pc s" using t by auto
qed

lemma conclude_base:
  assumes "base_ok s" and "deploy_request_active s" and "targeted (deploy_request s)"
  shows "base_ok (deploy_conclude E err s) \<and> num_pc (deploy_conclude E err s) = num_pc s"
proof (cases "err = MON_NO_ERROR")
  case True
  let ?s = "deploy_set_error MON_NO_ERROR s"
  obtain err' c r u s' where a: "monitor_acl_apply_deployment E (target_pc (deploy_request ?s)) (req_peer_mask (deploy_request ?s))
      (connected_peer_mask (deploy_result ?s), rejected_peer_mask (deploy_result ?s),
       unavailable_peer_mask (deploy_result ?s)) ?s = (err', (c, r, u), s')"
    by (metis prod_cases3)
  have "base_ok s'" and "num_pc s' = num_pc ?s"
    by (rule apply_base [OF _ _ _ a]; use assms in \<open>simp add: base_defs deploy_set_error_def\<close>)+
  then show ?thesis using True a by (simp add: deploy_conclude_def deploy_set_error_def deploy_set_ready_def Let_def)
next
  case False
  then show ?thesis using assms by (simp add: deploy_conclude_def deploy_set_error_def deploy_set_ready_def)
qed

lemma co_end_inv:
  assumes "base_ok s" and "deploy_request_active s"
  shows "monitor_inv E (co_end E err s)"
  using assms conclude_base [of s E err] by (simp add: monitor_inv_def co_end_def finish_fields)

lemma co_begin_inv:
  assumes "co_begin E info target n s = Inr sys'" and "base_ok s" and "deploy_request_active s"
    and "targeted (deploy_request s) \<Longrightarrow> target = Some (target_pc (deploy_request s))"
  shows "monitor_inv E sys'"
proof -
  obtain found s' where p: "protocon_prepare E info target s = Inr (found, s')"
    using assms(1) by (auto simp: co_begin_def elim!: bindR_InrE)
  have "calm s s'" by (subst prepared_memory(1) [OF p]) simp
  then have s': "base_ok s'" "deploy_request_active s'" "deploy_request s' = deploy_request s"
    using assms(2,3) calm_base by (auto simp: calm_def)
  show ?thesis
  proof (cases found)
    case None
    then have "sys' = co_end E MON_NO_AVAIL_PC s'" using assms(1) p by (simp add: co_begin_def)
    then show ?thesis using co_end_inv [OF s'(1,2)] by simp
  next
    case (Some plan)
    note pl = prepared_plan [OF p [unfolded Some]]
    have lc: "lifecycles s' = lifecycles s" by (subst prepared_memory(1) [OF p]) simp
    obtain i where i: "i < 16" "plan_pc_id plan = word_of_nat i" "life_cycle_state (protocon_states s ! i) = PROTOCON_PASSIVE"
      using pl(2) by blast
    have "unat (plan_pc_id plan) = i" using i(1) unfolding i(2) by (intro unat_word_of_nat_lt) simp
    moreover have "lifecycles s ! i = PROTOCON_PASSIVE" using i(1,3) assms(2) by (simp add: lifecycles_def base_defs)
    ultimately have "plan_ok E s' plan"
      using i pl(3,4) assms(4) by (auto simp: plan_ok_def lc s'(3))
    then show ?thesis using assms(1) p Some s' by (auto simp: co_begin_def monitor_inv_def)
  qed
qed

lemma co_start_inv:
  assumes "co_start E s = Inr sys'" and "base_ok s" and "deploy_request_active s"
  shows "monitor_inv E sys'"
proof -
  obtain err info where h: "service_manifest_header_parse (memory s) payload_info_zero carrels_payload_start = (err, info)"
    by (cases "service_manifest_header_parse (memory s) payload_info_zero carrels_payload_start")
  have fin: "monitor_inv E (monitor_finish_deploy_request t, CoNone)" if "base_ok t" for t
    using that by (simp add: monitor_inv_def finish_fields)
  let ?stopped = "\<not> targeted (deploy_request s)
      \<and> monitor_check_deploy_num (ucast (num_req_pc (deploy_request s))) s \<noteq> MON_NO_ERROR"
  note eq = assms(1) [unfolded co_start_def Let_def h prod.case]
  show ?thesis
  proof (cases "?stopped \<or> err \<noteq> 0")
    case True
    then have "\<exists>t. base_ok t \<and> sys' = (monitor_finish_deploy_request t, CoNone)"
    proof (cases ?stopped)
      case True
      then show ?thesis using eq assms(2) by (intro exI [of _ s]) simp
    next
      case False
      then have "err \<noteq> 0" using True by blast
      then show ?thesis using eq [unfolded if_not_P [OF False]] assms(2)
        by (intro exI [of _ "if targeted (deploy_request s)
          then deploy_set_ready (deploy_set_error MON_FAIL_TO_DEPLOY s) else s"]) simp
    qed
    then show ?thesis using fin by auto
  next
    case False
    show ?thesis
    proof (cases "targeted (deploy_request s)")
      case True
      have "co_begin E info (Some (target_pc (deploy_request s))) 1 s = Inr sys'" using eq False True by simp
      then show ?thesis by (rule co_begin_inv [OF _ assms(2,3)]) simp
    next
      case untargeted: False
      have "co_begin E info None (unat (num_req_pc (deploy_request s))) s = Inr sys'" using eq False untargeted by simp
      then show ?thesis by (rule co_begin_inv [OF _ assms(2,3)]) (simp add: untargeted)
    qed
  qed
qed

lemma start_calm_except:
  assumes "protocon_start E plan s = Inr s'" and "base_ok s"
  shows "base_ok s'" and "deploy_request s' = deploy_request s" and "deploy_request_active s' = deploy_request_active s"
  using start_result(1,2) [OF assms(1)] assms(2) by (simp_all add: base_defs control_def)

lemma co_step_inv:
  assumes "monitor_inv E (s, co)" and "co_step E (s, co) = Inr (s', co')"
  shows "monitor_inv E (s', co')"
proof (cases co)
  case CoNone
  then show ?thesis using assms by simp
next
  case CoSpawned
  then show ?thesis using assms co_start_inv by (auto simp: monitor_inv_def)
next
  case (CoInstall plan info elf i x n)
  have base: "base_ok s" "deploy_request_active s" and plan: "plan_ok E s plan"
    using assms(1) CoInstall by (simp_all add: monitor_inv_def)
  obtain req where req: "plan_req plan = Some req" using assms(2) CoInstall by (cases "plan_req plan") auto
  show ?thesis
  proof (cases "i < unat (req_service_count req)")
    case True
    then obtain x' where "install_service E plan req elf i (x, s) = Inr (x', s')"
      and co': "co' = CoInstall plan info elf (Suc i) x' n"
      using assms(2) CoInstall req by (auto elim!: bindR_InrE)
    then have "calm s s'" using install_rest calm_rest by blast
    then have "monitor_inv E (s', CoInstall plan info elf i x n)" using assms(1) CoInstall calm_inv by blast
    then show ?thesis by (simp add: co' monitor_inv_def)
  next
    case False
    let ?h = "service_installer_initialise_ac_rt_req_header E (plan_base_serialised_service plan) x s"
    have h: "base_ok ?h" "deploy_request ?h = deploy_request s" "deploy_request_active ?h = deploy_request_active s"
      using base(1) by (simp_all add: service_installer_initialise_ac_rt_req_header_def Let_def base_defs)
    obtain t where t: "protocon_start E plan ?h = Inr t"
      and rest: "(if targeted (deploy_request t) \<or> n \<le> 1 then Inr (co_end E MON_NO_ERROR t)
                      else co_begin E info None (n - 1) t) = Inr (s', co')"
      using assms(2) CoInstall req False by (auto elim!: bindR_InrE)
    note t' = start_calm_except [OF t h(1)]
    show ?thesis
    proof (cases "targeted (deploy_request t) \<or> n \<le> 1")
      case True
      then show ?thesis using rest co_end_inv [of t E MON_NO_ERROR] t' h base(2) by simp
    next
      case False
      then show ?thesis using rest co_begin_inv [of E info None "n - 1" t "(s', co')"] t' h base(2) by simp
    qed
  qed
qed

lemma co_settle_inv: "monitor_inv E sys \<Longrightarrow> co_settle E sys = Inr sys' \<Longrightarrow> monitor_inv E sys'"
proof (induction E sys rule: co_settle.induct)
  case (1 E sys)
  show ?case
  proof (cases "snd sys = CoNone \<or> co_waits E sys")
    case True
    then show ?thesis using "1.prems" by (simp add: co_settle.simps [of E sys])
  next
    case False
    then obtain mid where mid: "co_step E sys = Inr mid" "co_settle E mid = Inr sys'"
      using "1.prems"(2) by (auto simp: co_settle.simps [of E sys] split: sum.splits)
    have "monitor_inv E mid"
      using co_step_inv [of E "fst sys" "snd sys" "fst mid" "snd mid"] "1.prems"(1) mid(1) by simp
    then show ?thesis using "1.IH" [OF False mid(1)] mid(2) by blast
  qed
qed

section \<open>The entry points\<close>

lemma spawn_inv:
  assumes "base_ok s" and "deploy_request_active s" and "monitor_deploy_second_half E (s, co) = (err, sys)"
    and "co = CoNone"
  shows "monitor_inv E sys"
  using assms by (auto simp: monitor_deploy_second_half_def monitor_inv_def finish_fields split: if_splits)

lemma first_half_inv:
  assumes "monitor_call_deploy_first_half E num sys = Inr (reply, sys')" and "monitor_inv E sys"
  shows "monitor_inv E sys'"
proof -
  obtain s co where sys: "sys = (s, co)" by (cases sys)
  let ?s = "s\<lparr>deploy_request := empty_deploy_request\<lparr>num_req_pc := ucast num\<rparr>, req_pc_num := ucast num,
    deploy_request_active := True\<rparr>"
  show ?thesis
  proof (cases "monitor_check_deploy_num num s \<noteq> MON_NO_ERROR \<or> deploy_request_active s")
    case True
    then show ?thesis using assms
      by (auto simp: monitor_call_deploy_first_half_def sys monitor_reset_deploy_request_def Let_def split: if_splits)
  next
    case False
    then have co: "co = CoNone" using assms(2) by (simp add: monitor_inv_def sys)
    have "base_ok ?s" using assms(2)
      by (simp add: monitor_inv_def sys base_defs empty_deploy_request_def)
    obtain err sys1 where sp: "monitor_deploy_second_half E (?s, co) = (err, sys1)"
      by (cases "monitor_deploy_second_half E (?s, co)")
    have inv1: "monitor_inv E sys1" by (rule spawn_inv [OF \<open>base_ok ?s\<close> _ sp co]) simp
    have "sys' = sys1 \<or> co_settle E sys1 = Inr sys'"
      using assms(1) False sp
      by (auto simp: monitor_call_deploy_first_half_def sys monitor_reset_deploy_request_def Let_def
          split: if_splits elim!: bindR_InrE)
    then show ?thesis using inv1 co_settle_inv by blast
  qed
qed

text \<open>The peers a targeted request may name.\<close>

lemma all_peers_bit:
  assumes "n \<le> 16" and "p < n"
  shows "bit ((push_bit n 1 - 1 :: u64) AND NOT (push_bit p 1)) j \<longleftrightarrow> j < n \<and> j \<noteq> p"
proof -
  have "push_bit n 1 - 1 = (mask n :: u64)" by (simp add: mask_eq_exp_minus_1)
  then show ?thesis using assms
    by (auto simp: bit_and_iff bit_not_iff bit_push_bit_iff bit_1_iff bit_mask_iff simp del: push_bit_of_1)
qed

lemma given_peers_bit:
  assumes "n \<le> 16" and "(w :: u64) AND NOT (push_bit n 1 - 1) = 0" and "w AND push_bit p 1 = 0" and "p < 16"
    and "bit w j"
  shows "j < n \<and> j \<noteq> p"
proof -
  have m: "push_bit n 1 - 1 = (mask n :: u64)" by (simp add: mask_eq_exp_minus_1)
  have j: "j < 64" using assms(5) bit_imp_le_length [of w j] by simp
  have "\<not> bit (w AND NOT (mask n)) j" using assms(2) unfolding m by simp
  then have "j < n" using assms(5) j by (auto simp: bit_and_iff bit_not_iff bit_mask_iff)
  moreover have "\<not> bit (w AND push_bit p 1) j" using assms(3) by simp
  then have "j \<noteq> p" using assms(4,5) j by (auto simp: bit_and_iff bit_push_bit_iff bit_1_iff simp del: push_bit_of_1)
  ultimately show ?thesis ..
qed

lemma ucast_mask_ok:
  assumes "\<And>j. bit (w :: u64) j \<Longrightarrow> j < n \<and> j \<noteq> p"
  shows "mask_ok n p (ucast w)"
  using assms by (auto simp: mask_ok_def bit_ucast_iff)

definition deploy_target :: "u64 \<Rightarrow> u64 \<Rightarrow> monitor \<Rightarrow> monitor" where
  "deploy_target pc_id peers s = s\<lparr>
     deploy_request := \<lparr>num_req_pc = 1, target_pc = ucast pc_id, req_peer_mask = ucast peers, targeted = True\<rparr>,
     deploy_request_active := True,
     deploy_result := \<lparr>res_target_pc = ucast pc_id, connected_peer_mask = 0, rejected_peer_mask = 0,
       unavailable_peer_mask = 0, res_error = MON_DEPLOY_IN_PROGRESS, res_ready = False\<rparr>\<rparr>"

text \<open>The peers of an accepted request; None when the request is refused, with the reason.\<close>

definition accepted_peers :: "u64 \<Rightarrow> u64 \<Rightarrow> u64 \<Rightarrow> monitor \<Rightarrow> pc_monitor_error + u64" where
  "accepted_peers pc_id peer_mask peers_all s =
     (let valid = push_bit (unat (num_pc s)) 1 - 1 :: u64
      in if pc_id \<ge> num_pc s then Inl MON_INVALID_PC_ID
         else if lifecycles s ! unat pc_id \<noteq> PROTOCON_PASSIVE then Inl MON_PC_UNAVAILABLE
         else if peers_all > 1 \<or> peers_all = 0 \<and> peer_mask AND NOT valid \<noteq> 0
                 \<or> peers_all = 0 \<and> peer_mask AND push_bit (unat pc_id) 1 \<noteq> 0 then Inl MON_INVALID_PEER_SET
         else if deploy_request_active s then Inl MON_FAIL_TO_DEPLOY
         else Inr (if peers_all \<noteq> 0 then valid AND NOT (push_bit (unat pc_id) 1) else peer_mask))"

lemma to_protocon_eq:
  assumes "tables_ok s"
  shows "monitor_call_deploy_to_protocon E pc_id peer_mask peers_all (s, co) =
    (case accepted_peers pc_id peer_mask peers_all s of
       Inl err \<Rightarrow> Inr ((err, 0), (s, co))
     | Inr peers \<Rightarrow>
         let (err, sys) = monitor_deploy_second_half E (deploy_target pc_id peers s, co)
         in if err \<noteq> MON_NO_ERROR
            then Inr ((err, 0), (deploy_set_ready (deploy_set_error err (fst sys)), snd sys))
            else bindR (co_settle E sys) (\<lambda>sys. Inr ((MON_NO_ERROR, 0), sys)))"
proof (cases "pc_id \<ge> num_pc s")
  case True
  then show ?thesis by (simp add: monitor_call_deploy_to_protocon_def accepted_peers_def Let_def)
next
  case False
  then have lt: "unat pc_id < unat (num_pc s)" "unat (num_pc s) \<le> 16"
    using assms by (simp_all add: word_less_nat_alt not_le tables_ok_def)
  then have u: "unat (ucast pc_id :: u32) = unat pc_id"
    by (simp add: unsigned_ucast_eq take_bit_nat_eq_self)
  then have lc: "protocon_state_check_lifecycle_state (ucast pc_id) PROTOCON_PASSIVE s
      \<longleftrightarrow> lifecycles s ! unat pc_id = PROTOCON_PASSIVE"
    using lt assms check_lifecycle [of "ucast pc_id" s PROTOCON_PASSIVE] by (simp add: tables_ok_def)
  have self: "(push_bit (unat (num_pc s)) 1 - 1 AND NOT (push_bit (unat pc_id) 1)) AND push_bit (unat pc_id) 1 = (0 :: u64)"
    by (simp add: and.assoc)
  show ?thesis using False
    unfolding monitor_call_deploy_to_protocon_def accepted_peers_def Let_def prod.case lc deploy_target_def
    by (simp add: self del: push_bit_of_1)
qed

lemma accepted_ok:
  assumes "accepted_peers pc_id peer_mask peers_all s = Inr peers" and "base_ok s"
  shows "base_ok (deploy_target pc_id peers s)" and "\<not> deploy_request_active s"
    and "unat (ucast pc_id :: u32) = unat pc_id" and "unat pc_id < unat (num_pc s)"
    and "bit peers j \<Longrightarrow> j < unat (num_pc s) \<and> j \<noteq> unat pc_id"
proof -
  have a: "\<not> pc_id \<ge> num_pc s" "\<not> deploy_request_active s"
    and m: "peers_all \<noteq> 0 \<and> peers = push_bit (unat (num_pc s)) 1 - 1 AND NOT (push_bit (unat pc_id) 1)
      \<or> peers_all = 0 \<and> peers = peer_mask \<and> peer_mask AND NOT (push_bit (unat (num_pc s)) 1 - 1) = 0
        \<and> peer_mask AND push_bit (unat pc_id) 1 = 0"
    using assms(1) by (auto simp: accepted_peers_def Let_def simp del: push_bit_of_1 split: if_splits)
  have n: "unat (num_pc s) \<le> 16" using assms(2) by (simp add: base_defs)
  show lt: "unat pc_id < unat (num_pc s)" using a(1) by (simp add: word_less_nat_alt not_le)
  then show u: "unat (ucast pc_id :: u32) = unat pc_id"
    using n by (simp add: unsigned_ucast_eq take_bit_nat_eq_self)
  show peers: "j < unat (num_pc s) \<and> j \<noteq> unat pc_id" if "bit peers j" for j
    using m
  proof
    assume "peers_all \<noteq> 0 \<and> peers = push_bit (unat (num_pc s)) 1 - 1 AND NOT (push_bit (unat pc_id) 1)"
    then show ?thesis using that all_peers_bit [OF n lt, of j] by simp
  next
    assume "peers_all = 0 \<and> peers = peer_mask \<and> peer_mask AND NOT (push_bit (unat (num_pc s)) 1 - 1) = 0
        \<and> peer_mask AND push_bit (unat pc_id) 1 = 0"
    then show ?thesis using given_peers_bit [OF n, of peer_mask "unat pc_id" j] lt n that by simp
  qed
  have "mask_ok (unat (num_pc s)) (unat pc_id) (ucast peers)" by (rule ucast_mask_ok) (rule peers)
  then show "base_ok (deploy_target pc_id peers s)"
    using assms(2) lt by (simp add: base_defs deploy_target_def u)
  show "\<not> deploy_request_active s" by (rule a(2))
qed

lemma to_protocon_inv:
  assumes "monitor_call_deploy_to_protocon E pc_id peer_mask peers_all sys = Inr (reply, sys')" and "monitor_inv E sys"
  shows "monitor_inv E sys'"
proof -
  obtain s co where sys: "sys = (s, co)" by (cases sys)
  have base: "base_ok s" and co: "deploy_request_active s \<longleftrightarrow> co \<noteq> CoNone"
    using assms(2) by (simp_all add: monitor_inv_def sys)
  then have tab: "tables_ok s" by (simp add: base_ok_def)
  show ?thesis
  proof (cases "accepted_peers pc_id peer_mask peers_all s")
    case (Inl err)
    then show ?thesis using assms by (simp add: sys to_protocon_eq [OF tab])
  next
    case (Inr peers)
    note acc = accepted_ok [OF Inr base]
    obtain err sys1 where sp: "monitor_deploy_second_half E (deploy_target pc_id peers s, co) = (err, sys1)"
      by (cases "monitor_deploy_second_half E (deploy_target pc_id peers s, co)")
    have inv1: "monitor_inv E sys1"
      by (rule spawn_inv [OF acc(1) _ sp]) (use co acc(2) in \<open>simp_all add: deploy_target_def\<close>)
    have fl: "deploy_request_active (deploy_set_ready (deploy_set_error err t)) = deploy_request_active t"
      "plan_ok E (deploy_set_ready (deploy_set_error err t)) = plan_ok E t" for t
      by (simp_all add: deploy_set_ready_def deploy_set_error_def plan_ok_def lifecycles_def fun_eq_iff)
    consider "sys' = (deploy_set_ready (deploy_set_error err (fst sys1)), snd sys1)" | "co_settle E sys1 = Inr sys'"
      using assms(1) Inr sp
      by (auto simp: sys to_protocon_eq [OF tab] Let_def split: if_splits elim!: bindR_InrE)
    then show ?thesis
    proof cases
      case 1
      then show ?thesis using inv1 fl by (simp add: monitor_inv_def)
    next
      case 2
      then show ?thesis using inv1 co_settle_inv by blast
    qed
  qed
qed

section \<open>Every step keeps the invariant\<close>

lemma calm_query [calm_ops]: "calm s (snd (monitor_call_query_protocons ch s))"
  by (simp add: monitor_call_query_protocons_def Let_def)

lemma calm_list [calm_ops]: "calm s (snd (let ((reply, l), s) = monitor_call_list_protocons s in (reply, s)))"
  by (simp add: monitor_call_list_protocons_def)

lemma calm_result [calm_ops]: "calm s (snd (monitor_call_deploy_result s))"
  by (simp add: monitor_call_deploy_result_def Let_def)

text \<open>
  What a step does to the system is related by \<open>R\<close> when operations that leave deployments alone are, the two
  requests for a deployment, and the coroutine that goes on.
\<close>

locale calm_steps =
  fixes E :: mon_env and R :: "monitor_system \<Rightarrow> monitor_system \<Rightarrow> bool"
  assumes calm: "monitor_inv E (s, co) \<Longrightarrow> calm s s' \<Longrightarrow> R (s, co) (s', co)"
    and first_half: "monitor_call_deploy_first_half E num sys = Inr (reply, sys') \<Longrightarrow> monitor_inv E sys \<Longrightarrow> R sys sys'"
    and to_protocon: "monitor_call_deploy_to_protocon E pc_id peer_mask peers_all sys = Inr (reply, sys')
      \<Longrightarrow> monitor_inv E sys \<Longrightarrow> R sys sys'"
    and resumed: "co_resume E sys = Inr sys' \<Longrightarrow> monitor_inv E sys \<Longrightarrow> R sys sys'"
    and transitive: "R s1 s2 \<Longrightarrow> R s2 s3 \<Longrightarrow> R s1 s3"
begin

lemma state_call:
  assumes "with_state f sys = Inr (reply, sys')" and "monitor_inv E sys" and "calm (fst sys) (snd (f (fst sys)))"
  shows "R sys sys'"
  using assms calm [of "fst sys" "snd sys" "snd (f (fst sys))"] by (auto simp: with_state_def split: prod.splits)

lemma state_res_call:
  assumes "with_state_res f sys = Inr (reply, sys')" and "monitor_inv E sys"
    and "\<And>r s'. f (fst sys) = Inr (r, s') \<Longrightarrow> calm (fst sys) s'"
  shows "R sys sys'"
proof -
  obtain r s' where f: "f (fst sys) = Inr (r, s')" and sys': "sys' = (s', snd sys)"
    using assms(1) by (auto simp: with_state_res_def elim!: bindR_InrE)
  show ?thesis using calm [OF _ assms(3) [OF f], of "snd sys"] assms(2) by (simp add: sys')
qed

lemma handled_call:
  assumes "monitor_main_handle_pccall E ch sys = Inr (reply, sys')" and "monitor_inv E sys"
  shows "R sys sys'"
proof -
  have tab: "tables_ok (fst sys)" using assms(2) by (simp add: monitor_inv_def base_ok_def)
  then have len: "length (protocon_states (fst sys)) = 16" by (simp add: tables_ok_def)
  note f = state_call [OF _ assms(2)] and g = state_res_call [OF _ assms(2)]
  have fs: "with_state (monitor_call_set_vswitch_acl E p q v) sys = Inr (reply, sys') \<Longrightarrow> R sys sys'"
    "with_state (monitor_call_suspend_protocon t) sys = Inr (reply, sys') \<Longrightarrow> R sys sys'"
    "with_state (monitor_call_resume_protocon t) sys = Inr (reply, sys') \<Longrightarrow> R sys sys'"
    "with_state (monitor_call_query_protocons ch) sys = Inr (reply, sys') \<Longrightarrow> R sys sys'"
    "with_state monitor_call_deploy_result sys = Inr (reply, sys') \<Longrightarrow> R sys sys'"
    "with_state (\<lambda>s. let ((reply, l), s) = monitor_call_list_protocons s in (reply, s)) sys = Inr (reply, sys')
      \<Longrightarrow> R sys sys'" for p q v t
    by (erule f, rule calm_acl calm_suspend [OF len] calm_resume [OF len] calm_query calm_result calm_list)+
  have gs: "with_state_res (monitor_call_backup_protocon_loading_context E ch) sys = Inr (reply, sys') \<Longrightarrow> R sys sys'"
    "with_state_res (monitor_call_stop_and_restore_protocon E t) sys = Inr (reply, sys') \<Longrightarrow> R sys sys'" for t
    by (erule g, erule calm_backup, erule g, erule calm_stop [OF _ tab])
  note calls = first_half [OF _ assms(2)] to_protocon [OF _ assms(2)] fs [unfolded Let_def] gs
  have flip: "R sys ((fst sys)\<lparr>pd_io_acl_rule := v\<rparr>, snd sys)" "R sys sys" for v
    using calm [OF _ calm_updates(4), of "fst sys" "snd sys"] calm [OF _ calm_refl, of "fst sys" "snd sys"] assms(2) by simp_all
  note split = assms(1) [unfolded monitor_main_handle_pccall_def Let_def]
  show ?thesis using split flip by (auto split: if_split_asm dest: calls)
qed

text \<open>The entry points begin with an operation that leaves deployments alone.\<close>

lemma after_calm: "monitor_inv E (s, co) \<Longrightarrow> calm s t \<Longrightarrow> (monitor_inv E (t, co) \<Longrightarrow> R (t, co) sys') \<Longrightarrow> R (s, co) sys'"
  using calm calm_inv transitive by blast

lemma any_step:
  assumes "monitor_step E sys sys'" and "monitor_inv E sys"
  shows "R sys sys'"
  using assms(1)
proof (cases rule: monitor_step.cases)
  case (protected ch msg reply)
  then have "monitor_main_handle_pccall E ch ((fst sys)\<lparr>mrs := msg\<rparr>, snd sys) = Inr (reply, sys')"
    by (simp add: monitor_protected_def)
  from after_calm [OF _ calm_updates(2) handled_call [OF this]] assms(2) show ?thesis by simp
next
  case (notified from_fs)
  let ?t = "fs_process_completions (mon_fs E) (fst sys)"
  have calm_t: "calm (fst sys) ?t" by (rule calm_rest [OF process_completions_rest])
  have "sys' = (?t, snd sys) \<or> co_resume E (?t, snd sys) = Inr sys'"
    using notified by (auto simp: monitor_notified_def Let_def split: if_splits)
  then show ?thesis
  proof
    assume "co_resume E (?t, snd sys) = Inr sys'"
    from after_calm [OF _ calm_t resumed [OF this]] assms(2) show ?thesis by simp
  qed (use calm [OF _ calm_t, of "snd sys"] assms(2) in simp)
next
  case (fault child label msg handled)
  then obtain s' where s': "monitor_main_handle_fault E child label ((fst sys)\<lparr>mrs := msg\<rparr>) = Inr s'" "sys' = (s', snd sys)"
    by (auto simp: monitor_fault_def elim!: bindR_InrE)
  have "calm (fst sys) s'" using calm_trans [OF calm_updates(2) calm_fault [OF s'(1)]] .
  from calm [OF _ this, of "snd sys"] show ?thesis using assms(2) by (simp add: s'(2))
next
  case (written s co m)
  then show ?thesis using calm [OF _ calm_updates(1)] assms(2) by blast
qed

end

lemma co_resume_inv:
  assumes "co_resume E sys = Inr sys'" and "monitor_inv E sys"
  shows "monitor_inv E sys'"
proof -
  obtain mid where mid: "co_step E sys = Inr mid" "co_settle E mid = Inr sys'"
    using assms(1) by (auto simp: co_resume_def elim!: bindR_InrE)
  show ?thesis using co_step_inv [of E "fst sys" "snd sys" "fst mid" "snd mid"] co_settle_inv [of E mid] assms(2) mid by simp
qed

interpretation keeps_inv: calm_steps E "\<lambda>_. monitor_inv E" for E
  by unfold_locales (blast intro: calm_inv first_half_inv to_protocon_inv co_resume_inv)+

lemmas pccall_inv = keeps_inv.handled_call
lemmas step_inv = keeps_inv.any_step

lemma reaches_inv: "monitor_reaches E start sys \<Longrightarrow> monitor_inv E start \<Longrightarrow> monitor_inv E sys"
  by (induction rule: monitor_reaches.induct) (auto intro: step_inv)

end
