(* ===== verification/Deploy_Properties.thy ===== *)
theory Deploy_Properties
  imports Monitor_Invariant
begin

unbundle bit_operations_syntax

text \<open>
  What deployments guarantee, over the transition system of \<open>Monitor_Invariant\<close>: who is started,
  which requests are refused, what a result says; and where the code lets a client or a second caller interfere.
\<close>

section \<open>What is started\<close>

text \<open>The domains that a list of events starts, with their entry points.\<close>

definition starts :: "event list \<Rightarrow> (u32 \<times> u64) list" where
  "starts es = concat (map (\<lambda>e. case e of WriteRegisters pc entry \<Rightarrow> [(pc, entry)] | _ \<Rightarrow> []) es)"

lemma starts_simps [simp]:
  "starts [] = []" "starts (es @ fs) = starts es @ starts fs"
  "starts (WriteRegisters pc entry # es) = (pc, entry) # starts es"
  "starts (Notify ch # es) = starts es" "starts (PdStop c # es) = starts es" "starts (PdResume c # es) = starts es"
  "starts (VswitchAcl p q v ok # es) = starts es" "starts (PrivilegeTemplate c # es) = starts es"
  by (simp_all add: starts_def)

lemma starts_acl [simp]: "starts (events (snd (monitor_call_set_vswitch_acl E p q v s))) = starts (events s)"
  by (rule set_vswitch_acl_cases [of E p q v s]) simp

lemma starts_apply_peers:
  "starts (events (snd (acl_apply_peers E cid wanted ps masks s))) = starts (events s)"
proof (induction E cid wanted ps masks s rule: acl_apply_peers.induct)
  case (2 E cid wanted p ps c r u s)
  obtain reply t where a: "monitor_call_set_vswitch_acl E (ucast cid) (word_of_nat p) 1 s = (reply, t)"
    by (cases "monitor_call_set_vswitch_acl E (ucast cid) (word_of_nat p) 1 s")
  have "starts (events t) = starts (events s)"
    using starts_acl [of E "ucast cid" "word_of_nat p" 1 s] by (simp add: a)
  then show ?case using 2 by (simp add: a Let_def)
qed simp

lemma starts_apply_deployment:
  "starts (events (snd (snd (monitor_acl_apply_deployment E cid w out s)))) = starts (events s)"
proof -
  let ?t = "s\<lparr>peer_policy := (peer_policy s)[unat cid := w]\<rparr>"
  obtain found t where a: "acl_apply_peers E cid w [0..<unat (monitored_protocon_count s)] (0, 0, 0) ?t = (found, t)"
    by (cases "acl_apply_peers E cid w [0..<unat (monitored_protocon_count s)] (0, 0, 0) ?t")
  have "starts (events t) = starts (events s)"
    using starts_apply_peers [of E cid w "[0..<unat (monitored_protocon_count s)]" "(0, 0, 0)" ?t] by (simp add: a)
  then show ?thesis by (cases found) (simp_all add: monitor_acl_apply_deployment_def a)
qed

lemma set_result_starts [simp]:
  "events (deploy_set_error err s) = events s" "events (deploy_set_ready s) = events s"
  by (simp_all add: deploy_set_error_def deploy_set_ready_def)

lemma starts_conclude: "starts (events (deploy_conclude E err s)) = starts (events s)"
proof (cases "err = MON_NO_ERROR")
  case True
  let ?s = "deploy_set_error MON_NO_ERROR s"
  obtain err' c r u s' where a: "monitor_acl_apply_deployment E (target_pc (deploy_request ?s)) (req_peer_mask (deploy_request ?s))
      (connected_peer_mask (deploy_result ?s), rejected_peer_mask (deploy_result ?s),
       unavailable_peer_mask (deploy_result ?s)) ?s = (err', (c, r, u), s')"
    by (metis prod_cases3)
  then have "starts (events s') = starts (events s)"
    using starts_apply_deployment [of E "target_pc (deploy_request ?s)" "req_peer_mask (deploy_request ?s)"
      "(connected_peer_mask (deploy_result ?s), rejected_peer_mask (deploy_result ?s),
       unavailable_peer_mask (deploy_result ?s))" ?s] by simp
  then show ?thesis using True a by (simp add: deploy_conclude_def Let_def)
next
  case False
  then show ?thesis by (simp add: deploy_conclude_def)
qed

lemma starts_end: "starts (events (fst (co_end E err s))) = starts (events s)"
  by (simp add: co_end_def monitor_finish_deploy_request_def monitor_main_notify_orchestrator_def
      monitor_deploy_refresh_request_def starts_conclude)

lemma starts_begin:
  assumes "co_begin E info target n s = Inr (s', co)"
  shows "starts (events s') = starts (events s)"
proof -
  obtain found t where p: "protocon_prepare E info target s = Inr (found, t)"
    using assms by (auto simp: co_begin_def elim!: bindR_InrE)
  have "events t = events s" by (subst prepared_memory(1) [OF p]) simp
  then show ?thesis using assms p starts_end [of E MON_NO_AVAIL_PC t]
    by (auto simp: co_begin_def split: option.splits)
qed

text \<open>
  A launch: a part of a deployment that starts the listed domains at the loader. Each protocon was
  free, is in use afterwards and is listed once; no protocon is freed.
\<close>

definition launched :: "mon_env \<Rightarrow> monitor \<Rightarrow> monitor \<Rightarrow> (u32 \<times> u64) list \<Rightarrow> bool" where
  "launched E s s' L \<longleftrightarrow> starts (events s') = starts (events s) @ L \<and> distinct (map fst L)
     \<and> (\<forall>a \<in> set L. snd a = tsldr_loader_program_base E \<and> unat (fst a) < 16
          \<and> lifecycles s ! unat (fst a) = PROTOCON_PASSIVE \<and> lifecycles s' ! unat (fst a) = PROTOCON_ACTIVE)
     \<and> (\<forall>i < 16. lifecycles s' ! i = PROTOCON_PASSIVE \<longrightarrow> lifecycles s ! i = PROTOCON_PASSIVE)
     \<and> (\<forall>i < 16. lifecycles s ! i = PROTOCON_ACTIVE \<longrightarrow> lifecycles s' ! i = PROTOCON_ACTIVE)"

lemma launched_same: "starts (events s') = starts (events s) \<Longrightarrow> lifecycles s' = lifecycles s \<Longrightarrow> launched E s s' []"
  by (simp add: launched_def)

lemma launchedD:
  assumes "launched E s s' L" and "a \<in> set L"
  shows "snd a = tsldr_loader_program_base E" and "unat (fst a) < 16"
    and "lifecycles s ! unat (fst a) = PROTOCON_PASSIVE" and "lifecycles s' ! unat (fst a) = PROTOCON_ACTIVE"
  using assms by (auto simp: launched_def)

lemma launched_keeps:
  assumes "launched E s s' L" and "i < 16"
  shows "lifecycles s' ! i = PROTOCON_PASSIVE \<Longrightarrow> lifecycles s ! i = PROTOCON_PASSIVE"
    and "lifecycles s ! i = PROTOCON_ACTIVE \<Longrightarrow> lifecycles s' ! i = PROTOCON_ACTIVE"
  using assms by (simp_all add: launched_def)

lemma launched_trans:
  assumes "launched E s t L" and "launched E t u M"
  shows "launched E s u (L @ M)"
proof -
  have "fst a \<noteq> fst b" if "a \<in> set L" "b \<in> set M" for a b
    using launchedD(4) [OF assms(1) that(1)] launchedD(3) [OF assms(2) that(2)] by (auto simp: lifecycle_consts)
  then have "set (map fst L) \<inter> set (map fst M) = {}" by force
  then have "distinct (map fst (L @ M))" using assms by (simp add: launched_def)
  moreover have "\<forall>a \<in> set (L @ M). snd a = tsldr_loader_program_base E \<and> unat (fst a) < 16
      \<and> lifecycles s ! unat (fst a) = PROTOCON_PASSIVE \<and> lifecycles u ! unat (fst a) = PROTOCON_ACTIVE"
  proof
    fix a assume in_LM: "a \<in> set (L @ M)"
    show "snd a = tsldr_loader_program_base E \<and> unat (fst a) < 16
      \<and> lifecycles s ! unat (fst a) = PROTOCON_PASSIVE \<and> lifecycles u ! unat (fst a) = PROTOCON_ACTIVE"
  proof (cases "a \<in> set L")
    case True
    then show ?thesis using launchedD [OF assms(1) True] launched_keeps(2) [OF assms(2)] by simp
  next
    case False
    then have "a \<in> set M" using in_LM by simp
    then show ?thesis using launchedD [OF assms(2)] launched_keeps(1) [OF assms(1)] by simp
  qed
  qed
  moreover have "starts (events u) = starts (events s) @ L @ M" using assms by (simp add: launched_def)
  moreover have "\<forall>i < 16. lifecycles u ! i = PROTOCON_PASSIVE \<longrightarrow> lifecycles s ! i = PROTOCON_PASSIVE"
    "\<forall>i < 16. lifecycles s ! i = PROTOCON_ACTIVE \<longrightarrow> lifecycles u ! i = PROTOCON_ACTIVE"
    using launched_keeps [OF assms(1)] launched_keeps [OF assms(2)] by blast+
  ultimately show ?thesis unfolding launched_def by blast
qed

lemma conclude_lifecycles: "lifecycles (deploy_conclude E err s) = lifecycles s"
proof (cases "err = MON_NO_ERROR")
  case True
  let ?s = "deploy_set_error MON_NO_ERROR s"
  have acl: "protocon_states (snd (acl_apply_peers E cid w ps masks t)) = protocon_states t" for cid w ps masks t
  proof (induction E cid w ps masks t rule: acl_apply_peers.induct)
    case (2 E cid wanted p ps c r u s)
    show ?case by (rule set_vswitch_acl_cases [of E "ucast cid" "word_of_nat p" 1 s]) (use 2 in \<open>simp add: Let_def\<close>)
  qed simp
  have "protocon_states (snd (snd (monitor_acl_apply_deployment E cid w out t))) = protocon_states t" for cid w out t
  proof -
    let ?t = "t\<lparr>peer_policy := (peer_policy t)[unat cid := w]\<rparr>"
    obtain found t' where a: "acl_apply_peers E cid w [0..<unat (monitored_protocon_count t)] (0, 0, 0) ?t = (found, t')"
      by (cases "acl_apply_peers E cid w [0..<unat (monitored_protocon_count t)] (0, 0, 0) ?t")
    have "protocon_states t' = protocon_states t"
      using acl [of cid w "[0..<unat (monitored_protocon_count t)]" "(0, 0, 0)" ?t] by (simp add: a)
    then show ?thesis by (cases found) (simp_all add: monitor_acl_apply_deployment_def a)
  qed
  moreover obtain err' c r u s' where a: "monitor_acl_apply_deployment E (target_pc (deploy_request ?s)) (req_peer_mask (deploy_request ?s))
    (connected_peer_mask (deploy_result ?s), rejected_peer_mask (deploy_result ?s),
     unavailable_peer_mask (deploy_result ?s)) ?s = (err', (c, r, u), s')"
    by (metis prod_cases3)
  ultimately have "protocon_states s' = protocon_states ?s" by (metis snd_conv)
  then show ?thesis using True a
    by (simp add: deploy_conclude_def Let_def lifecycles_def deploy_set_error_def deploy_set_ready_def)
next
  case False
  then show ?thesis by (simp add: deploy_conclude_def lifecycles_def deploy_set_error_def deploy_set_ready_def)
qed

lemma end_lifecycles: "lifecycles (fst (co_end E err s)) = lifecycles s"
  using conclude_lifecycles [of E err s]
  by (simp add: co_end_def monitor_finish_deploy_request_def monitor_deploy_refresh_request_def lifecycles_def
        monitor_main_notify_orchestrator_def)

lemma launched_end: "launched E s (fst (co_end E err s)) []"
  by (rule launched_same) (simp_all add: starts_end end_lifecycles)

lemma launched_begin:
  assumes "co_begin E info target n s = Inr (s', co)"
  shows "launched E s s' []"
proof -
  obtain found t where p: "protocon_prepare E info target s = Inr (found, t)"
    using assms by (auto simp: co_begin_def elim!: bindR_InrE)
  have t: "launched E s t []" by (rule launched_same; subst prepared_memory(1) [OF p]) simp_all
  show ?thesis
  proof (cases found)
    case None
    then have "co_end E MON_NO_AVAIL_PC t = (s', co)" using assms p by (simp add: co_begin_def)
    then show ?thesis using launched_trans [OF t launched_end [of E t MON_NO_AVAIL_PC]] by simp
  next
    case (Some plan)
    then show ?thesis using assms p t by (simp add: co_begin_def)
  qed
qed

lemma launched_start:
  assumes "co_start E s = Inr (s', co)"
  shows "launched E s s' []"
proof -
  obtain err info where h: "service_manifest_header_parse (memory s) payload_info_zero carrels_payload_start = (err, info)"
    by (cases "service_manifest_header_parse (memory s) payload_info_zero carrels_payload_start")
  have fin: "launched E s (monitor_finish_deploy_request s) []"
    "launched E s (monitor_finish_deploy_request (deploy_set_ready (deploy_set_error err s))) []" for err
    by (rule launched_same; simp add: monitor_finish_deploy_request_def monitor_main_notify_orchestrator_def
        monitor_deploy_refresh_request_def lifecycles_def deploy_set_ready_def deploy_set_error_def)+
  show ?thesis using assms fin unfolding co_start_def Let_def h prod.case
    by (auto split: if_split_asm dest: launched_begin)
qed

lemma launched_step:
  assumes "monitor_inv E (s, co)" and "co_step E (s, co) = Inr (s', co')"
  shows "\<exists>L. launched E s s' L"
proof (cases co)
  case CoNone
  then show ?thesis using assms launched_same [of s s E] by auto
next
  case CoSpawned
  then have "co_start E s = Inr (s', co')" using assms(2) by simp
  from launched_start [OF this] show ?thesis ..
next
  case (CoInstall plan info elf i x n)
  have plan: "plan_ok E s plan" and len: "length (protocon_states s) = 16"
    using assms(1) CoInstall by (simp_all add: monitor_inv_def base_defs)
  obtain req where req: "plan_req plan = Some req" using assms(2) CoInstall by (cases "plan_req plan") auto
  show ?thesis
  proof (cases "i < unat (req_service_count req)")
    case True
    then obtain x' where "install_service E plan req elf i (x, s) = Inr (x', s')"
      using assms(2) CoInstall req by (auto elim!: bindR_InrE)
    then have "rest_of s' = rest_of s" by (rule install_rest)
    from rest_fields(2,3) [OF this] have "launched E s s' []" by (intro launched_same) (simp_all add: lifecycles_def)
    then show ?thesis ..
  next
    case False
    let ?h = "service_installer_initialise_ac_rt_req_header E (plan_base_serialised_service plan) x s"
    let ?pc = "unat (plan_pc_id plan)"
    obtain t where t: "protocon_start E plan ?h = Inr t"
      and rest: "(if targeted (deploy_request t) \<or> n \<le> 1 then Inr (co_end E MON_NO_ERROR t)
                      else co_begin E info None (n - 1) t) = Inr (s', co')"
      using assms(2) CoInstall req False by (auto elim!: bindR_InrE)
    have h: "events ?h = events s" "protocon_states ?h = protocon_states s"
      by (simp_all add: service_installer_initialise_ac_rt_req_header_def Let_def)
    have lc: "lifecycles t = (lifecycles s)[?pc := PROTOCON_ACTIVE]"
      using start_result(2) [OF t] len plan by (simp add: lifecycles_def map_update h plan_ok_def)
    have ll: "length (lifecycles s) = 16" using len by (simp add: lifecycles_def)
    have other: "(lifecycles s)[?pc := PROTOCON_ACTIVE] ! j = (if j = ?pc then PROTOCON_ACTIVE else lifecycles s ! j)"
      if "j < 16" for j using that ll by (simp add: nth_list_update)
    have "launched E s t [(plan_pc_id plan, plan_pc_entry plan)]"
      using plan start_result(3) [OF t] other unfolding launched_def lc h
      by (simp add: plan_ok_def lifecycle_consts)
    moreover have "launched E t s' []"
    proof (cases "targeted (deploy_request t) \<or> n \<le> 1")
      case True
      then have "s' = fst (co_end E MON_NO_ERROR t)" using rest by (metis Inr_inject fst_conv)
      then show ?thesis using launched_end by simp
    next
      case False
      then show ?thesis using rest launched_begin by simp
    qed
    ultimately show ?thesis using launched_trans by blast
  qed
qed

lemma launched_settle: "monitor_inv E sys \<Longrightarrow> co_settle E sys = Inr sys' \<Longrightarrow> \<exists>L. launched E (fst sys) (fst sys') L"
proof (induction E sys rule: co_settle.induct)
  case (1 E sys)
  show ?case
  proof (cases "snd sys = CoNone \<or> co_waits E sys")
    case True
    then have "sys' = sys" using "1.prems" by (simp add: co_settle.simps [of E sys])
    then show ?thesis using launched_same [of "fst sys" "fst sys" E] by auto
  next
    case False
    then obtain mid where mid: "co_step E sys = Inr mid" "co_settle E mid = Inr sys'"
      using "1.prems"(2) by (auto simp: co_settle.simps [of E sys] split: sum.splits)
    have s: "co_step E (fst sys, snd sys) = Inr (fst mid, snd mid)" and i: "monitor_inv E (fst sys, snd sys)"
      using mid(1) "1.prems"(1) by simp_all
    have "monitor_inv E mid" using co_step_inv [OF i s] by simp
    from "1.IH" [OF False mid(1) this mid(2)] launched_step [OF i s] show ?thesis
      using launched_trans by blast
  qed
qed

section \<open>Calls that start nothing\<close>

abbreviation quiet :: "monitor \<Rightarrow> monitor \<Rightarrow> bool" where
  "quiet s s' \<equiv> starts (events s') = starts (events s)"

lemma quiet_control [simp]:
  "quiet s (snd (monitor_call_suspend_protocon t s))" "quiet s (snd (monitor_call_resume_protocon t s))"
  "quiet s (snd (monitor_call_query_protocons ch s))" "quiet s (snd (monitor_call_deploy_result s))"
  by (simp_all add: monitor_call_suspend_protocon_def monitor_call_resume_protocon_def Let_def
      monitor_call_query_protocons_def monitor_call_deploy_result_def monitor_main_notify_orchestrator_def
      protocon_state_set_lifecycle_state_def update_pc_def)

lemma quiet_restore:
  assumes "monitor_call_restore_protocon E ch s = Inr (reply, s')"
  shows "quiet s s'"
proof -
  have "events t = events p" if "monitor_main_load_trustedlo E cid p = Inr t" for t p cid
    by (subst load_trustedlo_memory [OF that]) simp
  then show ?thesis using assms
    by (auto simp: monitor_call_restore_protocon_def Let_def monitor_main_notify_orchestrator_def
        protocon_state_set_lifecycle_state_def update_pc_def split: if_splits elim!: bindR_InrE)
qed

lemma quiet_release: "quiet s (monitor_acl_release_protocon E t s)"
proof -
  have "quiet s (fold (acl_release_peer E t) ps s)" for ps
    by (induction ps arbitrary: s) (simp_all add: acl_release_peer_def Let_def)
  then show ?thesis by (simp add: monitor_acl_release_protocon_def Let_def)
qed

lemma quiet_stop:
  assumes "monitor_call_stop_and_restore_protocon E t s = Inr (reply, s')"
  shows "quiet s s'"
  using assms quiet_release [where s = s and E = E and t = t]
  by (auto simp: monitor_call_stop_and_restore_protocon_def Let_def split: if_splits dest: quiet_restore)

lemma quiet_backup: "monitor_call_backup_protocon_loading_context E ch s = Inr (reply, s') \<Longrightarrow> quiet s s'"
  by (auto simp: monitor_call_backup_protocon_loading_context_def Let_def update_pc_def split: option.splits)

lemma quiet_fault:
  assumes "monitor_main_handle_fault E child label s = Inr s'"
  shows "quiet s s'"
  using assms by (auto simp: monitor_main_handle_fault_def Let_def monitor_main_notify_orchestrator_def
      split: if_splits elim!: bindR_InrE dest!: quiet_restore)

text \<open>Any step of the system launches some domains, most often none.\<close>

definition step_launches :: "mon_env \<Rightarrow> monitor_system \<Rightarrow> monitor_system \<Rightarrow> bool" where
  "step_launches E sys sys' \<longleftrightarrow> (\<exists>L. starts (events (fst sys')) = starts (events (fst sys)) @ L \<and> distinct (map fst L)
     \<and> (\<forall>a \<in> set L. snd a = tsldr_loader_program_base E
          \<and> lifecycles (fst sys) ! unat (fst a) = PROTOCON_PASSIVE
          \<and> lifecycles (fst sys') ! unat (fst a) = PROTOCON_ACTIVE))"

lemma quiet_launches: "quiet (fst sys) (fst sys') \<Longrightarrow> step_launches E sys sys'"
  unfolding step_launches_def by (rule exI [of _ "[]"]) simp

lemma launched_launches:
  assumes "launched E t s' L" and "quiet s t" and "lifecycles t = lifecycles s"
  shows "step_launches E (s, co) (s', co')"
  using assms unfolding launched_def step_launches_def by (intro exI [of _ L]) simp

lemma settle_launches:
  assumes "co_settle E sys = Inr sys'" and "monitor_inv E sys" and "quiet s (fst sys)" and "lifecycles (fst sys) = lifecycles s"
  shows "step_launches E (s, co) sys'"
  using launched_settle [OF assms(2,1)] launched_launches [OF _ assms(3,4)] by (cases sys') auto

lemma spawn_quiet:
  assumes "monitor_deploy_second_half E (s, co) = (err, sys)"
  shows "quiet s (fst sys)" and "lifecycles (fst sys) = lifecycles s"
  using assms by (auto simp: monitor_deploy_second_half_def monitor_finish_deploy_request_def lifecycles_def
      monitor_main_notify_orchestrator_def monitor_deploy_refresh_request_def split: if_splits)

lemma first_half_launches:
  assumes "monitor_call_deploy_first_half E num (s, co) = Inr (reply, sys')" and "monitor_inv E (s, co)"
  shows "step_launches E (s, co) sys'"
proof -
  let ?s = "s\<lparr>deploy_request := empty_deploy_request\<lparr>num_req_pc := ucast num\<rparr>, req_pc_num := ucast num,
    deploy_request_active := True\<rparr>"
  show ?thesis
  proof (cases "monitor_check_deploy_num num s \<noteq> MON_NO_ERROR \<or> deploy_request_active s")
    case True
    then have "sys' = (s, co)" using assms(1)
      by (auto simp: monitor_call_deploy_first_half_def monitor_reset_deploy_request_def Let_def split: if_splits)
    then show ?thesis by (simp add: quiet_launches)
  next
    case False
    then have co: "co = CoNone" using assms(2) by (simp add: monitor_inv_def)
    have base: "base_ok ?s" using assms(2) by (simp add: monitor_inv_def base_defs empty_deploy_request_def)
    obtain err sys1 where sp: "monitor_deploy_second_half E (?s, co) = (err, sys1)"
      by (cases "monitor_deploy_second_half E (?s, co)")
    have inv: "monitor_inv E sys1" by (rule spawn_inv [OF base _ sp co]) simp
    have q: "quiet s (fst sys1)" "lifecycles (fst sys1) = lifecycles s"
      using spawn_quiet [OF sp] by (simp_all add: lifecycles_def)
    consider "sys' = sys1" | "co_settle E sys1 = Inr sys'"
      using assms(1) False sp
      by (auto simp: monitor_call_deploy_first_half_def monitor_reset_deploy_request_def Let_def
          split: if_splits elim!: bindR_InrE)
    then show ?thesis
    proof cases
      case 1
      then show ?thesis using q by (intro quiet_launches) simp
    next
      case 2
      then show ?thesis by (rule settle_launches [OF _ inv q])
    qed
  qed
qed

lemma to_protocon_launches:
  assumes "monitor_call_deploy_to_protocon E pc_id peer_mask peers_all (s, co) = Inr (reply, sys')"
    and "monitor_inv E (s, co)"
  shows "step_launches E (s, co) sys'"
proof -
  have base: "base_ok s" and co: "deploy_request_active s \<longleftrightarrow> co \<noteq> CoNone" and tab: "tables_ok s"
    using assms(2) by (simp_all add: monitor_inv_def base_ok_def)
  show ?thesis
  proof (cases "accepted_peers pc_id peer_mask peers_all s")
    case (Inl err)
    then have "sys' = (s, co)" using assms(1) by (simp add: to_protocon_eq [OF tab])
    then show ?thesis by (simp add: quiet_launches)
  next
    case (Inr peers)
    note acc = accepted_ok [OF Inr base]
    obtain err sys1 where sp: "monitor_deploy_second_half E (deploy_target pc_id peers s, co) = (err, sys1)"
      by (cases "monitor_deploy_second_half E (deploy_target pc_id peers s, co)")
    have inv: "monitor_inv E sys1"
      by (rule spawn_inv [OF acc(1) _ sp]) (use co acc(2) in \<open>simp_all add: deploy_target_def\<close>)
    have q: "quiet s (fst sys1)" "lifecycles (fst sys1) = lifecycles s"
      using spawn_quiet [OF sp] by (simp_all add: lifecycles_def deploy_target_def)
    consider "sys' = (deploy_set_ready (deploy_set_error err (fst sys1)), snd sys1)" | "co_settle E sys1 = Inr sys'"
      using assms(1) Inr sp by (auto simp: to_protocon_eq [OF tab] Let_def split: if_splits elim!: bindR_InrE)
    then show ?thesis
    proof cases
      case 1
      then show ?thesis using q by (intro quiet_launches) simp
    next
      case 2
      then show ?thesis by (rule settle_launches [OF _ inv q])
    qed
  qed
qed

lemma with_state_quiet: "with_state f sys = Inr (reply, sys') \<Longrightarrow> quiet (fst sys) (snd (f (fst sys))) \<Longrightarrow> quiet (fst sys) (fst sys')"
  by (auto simp: with_state_def split: prod.splits)

lemma with_state_res_quiet:
  "with_state_res f sys = Inr (reply, sys') \<Longrightarrow> (\<And>r s'. f (fst sys) = Inr (r, s') \<Longrightarrow> quiet (fst sys) s')
    \<Longrightarrow> quiet (fst sys) (fst sys')"
  by (auto simp: with_state_res_def elim!: bindR_InrE)

lemma pccall_launches:
  assumes "monitor_main_handle_pccall E ch sys = Inr (reply, sys')" and "monitor_inv E sys"
  shows "step_launches E sys sys'"
proof -
  have f: "with_state f sys = Inr (reply, sys') \<Longrightarrow> quiet (fst sys) (snd (f (fst sys))) \<Longrightarrow> step_launches E sys sys'" for f
    by (rule quiet_launches) (rule with_state_quiet)
  have g: "with_state_res g sys = Inr (reply, sys') \<Longrightarrow> (\<And>r s'. g (fst sys) = Inr (r, s') \<Longrightarrow> quiet (fst sys) s')
      \<Longrightarrow> step_launches E sys sys'" for g
    by (rule quiet_launches) (rule with_state_res_quiet)
  have fs: "with_state (monitor_call_set_vswitch_acl E p q v) sys = Inr (reply, sys') \<Longrightarrow> step_launches E sys sys'"
    "with_state (monitor_call_suspend_protocon t) sys = Inr (reply, sys') \<Longrightarrow> step_launches E sys sys'"
    "with_state (monitor_call_resume_protocon t) sys = Inr (reply, sys') \<Longrightarrow> step_launches E sys sys'"
    "with_state (monitor_call_query_protocons ch) sys = Inr (reply, sys') \<Longrightarrow> step_launches E sys sys'"
    "with_state monitor_call_deploy_result sys = Inr (reply, sys') \<Longrightarrow> step_launches E sys sys'"
    "with_state (\<lambda>s. let ((reply, l), s) = monitor_call_list_protocons s in (reply, s)) sys = Inr (reply, sys')
      \<Longrightarrow> step_launches E sys sys'" for p q v t
    by (erule f, simp add: monitor_call_list_protocons_def)+
  have gs: "with_state_res (monitor_call_backup_protocon_loading_context E ch) sys = Inr (reply, sys') \<Longrightarrow> step_launches E sys sys'"
    "with_state_res (monitor_call_stop_and_restore_protocon E t) sys = Inr (reply, sys') \<Longrightarrow> step_launches E sys sys'" for t
    by (erule g, erule quiet_backup, erule g, erule quiet_stop)
  have "monitor_inv E (fst sys, snd sys)" using assms(2) by simp
  note deploys = first_half_launches [OF _ this, unfolded prod.collapse] to_protocon_launches [OF _ this, unfolded prod.collapse]
  note calls = deploys fs(1-5) fs(6) [unfolded Let_def] gs
  have flip: "step_launches E sys ((fst sys)\<lparr>pd_io_acl_rule := v\<rparr>, snd sys)" "step_launches E sys sys" for v
    by (simp_all add: quiet_launches)
  note split = assms(1) [unfolded monitor_main_handle_pccall_def Let_def]
  show ?thesis using split flip by (auto split: if_split_asm dest: calls)
qed

lemma step_launches_step:
  assumes "monitor_step E sys sys'" and "monitor_inv E sys"
  shows "step_launches E sys sys'"
  using assms(1)
proof (cases rule: monitor_step.cases)
  case (protected ch msg reply)
  let ?sys = "((fst sys)\<lparr>mrs := msg\<rparr>, snd sys)"
  have "monitor_inv E ?sys" by (rule calm_inv [OF calm_updates(2)]) (use assms(2) in simp)
  from pccall_launches [OF _ this] protected have "step_launches E ?sys sys'" by (simp add: monitor_protected_def)
  then show ?thesis by (simp add: step_launches_def)
next
  case (notified from_fs)
  let ?sys = "(fs_process_completions (mon_fs E) (fst sys), snd sys)"
  have same: "quiet (fst sys) (fst ?sys)" "lifecycles (fst ?sys) = lifecycles (fst sys)"
    using rest_fields(2,3) [OF process_completions_rest] by (simp_all add: lifecycles_def)
  have inv: "monitor_inv E ?sys" by (rule calm_inv [OF calm_rest [OF process_completions_rest]]) (use assms(2) in simp)
  consider "sys' = ?sys" | mid where "co_step E ?sys = Inr mid" "co_settle E mid = Inr sys'"
    using notified by (auto simp: monitor_notified_def Let_def co_resume_def split: if_splits elim!: bindR_InrE)
  then show ?thesis
  proof cases
    case 1
    then show ?thesis using same by (simp add: quiet_launches)
  next
    case 2
    have s: "co_step E ?sys = Inr (fst mid, snd mid)" using 2 by simp
    obtain L where L: "launched E (fst ?sys) (fst mid) L" using launched_step [OF inv s] by auto
    have "monitor_inv E mid" using co_step_inv [OF inv s] by simp
    then obtain M where "launched E (fst mid) (fst sys') M" using launched_settle 2(2) by blast
    from launched_trans [OF L this] show ?thesis
      using launched_launches [OF _ same, of E "fst sys'" _ "snd sys" "snd sys'"] by auto
  qed
next
  case (fault child label msg handled)
  then have "quiet (fst sys) (fst sys')"
    by (auto simp: monitor_fault_def elim!: bindR_InrE dest!: quiet_fault)
  then show ?thesis by (rule quiet_launches)
next
  case (written s co m)
  then show ?thesis by (simp add: quiet_launches)
qed

lemma ex_base: "base_ok (ex_monitor states [])"
proof -
  have "(replicate 16 (0 :: u32)) ! i = 0" if "i < 16" for i using that by (rule nth_replicate)
  then show ?thesis by (simp add: base_defs ex_monitor_def mask_ok_def)
qed

lemma ex_free: "lifecycles (ex_monitor [2, 2] []) ! 0 = PROTOCON_PASSIVE"
  by (simp add: lifecycles_def ex_states ex_pc_def ex_monitor_def lifecycle_consts)

text \<open>A step of the example: the orchestrator queries the states.\<close>

lemma ex_step: "monitor_step ex_mon_env (s, co) (snd (monitor_call_query_protocons 15 (s\<lparr>mrs := \<lambda>_. 10\<rparr>)), co)"
  by (rule monitor_step.protected [of _ 15 "\<lambda>_. 10"])
    (simp add: monitor_protected_def monitor_main_handle_pccall_def Let_def call_numbers with_state_def
      monitor_call_query_protocons_def)

section \<open>Properties\<close>

text \<open>C3: in every state the monitor reaches from an idle one, a request is active exactly while there is a
  deployment coroutine, every policy names protocons of the system other than its owner, and a
  deployment in progress is for a protocon that is free.\<close>

theorem monitor_reachable_states:
  assumes "monitor_reaches E (s0, CoNone) (s, co)" and "base_ok s0" and "\<not> deploy_request_active s0"
  shows "(deploy_request_active s \<longleftrightarrow> co \<noteq> CoNone) \<and> policies_ok s
    \<and> (case co of CoInstall plan _ _ _ _ _ \<Rightarrow> lifecycles s ! unat (plan_pc_id plan) = PROTOCON_PASSIVE | _ \<Rightarrow> True)"
  using reaches_inv [OF assms(1)] assms(2,3)
  by (auto simp: monitor_inv_def base_ok_def plan_ok_def split: coroutine.split)

theorem monitor_reachable_states_witness:
  "let s = snd (monitor_call_query_protocons 15 ((ex_monitor [2, 2] [])\<lparr>mrs := \<lambda>_. 10\<rparr>))
   in monitor_reaches ex_mon_env (ex_monitor [2, 2] [], CoNone) (s, CoNone) \<and> \<not> deploy_request_active s \<and> policies_ok s"
proof -
  let ?s = "snd (monitor_call_query_protocons 15 ((ex_monitor [2, 2] [])\<lparr>mrs := \<lambda>_. 10\<rparr>))"
  have r: "monitor_reaches ex_mon_env (ex_monitor [2, 2] [], CoNone) (?s, CoNone)"
    by (rule monitor_reaches.step [OF monitor_reaches.start ex_step])
  have "\<not> deploy_request_active (ex_monitor [2, 2] [])" by (simp add: ex_monitor_def)
  from monitor_reachable_states [OF r ex_base this] show ?thesis using r by simp
qed

text \<open>C1: whatever step the system takes from a state it can reach, each domain it starts is started once, at
  the loader's entry point, in a protocon that was free before and is in use after.\<close>

theorem only_free_protocons_start:
  assumes "monitor_reaches E (s0, CoNone) (s, co)" and "base_ok s0" and "\<not> deploy_request_active s0"
    and "monitor_step E (s, co) (s', co')"
  shows "\<exists>L. starts (events s') = starts (events s) @ L \<and> distinct (map fst L)
     \<and> (\<forall>a \<in> set L. snd a = tsldr_loader_program_base E
          \<and> lifecycles s ! unat (fst a) = PROTOCON_PASSIVE \<and> lifecycles s' ! unat (fst a) = PROTOCON_ACTIVE)"
proof -
  have "monitor_inv E (s, co)" using reaches_inv [OF assms(1)] assms(2,3) by (simp add: monitor_inv_def)
  from step_launches_step [OF assms(4) this] show ?thesis by (simp add: step_launches_def)
qed

unbundle bit_operations_syntax

theorem only_free_protocons_start_witness:
  "let s = ex_monitor [2, 2] []; s' = snd (monitor_call_query_protocons 15 (s\<lparr>mrs := \<lambda>_. 10\<rparr>))
   in monitor_step ex_mon_env (s, CoNone) (s', CoNone) \<and> (\<exists>L. starts (events s') = starts (events s) @ L)"
proof -
  have idle: "\<not> deploy_request_active (ex_monitor [2, 2] [])" by (simp add: ex_monitor_def)
  from only_free_protocons_start [OF monitor_reaches.start ex_base idle ex_step]
  show ?thesis using ex_step by (simp add: Let_def)
qed

lemma valid_mask: "push_bit n 1 - 1 = (mask n :: u64)"
  by (simp add: mask_eq_exp_minus_1)

text \<open>A set of peers is refused when it names the target or no protocon of the system.\<close>

lemma bad_peers_iff:
  assumes "n \<le> 16" and "p < n"
  shows "(w :: u64) AND NOT (push_bit n 1 - 1) \<noteq> 0 \<or> w AND push_bit p 1 \<noteq> 0 \<longleftrightarrow> (\<exists>j. bit w j \<and> (n \<le> j \<or> j = p))"
proof -
  have "w AND NOT (mask n) \<noteq> 0 \<longleftrightarrow> (\<exists>j. bit w j \<and> n \<le> j)"
  proof
    assume "w AND NOT (mask n) \<noteq> 0"
    then obtain j where "bit (w AND NOT (mask n)) j" by (metis bit_eq_iff bit_0_eq bot_apply bot_bool_def)
    then show "\<exists>j. bit w j \<and> n \<le> j" by (auto simp: bit_and_iff bit_not_iff bit_mask_iff)
  next
    assume "\<exists>j. bit w j \<and> n \<le> j"
    then obtain j where j: "bit w j" "n \<le> j" by blast
    then have "j < 64" using bit_imp_le_length [of w j] by simp
    then have "bit (w AND NOT (mask n)) j" using j by (auto simp: bit_and_iff bit_not_iff bit_mask_iff)
    then show "w AND NOT (mask n) \<noteq> 0" by auto
  qed
  moreover have "w AND push_bit p 1 \<noteq> 0 \<longleftrightarrow> bit w p" using bit_iff_and_push_bit_not_eq_0 [of w p] by simp
  ultimately show ?thesis unfolding valid_mask by auto
qed

lemma targeted_request_result:
  assumes "base_ok s"
    and "monitor_call_deploy_to_protocon E pc_id peer_mask peers_all (s, co) = Inr ((err, n), sys')"
  shows "(err = MON_INVALID_PC_ID \<longleftrightarrow> num_pc s \<le> pc_id)
    \<and> (err = MON_PC_UNAVAILABLE \<longleftrightarrow> pc_id < num_pc s \<and> lifecycles s ! unat pc_id \<noteq> PROTOCON_PASSIVE)
    \<and> (err = MON_INVALID_PEER_SET \<longleftrightarrow> pc_id < num_pc s \<and> lifecycles s ! unat pc_id = PROTOCON_PASSIVE
        \<and> (peers_all > 1 \<or> peers_all = 0 \<and> (\<exists>j. bit peer_mask j \<and> (unat (num_pc s) \<le> j \<or> j = unat pc_id))))
    \<and> (err \<notin> {MON_NO_ERROR, MON_FAIL_TO_INIT_COROUTINE} \<longrightarrow> sys' = (s, co))"
proof -
  have tab: "tables_ok s" using assms(1) by (simp add: base_ok_def)
  note eq = assms(2) [unfolded to_protocon_eq [OF tab]]
  have peers: "\<not> num_pc s \<le> pc_id \<Longrightarrow> peer_mask AND NOT (push_bit (unat (num_pc s)) 1 - 1) \<noteq> 0 \<or> peer_mask AND push_bit (unat pc_id) 1 \<noteq> 0
      \<longleftrightarrow> (\<exists>j. bit peer_mask j \<and> (unat (num_pc s) \<le> j \<or> j = unat pc_id))"
    by (rule bad_peers_iff) (use tab in \<open>simp_all add: tables_ok_def word_less_nat_alt not_le\<close>)
  show ?thesis
  proof (cases "accepted_peers pc_id peer_mask peers_all s")
    case (Inl e)
    then have e: "e = err" "sys' = (s, co)" using eq by simp_all
    have a: "accepted_peers pc_id peer_mask peers_all s = Inl err" using Inl e by simp
    consider "num_pc s \<le> pc_id" "err = MON_INVALID_PC_ID"
      | "\<not> num_pc s \<le> pc_id" "lifecycles s ! unat pc_id \<noteq> PROTOCON_PASSIVE" "err = MON_PC_UNAVAILABLE"
      | "\<not> num_pc s \<le> pc_id" "lifecycles s ! unat pc_id = PROTOCON_PASSIVE" "err = MON_INVALID_PEER_SET"
        "peers_all > 1 \<or> peers_all = 0 \<and> (peer_mask AND NOT (push_bit (unat (num_pc s)) 1 - 1) \<noteq> 0 \<or> peer_mask AND push_bit (unat pc_id) 1 \<noteq> 0)"
      | "\<not> num_pc s \<le> pc_id" "lifecycles s ! unat pc_id = PROTOCON_PASSIVE" "err = MON_FAIL_TO_DEPLOY"
        "\<not> (peers_all > 1 \<or> peers_all = 0 \<and> (peer_mask AND NOT (push_bit (unat (num_pc s)) 1 - 1) \<noteq> 0 \<or> peer_mask AND push_bit (unat pc_id) 1 \<noteq> 0))"
      using a unfolding accepted_peers_def Let_def by (auto simp del: push_bit_of_1 split: if_split_asm)
    then show ?thesis by cases (use e peers in \<open>auto simp: not_le simp del: push_bit_of_1 dest: leD\<close>)
  next
    case (Inr peers')
    then have ok: "\<not> num_pc s \<le> pc_id" "lifecycles s ! unat pc_id = PROTOCON_PASSIVE"
      "\<not> (peers_all > 1 \<or> peers_all = 0 \<and> (peer_mask AND NOT (push_bit (unat (num_pc s)) 1 - 1) \<noteq> 0 \<or> peer_mask AND push_bit (unat pc_id) 1 \<noteq> 0))"
      unfolding accepted_peers_def Let_def by (auto simp del: push_bit_of_1 split: if_split_asm)
    have "err \<in> {MON_NO_ERROR, MON_FAIL_TO_INIT_COROUTINE}"
      using eq Inr by (auto simp: Let_def monitor_deploy_second_half_def split: if_splits elim!: bindR_InrE)
    then show ?thesis using ok peers by (auto simp: not_le)
  qed
qed

text \<open>
  A request that names a free protocon of the system and a good set of peers: all of them, or a mask
  of protocons of the system without the target.
\<close>

definition targeted_request_good :: "monitor \<Rightarrow> u64 \<Rightarrow> u64 \<Rightarrow> u64 \<Rightarrow> bool" where
  "targeted_request_good s pc_id peer_mask peers_all \<longleftrightarrow>
     pc_id < num_pc s \<and> lifecycles s ! unat pc_id = PROTOCON_PASSIVE
     \<and> (peers_all = 1 \<or> peers_all = 0 \<and> (\<forall>j. bit peer_mask j \<longrightarrow> j < unat (num_pc s) \<and> j \<noteq> unat pc_id))"

lemma le_one_cases: "\<not> (v :: u64) > 1 \<longleftrightarrow> v = 0 \<or> v = 1"
proof -
  have "v \<le> 1 \<longleftrightarrow> unat v \<le> 1" by (simp add: word_le_nat_alt)
  also have "\<dots> \<longleftrightarrow> unat v = 0 \<or> unat v = 1" by auto
  also have "\<dots> \<longleftrightarrow> v = 0 \<or> v = 1" by (simp add: word_unat_eq_iff [of v])
  finally show ?thesis by (simp add: not_less)
qed

lemma accepted_peers_cases:
  assumes "tables_ok s"
  shows "accepted_peers pc_id peer_mask peers_all s = Inl MON_FAIL_TO_DEPLOY
      \<longleftrightarrow> targeted_request_good s pc_id peer_mask peers_all \<and> deploy_request_active s"
    and "(\<exists>peers. accepted_peers pc_id peer_mask peers_all s = Inr peers)
      \<longleftrightarrow> targeted_request_good s pc_id peer_mask peers_all \<and> \<not> deploy_request_active s"
    and "accepted_peers pc_id peer_mask peers_all s = Inl err \<Longrightarrow>
      err \<in> {MON_INVALID_PC_ID, MON_PC_UNAVAILABLE, MON_INVALID_PEER_SET, MON_FAIL_TO_DEPLOY}"
proof -
  have bad: "peer_mask AND NOT (push_bit (unat (num_pc s)) 1 - 1) \<noteq> 0 \<or> peer_mask AND push_bit (unat pc_id) 1 \<noteq> 0
      \<longleftrightarrow> \<not> (\<forall>j. bit peer_mask j \<longrightarrow> j < unat (num_pc s) \<and> j \<noteq> unat pc_id)" if "pc_id < num_pc s"
    using bad_peers_iff [of "unat (num_pc s)" "unat pc_id" peer_mask] that assms
    by (auto simp: tables_ok_def word_less_nat_alt not_less)
  have good: "targeted_request_good s pc_id peer_mask peers_all \<longleftrightarrow> \<not> num_pc s \<le> pc_id \<and> lifecycles s ! unat pc_id = PROTOCON_PASSIVE
      \<and> \<not> (peers_all > 1 \<or> peers_all = 0 \<and> peer_mask AND NOT (push_bit (unat (num_pc s)) 1 - 1) \<noteq> 0
             \<or> peers_all = 0 \<and> peer_mask AND push_bit (unat pc_id) 1 \<noteq> 0)"
    unfolding targeted_request_good_def using bad le_one_cases [of peers_all] by (auto simp: not_le simp del: push_bit_of_1)
  show "accepted_peers pc_id peer_mask peers_all s = Inl MON_FAIL_TO_DEPLOY
      \<longleftrightarrow> targeted_request_good s pc_id peer_mask peers_all \<and> deploy_request_active s"
    and "(\<exists>peers. accepted_peers pc_id peer_mask peers_all s = Inr peers)
      \<longleftrightarrow> targeted_request_good s pc_id peer_mask peers_all \<and> \<not> deploy_request_active s"
    and "accepted_peers pc_id peer_mask peers_all s = Inl err \<Longrightarrow>
      err \<in> {MON_INVALID_PC_ID, MON_PC_UNAVAILABLE, MON_INVALID_PEER_SET, MON_FAIL_TO_DEPLOY}"
    unfolding good accepted_peers_def Let_def by (auto simp del: push_bit_of_1 split: if_splits)
qed

lemma accepted_bits:
  assumes "accepted_peers pc_id peer_mask peers_all s = Inr peers" and "tables_ok s"
  shows "bit peers j \<longleftrightarrow> (if peers_all = 0 then bit peer_mask j else j < unat (num_pc s) \<and> j \<noteq> unat pc_id)"
proof -
  have m: "peers = (if peers_all = 0 then peer_mask else mask (unat (num_pc s)) AND NOT (push_bit (unat pc_id) 1))"
    using assms(1) unfolding valid_mask [symmetric] by (auto simp: accepted_peers_def Let_def simp del: push_bit_of_1 split: if_splits)
  have "unat (num_pc s) \<le> 16" using assms(2) by (simp add: tables_ok_def)
  then show ?thesis
    unfolding m by (auto simp: bit_and_iff bit_not_iff bit_mask_iff bit_push_bit_iff bit_1_iff simp del: push_bit_of_1)
qed

text \<open>What a good request leads to when no other one is active.\<close>

lemma accepted_request_result:
  assumes "base_ok s" and "accepted_peers pc_id peer_mask peers_all s = Inr peers"
  shows "cothread_spawn E (events s) \<Longrightarrow> monitor_call_deploy_to_protocon E pc_id peer_mask peers_all (s, co)
      = bindR (co_settle E (deploy_target pc_id peers s, CoSpawned)) (\<lambda>sys. Inr ((MON_NO_ERROR, 0), sys))"
    and "\<not> cothread_spawn E (events s) \<Longrightarrow> monitor_call_deploy_to_protocon E pc_id peer_mask peers_all (s, co)
      = Inr ((MON_FAIL_TO_INIT_COROUTINE, 0), (s\<lparr>req_pc_num := 0, deploy_request := empty_deploy_request,
          deploy_request_active := False, events := events s @ [Notify PC_MONITOR_ORCHESTRATOR_CHANNEL],
          deploy_result := \<lparr>res_target_pc = ucast pc_id, connected_peer_mask = 0, rejected_peer_mask = 0,
            unavailable_peer_mask = 0, res_error = MON_FAIL_TO_INIT_COROUTINE, res_ready = True\<rparr>\<rparr>, co))"
  using assms unfolding base_ok_def
  by (simp_all add: to_protocon_eq monitor_deploy_second_half_def deploy_target_def monitor_finish_deploy_request_def
      monitor_deploy_refresh_request_def monitor_main_notify_orchestrator_def deploy_set_error_def deploy_set_ready_def emit_def)

text \<open>C11: a targeted request is refused for an unknown protocon, then for one that is not free, then for a bad set
  of peers, then while another request is active, and each of these leaves the monitor as it was. A
  good request that finds no other active fails only when no coroutine can be started; then it is over
  again, its result with that error is ready and the orchestrator is notified, and protocons, policies
  and memory are as before. Otherwise it is accepted, and the coroutine starts with the request for
  exactly the protocon and peers asked for.\<close>

theorem targeted_request_checks:
  assumes "base_ok s"
    and "monitor_call_deploy_to_protocon E pc_id peer_mask peers_all (s, co) = Inr ((err, n), sys')"
  shows "(err = MON_INVALID_PC_ID \<longleftrightarrow> num_pc s \<le> pc_id)
    \<and> (err = MON_PC_UNAVAILABLE \<longleftrightarrow> pc_id < num_pc s \<and> lifecycles s ! unat pc_id \<noteq> PROTOCON_PASSIVE)
    \<and> (err = MON_INVALID_PEER_SET \<longleftrightarrow> pc_id < num_pc s \<and> lifecycles s ! unat pc_id = PROTOCON_PASSIVE
        \<and> (peers_all > 1 \<or> peers_all = 0 \<and> (\<exists>j. bit peer_mask j \<and> (unat (num_pc s) \<le> j \<or> j = unat pc_id))))
    \<and> (err = MON_FAIL_TO_DEPLOY \<longleftrightarrow> targeted_request_good s pc_id peer_mask peers_all \<and> deploy_request_active s)
    \<and> (err = MON_FAIL_TO_INIT_COROUTINE \<longleftrightarrow> targeted_request_good s pc_id peer_mask peers_all
        \<and> \<not> deploy_request_active s \<and> \<not> cothread_spawn E (events s))
    \<and> (err = MON_NO_ERROR \<longleftrightarrow> targeted_request_good s pc_id peer_mask peers_all
        \<and> \<not> deploy_request_active s \<and> cothread_spawn E (events s))
    \<and> (err \<notin> {MON_NO_ERROR, MON_FAIL_TO_INIT_COROUTINE} \<longrightarrow> sys' = (s, co))
    \<and> (err = MON_FAIL_TO_INIT_COROUTINE \<longrightarrow> snd sys' = co \<and> \<not> deploy_request_active (fst sys')
        \<and> res_ready (deploy_result (fst sys')) \<and> res_error (deploy_result (fst sys')) = err
        \<and> events (fst sys') = events s @ [Notify PC_MONITOR_ORCHESTRATOR_CHANNEL]
        \<and> protocon_states (fst sys') = protocon_states s \<and> peer_policy (fst sys') = peer_policy s
        \<and> memory (fst sys') = memory s)
    \<and> (err = MON_NO_ERROR \<longrightarrow> (\<exists>peers. co_settle E (deploy_target pc_id peers s, CoSpawned) = Inr sys'
        \<and> (\<forall>j. bit peers j \<longleftrightarrow> (if peers_all = 0 then bit peer_mask j else j < unat (num_pc s) \<and> j \<noteq> unat pc_id))))"
proof -
  have tab: "tables_ok s" using assms(1) by (simp add: base_ok_def)
  note old = targeted_request_result [OF assms] and cases = accepted_peers_cases [OF tab, of pc_id peer_mask peers_all]
  show ?thesis
  proof (cases "accepted_peers pc_id peer_mask peers_all s")
    case (Inl e)
    then have "err = e" using assms(2) by (simp add: to_protocon_eq [OF tab])
    then show ?thesis using old cases(1,2) cases(3) [OF Inl] Inl by auto
  next
    case (Inr peers)
    then have good: "targeted_request_good s pc_id peer_mask peers_all" "\<not> deploy_request_active s" using cases(2) by blast+
    have bits: "bit peers j \<longleftrightarrow> (if peers_all = 0 then bit peer_mask j else j < unat (num_pc s) \<and> j \<noteq> unat pc_id)" for j
      using accepted_bits [OF Inr tab] .
    show ?thesis
    proof (cases "cothread_spawn E (events s)")
      case True
      have "bindR (co_settle E (deploy_target pc_id peers s, CoSpawned)) (\<lambda>sys. Inr ((MON_NO_ERROR, 0), sys)) = Inr ((err, n), sys')"
        using assms(2) accepted_request_result(1) [OF assms(1) Inr True] by simp
      then have "co_settle E (deploy_target pc_id peers s, CoSpawned) = Inr sys'" "err = MON_NO_ERROR"
        by (auto elim!: bindR_InrE)
      then show ?thesis using old good True bits by auto
    next
      case False
      then show ?thesis using assms(2) accepted_request_result(2) [OF assms(1) Inr False] old good by auto
    qed
  qed
qed

theorem targeted_request_checks_witness:
  "monitor_call_deploy_to_protocon ex_mon_env 0 2 0 ((ex_monitor [2, 2] [])\<lparr>deploy_request_active := True\<rparr>, CoSpawned)
     = Inr ((MON_FAIL_TO_DEPLOY, 0), ((ex_monitor [2, 2] [])\<lparr>deploy_request_active := True\<rparr>, CoSpawned)) \<and>
   targeted_request_good ((ex_monitor [2, 2] [])\<lparr>deploy_request_active := True\<rparr>) 0 2 0"
proof -
  let ?s = "(ex_monitor [2, 2] [])\<lparr>deploy_request_active := True\<rparr>"
  have n: "num_pc (ex_monitor [2, 2] []) = 2" by (simp add: ex_monitor_def)
  have "\<not> targeted (deploy_request (ex_monitor [2, 2] []))" by (simp add: ex_monitor_def)
  then have base: "base_ok ?s" using ex_base [of "[2, 2]"] by (simp add: base_defs)
  then have tab: "tables_ok ?s" by (simp add: base_ok_def)
  have "lifecycles ?s = lifecycles (ex_monitor [2, 2] [])" by (simp add: lifecycles_def)
  then have "accepted_peers 0 2 0 ?s = Inl MON_FAIL_TO_DEPLOY"
    using ex_free by (simp add: accepted_peers_def n)
  then have c: "monitor_call_deploy_to_protocon ex_mon_env 0 2 0 (?s, CoSpawned) = Inr ((MON_FAIL_TO_DEPLOY, 0), (?s, CoSpawned))"
    by (simp add: to_protocon_eq [OF tab])
  show ?thesis using targeted_request_checks [OF base c] c by blast
qed

section \<open>The outcome of a targeted deployment\<close>

lemma deployed_state:
  assumes "bindR (protocon_prepare E info (Some pc) s) (protocon_complete E) = Inr (err, s')" and "tables_ok s"
  shows "control s' = control s \<and> length (protocon_states s') = length (protocon_states s)"
    and "err = MON_NO_ERROR \<Longrightarrow> unat pc < 16 \<and> lifecycles s' = (lifecycles s)[unat pc := PROTOCON_ACTIVE]"
proof -
  obtain found t where p: "protocon_prepare E info (Some pc) s = Inr (found, t)"
    and c: "protocon_complete E (found, t) = Inr (err, s')"
    using assms(1) by (auto elim!: bindR_InrE)
  have t: "control t = control s" "protocon_states t = protocon_states s"
    by (subst prepared_memory(1) [OF p], simp)+
  show "control s' = control s \<and> length (protocon_states s') = length (protocon_states s)"
  proof (cases found)
    case None
    then show ?thesis using c t by (simp add: protocon_complete_def)
  next
    case (Some plan)
    then obtain u where u: "service_installer_apply E plan t = Inr u" "protocon_start E plan u = Inr s'"
      using c by (auto simp: protocon_complete_def elim!: bindR_InrE)
    then show ?thesis
      using rest_fields(1,2) [OF installed_rest [OF u(1)]] start_result(1,2) [OF u(2)] t by simp
  qed
  assume "err = MON_NO_ERROR"
  then obtain plan u where f: "found = Some plan" "service_installer_apply E plan t = Inr u" "protocon_start E plan u = Inr s'"
    using c by (auto simp: protocon_complete_def split: option.splits elim!: bindR_InrE)
  have pc: "plan_pc_id plan = pc" using prepared_plan(3) [OF p [unfolded f(1)]] by simp
  have u: "protocon_states u = protocon_states s" using rest_fields(2) [OF installed_rest [OF f(2)]] t(2) by simp
  show "unat pc < 16 \<and> lifecycles s' = (lifecycles s)[unat pc := PROTOCON_ACTIVE]"
    using start_result(2,4) [OF f(3)] pc u assms(2) by (simp add: lifecycles_def map_update tables_ok_def)
qed

lemma finish_keeps [simp]:
  "deploy_result (monitor_finish_deploy_request s) = deploy_result s"
  "peer_policy (monitor_finish_deploy_request s) = peer_policy s"
  "lifecycles (monitor_finish_deploy_request s) = lifecycles s"
  "events (monitor_finish_deploy_request s) = events s @ [Notify PC_MONITOR_ORCHESTRATOR_CHANNEL]"
  by (simp_all add: monitor_finish_deploy_request_def monitor_deploy_refresh_request_def lifecycles_def
      monitor_main_notify_orchestrator_def)

lemma conclude_failed: "err \<noteq> MON_NO_ERROR \<Longrightarrow> deploy_conclude E err s = deploy_set_ready (deploy_set_error err s)"
  by (simp add: deploy_conclude_def)

lemma conclude_ready: "res_ready (deploy_result (deploy_conclude E err s))"
  by (simp add: deploy_conclude_def deploy_set_ready_def Let_def)

lemma conclude_applied:
  assumes "monitor_acl_apply_deployment E (target_pc (deploy_request s)) (req_peer_mask (deploy_request s))
      (connected_peer_mask (deploy_result s), rejected_peer_mask (deploy_result s), unavailable_peer_mask (deploy_result s))
      (deploy_set_error MON_NO_ERROR s) = (err, (c, r, u), s')"
  shows "deploy_conclude E MON_NO_ERROR s = deploy_set_ready (deploy_set_error err (s'\<lparr>deploy_result :=
      (deploy_result s')\<lparr>connected_peer_mask := c, rejected_peer_mask := r, unavailable_peer_mask := u\<rparr>\<rparr>))"
proof -
  have "deploy_request (deploy_set_error MON_NO_ERROR s) = deploy_request s"
    "connected_peer_mask (deploy_result (deploy_set_error MON_NO_ERROR s)) = connected_peer_mask (deploy_result s)"
    "rejected_peer_mask (deploy_result (deploy_set_error MON_NO_ERROR s)) = rejected_peer_mask (deploy_result s)"
    "unavailable_peer_mask (deploy_result (deploy_set_error MON_NO_ERROR s)) = unavailable_peer_mask (deploy_result s)"
    by (simp_all add: deploy_set_error_def)
  then show ?thesis using assms by (simp add: deploy_conclude_def Let_def)
qed

text \<open>The bits of the three masks of a result.\<close>

definition reported :: "monitor_deploy_result \<Rightarrow> nat \<Rightarrow> bool" where
  "reported r j \<longleftrightarrow> bit (connected_peer_mask r) j \<or> bit (rejected_peer_mask r) j \<or> bit (unavailable_peer_mask r) j"

lemma conclude_result:
  assumes "base_ok s" and "deploy_request_active s" and "targeted (deploy_request s)"
    and "res_error (deploy_result (deploy_conclude E err s)) = MON_NO_ERROR"
  shows "err = MON_NO_ERROR
    \<and> peer_policy (deploy_conclude E err s) ! unat (target_pc (deploy_request s)) = req_peer_mask (deploy_request s)
    \<and> (\<forall>j. reported (deploy_result (deploy_conclude E err s)) j \<longleftrightarrow> bit (req_peer_mask (deploy_request s)) j)"
proof -
  have err: "err = MON_NO_ERROR"
    using assms(4) by (cases "err = MON_NO_ERROR") (simp_all add: conclude_failed deploy_set_error_def deploy_set_ready_def)
  let ?pc = "target_pc (deploy_request s)" and ?w = "req_peer_mask (deploy_request s)"
    and ?s = "deploy_set_error MON_NO_ERROR s"
  let ?out = "(connected_peer_mask (deploy_result s), rejected_peer_mask (deploy_result s),
       unavailable_peer_mask (deploy_result s))"
  have n: "monitored_protocon_count ?s = monitored_protocon_count s" "peer_policy ?s = peer_policy s"
    by (simp_all add: deploy_set_error_def)
  have lt: "unat ?pc < unat (num_pc s)" and mask: "mask_ok (unat (num_pc s)) (unat ?pc) ?w"
    and num: "unat (num_pc s) = unat (monitored_protocon_count s)" "unat (num_pc s) \<le> 16" "length (peer_policy s) = 16"
    using assms(1-3) by (simp_all add: base_defs) (metis unat_ucast_widen(5))
  have c: "?pc < monitored_protocon_count ?s" "unat (monitored_protocon_count ?s) \<le> 16"
    using lt num by (simp_all add: n word_less_nat_alt)
  show ?thesis
  proof (cases rule: apply_deployment_result [OF c, of E ?w ?out, case_names ok err])
    case (ok regs es)
    note d = conclude_applied [OF ok(1)]
    have "reported (deploy_result (deploy_conclude E err s)) j \<longleftrightarrow> bit ?w j" for j
    proof -
      have "bit ?w j \<Longrightarrow> j < unat (monitored_protocon_count s)" using mask num(1) by (auto simp: mask_ok_def)
      then show ?thesis unfolding err d reported_def
        using num by (auto simp: deploy_set_error_def deploy_set_ready_def bit_mask_of peer_kinds)
    qed
    moreover have "peer_policy (deploy_conclude E err s) ! unat ?pc = ?w"
      unfolding err d using lt num by (simp add: deploy_set_error_def deploy_set_ready_def)
    ultimately show ?thesis using err by blast
  next
    case (err regs es before p after)
    have "res_error (deploy_result (deploy_conclude E MON_NO_ERROR s)) = MON_VSWITCH_ERROR"
      unfolding conclude_applied [OF err(1)] by (simp add: deploy_set_error_def deploy_set_ready_def)
    then show ?thesis using assms(4) \<open>err = MON_NO_ERROR\<close> by simp
  qed
qed

section \<open>Interference\<close>

text \<open>C38: nothing protects a protocon while its image is being installed: stopping it in the meantime wipes the
  image, and the deployment goes on and will start it.\<close>

theorem stop_during_install_wipes:
  assumes "load_elf_contained E" and "images_fit E"
    and "monitor_inv E (s, CoInstall plan info elf_base i x n)" and "mrs s 0 = PC_MONITOR_CALL_TERMINATE_EXT"
    and "mrs s 1 = ucast (plan_pc_id plan)"
    and "monitor_main_handle_pccall E PC_MONITOR_ORCHESTRATOR_CHANNEL (s, CoInstall plan info elf_base i x n)
           = Inr (reply, sys')"
  shows "snd sys' = CoInstall plan info elf_base i x n \<and> plan_ok E (fst sys') plan
    \<and> (\<forall>a \<in> region_of (container_image monitor_vm_layout) (plan_pc_id plan). memory (fst sys') a = 0)"
proof -
  let ?t = "plan_pc_id plan" and ?co = "CoInstall plan info elf_base i x n"
  have pc: "unat ?t < 16" using assms(3) by (simp add: monitor_inv_def plan_ok_def)
  have arg: "ucast (mrs s (Suc 0)) = ?t"
    using assms(5) by (simp add: bit_eq_iff bit_ucast_iff) 
  have call: "with_state_res (monitor_call_stop_and_restore_protocon E ?t) (s, ?co) = Inr (reply, sys')"
    using assms(6) unfolding monitor_main_handle_pccall_def Let_def
    by (simp add: assms(4) arg call_numbers PC_MONITOR_ORCHESTRATOR_CHANNEL_def)
  then obtain s' where stop: "monitor_call_stop_and_restore_protocon E ?t s = Inr (reply, s')" and sys': "sys' = (s', ?co)"
    by (auto simp: with_state_res_def elim!: bindR_InrE)
  have "monitor_call_restore_protocon E (?t + PC_MONITOR_PROTOCON_BASE_CHANNEL)
      (emit (PdStop ?t) (monitor_acl_release_protocon E ?t s)) = Inr (reply, s')"
    using stop pc by (simp add: monitor_call_stop_and_restore_protocon_def PC_CHILD_PER_MONITOR_MAX_NUM_def)
  from restore_result [OF assms(1,2) pc this]
  have "\<forall>a \<in> region_of (container_image monitor_vm_layout) ?t. memory s' a = 0" by blast
  moreover have "plan_ok E s' plan"
    using pccall_inv [OF assms(6,3)] by (simp add: monitor_inv_def sys')
  ultimately show ?thesis by (simp add: sys')
qed

text \<open>A plan of the example, for protocon 0.\<close>

definition ex_plan :: deploy_plan where
  "ex_plan = deploy_plan_zero\<lparr>plan_pc_entry := 0x200000\<rparr>"

definition ex_installing :: monitor where
  "ex_installing = (deploy_target 0 2 (ex_monitor [2, 2] []))\<lparr>mrs := (\<lambda>_. 0)(0 := 6)\<rparr>"

lemma ex_installing_inv:
  "monitor_inv ex_mon_env (ex_installing, CoInstall ex_plan info elf_base i x n)"
proof -
  have n: "num_pc (ex_monitor [2, 2] []) = 2" "deploy_request_active (ex_monitor [2, 2] []) = False"
    by (simp_all add: ex_monitor_def)
  have "accepted_peers 0 2 0 (ex_monitor [2, 2] []) = Inr 2" using ex_free by (simp add: accepted_peers_def n)
  from accepted_ok(1) [OF this ex_base] have "base_ok ex_installing" by (simp add: base_defs ex_installing_def)
  moreover have "lifecycles ex_installing ! 0 = PROTOCON_PASSIVE"
    using ex_free by (simp add: ex_installing_def deploy_target_def lifecycles_def)
  moreover have "plan_pc_id ex_plan = 0" "plan_pc_entry ex_plan = tsldr_loader_program_base ex_mon_env"
    by (simp_all add: ex_plan_def deploy_plan_zero_def ex_mon_env_def)
  ultimately show ?thesis
    by (simp add: monitor_inv_def plan_ok_def) (simp add: ex_installing_def deploy_target_def)
qed

theorem stop_during_install_wipes_witness:
  "\<exists>reply sys'. monitor_main_handle_pccall ex_mon_env PC_MONITOR_ORCHESTRATOR_CHANNEL
        (ex_installing, CoInstall ex_plan payload_info_zero 0x50000400 0 trustedlo_xrtreq_zero 1) = Inr (reply, sys')
    \<and> snd sys' \<noteq> CoNone \<and> memory (fst sys') 0x50000400 = 0"
proof -
  let ?sys = "(ex_installing, CoInstall ex_plan payload_info_zero 0x50000400 0 trustedlo_xrtreq_zero 1)"
  have p: "plan_pc_id ex_plan = 0" by (simp add: ex_plan_def deploy_plan_zero_def)
  have m: "mrs ex_installing 0 = PC_MONITOR_CALL_TERMINATE_EXT" "mrs ex_installing 1 = ucast (plan_pc_id ex_plan)"
    by (simp_all add: ex_installing_def call_numbers p)
  have z: "unat (0 :: u32) < 16" by simp
  obtain r s' where "monitor_call_stop_and_restore_protocon ex_mon_env 0 ex_installing = Inr (r, s')"
    using restore_succeeds [OF ex_loads z, of "emit (PdStop 0) (monitor_acl_release_protocon ex_mon_env 0 ex_installing)"]
    by (auto simp: monitor_call_stop_and_restore_protocon_def PC_CHILD_PER_MONITOR_MAX_NUM_def)
  then obtain sys' where c: "monitor_main_handle_pccall ex_mon_env PC_MONITOR_ORCHESTRATOR_CHANNEL ?sys = Inr (r, sys')"
    using m unfolding monitor_main_handle_pccall_def Let_def
    by (simp add: call_numbers PC_MONITOR_ORCHESTRATOR_CHANNEL_def with_state_res_def p)
  have "0x50000400 \<in> region_of (container_image monitor_vm_layout) (plan_pc_id ex_plan)"
    by (simp add: region_of_def monitor_vm_region_base_def monitor_vm_layout_def p)
  with stop_during_install_wipes [OF ex_load_contained ex_images_fit ex_installing_inv m c] c show ?thesis by auto
qed

lemma not_in_block:
  assumes "unat a < unat (d :: u64)" and "unat d + unat n < 18446744073709551616"
  shows "\<not> a - d < n"
proof
  assume "a - d < n"
  then have lt: "unat (a - d) < unat n" by (simp add: word_less_nat_alt)
  obtain k where k: "k = a - d" by blast
  have "unat (d + k) = unat d + unat k" using assms(2) lt unfolding k [symmetric] by (simp add: unat_word_ariths(1))
  moreover have "d + k = a" by (simp add: k)
  ultimately show False using assms(1) by simp
qed

lemma unat_image_base:
  assumes "unat pc < 16"
  shows "unat (monitor_vm_region_base (container_image monitor_vm_layout) (ucast (pc :: u32))) = 0x50000000 + unat pc * 0x800000"
proof -
  have "container_image monitor_vm_layout \<in> set vm_regions" by (simp add: vm_regions_def)
  from region_base_exact [OF this, of "ucast pc"] assms show ?thesis by (simp add: monitor_vm_layout_def)
qed

text \<open>C39: the size of the client's ELF is not checked against its region: a larger one is written over the image of
  the next protocon.\<close>

theorem payload_overruns_region:
  assumes "unat pc_id < 15"
    and "offset = sizeof_image_header E + mktsymb_bundle_size E (memory s) (sym_header (protocon_states s ! unat pc_id))"
    and "sizeof_image_header E \<le> offset" and "offset \<le> 0x800000"
    and "\<forall>a b c d. length (image_header_bytes E a b c d) = unat (sizeof_image_header E)"
    and "0x800000 - offset < elf_size" and "unat src + unat elf_size \<le> 0x50000000"
  shows "memory (protocon_load_payload E pc_id (monitor_vm_region_base (container_image monitor_vm_layout) (ucast pc_id)) src elf_size s)
      (monitor_vm_region_base (container_image monitor_vm_layout) (ucast pc_id + 1))
    = memory s (src + (0x800000 - offset))"
proof -
  let ?d = "monitor_vm_region_base (container_image monitor_vm_layout) (ucast pc_id)"
  define h sz bs where "h = sizeof_image_header E"
    and "sz = mktsymb_bundle_size E (memory s) (sym_header (protocon_states s ! unat pc_id))"
    and "bs = image_header_bytes E h sz offset elf_size"
  let ?m1 = "mem_write (memory s) ?d bs"
  let ?a = "src + (0x800000 - offset)"
  have off: "offset = h + sz" "unat h \<le> unat offset" "unat offset \<le> 0x800000"
    using assms(2-4) by (simp_all add: h_def sz_def word_le_nat_alt)
  have room: "unat (0x800000 - offset) = 0x800000 - unat offset"
    using assms(4) by (simp add: unat_sub word_le_nat_alt)
  have d: "unat ?d = 0x50000000 + unat pc_id * 0x800000" using assms(1) by (intro unat_image_base) simp
  have dlt: "unat ?d \<le> 0x58000000" using assms(1) d by simp
  have r: "0x800000 - unat offset < unat elf_size" using assms(6) room by (simp add: word_less_nat_alt)
  then have "unat src + (0x800000 - unat offset) < 0x50000000" using assms(7) by linarith
  then have a: "unat ?a < 0x50000000" using room by (simp add: unat_word_ariths(1))
  have "unat (?d + h) = unat ?d + unat h" using dlt off by (simp add: unat_word_ariths(1))
  moreover have "unat sz \<le> 0x800000"
  proof -
    have "sz = offset - h" using off(1) by simp
    then show ?thesis using off(2,3) by (simp add: unat_sub word_le_nat_alt)
  qed
  ultimately have n2: "\<not> ?a - (?d + h) < sz" using a d dlt off by (intro not_in_block) linarith+
  have n1: "\<not> ?a - ?d < h" using a d dlt off by (intro not_in_block) linarith+
  have next_base: "monitor_vm_region_base (container_image monitor_vm_layout) (ucast pc_id + 1) = (?d + offset) + (0x800000 - offset)"
    by (simp add: monitor_vm_region_base_def monitor_vm_layout_def algebra_simps)
  have "memory (protocon_load_payload E pc_id ?d src elf_size s) =
      mem_copy (mem_copy ?m1 (?d + h) (sym_base (sym_header (protocon_states s ! unat pc_id))) sz) (?d + offset) src elf_size"
    by (simp add: protocon_load_payload_def Let_def h_def sz_def bs_def assms(2))
  then have "memory (protocon_load_payload E pc_id ?d src elf_size s) (?d + offset + (0x800000 - offset)) =
      mem_copy ?m1 (?d + h) (sym_base (sym_header (protocon_states s ! unat pc_id))) sz ?a"
    by (simp only: mem_copy_inside [OF assms(6)])
  also have "\<dots> = ?m1 ?a" using n2 by (simp add: mem_copy_def)
  also have "\<dots> = memory s ?a"
    using n1 assms(5) by (simp add: mem_write_def Let_def bs_def h_def word_less_nat_alt)
  finally show ?thesis unfolding next_base .
qed

theorem payload_overruns_region_witness:
  "memory (protocon_load_payload ex_mon_env 0 0x50000000 0x7000000 0x800000 (ex_monitor [2, 2] [])) 0x50800000
    = ex_memory 0x77fffc8"
proof -
  let ?s = "ex_monitor [2, 2] []"
  let ?o = "sizeof_image_header ex_mon_env + mktsymb_bundle_size ex_mon_env (memory ?s) (sym_header (protocon_states ?s ! unat (0 :: u32)))"
  have sym: "sym_header (protocon_states ?s ! 0) = \<lparr>sym_base = 0xAAAAA20000, sym_symbols = 0xAAAAA20010, sym_symbol_cnt = 0\<rparr>"
    by (simp add: ex_states ex_pc_def)
  have o: "?o = 56" by (simp add: mktsymb_bundle_size_def sym ex_mon_env_def)
  have e: "sizeof_image_header ex_mon_env = 40"
    "\<forall>a b c d. length (image_header_bytes ex_mon_env a b c d) = unat (sizeof_image_header ex_mon_env)"
    by (simp_all add: ex_mon_env_def)
  have m: "memory ?s = ex_memory" by (simp add: ex_monitor_def)
  have b: "monitor_vm_region_base (container_image monitor_vm_layout) (ucast (0 :: u32)) = 0x50000000"
    "monitor_vm_region_base (container_image monitor_vm_layout) (ucast (0 :: u32) + 1) = 0x50800000"
    by (simp_all add: monitor_vm_region_base_def monitor_vm_layout_def)
  show ?thesis
    using payload_overruns_region [of 0 56 ex_mon_env ?s "0x800000" "0x7000000", OF _ o [symmetric] _ _ e(2)]
    unfolding b m e(1) by simp
qed

end
