(* ===== verification/Vfs_Returns.thy ===== *)
theory Vfs_Returns
  imports Pico_Vfs
begin

text \<open>
  Reading a file returns, whether or not the file is there: the contract of a file server that
  answers every command, possibly with an error, and whose files are finite, and what
  \<open>pico_vfs_readfile2buf\<close> does with such a server.
\<close>

section \<open>The contract\<close>

text \<open>
  Of the commands of the client, a read goes to a buffer of the pool and fits it. \<open>fds\<close> are the
  descriptors that the server gives out and \<open>B\<close> bounds the sizes of its files: a descriptor that was
  given out has a size, and no read gets past the end of its file.
\<close>

fun fs_sent_ok :: "fs_env \<Rightarrow> fs_body \<Rightarrow> bool" where
  "fs_sent_ok E (FS_CMD_FILE_READ f pos b n) \<longleftrightarrow> b \<in> buffer_offsets E \<and> unat n \<le> FS_BUFFER_SIZE E"
| "fs_sent_ok E body \<longleftrightarrow> True"

fun fs_reply_ok :: "fs_env \<Rightarrow> u64 set \<Rightarrow> nat \<Rightarrow> fs_body \<Rightarrow> fs_cmpl \<Rightarrow> bool" where
  "fs_reply_ok E fds B (FS_CMD_FILE_OPEN b n flags) c \<longleftrightarrow>
     (cmpl_status c = FS_STATUS_SUCCESS E \<longrightarrow> cmpl_fd c \<in> fds)"
| "fs_reply_ok E fds B (FS_CMD_FILE_SIZE f) c \<longleftrightarrow> (f \<in> fds \<longrightarrow> cmpl_status c = FS_STATUS_SUCCESS E)"
| "fs_reply_ok E fds B (FS_CMD_FILE_READ f pos b n) c \<longleftrightarrow>
     (f \<in> fds \<and> cmpl_status c = FS_STATUS_SUCCESS E \<and> unat pos \<le> B \<longrightarrow> unat pos + unat (cmpl_len_read c) \<le> B)"
| "fs_reply_ok E fds B body c \<longleftrightarrow> True"

definition server_sound :: "fs_env \<Rightarrow> u64 set \<Rightarrow> nat \<Rightarrow> bool" where
  "server_sound E fds B \<longleftrightarrow> B < 2 ^ 63 \<and> (\<forall>cmds m. cmds \<noteq> [] \<and> fs_sent_ok E (cmd_body (last cmds)) \<longrightarrow>
     (\<exists>c m'. fs_answers E cmds m c m' \<and> agree_outside (share_region E) m m'
        \<and> fs_reply_ok E fds B (cmd_body (last cmds)) c))"

lemma sound_command:
  assumes "server_sound E fds B" and "fs_ready E s" and "fs_sent_ok E body"
  obtains c m where "\<forall>x. fs_command_blocking E body x s = Inr (0, Some c, fs_answered body c m s)"
    and "fs_ready E (fs_answered body c m s)" and "agree_outside (share_region E) (memory s) m"
    and "fs_reply_ok E fds B body c"
proof -
  let ?cmds = "issued s @ [\<lparr>cmd_id = word_of_nat (next_request s), cmd_body = body\<rparr>]"
  obtain c m where a: "fs_answers E ?cmds (memory s) c m" "agree_outside (share_region E) (memory s) m"
    "fs_reply_ok E fds B body c"
    using assms(1,3) unfolding server_sound_def by (metis fs_cmd.select_convs(2) last_snoc snoc_eq_iff_butlast)
  show ?thesis
    using that fs_command_blocking_answered [OF assms(2) a(1)] fs_answered_ready(1) [OF assms(2)] a(2,3)
    by blast
qed

section \<open>Opening, reading, closing\<close>

lemma answered_fields [simp]: "memory (fs_answered body c m s) = m"
  by (simp add: fs_answered_def Let_def)

lemma openfile_returns:
  assumes srv: "server_sound E fds B" and ready: "vfs_ready E s"
  shows "\<exists>fd s'. openfile E path s = Inr (fd, s') \<and> (fd = -1 \<or> fd \<in> fds) \<and> vfs_ready E s'
     \<and> (length path < FS_BUFFER_SIZE E \<longrightarrow> agree_outside (share_region E) (memory s) (memory s'))"
proof -
  have ok: "fs_sizes_ok E" using ready by (simp add: vfs_ready_def fs_ready_def fs_wf_def)
  obtain s1 b where b: "fs_buffer_allocate E s = Some (s1, b)" "fs_ready E s1" "memory s1 = memory s"
    "b \<in> buffer_offsets E" "\<And>t :: 'a fs_state_scheme. fs_ready E t \<Longrightarrow> buffer_table t = buffer_table s1 \<Longrightarrow>
      fs_buffer_free E b t = Inr (t\<lparr>buffer_table := buffer_table s,
        memory := mem_fill (memory t) (fs_buffer_ptr E b) (word_of_nat (FS_BUFFER_SIZE E)) 0\<rparr>)"
    using with_buffer [OF ready] by metis
  define s2 where "s2 = s1\<lparr>memory := mem_write (memory s1) (fs_buffer_ptr E b) (path @ [0])\<rparr>"
  have s2: "fs_ready E s2" "buffer_table s2 = buffer_table s1" using b(2) by (simp_all add: s2_def)
  let ?open = "FS_CMD_FILE_OPEN b (word_of_nat (length path + 1)) 0"
  have k: "fs_sent_ok E ?open" by simp
  obtain c m where a: "\<forall>x. fs_command_blocking E ?open x s2 = Inr (0, Some c, fs_answered ?open c m s2)"
    "fs_ready E (fs_answered ?open c m s2)" "agree_outside (share_region E) (memory s2) m" "fs_reply_ok E fds B ?open c"
    using sound_command [OF srv s2(1) k] by blast
  define t where "t = fs_answered ?open c m s2"
  define u where "u = t\<lparr>buffer_table := buffer_table s,
      memory := mem_fill (memory t) (fs_buffer_ptr E b) (word_of_nat (FS_BUFFER_SIZE E)) 0\<rparr>"
  have free: "fs_buffer_free E b t = Inr u" using b(5) [of t] a(2) s2(2) by (simp add: t_def u_def)
  have u: "vfs_ready E u"
    using a(2) ready by (simp add: u_def t_def vfs_ready_def fs_ready_def fs_wf_def)
  have mem: "agree_outside (share_region E) (memory s) (memory u)" if "length path < FS_BUFFER_SIZE E"
  proof -
    have "agree_outside (share_region E) (memory s) (memory s2)"
      using mem_write_share [OF ok b(4), of "path @ [0]"] that by (simp add: s2_def b(3))
    moreover have "agree_outside (share_region E) m (memory u)"
      using buffer_in_share [OF ok b(4), of "FS_BUFFER_SIZE E"] unfolding u_def t_def by (simp add: agree_outside_fill)
    ultimately show ?thesis using a(3) by (simp add: agree_outside_def)
  qed
  show ?thesis
  proof (cases "cmpl_status c = FS_STATUS_SUCCESS E")
    case False
    then have "openfile E path s = Inr (-1, u)"
      using a(1) free by (simp add: openfile_def b(1) Let_def s2_def t_def)
    then show ?thesis using u mem by blast
  next
    case True
    then have fd: "cmpl_fd c \<in> fds" using a(4) by simp
    have ur: "fs_ready E u" using u by (simp add: vfs_ready_def)
    let ?size = "FS_CMD_FILE_SIZE (cmpl_fd c)"
    have k2: "fs_sent_ok E ?size" by simp
    obtain c2 m2 where a2: "\<forall>x. fs_command_blocking E ?size x u = Inr (0, Some c2, fs_answered ?size c2 m2 u)"
      "fs_ready E (fs_answered ?size c2 m2 u)" "agree_outside (share_region E) (memory u) m2" "fs_reply_ok E fds B ?size c2"
      using sound_command [OF srv ur k2] by blast
    have "openfile E path s = Inr (cmpl_fd c, fs_answered ?size c2 m2 u)"
      using a(1) free a2(1,4) fd True by (simp add: openfile_def b(1) Let_def s2_def t_def)
    moreover have "vfs_ready E (fs_answered ?size c2 m2 u)"
      using a2(2) u fs_answered_ready [OF ur, of ?size c2 m2] by (simp add: vfs_ready_def)
    ultimately show ?thesis using mem a2(3) fd by (auto simp: agree_outside_def)
  qed
qed

lemma readfile_returns:
  assumes srv: "server_sound E fds B" and ready: "vfs_ready E s" and fd: "fd \<in> fds" and pos: "unat pos \<le> B"
  shows "\<exists>pos' s'. readfile E (buf + pos) (word_of_nat (FS_BUFFER_SIZE E)) fd pos s = Inr (pos', s') \<and> vfs_ready E s'
     \<and> agree_outside (block buf (word_of_nat B) \<union> share_region E) (memory s) (memory s')
     \<and> (pos' = -1 \<or> pos' = pos \<or> unat pos < unat pos' \<and> unat pos' \<le> B)"
proof -
  have ok: "fs_sizes_ok E" using ready by (simp add: vfs_ready_def fs_ready_def fs_wf_def)
  have B: "B < 2 ^ 63" using srv by (simp add: server_sound_def)
  have uB: "unat (word_of_nat B :: u64) = B" using B by (intro unat_word_of_nat_lt) simp
  obtain s1 b where b: "fs_buffer_allocate E s = Some (s1, b)" "fs_ready E s1" "memory s1 = memory s"
    "b \<in> buffer_offsets E" "\<And>t :: 'a fs_state_scheme. fs_ready E t \<Longrightarrow> buffer_table t = buffer_table s1 \<Longrightarrow>
      fs_buffer_free E b t = Inr (t\<lparr>buffer_table := buffer_table s,
        memory := mem_fill (memory t) (fs_buffer_ptr E b) (word_of_nat (FS_BUFFER_SIZE E)) 0\<rparr>)"
    using with_buffer [OF ready] by metis
  let ?read = "FS_CMD_FILE_READ fd pos b (word_of_nat (FS_BUFFER_SIZE E))"
  have "unat (word_of_nat (FS_BUFFER_SIZE E) :: u64) = FS_BUFFER_SIZE E"
    using buffer_size_lt [OF ok] by (simp add: unat_word_of_nat_lt)
  then have k: "fs_sent_ok E ?read" using b(4) by simp
  obtain c m where a: "\<forall>x. fs_command_blocking E ?read x s1 = Inr (0, Some c, fs_answered ?read c m s1)"
    "fs_ready E (fs_answered ?read c m s1)" "agree_outside (share_region E) (memory s1) m" "fs_reply_ok E fds B ?read c"
    using sound_command [OF srv b(2) k] by blast
  define t where "t = fs_answered ?read c m s1"
  have t: "fs_ready E t" "buffer_table t = buffer_table s1" "memory t = m" using a(2) by (simp_all add: t_def)
  let ?A = "block buf (word_of_nat B) \<union> share_region E" and ?z = "word_of_nat (FS_BUFFER_SIZE E)"
  have freed: "vfs_ready E (u\<lparr>buffer_table := buffer_table s, memory := m'\<rparr>)" if "fs_ready E u" for m' and u :: "'a fs_state_scheme"
    using that ready by (simp add: vfs_ready_def fs_ready_def fs_wf_def)
  have fill: "agree_outside ?A m' (mem_fill m' (fs_buffer_ptr E b) ?z 0)" for m'
    using buffer_in_share [OF ok b(4), of "FS_BUFFER_SIZE E"] by (intro agree_outside_fill) auto
  have m: "agree_outside ?A (memory s) m" using a(3) b(3) by (simp add: agree_outside_def)
  show ?thesis
  proof (cases "cmpl_status c = FS_STATUS_SUCCESS E")
    case False
    let ?s' = "t\<lparr>buffer_table := buffer_table s, memory := mem_fill m (fs_buffer_ptr E b) ?z 0\<rparr>"
    have "readfile E (buf + pos) ?z fd pos s = Inr (-1, ?s')"
      using a(1) b(5) [OF t(1,2)] False t(3) by (simp add: readfile_def b(1) t_def)
    moreover have "agree_outside ?A (memory s) (memory ?s')" using agree_outside_trans [OF m fill] by simp
    ultimately show ?thesis using freed [OF t(1)] by blast
  next
    case True
    let ?n = "cmpl_len_read c" and ?m2 = "mem_copy m (buf + pos) (fs_buffer_ptr E b) (cmpl_len_read c)"
    let ?s' = "t\<lparr>buffer_table := buffer_table s, memory := mem_fill ?m2 (fs_buffer_ptr E b) ?z 0\<rparr>"
    have n: "unat pos + unat ?n \<le> B" using a(4) fd True pos by simp
    then have sum: "unat (pos + ?n) = unat pos + unat ?n" using B by (simp add: unat_word_ariths(1))
    have "readfile E (buf + pos) ?z fd pos s = Inr (pos + ?n, ?s')"
      using a(1) b(5) [of "t\<lparr>memory := ?m2\<rparr>"] True t by (simp add: readfile_def b(1) t_def Let_def)
    moreover have "block (buf + pos) ?n \<subseteq> block buf (word_of_nat B)"
    proof
      fix x assume "x \<in> block (buf + pos) ?n"
      then have x: "unat (x - (buf + pos)) < unat ?n" by (simp add: word_less_nat_alt)
      have "unat (x - buf) = unat ((x - (buf + pos)) + pos)" by simp
      also have "\<dots> = unat (x - (buf + pos)) + unat pos" using x n B unfolding unat_word_ariths(1) by simp
      finally show "x \<in> block buf (word_of_nat B)" using x n uB by (simp add: word_less_nat_alt)
    qed
    then have "agree_outside ?A m ?m2" by (intro agree_outside_copy) auto
    then have "agree_outside ?A (memory s) (memory ?s')" using m fill [of ?m2] by (simp add: agree_outside_def)
    moreover have "pos + ?n = pos \<or> unat pos < unat (pos + ?n)" unfolding sum by (simp add: unat_gt_0)
    ultimately show ?thesis using freed [OF t(1)] n sum by (intro exI conjI) (assumption | simp)+
  qed
qed

text \<open>Each read that does not end the loop gets one byte further at least.\<close>

lemma read_loop_returns:
  assumes srv: "server_sound E fds B" and fd: "fd \<in> fds"
  shows "vfs_ready E s \<Longrightarrow> unat pos \<le> B \<Longrightarrow> B - unat pos < fuel \<Longrightarrow>
    \<exists>r s'. read_loop fuel E (buf + pos) fd pos s = Inr (r, s') \<and> vfs_ready E s'
     \<and> agree_outside (block buf (word_of_nat B) \<union> share_region E) (memory s) (memory s')"
proof (induction fuel arbitrary: pos s)
  case (Suc fuel)
  let ?A = "block buf (word_of_nat B) \<union> share_region E"
  obtain pos' t where t: "readfile E (buf + pos) (word_of_nat (FS_BUFFER_SIZE E)) fd pos s = Inr (pos', t)"
    "vfs_ready E t" "agree_outside ?A (memory s) (memory t)"
    "pos' = -1 \<or> pos' = pos \<or> unat pos < unat pos' \<and> unat pos' \<le> B"
    using readfile_returns [OF srv Suc.prems(1) fd Suc.prems(2)] by blast
  show ?case
  proof (cases "pos' = -1 \<or> pos' = pos")
    case True
    then show ?thesis using t by auto
  next
    case False
    then have p: "unat pos' \<le> B" "B - unat pos' < fuel" using t(4) Suc.prems(2,3) by auto
    have e: "buf + pos + (pos' - pos) = buf + pos'" by simp
    obtain r s' where "read_loop fuel E (buf + pos') fd pos' t = Inr (r, s')" "vfs_ready E s'"
      "agree_outside ?A (memory t) (memory s')"
      using Suc.IH [OF t(2) p] by blast
    moreover have "read_loop (Suc fuel) E (buf + pos) fd pos s = read_loop fuel E (buf + pos') fd pos' t"
      using t(1) False e by (simp del: add_diff_eq)
    moreover have "agree_outside ?A (memory s) (memory s')"
      using agree_outside_trans [OF t(3) calculation(3)] by simp
    ultimately show ?thesis by metis
  qed
qed simp

lemma closefile_returns:
  assumes srv: "server_sound E fds B" and ready: "vfs_ready E s"
  shows "\<exists>s'. closefile E fd s = Inr s' \<and> vfs_ready E s' \<and> agree_outside (share_region E) (memory s) (memory s')"
proof -
  let ?close = "FS_CMD_FILE_CLOSE fd"
  have r: "fs_ready E s" and k: "fs_sent_ok E ?close" using ready by (simp_all add: vfs_ready_def)
  obtain c m where a: "\<forall>x. fs_command_blocking E ?close x s = Inr (0, Some c, fs_answered ?close c m s)"
    "fs_ready E (fs_answered ?close c m s)" "agree_outside (share_region E) (memory s) m"
    using sound_command [OF srv r k] by blast
  then show ?thesis using ready by (simp add: closefile_def vfs_ready_def)
qed

text \<open>
  So reading a file returns, with the client ready for the next one; what it changed lies in the share
  and in the first \<open>B\<close> bytes of the destination.
\<close>

lemma readfile2buf_returns:
  assumes srv: "server_sound E fds B" and ready: "vfs_ready E s" and fuel: "B < fuel"
  shows "\<exists>err n s'. pico_vfs_readfile2buf fuel E buf path s = Inr (err, n, s') \<and> vfs_ready E s'
     \<and> (length path < FS_BUFFER_SIZE E \<longrightarrow>
          agree_outside (block buf (word_of_nat B) \<union> share_region E) (memory s) (memory s'))"
proof -
  let ?A = "block buf (word_of_nat B) \<union> share_region E"
  obtain fd t where t: "openfile E path s = Inr (fd, t)" "fd = -1 \<or> fd \<in> fds" "vfs_ready E t"
    "length path < FS_BUFFER_SIZE E \<longrightarrow> agree_outside ?A (memory s) (memory t)"
    using openfile_returns [OF srv ready, of path] by (auto simp: agree_outside_def)
  show ?thesis
  proof (cases "fd = -1")
    case True
    then show ?thesis using t by (simp add: pico_vfs_readfile2buf_def)
  next
    case False
    then have fd: "fd \<in> fds" using t(2) by blast
    obtain r u where u: "read_loop fuel E buf fd 0 t = Inr (r, u)" "vfs_ready E u"
      "agree_outside ?A (memory t) (memory u)"
      using read_loop_returns [OF srv fd t(3), of 0 fuel buf] fuel by auto
    obtain v where v: "closefile E fd u = Inr v" "vfs_ready E v" "agree_outside ?A (memory u) (memory v)"
      using closefile_returns [OF srv u(2), of fd] by (auto simp: agree_outside_def)
    show ?thesis
      using t u v False by (cases r) (auto simp: pico_vfs_readfile2buf_def agree_outside_def)
  qed
qed

end
