(* ===== verification/Deploy_Run.thy ===== *)
theory Deploy_Run
  imports Deploy_Properties Vfs_Returns
begin

text \<open>
  The coroutine of a deployment run step by step while the monitor's other entry points change the state
  in between (\<open>co_run_with\<close>). With a file server that answers, no step waits for ever
  (\<open>run_with_returns\<close>); for a client image that keeps to its region the run of a targeted request reaches
  one of its three ends (\<open>targeted_run\<close>).
\<close>

section \<open>The run with interruptions\<close>

text \<open>
  Between two steps, whenever the coroutine is not at its end, \<open>others k\<close> is what the monitor does
  for other callers before the coroutine goes on. Nothing runs between the call that starts the
  coroutine and its first step.
\<close>

function co_run_with :: "mon_env \<Rightarrow> (nat \<Rightarrow> monitor \<Rightarrow> monitor) \<Rightarrow> nat \<Rightarrow> monitor_system \<Rightarrow> monitor_system res" where
  "co_run_with E others k sys =
     (if snd sys = CoNone then Inr sys
      else case co_step E sys of
             Inl e \<Rightarrow> Inl e
           | Inr sys' \<Rightarrow> co_run_with E others (Suc k)
                (if snd sys' = CoNone then fst sys' else others k (fst sys'), snd sys'))"
  by pat_completeness auto
termination
  by (relation "inv_image co_order (\<lambda>(E, others, k, sys). snd sys)") (auto simp: wf_co_order co_step_decreases)

declare co_run_with.simps [simp del]

lemma co_run_with_None [simp]: "co_run_with E others k (s, CoNone) = Inr (s, CoNone)"
  by (simp add: co_run_with.simps)

lemma co_run_with_step:
  "co \<noteq> CoNone \<Longrightarrow> co_run_with E others k (s, co) = bindR (co_step E (s, co))
     (\<lambda>(s', co'). co_run_with E others (Suc k) (if co' = CoNone then s' else others k s', co'))"
  by (subst co_run_with.simps) (auto simp: bindR_def split: sum.splits)

text \<open>With nothing in between it is the run of \<open>Monitor_Coroutine\<close>.\<close>

lemma co_run_with_nothing: "co_run_with E (\<lambda>_ s. s) k sys = co_run E sys"
proof (induction E "\<lambda>_ :: nat. \<lambda>s :: monitor. s" k sys rule: co_run_with.induct)
  case (1 E k sys)
  then show ?case
    by (subst co_run_with.simps, subst co_run.simps) (auto split: sum.splits)
qed

section \<open>No step waits for ever\<close>

lemma bindR_Spin: "bindR r f = Inl Spin \<longleftrightarrow> r = Inl Spin \<or> (\<exists>a. r = Inr a \<and> f a = Inl Spin)"
  by (cases r) auto

lemma assertR_Spin [simp]: "assertR b \<noteq> Inl Spin"
  by (simp add: assertR_def)

lemma plan_services_Spin: "plan_services m st es i cursors sources \<noteq> Inl Spin"
  by (induction m st es i cursors sources rule: plan_services.induct) (auto simp: Let_def bindR_Spin)

lemma select_Spin:
  "service_planner_select_protocon m req plan states \<noteq> Inl Spin"
  "service_planner_select_protocon_by_id m req plan states pc \<noteq> Inl Spin"
  by (auto simp: service_planner_select_protocon_def service_planner_select_protocon_by_id_def planner_assign_def
      service_planner_deploy_plan_init_def bindR_Spin plan_services_Spin split: option.splits)

lemma prepare_Spin: "protocon_prepare E info target s \<noteq> Inl Spin"
  by (auto simp: protocon_prepare_def protocon_pre_instantiate_def Let_def bindR_Spin manifest_parse_request select_Spin
      split: option.splits if_splits)

lemma find_delegator_Spin: "dlg_find_delegator m d pd \<noteq> Inl Spin"
proof -
  have "dlg_find_from m ds pd k i \<noteq> Inl Spin" for ds k i
    by (induction m ds pd k i rule: dlg_find_from.induct) auto
  then show ?thesis by (simp add: dlg_find_delegator_def)
qed

lemma start_Spin: "protocon_start E plan s \<noteq> Inl Spin"
  by (auto simp: protocon_start_def protocon_init_txlo_info_def protocon_init_txlo_context_def
      protocon_restart_loader_def Let_def bindR_Spin find_delegator_Spin split: option.splits if_splits)

text \<open>The end of a deployment: the request is over, and notifying the orchestrator was the last thing done.\<close>

definition deployment_over :: "monitor \<Rightarrow> bool" where
  "deployment_over s \<longleftrightarrow> \<not> deploy_request_active s \<and> (\<exists>es. events s = es @ [Notify PC_MONITOR_ORCHESTRATOR_CHANNEL])"

lemma finish_over: "deployment_over (monitor_finish_deploy_request s)"
  by (simp add: deployment_over_def finish_fields)

lemma vfs_ready_cong:
  assumes "request_table s' = request_table s" and "buffer_table s' = buffer_table s" and "blocking_wait_set s' = blocking_wait_set s"
    and "fs_command_queue s' = fs_command_queue s" and "fs_completion_queue s' = fs_completion_queue s"
  shows "vfs_ready E s' \<longleftrightarrow> vfs_ready E s"
  using assms by (simp add: vfs_ready_def fs_ready_def fs_wf_def)

lemma vfs_ready_updates [simp]:
  "vfs_ready F (s\<lparr>memory := m\<rparr>) = vfs_ready F s" "vfs_ready F (emit e s) = vfs_ready F s"
  "vfs_ready F (update_pc cid f s) = vfs_ready F s"
  by (rule vfs_ready_cong; simp add: emit_def update_pc_def)+

lemma start_ready:
  assumes "protocon_start E plan s = Inr s'"
  shows "vfs_ready F s' \<longleftrightarrow> vfs_ready F s"
  using assms by (auto simp: protocon_start_def bindR_Inr_iff protocon_init_txlo_info_def protocon_init_txlo_context_def
      protocon_restart_loader_def protocon_state_set_lifecycle_state_def Let_def split: option.splits if_splits)

lemma header_ready [simp]:
  "vfs_ready F (service_installer_initialise_ac_rt_req_header E header x s) = vfs_ready F s"
  by (simp add: service_installer_initialise_ac_rt_req_header_def Let_def)

lemma install_returns:
  assumes srv: "server_sound (mon_fs E) fds B" and fuel: "B < read_bound E" and ready: "vfs_ready (mon_fs E) s"
  shows "\<exists>x' s'. install_service E plan req elf i (x, s) = Inr (x', s') \<and> vfs_ready (mon_fs E) s'
    \<and> (unat SVC_MAX_PATH_LEN \<le> FS_BUFFER_SIZE (mon_fs E) \<longrightarrow> agree_outside
         ((if path_len (svc_service_at (memory s) (plan_service_sources plan ! i)) < SVC_MAX_PATH_LEN
           then block (service_installer_elf_get_sec_with_vaddr (memory s) elf
                  (ent_offset (manifest_entry_at (memory s) (service_entries req ! i)) + payload_e_entry req)) (word_of_nat B)
           else {}) \<union> share_region (mon_fs E)) (memory s) (memory s'))"
proof -
  let ?sv = "plan_service_sources plan ! i"
  let ?len = "path_len (svc_service_at (memory s) ?sv)"
  let ?path = "takeWhile (\<lambda>b. b \<noteq> 0) (mem_read (memory s) (svc_service_path (memory s) ?sv) (unat ?len))"
  let ?target = "service_installer_elf_get_sec_with_vaddr (memory s) elf
      (ent_offset (manifest_entry_at (memory s) (service_entries req ! i)) + payload_e_entry req)"
  show ?thesis
  proof (cases "?len < SVC_MAX_PATH_LEN")
    case False
    then show ?thesis using ready by (simp add: install_service_def agree_outside_def not_less)
  next
    case True
    then have nle: "\<not> SVC_MAX_PATH_LEN \<le> ?len" by simp
    have "length ?path \<le> unat ?len" using length_takeWhile_le [of _ "mem_read (memory s) (svc_service_path (memory s) ?sv) (unat ?len)"]
      by simp
    then have short: "length ?path < unat SVC_MAX_PATH_LEN" using True by (simp add: word_less_nat_alt)
    obtain err n s' where r: "pico_vfs_readfile2buf (read_bound E) (mon_fs E) ?target ?path s = Inr (err, n, s')"
      "vfs_ready (mon_fs E) s'" "length ?path < FS_BUFFER_SIZE (mon_fs E) \<longrightarrow>
         agree_outside (block ?target (word_of_nat B) \<union> share_region (mon_fs E)) (memory s) (memory s')"
      using readfile2buf_returns [OF srv ready fuel, of ?target ?path] by blast
    show ?thesis
    proof (cases "?target = 0")
      case True
      then have "install_service E plan req elf i (x, s) = Inr (service_installer_append_acrtreq (memory s) ?sv x, s)"
        using nle by (simp add: install_service_def service_installer_payload_add_service_def Let_def)
      then show ?thesis using ready by (simp add: agree_outside_def)
    next
      case False
      then have "install_service E plan req elf i (x, s) = Inr (service_installer_append_acrtreq (memory s') ?sv x, s')"
        using nle r(1) by (simp add: install_service_def service_installer_payload_add_service_def Let_def)
      then show ?thesis using r(2,3) short \<open>?len < SVC_MAX_PATH_LEN\<close> by auto
    qed
  qed
qed

lemma begin_returns:
  assumes "vfs_ready F s"
  shows "co_begin E info target n s \<noteq> Inl Spin \<and> (\<forall>s' co'. co_begin E info target n s = Inr (s', co') \<longrightarrow>
    (if co' = CoNone then deployment_over s' else vfs_ready F s'))"
proof (cases "protocon_prepare E info target s")
  case (Inl e)
  then show ?thesis using prepare_Spin [of E info target s] by (simp add: co_begin_def)
next
  case (Inr ps)
  obtain found t where ps: "ps = (found, t)" by (cases ps)
  have "t = s\<lparr>memory := memory t\<rparr>" by (rule prepared_memory(1) [OF Inr [unfolded ps]])
  then have "vfs_ready F t" using assms by (metis vfs_ready_updates(1))
  then show ?thesis using Inr ps by (auto simp: co_begin_def co_end_def finish_over split: option.splits)
qed

lemma co_step_returns:
  assumes srv: "server_sound (mon_fs E) fds B" and fuel: "B < read_bound E" and ready: "vfs_ready (mon_fs E) s" and co: "co \<noteq> CoNone"
  shows "co_step E (s, co) \<noteq> Inl Spin \<and> (\<forall>s' co'. co_step E (s, co) = Inr (s', co') \<longrightarrow>
    (if co' = CoNone then deployment_over s' else vfs_ready (mon_fs E) s'))"
proof (cases co)
  case CoNone
  then show ?thesis using co by simp
next
  case CoSpawned
  obtain err info where h: "service_manifest_header_parse (memory s) payload_info_zero carrels_payload_start = (err, info)"
    by (cases "service_manifest_header_parse (memory s) payload_info_zero carrels_payload_start")
  show ?thesis using begin_returns [OF ready] unfolding CoSpawned co_step.simps co_start_def Let_def h prod.case
    by (auto simp: finish_over split: if_split_asm)
next
  case (CoInstall plan info elf i x n)
  show ?thesis
  proof (cases "plan_req plan")
    case None
    then show ?thesis using CoInstall by simp
  next
    case (Some req)
    show ?thesis
    proof (cases "i < unat (req_service_count req)")
      case True
      obtain x' t where "install_service E plan req elf i (x, s) = Inr (x', t)" "vfs_ready (mon_fs E) t"
        using install_returns [OF srv fuel ready] by blast
      then show ?thesis using CoInstall Some True by simp
    next
      case False
      let ?h = "service_installer_initialise_ac_rt_req_header E (plan_base_serialised_service plan) x s"
      show ?thesis
      proof (cases "protocon_start E plan ?h")
        case (Inl e)
        then show ?thesis using CoInstall Some False start_Spin [of E plan ?h] by simp
      next
        case (Inr t)
        have "vfs_ready (mon_fs E) t" using start_ready [OF Inr] ready by simp
        from begin_returns [OF this] show ?thesis using CoInstall Some False Inr
          by (auto simp: co_end_def finish_over split: if_splits)
      qed
    qed
  qed
qed

lemma run_with_returns:
  assumes srv: "server_sound (mon_fs E) fds B" and fuel: "B < read_bound E"
    and others: "\<forall>k s. vfs_ready (mon_fs E) s \<longrightarrow> vfs_ready (mon_fs E) (others k s)"
  shows "vfs_ready (mon_fs E) (fst sys) \<Longrightarrow> snd sys \<noteq> CoNone \<Longrightarrow>
    (\<exists>s'. co_run_with E others k sys = Inr (s', CoNone) \<and> deployment_over s')
    \<or> (\<exists>e. co_run_with E others k sys = Inl e \<and> e \<noteq> Spin)"
  using srv fuel others
proof (induction E others k sys rule: co_run_with.induct)
  case (1 E others k sys)
  obtain s co where sys: "sys = (s, co)" by (cases sys)
  have co: "co \<noteq> CoNone" and ready: "vfs_ready (mon_fs E) s" using "1.prems" sys by simp_all
  note step = co_step_returns [OF "1.prems"(3,4) ready co]
  show ?case
  proof (cases "co_step E (s, co)")
    case (Inl e)
    then show ?thesis using step co by (simp add: sys co_run_with_step)
  next
    case (Inr sys')
    obtain s' co' where sys': "sys' = (s', co')" by (cases sys')
    have run: "co_run_with E others k sys = co_run_with E others (Suc k) (if co' = CoNone then s' else others k s', co')"
      using Inr sys' co by (simp add: sys co_run_with_step)
    show ?thesis
    proof (cases "co' = CoNone")
      case True
      then show ?thesis using run step Inr sys' by simp
    next
      case False
      then have "vfs_ready (mon_fs E) (others k s')" using step Inr sys' "1.prems"(5) by auto
      then show ?thesis using "1.IH" [of sys'] "1.prems"(3-5) Inr co sys sys' False run by simp
    qed
  qed
qed

section \<open>A client that keeps to its region\<close>

definition agree_on :: "u64 set \<Rightarrow> mem \<Rightarrow> mem \<Rightarrow> bool" where
  "agree_on P m m' \<longleftrightarrow> (\<forall>a \<in> P. m' a = m a)"

lemma agree_on_refl [simp]: "agree_on P m m"
  by (simp add: agree_on_def)

lemma agree_on_trans [trans]: "agree_on P m m' \<Longrightarrow> agree_on P m' m'' \<Longrightarrow> agree_on P m m''"
  by (simp add: agree_on_def)

lemma agree_outside_on: "agree_outside A m m' \<Longrightarrow> A \<inter> P = {} \<Longrightarrow> agree_on P m m'"
  unfolding agree_outside_def agree_on_def by blast

text \<open>The delegation record that the loader of a protocon gets is there and fits its page.\<close>

definition delegator_ready :: "dlg_header \<Rightarrow> u32 \<Rightarrow> mem \<Rightarrow> bool" where
  "delegator_ready d pc m \<longleftrightarrow>
     (\<exists>src. dlg_find_delegator m d (ucast pc) = Inr (Some src) \<and> record_size (dlg_delegator_at m src) \<le> 4096)"

text \<open>
  The code checks neither where the section headers of a client send the service files nor how long
  these are. \<open>P\<close> is memory that the deployment relies on, once the image is loaded: as long as it
  holds what it holds now, the delegation record is found and no service file of at most \<open>B\<close> bytes is
  sent into \<open>P\<close>; the share and the request list of the loader lie elsewhere.
\<close>

definition client_confined :: "mon_env \<Rightarrow> nat \<Rightarrow> u64 set \<Rightarrow> deploy_plan \<Rightarrow> monitor \<Rightarrow> bool" where
  "client_confined E B P plan t \<longleftrightarrow> (\<forall>req. plan_req plan = Some req \<longrightarrow>
     share_region (mon_fs E) \<inter> P = {}
     \<and> (\<forall>m. agree_on P (memory t) m \<longrightarrow> delegator_ready (dlg t) (plan_pc_id plan) m
          \<and> (\<forall>i < unat (req_service_count req). path_len (svc_service_at m (plan_service_sources plan ! i)) < SVC_MAX_PATH_LEN \<longrightarrow>
               block (service_installer_elf_get_sec_with_vaddr m (protocon_image_elf E (memory t) (plan_pc_base plan))
                 (ent_offset (manifest_entry_at m (service_entries req ! i)) + payload_e_entry req)) (word_of_nat B) \<inter> P = {}))
     \<and> (\<forall>u x. xrt_within x \<longrightarrow> agree_on P (memory u)
          (memory (service_installer_initialise_ac_rt_req_header E (plan_base_serialised_service plan) x u))))"

text \<open>
  What the monitor does for others in between: the request stays, a free protocon stays free, nothing is
  started, and the memory in \<open>P\<close> and the pools of the file client are left alone.
\<close>

definition bystanders :: "mon_env \<Rightarrow> u64 set \<Rightarrow> (nat \<Rightarrow> monitor \<Rightarrow> monitor) \<Rightarrow> bool" where
  "bystanders E P others \<longleftrightarrow> (\<forall>k s. base_ok s \<longrightarrow> calm s (others k s) \<and> dlg (others k s) = dlg s
     \<and> starts (events (others k s)) = starts (events s) \<and> agree_on P (memory s) (memory (others k s))
     \<and> (vfs_ready (mon_fs E) s \<longrightarrow> vfs_ready (mon_fs E) (others k s)))"

text \<open>What holds while the services are installed.\<close>

definition installing_ok :: "mon_env \<Rightarrow> u64 set \<Rightarrow> monitor \<Rightarrow> monitor \<Rightarrow> bool" where
  "installing_ok E P t u \<longleftrightarrow> base_ok u \<and> deploy_request_active u \<and> deploy_request u = deploy_request t \<and> dlg u = dlg t
     \<and> starts (events u) = starts (events t)
     \<and> agree_on P (memory t) (memory u) \<and> vfs_ready (mon_fs E) u"

lemma bystanders_ok:
  assumes "bystanders E P others" and "installing_ok E P t u"
  shows "installing_ok E P t (others k u)"
proof -
  have "base_ok u" using assms(2) by (simp add: installing_ok_def)
  then have "calm u (others k u)" "dlg (others k u) = dlg u" "starts (events (others k u)) = starts (events u)" "agree_on P (memory u) (memory (others k u))"
    "vfs_ready (mon_fs E) u \<longrightarrow> vfs_ready (mon_fs E) (others k u)"
    using assms(1) unfolding bystanders_def by blast+
  then show ?thesis using assms(2) calm_base [of u "others k u"] agree_on_trans
    by (auto simp: installing_ok_def calm_def)
qed

lemma rest_dlg: "rest_of s' = rest_of s \<Longrightarrow> dlg s' = dlg (s :: monitor)"
  by (drule monitor_rest, erule ssubst) simp

lemma rest_active: "rest_of s' = rest_of s \<Longrightarrow> deploy_request_active s' = deploy_request_active (s :: monitor)"
  by (drule rest_fields(1)) (simp add: control_def)

lemma install_within:
  assumes "install_service E plan req elf i (x, s) = Inr (x', s')" and "xrt_within x"
  shows "xrt_within x'"
proof -
  have add: "xrt_within (xrt_add r y)" if "xrt_within y" for r y
    using that by (simp add: xrt_add_def xrt_within_def)
  have "xrt_within (append_resources m sv k i y)" if "xrt_within y" for m sv k i y
    using that by (induction m sv k i y rule: append_resources.induct) (auto simp: add split: option.splits)
  then show ?thesis using assms
    by (auto simp: install_service_def Let_def service_installer_append_acrtreq_def split: if_splits elim!: bindR_InrE)
qed

lemma installing_step:
  assumes srv: "server_sound (mon_fs E) fds B" and fuel: "B < read_bound E"
    and room: "unat SVC_MAX_PATH_LEN \<le> FS_BUFFER_SIZE (mon_fs E)"
    and conf: "client_confined E B P plan t" and req: "plan_req plan = Some req" and i: "i < unat (req_service_count req)"
    and u: "installing_ok E P t u" and x: "xrt_within x"
  shows "\<exists>x' u'. install_service E plan req (protocon_image_elf E (memory t) (plan_pc_base plan)) i (x, u) = Inr (x', u')
    \<and> installing_ok E P t u' \<and> xrt_within x'"
proof -
  let ?elf = "protocon_image_elf E (memory t) (plan_pc_base plan)"
  have ready: "vfs_ready (mon_fs E) u" and m: "agree_on P (memory t) (memory u)" using u by (simp_all add: installing_ok_def)
  let ?A = "(if path_len (svc_service_at (memory u) (plan_service_sources plan ! i)) < SVC_MAX_PATH_LEN
           then block (service_installer_elf_get_sec_with_vaddr (memory u) ?elf
                  (ent_offset (manifest_entry_at (memory u) (service_entries req ! i)) + payload_e_entry req)) (word_of_nat B)
           else {}) \<union> share_region (mon_fs E)"
  obtain x' u' where r: "install_service E plan req ?elf i (x, u) = Inr (x', u')" "vfs_ready (mon_fs E) u'"
    "agree_outside ?A (memory u) (memory u')"
    using install_returns [OF srv fuel ready] room by blast
  have "?A \<inter> P = {}" using conf req i m unfolding client_confined_def by auto
  then have "agree_on P (memory u) (memory u')" by (rule agree_outside_on [OF r(3)])
  then have "agree_on P (memory t) (memory u')" using m agree_on_trans by blast
  moreover have rest: "rest_of u' = rest_of u" by (rule install_rest [OF r(1)])
  ultimately have "installing_ok E P t u'"
    using u r(2) calm_base [OF calm_rest [OF rest]] rest_dlg [OF rest] rest_active [OF rest] rest_request [OF rest_fields(1) [OF rest]]
      rest_fields(3) [OF rest]
    by (simp add: installing_ok_def)
  then show ?thesis using r(1) install_within [OF r(1) x] by blast
qed

text \<open>The start of the protocon once everything is installed.\<close>

lemma installing_start:
  assumes conf: "client_confined E B P plan t" and req: "plan_req plan = Some req" and pc: "unat (plan_pc_id plan) < 16"
    and regs: "\<forall>es. write_registers E es (plan_pc_id plan) (plan_pc_entry plan) = 0" and u: "installing_ok E P t u"
    and x: "xrt_within x"
  shows "\<exists>v. protocon_start E plan
      (service_installer_initialise_ac_rt_req_header E (plan_base_serialised_service plan) x u) = Inr v
    \<and> control v = control u \<and> lifecycles v = (lifecycles u)[unat (plan_pc_id plan) := PROTOCON_ACTIVE]
    \<and> starts (events v) = starts (events u) @ [(plan_pc_id plan, plan_pc_entry plan)]"
proof -
  let ?h = "service_installer_initialise_ac_rt_req_header E (plan_base_serialised_service plan) x u"
  have "agree_on P (memory t) (memory ?h)"
    using conf req u x agree_on_trans unfolding client_confined_def installing_ok_def by blast
  moreover have h: "dlg ?h = dlg t" "control ?h = control u" "protocon_states ?h = protocon_states u" "events ?h = events u"
    using u by (simp_all add: service_installer_initialise_ac_rt_req_header_def Let_def installing_ok_def)
  ultimately have "delegator_ready (dlg ?h) (plan_pc_id plan) (memory ?h)"
    using conf req unfolding client_confined_def by simp
  then obtain src where src: "dlg_find_delegator (memory ?h) (dlg ?h) (ucast (plan_pc_id plan)) = Inr (Some src)"
    "record_size (dlg_delegator_at (memory ?h) src) \<le> 4096"
    unfolding delegator_ready_def by blast
  have "\<not> PC_CHILD_PER_MONITOR_MAX_NUM \<le> unat (plan_pc_id plan)" using pc by (simp add: PC_CHILD_PER_MONITOR_MAX_NUM_def)
  then obtain v where v: "protocon_start E plan ?h = Inr v"
    using src regs by (simp add: protocon_start_def protocon_init_txlo_info_def protocon_init_txlo_context_def
        protocon_restart_loader_def protocon_state_retrieve_context_def Let_def
        protocon_state_set_lifecycle_state_def update_pc_def emit_def)
  have len: "length (protocon_states u) = 16" using u by (simp add: installing_ok_def base_defs)
  have "lifecycles v = (lifecycles u)[unat (plan_pc_id plan) := PROTOCON_ACTIVE]"
    using start_result(2) [OF v] len pc by (simp add: lifecycles_def map_update h)
  moreover have "control v = control u" using start_result(1) [OF v] h by simp
  moreover have "starts (events v) = starts (events u) @ [(plan_pc_id plan, plan_pc_entry plan)]"
    using start_result(3) [OF v] h(4) by simp
  ultimately show ?thesis using v by blast
qed

text \<open>From any service on, the run reaches the end of the coroutine with the protocon started.\<close>

lemma run_install:
  assumes srv: "server_sound (mon_fs E) fds B" and fuel: "B < read_bound E"
    and room: "unat SVC_MAX_PATH_LEN \<le> FS_BUFFER_SIZE (mon_fs E)"
    and conf: "client_confined E B P plan t" and req: "plan_req plan = Some req" and pc: "unat (plan_pc_id plan) < 16"
    and regs: "\<forall>es. write_registers E es (plan_pc_id plan) (plan_pc_entry plan) = 0"
    and bys: "bystanders E P others" and tgt: "targeted (deploy_request t)"
  shows "installing_ok E P t u \<Longrightarrow> xrt_within x \<Longrightarrow> i \<le> unat (req_service_count req) \<Longrightarrow>
    \<exists>v. co_run_with E others k (u, CoInstall plan info (protocon_image_elf E (memory t) (plan_pc_base plan)) i x n)
        = Inr (monitor_finish_deploy_request (deploy_conclude E MON_NO_ERROR v), CoNone)
      \<and> base_ok v \<and> deploy_request_active v \<and> deploy_request v = deploy_request t
      \<and> lifecycles v ! unat (plan_pc_id plan) = PROTOCON_ACTIVE
      \<and> starts (events v) = starts (events t) @ [(plan_pc_id plan, plan_pc_entry plan)]"
proof (induction "unat (req_service_count req) - i" arbitrary: i x u k)
  case 0
  obtain v where v: "protocon_start E plan
      (service_installer_initialise_ac_rt_req_header E (plan_base_serialised_service plan) x u) = Inr v"
    "control v = control u" "lifecycles v = (lifecycles u)[unat (plan_pc_id plan) := PROTOCON_ACTIVE]"
    "starts (events v) = starts (events u) @ [(plan_pc_id plan, plan_pc_entry plan)]"
    using installing_start [OF conf req pc regs "0.prems"(1,2)] by blast
  have r: "deploy_request v = deploy_request t" "deploy_request_active v" "peer_policy v = peer_policy u"
    "monitored_protocon_count v = monitored_protocon_count u" "num_pc v = num_pc u"
    using v(2) "0.prems"(1) by (simp_all add: control_def installing_ok_def)
  have len: "length (lifecycles u) = 16" using "0.prems"(1) by (simp add: installing_ok_def base_defs lifecycles_def)
  then have "length (lifecycles v) = 16" using v(3) by simp
  then have states: "length (protocon_states v) = 16" by (simp add: lifecycles_def)
  have "base_ok v" using "0.prems"(1) r states by (auto simp: installing_ok_def base_defs)
  moreover have "lifecycles v ! unat (plan_pc_id plan) = PROTOCON_ACTIVE" using v(3) len pc by simp
  moreover have "co_run_with E others k (u, CoInstall plan info (protocon_image_elf E (memory t) (plan_pc_base plan)) i x n)
        = Inr (monitor_finish_deploy_request (deploy_conclude E MON_NO_ERROR v), CoNone)"
    using "0.hyps" "0.prems"(3) v(1) r(1) tgt req by (simp add: co_run_with_step co_end_def)
  moreover have "starts (events u) = starts (events t)" using "0.prems"(1) by (simp add: installing_ok_def)
  ultimately show ?case using r(1,2) v(4) by auto
next
  case (Suc j)
  have i: "i < unat (req_service_count req)" using Suc.hyps(2) by simp
  let ?elf = "protocon_image_elf E (memory t) (plan_pc_base plan)"
  obtain x' u' where s: "install_service E plan req ?elf i (x, u) = Inr (x', u')" "installing_ok E P t u'" "xrt_within x'"
    using installing_step [OF srv fuel room conf req i Suc.prems(1,2)] by blast
  have "installing_ok E P t (others k u')" by (rule bystanders_ok [OF bys s(2)])
  then show ?case using Suc.hyps(1) [of "Suc i" "others k u'" x' "Suc k"] Suc.hyps(2) i s(1,3) req
    by (simp add: co_run_with_step)
qed

text \<open>Preparing a targeted deployment returns, with a plan when the protocon is free and offers enough.\<close>

lemma prepare_returns:
  assumes offers: "offers_ok (protocon_states s ! unat pc)" and pc: "unat pc < 16"
    and entry: "read_u64 (memory s) (carrels_protocon_start E + 24) = tsldr_loader_program_base E"
    and parse: "service_manifest_parse (memory s) info svc_req_zero = Inr req"
  shows "\<not> eligible req (protocon_states s) (unat pc) \<Longrightarrow> protocon_prepare E info (Some pc) s = Inr (None, s)"
    and "eligible req (protocon_states s) (unat pc) \<Longrightarrow> \<exists>plan t. protocon_prepare E info (Some pc) s = Inr (Some plan, t)"
proof -
  assume "\<not> eligible req (protocon_states s) (unat pc)"
  then show "protocon_prepare E info (Some pc) s = Inr (None, s)"
    using reset_plan_check by (simp add: protocon_prepare_def parse service_planner_select_protocon_by_id_def)
next
  assume el: "eligible req (protocon_states s) (unat pc)"
  let ?xs = "filter (supported_entry (memory s))
      (entry_addresses (info_service_entries info) (unat (info_service_count info)))"
  have n: "length ?xs \<le> 16" and req: "req = request_of (memory s) (e_entry (memory s) (header_payload info)) ?xs"
    using parse by (auto simp: manifest_parse_request Let_def split: if_splits)
  have sup: "\<forall>e \<in> set ?xs. supported_entry (memory s) e" by simp
  have sat: "service_planner_can_satisfy_request req (avail_service_per_type (protocon_states s ! unat pc))"
    using el by (simp add: eligible_def)
  have src: "length (plan_service_sources (deploy_plan_reset deploy_plan_zero)) = 16"
    by (simp add: deploy_plan_reset_room) (simp add: deploy_plan_zero_def)
  obtain plan0 where plan0: "planner_assign (memory s) req (unat pc) (deploy_plan_reset deploy_plan_zero) (protocon_states s) = Inr plan0"
    using planner_assign_plan [OF sup n sat [unfolded req] offers src] unfolding req by blast
  have id: "plan_pc_id plan0 = pc" using assigned_plan(1) [OF plan0] by simp
  have "monitor_vm_region_base (container_image monitor_vm_layout) (ucast pc) \<noteq> 0"
  proof
    assume z: "monitor_vm_region_base (container_image monitor_vm_layout) (ucast pc) = 0"
    have "unat (monitor_vm_region_base (container_image monitor_vm_layout) (ucast pc)) = 0x50000000 + unat pc * 0x800000"
      by (rule unat_image_base [OF pc])
    then show False unfolding z by simp
  qed
  then show "\<exists>plan t. protocon_prepare E info (Some pc) s = Inr (Some plan, t)"
    using plan0 pc el entry id
    by (simp add: protocon_prepare_def parse service_planner_select_protocon_by_id_def protocon_deploy_plan_check_def
        monitor_consts protocon_pre_instantiate_def Let_def)
qed

lemma conclude_started:
  assumes "base_ok s" and "deploy_request_active s" and "targeted (deploy_request s)"
  shows "res_error (deploy_result (deploy_conclude E MON_NO_ERROR s)) \<in> {MON_NO_ERROR, MON_VSWITCH_ERROR}"
proof -
  let ?pc = "target_pc (deploy_request s)" and ?w = "req_peer_mask (deploy_request s)"
    and ?s = "deploy_set_error MON_NO_ERROR s" and ?c = "deploy_conclude E MON_NO_ERROR s"
  let ?out = "(connected_peer_mask (deploy_result s), rejected_peer_mask (deploy_result s),
       unavailable_peer_mask (deploy_result s))"
  have "unat ?pc < unat (num_pc s)" using assms by (simp add: base_defs)
  then have c: "?pc < monitored_protocon_count ?s" "unat (monitored_protocon_count ?s) \<le> 16"
    using base_ok_count [OF assms(1)] by (simp_all add: deploy_set_error_def)
  show ?thesis
  proof (cases rule: apply_deployment_result [OF c, of E ?w ?out, case_names ok err])
    case (ok regs es)
    then show ?thesis by (simp add: conclude_applied [OF ok(1)]) (simp add: deploy_set_error_def deploy_set_ready_def)
  next
    case (err regs es before p after)
    then show ?thesis by (simp add: conclude_applied [OF err(1)]) (simp add: deploy_set_error_def deploy_set_ready_def)
  qed
qed

text \<open>The run of a targeted request: its three ends.\<close>

lemma targeted_run:
  assumes "server_sound (mon_fs E) fds B" and "B < read_bound E" and "vfs_ready (mon_fs E) s"
    and "unat SVC_MAX_PATH_LEN \<le> FS_BUFFER_SIZE (mon_fs E)"
    and "base_ok s" and "deploy_request_active s" and "targeted (deploy_request s)"
    and "pc = target_pc (deploy_request s)"
    and "service_manifest_header_parse (memory s) payload_info_zero carrels_payload_start = (err, info)"
    and "err = 0 \<longrightarrow> service_manifest_parse (memory s) info svc_req_zero = Inr req"
    and "offers_ok (protocon_states s ! unat pc)"
    and "read_u64 (memory s) (carrels_protocon_start E + 24) = tsldr_loader_program_base E"
    and "\<forall>es. write_registers E es pc (tsldr_loader_program_base E) = 0"
    and "\<forall>plan t. protocon_prepare E info (Some pc) s = Inr (Some plan, t) \<longrightarrow> client_confined E B P plan t"
    and "bystanders E P others"
  shows "err \<noteq> 0 \<Longrightarrow> co_run_with E others 0 (s, CoSpawned)
        = Inr (monitor_finish_deploy_request (deploy_set_ready (deploy_set_error MON_FAIL_TO_DEPLOY s)), CoNone)"
    and "err = 0 \<Longrightarrow> \<not> eligible req (protocon_states s) (unat pc) \<Longrightarrow> co_run_with E others 0 (s, CoSpawned)
        = Inr (monitor_finish_deploy_request (deploy_set_ready (deploy_set_error MON_NO_AVAIL_PC s)), CoNone)"
    and "err = 0 \<Longrightarrow> eligible req (protocon_states s) (unat pc) \<Longrightarrow> \<exists>v. co_run_with E others 0 (s, CoSpawned)
        = Inr (monitor_finish_deploy_request (deploy_conclude E MON_NO_ERROR v), CoNone)
      \<and> base_ok v \<and> deploy_request_active v \<and> deploy_request v = deploy_request s
      \<and> lifecycles v ! unat pc = PROTOCON_ACTIVE \<and> starts (events v) = starts (events s) @ [(pc, tsldr_loader_program_base E)]"
proof -
  note h = assms(9)
  have pc: "unat pc < 16" using assms(5-8) by (simp add: base_defs)
  show "co_run_with E others 0 (s, CoSpawned)
      = Inr (monitor_finish_deploy_request (deploy_set_ready (deploy_set_error MON_FAIL_TO_DEPLOY s)), CoNone)" if "err \<noteq> 0"
    using that assms(7) by (simp add: co_run_with_step co_start_def Let_def h)
  { assume err: "err = 0"
    note prep = prepare_returns [OF assms(11) pc assms(12) assms(10) [rule_format, OF err]]
    have start: "co_start E s = co_begin E info (Some pc) 1 s"
      using err assms(7,8) by (simp add: co_start_def Let_def h)
    show "co_run_with E others 0 (s, CoSpawned)
        = Inr (monitor_finish_deploy_request (deploy_set_ready (deploy_set_error MON_NO_AVAIL_PC s)), CoNone)"
      if "\<not> eligible req (protocon_states s) (unat pc)"
      using prep(1) [OF that] start assms(7) by (simp add: co_run_with_step co_begin_def co_end_def conclude_failed)
    assume "eligible req (protocon_states s) (unat pc)"
    then obtain plan t where p: "protocon_prepare E info (Some pc) s = Inr (Some plan, t)" using prep(2) by blast
    have conf: "client_confined E B P plan t" using assms(14) p by blast
    obtain req' where req': "plan_req plan = Some req'" using prepared_plan(1) [OF p] by blast
    have plan: "plan_pc_id plan = pc" "plan_pc_entry plan = tsldr_loader_program_base E"
      using prepared_plan(3,4) [OF p] by simp_all
    obtain m where t: "t = s\<lparr>memory := m\<rparr>" using prepared_memory(1) [OF p] by blast
    have tgt: "targeted (deploy_request t)" "deploy_request t = deploy_request s" "events t = events s" using assms(7) by (simp_all add: t)
    have "installing_ok E P t t" using assms(3,5,6) by (auto simp: t installing_ok_def base_defs)
    then have ok: "installing_ok E P t (others 0 t)" by (rule bystanders_ok [OF assms(15)])
    have pc': "unat (plan_pc_id plan) < 16"
      and regs: "\<forall>es. write_registers E es (plan_pc_id plan) (plan_pc_entry plan) = 0" using assms(13) plan pc by simp_all
    have "co_run_with E others 0 (s, CoSpawned) = co_run_with E others 1 (others 0 t,
        CoInstall plan info (protocon_image_elf E (memory t) (plan_pc_base plan)) 0 trustedlo_xrtreq_zero 1)"
      using start p by (simp add: co_run_with_step co_begin_def)
    then show "\<exists>v. co_run_with E others 0 (s, CoSpawned)
        = Inr (monitor_finish_deploy_request (deploy_conclude E MON_NO_ERROR v), CoNone)
      \<and> base_ok v \<and> deploy_request_active v \<and> deploy_request v = deploy_request s
      \<and> lifecycles v ! unat pc = PROTOCON_ACTIVE \<and> starts (events v) = starts (events s) @ [(pc, tsldr_loader_program_base E)]"
      using run_install [OF assms(1,2,4) conf req' pc' regs assms(15) tgt(1) ok, of trustedlo_xrtreq_zero 0 1 info 1] plan tgt(2,3)
      by (auto simp: xrt_within_def trustedlo_xrtreq_zero_def) }
qed

text \<open>What a failed deployment leaves.\<close>

lemma finish_failed:
  assumes "s' = monitor_finish_deploy_request (deploy_set_ready (deploy_set_error e s))"
  shows "res_ready (deploy_result s') \<and> res_error (deploy_result s') = e \<and> deployment_over s'
    \<and> starts (events s') = starts (events s) \<and> lifecycles s' = lifecycles s"
  unfolding assms
  by (simp add: finish_over) (simp add: lifecycles_def deploy_set_ready_def deploy_set_error_def)

end
