(* ===== verification/Deploy_Outcome.thy ===== *)
theory Deploy_Outcome
  imports Deploy_Run
begin

text \<open>
  A deployment comes to its end, and what it leaves behind (properties of the runs of \<open>Deploy_Run\<close>),
  with an example that installs a service and starts a protocon.
\<close>

section \<open>An example\<close>

text \<open>
  The example of \<open>Monitor_State\<close> with buffers of 128 bytes, and a request for protocon 0 that the
  monitor has just accepted. The payload asks for one service, whose file of 20 bytes is installed.
\<close>

definition ex_deploy_env :: mon_env where
  "ex_deploy_env = ex_mon_env\<lparr>mon_fs := (ex_fs_env ex_file_server)\<lparr>FS_BUFFER_SIZE := 128\<rparr>,
     prepare_xrt_req_list := (\<lambda>m p x. mem_write m p (concat (map (le_bytes 8)
        (take 64 (xrt_notifications x) @ take 64 (xrt_ppcs x) @ take 64 (xrt_mappings x)))))\<rparr>"

definition ex_requested :: monitor where
  "ex_requested = deploy_target 0 2 (ex_monitor [2, 2] [])"

definition ex_info :: payload_info where
  "ex_info = \<lparr>header_payload = 0x700002C, elf_payload_size = 192, info_service_count = 1, info_service_entries = 0x7000018\<rparr>"

lemma ex_header_parsed: "service_manifest_header_parse ex_memory payload_info_zero carrels_payload_start = (0, ex_info)"
  by code_simp

lemma ex_parsed: "service_manifest_parse ex_memory ex_info svc_req_zero = Inr (request_of ex_memory 0x1000 [0x7000018])"
  by code_simp


text \<open>The image in the region of protocon 0: the header, no symbols but their header, and the ELF.\<close>

definition ex_header :: "u8 list" where
  "ex_header = replicate 8 0 @ le_bytes 8 (40 :: u64) @ le_bytes 8 (16 :: u64) @ le_bytes 8 (56 :: u64) @ le_bytes 8 (192 :: u64)"

definition ex_loaded :: mem where
  "ex_loaded = mem_copy (mem_copy (mem_write ex_memory 0x50000000 ex_header) 0x50000028 0xAAAAA20000 16) 0x50000038 0x700002C 192"

lemma ex_load: "protocon_load_payload ex_deploy_env 0 0x50000000 0x700002C 192 ex_requested = ex_requested\<lparr>memory := ex_loaded\<rparr>"
proof -
  have "sym_header (protocon_states ex_requested ! 0) = \<lparr>sym_base = 0xAAAAA20000, sym_symbols = 0xAAAAA20010, sym_symbol_cnt = 0\<rparr>"
    by (simp add: ex_requested_def deploy_target_def ex_states ex_pc_def)
  moreover have "memory ex_requested = ex_memory" by (simp add: ex_requested_def deploy_target_def ex_monitor_def)
  ultimately show ?thesis
    by (simp add: protocon_load_payload_def mktsymb_bundle_size_def ex_deploy_env_def ex_mon_env_def ex_loaded_def ex_header_def)
qed


text \<open>What the run writes: the share, the file of the service in the image, the request list.\<close>

definition ex_written :: "u64 set" where
  "ex_written = block 0x1000 1024 \<union> block 0x50000138 20 \<union> block 0x0FF80000 0x1000"

lemma ex_reads:
  "read_u16 ex_memory 0x7000068 = 2" "read_u64 ex_memory 0x7000054 = 64"
  "read_u64 ex_memory 0x700007C = 0" "read_u64 ex_memory 0x700008C = 0"
  "read_u64 ex_memory 0x70000BC = 0x1000" "read_u64 ex_memory 0x70000CC = 256"
  "read_u32 ex_memory 0x70000B0 = 1" "read_u64 ex_memory 0x70000C4 = 192"
  "read_u64 ex_memory 0x700001C = 64" "read_u64 ex_memory 0xAAAAA10018 = 0"
  "read_u16 ex_memory 0xAAAAA10010 = 38"
  by code_simp+

lemma ex_kept:
  assumes m: "\<And>a. a \<notin> ex_written \<Longrightarrow> m a = ex_loaded a"
  shows "read_u16 m 0x50000074 = 2" "read_u64 m 0x50000060 = 64"
    "read_u64 m 0x50000088 = 0" "read_u64 m 0x50000098 = 0"
    "read_u64 m 0x500000C8 = 0x1000" "read_u64 m 0x500000D8 = 256"
    "read_u32 m 0x500000BC = 1" "read_u64 m 0x500000D0 = 192"
    "read_u64 m 0x700001C = 64" "read_u64 m 0xAAAAA10018 = 0" "read_u16 m 0xAAAAA10010 = 38"
proof -
  have "read_u16 m 0x50000074 = read_u16 ex_memory 0x7000068" "read_u64 m 0x50000060 = read_u64 ex_memory 0x7000054"
    "read_u64 m 0x50000088 = read_u64 ex_memory 0x700007C" "read_u64 m 0x50000098 = read_u64 ex_memory 0x700008C"
    "read_u64 m 0x500000C8 = read_u64 ex_memory 0x70000BC" "read_u64 m 0x500000D8 = read_u64 ex_memory 0x70000CC"
    "read_u32 m 0x500000BC = read_u32 ex_memory 0x70000B0" "read_u64 m 0x500000D0 = read_u64 ex_memory 0x70000C4"
    "read_u64 m 0x700001C = read_u64 ex_memory 0x700001C" "read_u64 m 0xAAAAA10018 = read_u64 ex_memory 0xAAAAA10018"
    "read_u16 m 0xAAAAA10010 = read_u16 ex_memory 0xAAAAA10010"
    by (simp_all add: read_u16_def read_u32_def read_u64_def m ex_written_def ex_loaded_def mem_copy_def mem_write_def ex_header_def)
  then show "read_u16 m 0x50000074 = 2" "read_u64 m 0x50000060 = 64"
    "read_u64 m 0x50000088 = 0" "read_u64 m 0x50000098 = 0"
    "read_u64 m 0x500000C8 = 0x1000" "read_u64 m 0x500000D8 = 256"
    "read_u32 m 0x500000BC = 1" "read_u64 m 0x500000D0 = 192"
    "read_u64 m 0x700001C = 64" "read_u64 m 0xAAAAA10018 = 0" "read_u16 m 0xAAAAA10010 = 38"
    by (simp_all add: ex_reads)
qed

lemma ex_target:
  assumes m: "\<And>a. a \<notin> ex_written \<Longrightarrow> m a = ex_loaded a"
  shows "service_installer_elf_get_sec_with_vaddr m 0x50000038 (ent_offset (manifest_entry_at m 0x7000018) + 0x1000) = 0x50000138"
proof -
  have f: "unat (e_shnum m 0x50000038) = Suc (Suc 0)" "e_shoff m 0x50000038 = 64" "ent_offset (manifest_entry_at m 0x7000018) = 64"
    by (simp_all add: e_shnum_def e_shoff_def manifest_entry_at_def ex_kept [OF m])
  show ?thesis unfolding service_installer_elf_get_sec_with_vaddr_def f
    by (simp add: section_header_def f(2) sh_addr_def sh_size_def sh_type_def sh_offset_def SHT_NOBITS_def ex_kept [OF m])
qed

lemma ex_delegator:
  assumes m: "\<And>a. a \<notin> ex_written \<Longrightarrow> m a = ex_loaded a"
  shows "delegator_ready dlg_example_header 0 m"
proof -
  have "unat (delegator_count dlg_example_header) = Suc (Suc 0)" by (simp add: dlg_example_header_def)
  then show ?thesis
    by (simp add: delegator_ready_def dlg_find_delegator_def dlg_delegator_at_def)
      (simp add: dlg_example_header_def ex_kept [OF m])
qed

lemma ex_list_kept:
  assumes "a \<notin> ex_written"
  shows "memory (service_installer_initialise_ac_rt_req_header ex_deploy_env 0x0FF80000 x u) a = memory u a"
proof -
  let ?n = "concat (map (le_bytes 8) (take 64 (xrt_notifications x) @ take 64 (xrt_ppcs x) @ take 64 (xrt_mappings x))) :: u8 list"
  have "length (concat (map (le_bytes 8) (vs :: u64 list))) = 8 * length vs" for vs by (induction vs) simp_all
  then have len: "length ?n \<le> 1536" by simp
  have a: "\<not> a - 0x0FF80000 < 0x1000" using assms by (simp add: ex_written_def)
  then have lo: "\<not> unat (a - 0x0FF80000) < 0x1000" by (simp add: word_less_nat_alt)
  have hi: "\<not> unat (a - 0x0FF80010) < 1536"
  proof
    assume lt: "unat (a - 0x0FF80010) < 1536"
    have "unat (a - 0x0FF80000) = unat ((a - 0x0FF80010) + 0x10)" by simp
    also have "\<dots> = unat (a - 0x0FF80010) + 0x10" using lt unfolding unat_word_ariths(1) by simp
    finally show False using lt lo by simp
  qed
  show ?thesis
    using lo hi len by (simp add: service_installer_initialise_ac_rt_req_header_def ex_deploy_env_def ex_mon_env_def mem_write_def Let_def)
qed

lemma ex_confined:
  assumes "plan_req plan = Some (request_of ex_memory 0x1000 [0x7000018])" and "plan_pc_id plan = 0"
    and "plan_pc_base plan = 0x50000000" and "plan_base_serialised_service plan = 0x0FF80000"
    and "memory t = ex_loaded" and "dlg t = dlg_example_header"
  shows "client_confined ex_deploy_env 20 (- ex_written) plan t"
proof -
  have share: "share_region (mon_fs ex_deploy_env) \<inter> - ex_written = {}"
    by (auto simp: share_region_def ex_deploy_env_def ex_fs_env_def NUM_BUFFERS_def ex_written_def)
  have elf: "protocon_image_elf ex_deploy_env ex_loaded 0x50000000 = 0x50000038"
    by (simp add: protocon_image_elf_def ex_deploy_env_def ex_mon_env_def read_u64_def read_u32_def ex_loaded_def mem_copy_def
        mem_write_def ex_header_def) code_simp
  have req: "req_service_count (request_of ex_memory 0x1000 [0x7000018]) = 1"
    "service_entries (request_of ex_memory 0x1000 [0x7000018]) ! 0 = 0x7000018"
    "payload_e_entry (request_of ex_memory 0x1000 [0x7000018]) = 0x1000"
    by (simp_all add: request_of_def)
  have m: "(\<And>a. a \<notin> ex_written \<Longrightarrow> m a = ex_loaded a)" if "agree_on (- ex_written) ex_loaded m" for m
    using that by (simp add: agree_on_def)
  have target: "block (service_installer_elf_get_sec_with_vaddr m 0x50000038 (ent_offset (manifest_entry_at m 0x7000018) + 0x1000)) (word_of_nat 20)
      \<inter> - ex_written = {}" if "agree_on (- ex_written) ex_loaded m" for m
    using ex_target [OF m [OF that]] by (auto simp: ex_written_def)
  show ?thesis
    unfolding client_confined_def
  proof (intro allI impI conjI)
    fix req m i
    assume "plan_req plan = Some req" "agree_on (- ex_written) (memory t) m" "i < unat (req_service_count req)"
    then have "agree_on (- ex_written) ex_loaded m" "i = 0" "req = request_of ex_memory 0x1000 [0x7000018]"
      using assms(1,5) req(1) by simp_all
    then show "block (service_installer_elf_get_sec_with_vaddr m (protocon_image_elf ex_deploy_env (memory t) (plan_pc_base plan))
         (ent_offset (manifest_entry_at m (service_entries req ! i)) + payload_e_entry req)) (word_of_nat 20) \<inter> - ex_written = {}"
      using target by (simp only: assms(3,5) elf req)
  next
    fix m assume "agree_on (- ex_written) (memory t) m"
    then show "delegator_ready (dlg t) (plan_pc_id plan) m"
      using ex_delegator [OF m] assms(2,5,6) by simp
  qed (use share ex_list_kept assms(4) in \<open>simp_all add: agree_on_def\<close>)
qed

lemma ex_sound: "server_sound (mon_fs ex_deploy_env) {7} 20"
  unfolding server_sound_def
proof (intro conjI allI impI)
  let ?E = "mon_fs ex_deploy_env"
  fix cmds :: "fs_cmd list" and m :: mem
  assume c: "cmds \<noteq> [] \<and> fs_sent_ok ?E (cmd_body (last cmds))"
  let ?c = "\<lambda>l. \<lparr>cmpl_id = cmd_id (last cmds), cmpl_status = 0, cmpl_fd = 7, cmpl_len_read = l\<rparr>"
  have env: "fs_server ?E = ex_file_server" "FS_STATUS_SUCCESS ?E = 0" by (simp_all add: ex_deploy_env_def ex_fs_env_def)
  have sizes: "fs_sizes_ok ?E" by (simp add: ex_deploy_env_def ex_fs_env_def fs_sizes_ok_def NUM_BUFFERS_def)
  have ans: "fs_answers ?E cmds m (?c l) m'"
    if "ex_file_server cmds m = [\<lparr>wake_consumed = 1, wake_completions = [?c l], wake_memory = m'\<rparr>]" for l m'
    unfolding fs_answers_def env using that
    by (intro exI [of _ "[]"] exI [of _ "\<lparr>wake_consumed = 1, wake_completions = [?c l], wake_memory = m'\<rparr>"]) simp
  show "\<exists>c m'. fs_answers ?E cmds m c m' \<and> agree_outside (share_region ?E) m m' \<and> fs_reply_ok ?E {7} 20 (cmd_body (last cmds)) c"
  proof (cases "cmd_body (last cmds)")
    case (FS_CMD_FILE_READ f pos b n)
    let ?chunk = "take (unat n) (drop (unat pos) ex_data)"
    let ?m = "mem_write m (fs_buffer_ptr ?E b) ?chunk"
    have b: "b \<in> buffer_offsets ?E" "unat n \<le> FS_BUFFER_SIZE ?E" using c FS_CMD_FILE_READ by simp_all
    have len: "length ex_data = 20" by (simp add: ex_data_def)
    have "fs_answers ?E cmds m (?c (word_of_nat (length ?chunk))) ?m"
      by (rule ans) (simp add: ex_file_server_def FS_CMD_FILE_READ fs_buffer_ptr_def ex_deploy_env_def ex_fs_env_def)
    moreover have "agree_outside (share_region ?E) m ?m" using b by (intro mem_write_share sizes) simp_all
    moreover have "unat (word_of_nat (length ?chunk) :: u64) = length ?chunk"
      by (rule unat_word_of_nat_lt) (simp add: len)
    ultimately show ?thesis unfolding FS_CMD_FILE_READ
      by (intro exI [of _ "?c (word_of_nat (length ?chunk))"] exI [of _ ?m]) (auto simp: len env min_def)
  qed (use ans [of 0 m] in \<open>auto simp: ex_file_server_def env agree_outside_def intro!: exI [of _ "?c 0"] exI [of _ m]\<close>)
qed simp

lemma ex_requested_fields: "memory ex_requested = ex_memory" "protocon_states ex_requested = protocon_states (ex_monitor [2, 2] [])"
  "dlg ex_requested = dlg_example_header" "target_pc (deploy_request ex_requested) = 0" "targeted (deploy_request ex_requested)"
  "deploy_request_active ex_requested" "req_peer_mask (deploy_request ex_requested) = 2" "events ex_requested = []"
  by (simp_all add: ex_requested_def deploy_target_def ex_monitor_def)

lemma ex_requested_ready: "vfs_ready (mon_fs ex_deploy_env) ex_requested"
proof -
  have "False \<in> set (buffer_table ex_requested)" by (simp add: ex_requested_def deploy_target_def ex_monitor_def)
  then have "\<exists>u \<in> set (buffer_table ex_requested). \<not> u" by blast
  moreover have "fs_ready (mon_fs ex_deploy_env) ex_requested"
    by (simp add: fs_ready_def fs_wf_def fs_sizes_ok_def ex_fs_env_def ex_deploy_env_def ex_requested_def deploy_target_def
        ex_monitor_def ex_request_def NUM_BUFFERS_def)
  ultimately show ?thesis unfolding vfs_ready_def by blast
qed

lemma ex_requested_base: "base_ok ex_requested"
proof -
  have n: "num_pc (ex_monitor [2, 2] []) = 2" "deploy_request_active (ex_monitor [2, 2] []) = False"
    by (simp_all add: ex_monitor_def)
  have "accepted_peers 0 2 0 (ex_monitor [2, 2] []) = Inr 2" using ex_free by (simp add: accepted_peers_def n)
  from accepted_ok(1) [OF this ex_base] show ?thesis by (simp add: ex_requested_def)
qed

lemma ex_plan_confined:
  assumes "protocon_prepare ex_deploy_env ex_info (Some 0) ex_requested = Inr (Some plan, t)"
  shows "client_confined ex_deploy_env 20 (- ex_written) plan t"
  using assms
proof (cases rule: prepareE)
  case (planned req plan0 plan')
  have req: "req = request_of ex_memory 0x1000 [0x7000018]" using planned(1) ex_parsed by (simp add: ex_requested_fields)
  have sel: "plan_pc_id plan0 = 0" "plan_req plan0 = Some req"
    using selected_plan [OF planned(2,3)] by simp_all
  have id: "plan_pc_id plan = 0" "plan_req plan = Some req" using planned(4,5) sel by simp_all
  have base: "plan_pc_base plan = 0x50000000" using planned(4,5) sel
    by (simp add: monitor_vm_region_base_def monitor_vm_layout_def)
  have "planner_assign (memory ex_requested) req 0 (deploy_plan_reset deploy_plan_zero) (protocon_states ex_requested) = Inr plan0"
    using planned(2,3) reset_plan_check by (auto simp: service_planner_select_protocon_by_id_def split: if_splits)
  then have "plan_base_serialised_service plan0 = monitor_vm_region_base (txlo_xrt_req monitor_vm_layout) 0"
    by (auto simp: planner_assign_def service_planner_deploy_plan_init_def elim!: bindR_InrE)
  then have list: "plan_base_serialised_service plan = 0x0FF80000" using planned(4,5)
    by (simp add: monitor_vm_region_base_def monitor_vm_layout_def)
  have "t = ex_requested\<lparr>memory := ex_loaded\<rparr>" using planned(4,6) id(1) base by (simp add: ex_info_def ex_load)
  then show ?thesis using ex_confined [of plan t] id base list req by (simp add: ex_requested_fields)
qed simp

text \<open>In between, the orchestrator asks for the states of the protocons.\<close>

definition ex_others :: "nat \<Rightarrow> monitor \<Rightarrow> monitor" where
  "ex_others k s = snd (monitor_call_query_protocons 15 s)"

lemma ex_others_ready: "vfs_ready F (ex_others k s) = vfs_ready F s"
  by (rule vfs_ready_cong) (simp_all add: ex_others_def monitor_call_query_protocons_def Let_def)

lemma ex_bystanders: "bystanders ex_deploy_env P ex_others"
  unfolding bystanders_def ex_others_ready
  by (simp add: ex_others_def monitor_call_query_protocons_def calm_def lifecycles_def Let_def)

lemma ex_requested_eligible:
  "eligible (request_of ex_memory 0x1000 [0x7000018]) (protocon_states ex_requested) (unat (0 :: u32))"
  using ex_eligible [of 0 "0x1000"] by (simp add: ex_requested_fields)

lemma ex_premises:
  "server_sound (mon_fs ex_deploy_env) {7} 20" "20 < read_bound ex_deploy_env" "vfs_ready (mon_fs ex_deploy_env) ex_requested"
  "unat SVC_MAX_PATH_LEN \<le> FS_BUFFER_SIZE (mon_fs ex_deploy_env)" "base_ok ex_requested"
  "deploy_request_active ex_requested" "targeted (deploy_request ex_requested)"
  "0 = target_pc (deploy_request ex_requested)"
  "service_manifest_header_parse (memory ex_requested) payload_info_zero carrels_payload_start = (0, ex_info)"
  "0 = (0 :: int) \<longrightarrow> service_manifest_parse (memory ex_requested) ex_info svc_req_zero
      = Inr (request_of ex_memory 0x1000 [0x7000018])"
  "offers_ok (protocon_states ex_requested ! unat (0 :: u32))"
  "read_u64 (memory ex_requested) (carrels_protocon_start ex_deploy_env + 24) = tsldr_loader_program_base ex_deploy_env"
  "\<forall>es. write_registers ex_deploy_env es 0 (tsldr_loader_program_base ex_deploy_env) = 0"
  "\<forall>plan t. protocon_prepare ex_deploy_env ex_info (Some 0) ex_requested = Inr (Some plan, t)
      \<longrightarrow> client_confined ex_deploy_env 20 (- ex_written) plan t"
  "bystanders ex_deploy_env (- ex_written) ex_others"
proof -
  have entry: "read_u64 ex_memory 0x2000018 = 0x200000" by code_simp
  have st: "protocon_states (ex_monitor [2, 2] []) ! 0 = ex_pc 0 2" by (simp add: ex_states)
  show "read_u64 (memory ex_requested) (carrels_protocon_start ex_deploy_env + 24) = tsldr_loader_program_base ex_deploy_env"
    using entry by (simp add: ex_requested_fields ex_deploy_env_def ex_mon_env_def)
  show "offers_ok (protocon_states ex_requested ! unat (0 :: u32))"
    using ex_offers [of 2] by (simp add: ex_requested_fields st offers_of_def)
  show "20 < read_bound ex_deploy_env" "unat SVC_MAX_PATH_LEN \<le> FS_BUFFER_SIZE (mon_fs ex_deploy_env)"
    "\<forall>es. write_registers ex_deploy_env es 0 (tsldr_loader_program_base ex_deploy_env) = 0"
    by (simp_all add: ex_deploy_env_def ex_mon_env_def ex_fs_env_def SVC_MAX_PATH_LEN_def)
qed (use ex_sound ex_requested_ready ex_requested_base ex_plan_confined ex_bystanders in
    \<open>simp_all add: ex_requested_fields ex_header_parsed ex_parsed\<close>)

lemma ex_run: "\<exists>s'. co_run_with ex_deploy_env ex_others 0 (ex_requested, CoSpawned) = Inr (s', CoNone)"
  using targeted_run(3) [OF ex_premises refl ex_requested_eligible] by blast

section \<open>Properties\<close>

text \<open>C4: with a file server that answers every command and whose files are finite, a deployment does not
  go on for ever and never waits for ever, whatever the monitor does for other callers in between:
  either the coroutine reaches its end, with the request over and the orchestrator notified last, or the
  monitor stops at a failed assertion, a refusal of the kernel or undefined behaviour of the code. The
  bound on the reads of one file may be any number above the size of the largest file.\<close>

theorem deployment_never_waits_forever:
  assumes "server_sound (mon_fs E) fds B" and "B < read_bound E" and "vfs_ready (mon_fs E) s"
    and "\<forall>k u. vfs_ready (mon_fs E) u \<longrightarrow> vfs_ready (mon_fs E) (others k u)"
  shows "(\<exists>s'. co_run_with E others 0 (s, CoSpawned) = Inr (s', CoNone) \<and> deployment_over s')
    \<or> (\<exists>e. co_run_with E others 0 (s, CoSpawned) = Inl e \<and> e \<noteq> Spin)"
  by (rule run_with_returns [OF assms(1,2,4)]) (use assms(3) in simp_all)

theorem deployment_never_waits_forever_witness:
  "\<exists>s'. co_run_with ex_deploy_env ex_others 0 (ex_requested, CoSpawned) = Inr (s', CoNone) \<and> deployment_over s'"
proof -
  have by_others: "\<forall>k u. vfs_ready (mon_fs ex_deploy_env) u \<longrightarrow> vfs_ready (mon_fs ex_deploy_env) (ex_others k u)"
    using ex_others_ready by blast
  have fuel: "20 < read_bound ex_deploy_env" by (simp add: ex_deploy_env_def ex_mon_env_def)
  show ?thesis using deployment_never_waits_forever [OF ex_sound fuel ex_requested_ready by_others] ex_run by auto
qed

text \<open>C6: a targeted deployment reaches the end of its coroutine and reports, whatever the monitor does for
  other callers between its steps, if the file server answers, the image of the loader is in place, the
  payload asks for at most 16 services, the kernel accepts the registers and the client's image keeps
  the service files away from the memory that the deployment relies on. The result is ready, the request
  is over and notifying the orchestrator is the last thing done. The error is that of a bad payload
  exactly when the payload's header is bad, and that of no protocon exactly when the protocon is not
  free or does not offer the services; then no protocon was started. Otherwise exactly the target was started,
  once and at the loader, and is in use, and at most the switch has refused a connection. A result without error
  means that its policy is the requested set, and each requested peer is reported connected, rejected or
  unavailable, and no other.\<close>

theorem targeted_deploy_outcome:
  assumes "server_sound (mon_fs E) fds B" and "B < read_bound E" and "vfs_ready (mon_fs E) s"
    and "unat SVC_MAX_PATH_LEN \<le> FS_BUFFER_SIZE (mon_fs E)"
    and "base_ok s" and "deploy_request_active s" and "targeted (deploy_request s)"
    and "pc = target_pc (deploy_request s)"
    and "service_manifest_header_parse (memory s) payload_info_zero carrels_payload_start = (err, info)"
    and "err = 0 \<longrightarrow> service_manifest_parse (memory s) info svc_req_zero = Inr req"
    and "offers_ok (protocon_states s ! unat pc)"
    and "read_u64 (memory s) (carrels_protocon_start E + 24) = tsldr_loader_program_base E"
    and "\<forall>es. write_registers E es pc (tsldr_loader_program_base E) = 0"
    and "\<forall>plan t. protocon_prepare E info (Some pc) s = Inr (Some plan, t) \<longrightarrow> client_confined E B P plan t"
    and "bystanders E P others"
  shows "\<exists>s'. co_run_with E others 0 (s, CoSpawned) = Inr (s', CoNone)
    \<and> res_ready (deploy_result s') \<and> \<not> deploy_request_active s'
    \<and> (\<exists>es. events s' = es @ [Notify PC_MONITOR_ORCHESTRATOR_CHANNEL])
    \<and> (res_error (deploy_result s') = MON_FAIL_TO_DEPLOY \<longleftrightarrow> err \<noteq> 0)
    \<and> (res_error (deploy_result s') = MON_NO_AVAIL_PC \<longleftrightarrow> err = 0 \<and> \<not> eligible req (protocon_states s) (unat pc))
    \<and> (if err = 0 \<and> eligible req (protocon_states s) (unat pc)
       then res_error (deploy_result s') \<in> {MON_NO_ERROR, MON_VSWITCH_ERROR}
         \<and> starts (events s') = starts (events s) @ [(pc, tsldr_loader_program_base E)]
         \<and> lifecycles s' ! unat pc = PROTOCON_ACTIVE
       else starts (events s') = starts (events s) \<and> lifecycles s' = lifecycles s)
    \<and> (res_error (deploy_result s') = MON_NO_ERROR \<longrightarrow>
         peer_policy s' ! unat pc = req_peer_mask (deploy_request s)
       \<and> (\<forall>j. reported (deploy_result s') j \<longleftrightarrow> bit (req_peer_mask (deploy_request s)) j))"
proof (cases "err = 0 \<and> eligible req (protocon_states s) (unat pc)")
  case False
  define e where "e = (if err = 0 then MON_NO_AVAIL_PC else MON_FAIL_TO_DEPLOY)"
  have "co_run_with E others 0 (s, CoSpawned) = Inr (monitor_finish_deploy_request (deploy_set_ready (deploy_set_error e s)), CoNone)"
    using targeted_run(1,2) [OF assms] False by (simp add: e_def)
  with finish_failed [OF refl, of e s] obtain s' where "co_run_with E others 0 (s, CoSpawned) = Inr (s', CoNone)"
    "res_ready (deploy_result s')" "res_error (deploy_result s') = e" "deployment_over s'"
    "starts (events s') = starts (events s)" "lifecycles s' = lifecycles s" by blast
  then show ?thesis using False by (intro exI [of _ s']) (auto simp: deployment_over_def e_def split: if_splits)
next
  case True
  then obtain v where v: "co_run_with E others 0 (s, CoSpawned)
        = Inr (monitor_finish_deploy_request (deploy_conclude E MON_NO_ERROR v), CoNone)"
    "base_ok v" "deploy_request_active v" "deploy_request v = deploy_request s"
    "lifecycles v ! unat pc = PROTOCON_ACTIVE" "starts (events v) = starts (events s) @ [(pc, tsldr_loader_program_base E)]"
    using targeted_run(3) [OF assms] by blast
  let ?c = "deploy_conclude E MON_NO_ERROR v"
  have tgt: "targeted (deploy_request v)" using v(4) assms(7) by simp
  note c = conclude_started [OF v(2,3) tgt, of E]
  have "lifecycles ?c ! unat pc = PROTOCON_ACTIVE" using v(5) by (simp add: conclude_lifecycles)
  moreover have "starts (events ?c) = starts (events s) @ [(pc, tsldr_loader_program_base E)]" using v(6) by (simp add: starts_conclude)
  ultimately show ?thesis
    using v(1,4) conclude_result [OF v(2,3) tgt, of E MON_NO_ERROR] conclude_ready [of E MON_NO_ERROR v] c assms(8) True
    by (intro exI [of _ "monitor_finish_deploy_request ?c"]) (auto simp: finish_fields)
qed

theorem targeted_deploy_outcome_witness:
  "\<exists>s'. co_run_with ex_deploy_env ex_others 0 (ex_requested, CoSpawned) = Inr (s', CoNone)
    \<and> res_ready (deploy_result s') \<and> \<not> deploy_request_active s'
    \<and> res_error (deploy_result s') \<in> {MON_NO_ERROR, MON_VSWITCH_ERROR}
    \<and> starts (events s') = [(0, 0x200000)] \<and> lifecycles s' ! 0 = PROTOCON_ACTIVE"
  using targeted_deploy_outcome [OF ex_premises] ex_requested_eligible
  by (auto simp: ex_deploy_env_def ex_mon_env_def ex_requested_fields)

end
