(* ===== verification/C_Strings.thy ===== *)
theory C_Strings
  imports Carrels_Prelude
begin

text \<open>
  C strings. A \<open>char\<close> array is a list of bytes of fixed length; a function of the C library that
  runs past its end without meeting the terminating zero is undefined behaviour. An argument that
  the caller has terminated is the list of the bytes before its zero.
\<close>

section \<open>Literals and arrays\<close>

definition c_bytes :: "string \<Rightarrow> u8 list" where
  "c_bytes s = map of_char s"

definition terminated :: "u8 list \<Rightarrow> bool" where
  "terminated a \<longleftrightarrow> 0 \<in> set a"

text \<open>The bytes before the terminating zero.\<close>

definition c_string :: "u8 list \<Rightarrow> u8 list" where
  "c_string a = takeWhile (\<lambda>b. b \<noteq> 0) a"

lemma terminated_simps [simp]: "\<not> terminated []" "terminated (b # a) \<longleftrightarrow> b = 0 \<or> terminated a"
  by (auto simp: terminated_def)

lemma c_string_simps [simp]: "c_string [] = []" "c_string (b # a) = (if b = 0 then [] else b # c_string a)"
  by (simp_all add: c_string_def)

lemma terminated_append [simp]: "terminated (a @ b) \<longleftrightarrow> terminated a \<or> terminated b"
  by (auto simp: terminated_def)

lemma c_string_append: "c_string (a @ b) = (if terminated a then c_string a else a @ c_string b)"
  by (induction a) auto

lemma c_string_no_zero: "0 \<notin> set (c_string a)"
  by (induction a) auto

lemma c_string_terminated [simp]: "0 \<notin> set s \<Longrightarrow> c_string (s @ 0 # r) = s"
  by (induction s) auto

lemma length_c_string_le: "length (c_string a) \<le> length a"
  by (simp add: c_string_def length_takeWhile_le)

lemma length_c_string_lt: "terminated a \<Longrightarrow> length (c_string a) < length a"
  by (induction a) auto

lemma terminated_split: "terminated a \<Longrightarrow> a = c_string a @ 0 # drop (Suc (length (c_string a))) a"
  by (induction a) auto

section \<open>Functions of the C library\<close>

text \<open>\<open>strcmp(a, b) == 0\<close>.\<close>

fun strcmp_eq :: "u8 list \<Rightarrow> u8 list \<Rightarrow> bool res" where
  "strcmp_eq [] b = Inl UB"
| "strcmp_eq (x # a) [] = Inl UB"
| "strcmp_eq (x # a) (y # b) = (if x \<noteq> y then Inr False else if x = 0 then Inr True else strcmp_eq a b)"

text \<open>\<open>strncmp(a, b, n) == 0\<close>.\<close>

fun strncmp_eq :: "nat \<Rightarrow> u8 list \<Rightarrow> u8 list \<Rightarrow> bool res" where
  "strncmp_eq 0 a b = Inr True"
| "strncmp_eq (Suc n) [] b = Inl UB"
| "strncmp_eq (Suc n) (x # a) [] = Inl UB"
| "strncmp_eq (Suc n) (x # a) (y # b) =
     (if x \<noteq> y then Inr False else if x = 0 then Inr True else strncmp_eq n a b)"

text \<open>What \<open>snprintf\<close> leaves in an array: as much of the text as fits, the zero, and the rest as before.\<close>

definition store_string :: "u8 list \<Rightarrow> u8 list \<Rightarrow> u8 list" where
  "store_string dst s =
     (let n = min (length s) (length dst - 1)
      in if dst = [] then [] else take n s @ 0 # drop (Suc n) dst)"

text \<open>The bytes that \<open>strlen\<close> and \<open>%s\<close> walk over.\<close>

definition read_string :: "u8 list \<Rightarrow> u8 list res" where
  "read_string a = (if terminated a then Inr (c_string a) else Inl UB)"

lemma strcmp_eq_terminated:
  "terminated a \<Longrightarrow> terminated b \<Longrightarrow> strcmp_eq a b = Inr (c_string a = c_string b)"
  by (induction a b rule: strcmp_eq.induct) auto

text \<open>One terminated array suffices when the other is as long.\<close>

lemma strcmp_eq_left:
  assumes "terminated a" and "length (c_string a) < length b"
  shows "strcmp_eq a b = Inr (terminated b \<and> c_string a = c_string b)"
  using assms by (induction a b rule: strcmp_eq.induct) auto

lemma strcmp_eq_True:
  assumes "strcmp_eq a b = Inr True"
  shows "terminated a" and "terminated b" and "c_string a = c_string b"
proof -
  have "terminated a \<and> terminated b \<and> c_string a = c_string b"
    using assms
  proof (induction a b rule: strcmp_eq.induct)
    case (3 x a y b)
    then show ?case by (cases "x = y"; cases "x = 0") simp_all
  qed simp_all
  then show "terminated a" "terminated b" "c_string a = c_string b" by simp_all
qed

lemma length_store_string [simp]: "length (store_string dst s) = length dst"
  by (cases dst) (simp_all add: store_string_def Let_def min_def)

lemma store_string_terminated [simp]: "dst \<noteq> [] \<Longrightarrow> terminated (store_string dst s)"
  by (simp add: store_string_def Let_def)

lemma c_string_store:
  assumes "0 \<notin> set s" and "length s < length dst"
  shows "c_string (store_string dst s) = s"
proof -
  have "dst \<noteq> []" and n: "min (length s) (length dst - 1) = length s" using assms(2) by auto
  then have "store_string dst s = s @ 0 # drop (Suc (length s)) dst"
    by (simp add: store_string_def)
  then show ?thesis using assms(1) by simp
qed

section \<open>Numbers\<close>

text \<open>\<open>%u\<close>.\<close>

fun decimal :: "nat \<Rightarrow> u8 list" where
  "decimal n = (if n < 10 then [48 + word_of_nat n] else decimal (n div 10) @ [48 + word_of_nat (n mod 10)])"

declare decimal.simps [simp del]

text \<open>\<open>%08lx\<close>: hexadecimal digits, padded with zeros to eight.\<close>

definition hex_digit :: "nat \<Rightarrow> u8" where
  "hex_digit d = (if d < 10 then 48 + word_of_nat d else 87 + word_of_nat d)"

fun hex :: "nat \<Rightarrow> u8 list" where
  "hex n = (if n < 16 then [hex_digit n] else hex (n div 16) @ [hex_digit (n mod 16)])"

declare hex.simps [simp del]

definition hex8 :: "u64 \<Rightarrow> u8 list" where
  "hex8 w = (let h = hex (unat w) in replicate (8 - length h) 48 @ h)"

text \<open>The number that a list of hexadecimal digits stands for.\<close>

definition hex_value :: "u8 list \<Rightarrow> nat" where
  "hex_value ds = foldl (\<lambda>v d. 16 * v + (if d < 58 then unat d - 48 else unat d - 87)) 0 ds"

lemma hex_digit_unat: "d < 16 \<Longrightarrow> unat (hex_digit d) = (if d < 10 then 48 + d else 87 + d)"
  by (simp add: hex_digit_def unat_word_ariths unat_of_nat take_bit_eq_mod)

lemma hex_digit_value: "d < 16 \<Longrightarrow> (if hex_digit d < 58 then unat (hex_digit d) - 48 else unat (hex_digit d) - 87) = d"
  by (simp add: word_less_nat_alt hex_digit_unat)

lemma hex_value_snoc: "hex_value (ds @ [d]) = 16 * hex_value ds + (if d < 58 then unat d - 48 else unat d - 87)"
  by (simp add: hex_value_def)

lemma hex_value_hex [simp]: "hex_value (hex n) = n"
proof (induction n rule: hex.induct)
  case (1 n)
  show ?case
  proof (cases "n < 16")
    case True
    then show ?thesis using hex_digit_value [of n] by (subst hex.simps) (simp add: hex_value_def)
  next
    case False
    then show ?thesis using 1 hex_digit_value [of "n mod 16"] by (subst hex.simps) (simp add: hex_value_snoc)
  qed
qed

lemma hex_value_pad [simp]: "hex_value (replicate k 48 @ ds) = hex_value ds"
  by (induction k) (simp_all add: hex_value_def)

lemma hex8_inj: "hex8 a = hex8 b \<longleftrightarrow> a = b"
proof
  assume "hex8 a = hex8 b"
  then have "hex_value (hex8 a) = hex_value (hex8 b)" by simp
  then show "a = b" by (simp add: hex8_def Let_def word_unat_eq_iff)
qed simp

lemma hex_digit_nonzero: "d < 16 \<Longrightarrow> hex_digit d \<noteq> 0"
  using hex_digit_unat [of d] by (metis add_is_0 unsigned_0 zero_neq_numeral)

lemma hex_nonzero: "0 \<notin> set (hex n)"
proof (induction n rule: hex.induct)
  case (1 n)
  show ?case
    using 1 hex_digit_nonzero [of n] hex_digit_nonzero [of "n mod 16"] by (subst hex.simps) auto
qed

lemma length_hex: "n < 16 ^ Suc k \<Longrightarrow> length (hex n) \<le> Suc k"
proof (induction k arbitrary: n)
  case 0
  then show ?case by (subst hex.simps) simp
next
  case (Suc k)
  then have "n div 16 < 16 ^ Suc k" by (simp add: less_mult_imp_div_less)
  then show ?case using Suc.IH by (subst hex.simps) simp
qed

lemma hex8_nonzero: "0 \<notin> set (hex8 w)"
  using hex_nonzero by (auto simp: hex8_def Let_def)

lemma length_hex8: "length (hex8 w) \<le> 16"
proof -
  have "unat w < 16 ^ Suc 15" using u64_lt [of w] by simp
  then have "length (hex (unat w)) \<le> 16" using length_hex by fastforce
  then show ?thesis by (simp add: hex8_def Let_def)
qed

end
