(* ===== verification/Monitor_Init.thy ===== *)
theory Monitor_Init
  imports Monitor_Invariant C_Strings
begin

text \<open>
  Initialisation of the monitor (\<open>src/monitor/init/minit.c\<close>): the databases are loaded from the file
  system and parsed, the protocons are set up from them, and the policies are cleared. The two
  coroutines of the code run one after the other, the second waits for the delegators of the first.
\<close>

section \<open>File names\<close>

text \<open>A name is cut to a buffer of 80 bytes.\<close>

definition cut80 :: "u8 list \<Rightarrow> u8 list" where
  "cut80 bs = take 79 bs"

text \<open>\<open>.svc\<close>, \<open>.dlg\<close>, \<open>protocon\<close> and \<open>.mktsym\<close> in ASCII.\<close>

definition svc_file_name :: "mon_env \<Rightarrow> u8 list" where
  "svc_file_name E = cut80 (microkit_name E @ [46, 115, 118, 99])"

definition dlg_file_name :: "mon_env \<Rightarrow> u8 list" where
  "dlg_file_name E = cut80 (microkit_name E @ [46, 100, 108, 103])"

definition sym_file_name :: "u32 \<Rightarrow> u8 list" where
  "sym_file_name pc_id = cut80 ([112, 114, 111, 116, 111, 99, 111, 110] @ decimal (unat pc_id) @ [46, 109, 107, 116, 115, 121, 109])"

section \<open>Operations\<close>

text \<open>The addresses the files are read to.\<close>

definition SVC_BASE :: u64 where "SVC_BASE = 0xaaaaa00000"
definition DLG_BASE :: u64 where "DLG_BASE = 0xaaaaa10000"
definition PROTOCON_MKTSYMB_BASE :: u64 where "PROTOCON_MKTSYMB_BASE = 0xaaaaa20000"
definition PROTOCON_MKTSYMB_SLOT_SIZE :: u32 where "PROTOCON_MKTSYMB_SLOT_SIZE = 0x1000"

text \<open>A file that has to be there: an error stops the monitor with code -1.\<close>

definition load_required :: "mon_env \<Rightarrow> u64 \<Rightarrow> u8 list \<Rightarrow> monitor \<Rightarrow> monitor res" where
  "load_required E buf fname s =
     bindR (pico_vfs_readfile2buf (read_bound E) (mon_fs E) buf fname s) (\<lambda>(err, _, s).
     if err \<noteq> 0 then Inl (Crash (-1)) else Inr s)"

definition ca_monitor_init_storage :: "mon_env \<Rightarrow> monitor \<Rightarrow> monitor res" where
  "ca_monitor_init_storage E s =
     bindR (fs_command_blocking (mon_fs E) FS_CMD_INITIALISE None s) (\<lambda>(err, completion, s).
     if err \<noteq> 0 \<or> cmpl_status (the completion) \<noteq> FS_STATUS_SUCCESS (mon_fs E) then Inl (Crash (-1))
     else
       bindR (load_required E SVC_BASE (svc_file_name E) s) (\<lambda>s.
       bindR (load_required E DLG_BASE (dlg_file_name E) s) (\<lambda>s.
       let (ok, d) = dlg_parse (memory s) DLG_BASE (dlg s)
       in if \<not> ok then Inl Spin
          else
            let s = s\<lparr>dlg := d\<rparr>;
                (ok, v) = svc_parse (memory s) SVC_BASE (svc s)
            in if \<not> ok then Inl Spin else Inr (s\<lparr>svc := v\<rparr>))))"

definition protocon_state_init_symb_header :: "mon_env \<Rightarrow> u32 \<Rightarrow> monitor \<Rightarrow> monitor res" where
  "protocon_state_init_symb_header E pc_id s =
     (let base = PROTOCON_MKTSYMB_BASE + ucast (pc_id * PROTOCON_MKTSYMB_SLOT_SIZE)
      in bindR (load_required E base (sym_file_name pc_id) s) (\<lambda>s.
         Inr (update_pc pc_id (\<lambda>p. p\<lparr>sym_header := mktsymb_read E (memory s) base\<rparr>) s)))"

definition ca_monitor_init_validate_pc_count :: "u32 \<Rightarrow> pc_monitor_error" where
  "ca_monitor_init_validate_pc_count pc_count =
     (if unat pc_count > PC_CHILD_PER_MONITOR_MAX_NUM then MON_INVALID_REQ_PC_NUM else MON_NO_ERROR)"

definition ca_monitor_init_get_pcnum :: "u32 \<Rightarrow> monitor \<Rightarrow> monitor res" where
  "ca_monitor_init_get_pcnum delegator_cnt s =
     (if ca_monitor_init_validate_pc_count delegator_cnt \<noteq> MON_NO_ERROR then Inl Spin
      else
        let s = s\<lparr>num_pc := ucast delegator_cnt\<rparr>
        in bindR (assertR (unat (num_pc s) \<le> PC_CHILD_PER_MONITOR_MAX_NUM)) (\<lambda>_. Inr s))"

text \<open>The body of the loop of \<open>ca_monitor_init_protocon_states\<close>.\<close>

definition init_protocon_state :: "mon_env \<Rightarrow> u32 \<Rightarrow> monitor \<Rightarrow> monitor res" where
  "init_protocon_state E i s =
     (let s = update_pc i (\<lambda>p. p\<lparr>state_pc_id := i\<rparr>) s;
          s = protocon_state_memzero_services i s;
          s = protocon_state_memzero_context E i s;
          s = protocon_state_memzero_symb_header i s
      in bindR (protocon_state_init_symb_header E i s) (\<lambda>s.
         bindR (monitor_main_load_trustedlo E i s) (\<lambda>s.
         Inr (protocon_state_set_lifecycle_state i PROTOCON_PASSIVE s))))"

fun init_protocon_loop :: "mon_env \<Rightarrow> nat \<Rightarrow> nat \<Rightarrow> monitor \<Rightarrow> monitor res" where
  "init_protocon_loop E 0 i s = Inr s"
| "init_protocon_loop E (Suc k) i s =
     bindR (init_protocon_state E (word_of_nat i) s) (init_protocon_loop E k (Suc i))"

definition ca_monitor_init_protocon_states :: "mon_env \<Rightarrow> u64 \<Rightarrow> monitor \<Rightarrow> monitor res" where
  "ca_monitor_init_protocon_states E pc_num s =
     bindR (init_protocon_loop E (unat pc_num) 0 s) (\<lambda>s.
     bindR (service_registry_create (memory s) (Some (svc s)) (protocon_states s)) (\<lambda>states.
     Inr (s\<lparr>protocon_states := states\<rparr>)))"

text \<open>Without delegators the coroutine yields for ever.\<close>

definition ca_monitor_init_states :: "mon_env \<Rightarrow> monitor \<Rightarrow> monitor res" where
  "ca_monitor_init_states E s =
     (if delegator_count (dlg s) = 0 then Inl Spin
      else
        bindR (ca_monitor_init_get_pcnum (delegator_count (dlg s)) s) (\<lambda>s.
        bindR (ca_monitor_init_protocon_states E (num_pc s) s) (\<lambda>s.
        Inr (monitor_acl_initialise (ucast (num_pc s)) s))))"

definition ca_monitor_init_cothread_spawn ::
  "mon_env \<Rightarrow> (monitor \<Rightarrow> monitor res) \<Rightarrow> monitor \<Rightarrow> monitor res" where
  "ca_monitor_init_cothread_spawn E client_entry s =
     (if \<not> cothread_spawn E (events s) then Inl Spin else client_entry s)"

definition ca_monitor_init_system :: "mon_env \<Rightarrow> monitor \<Rightarrow> monitor res" where
  "ca_monitor_init_system E s =
     bindR (ca_monitor_init_cothread_spawn E (ca_monitor_init_storage E) s)
       (ca_monitor_init_cothread_spawn E (ca_monitor_init_states E))"

section \<open>What initialisation establishes\<close>

text \<open>The globals of the monitor before \<open>init\<close> are zero.\<close>

definition zero_pc_state :: "mon_env \<Rightarrow> pc_state" where
  "zero_pc_state E = \<lparr>state_pc_id = 0, pc_context = replicate (sizeof_ctxt E) 0, life_cycle_state = 0,
     avail_service_per_type = replicate 8 0, avail_service_refs = replicate 8 (replicate 8 0),
     sym_header = \<lparr>sym_base = 0, sym_symbols = 0, sym_symbol_cnt = 0\<rparr>\<rparr>"

definition zero_globals :: "mon_env \<Rightarrow> monitor \<Rightarrow> monitor" where
  "zero_globals E s = s\<lparr>num_pc := 0, protocon_states := replicate PC_CHILD_PER_MONITOR_MAX_NUM (zero_pc_state E),
     req_pc_num := 0, deploy_request_active := False, deploy_request := empty_deploy_request,
     peer_policy := replicate PC_CHILD_PER_MONITOR_MAX_NUM 0, monitored_protocon_count := 0, pd_io_acl_rule := 0,
     events := []\<rparr>"

text \<open>What the operations of initialisation leave alone.\<close>

definition idle_like :: "monitor \<Rightarrow> monitor \<Rightarrow> bool" where
  "idle_like s s' \<longleftrightarrow> deploy_request_active s' = deploy_request_active s \<and> events s' = events s
     \<and> length (protocon_states s') = length (protocon_states s)"

lemma idle_like_trans [trans]: "idle_like s t \<Longrightarrow> idle_like t u \<Longrightarrow> idle_like s u"
  by (simp add: idle_like_def)

lemma rest_idle: "rest_of s' = rest_of s \<Longrightarrow> idle_like s s'"
  using rest_fields [of s' s] by (simp add: idle_like_def control_def)

lemma load_required_rest: "load_required E buf fname s = Inr s' \<Longrightarrow> rest_of s' = rest_of s"
  by (auto simp: load_required_def split: if_splits elim!: bindR_InrE dest!: readfile2buf_rest)

lemma rest_databases:
  assumes "rest_of (s' :: monitor) = rest_of s"
  shows "dlg s' = dlg s" "svc s' = svc s" "num_pc s' = num_pc s"
  by (subst monitor_rest [OF assms], simp)+

lemma init_storage_result:
  assumes "ca_monitor_init_storage E s = Inr s'"
  shows "idle_like s s'" and "\<exists>d. dlg_parse (memory s') DLG_BASE d = (True, dlg s')"
    and "\<exists>v. svc_parse (memory s') SVC_BASE v = (True, svc s')"
proof -
  obtain err c s1 s2 s3 d v where r: "fs_command_blocking (mon_fs E) FS_CMD_INITIALISE None s = Inr (err, c, s1)"
    "load_required E SVC_BASE (svc_file_name E) s1 = Inr s2" "load_required E DLG_BASE (dlg_file_name E) s2 = Inr s3"
    "dlg_parse (memory s3) DLG_BASE (dlg s3) = (True, d)" "svc_parse (memory s3) SVC_BASE (svc s3) = (True, v)"
    "s' = s3\<lparr>dlg := d, svc := v\<rparr>"
    using assms by (auto simp: ca_monitor_init_storage_def Let_def split: if_splits prod.splits elim!: bindR_InrE)
  have "rest_of s3 = rest_of s"
    using command_blocking_rest [OF r(1)] load_required_rest [OF r(2)] load_required_rest [OF r(3)] by simp
  from rest_idle [OF this] show "idle_like s s'" by (simp add: r(6) idle_like_def)
  show "\<exists>d. dlg_parse (memory s') DLG_BASE d = (True, dlg s')" "\<exists>v. svc_parse (memory s') SVC_BASE v = (True, svc s')"
    using r(4-6) by auto
qed

lemma init_protocon_state_result:
  assumes "init_protocon_state E i s = Inr s'" and "unat i < length (protocon_states s)"
  shows "idle_like s s'" and "lifecycles s' = (lifecycles s)[unat i := PROTOCON_PASSIVE]"
    and "dlg s' = dlg s" and "svc s' = svc s" and "num_pc s' = num_pc s"
proof -
  obtain s2 s3 where r: "protocon_state_init_symb_header E i (protocon_state_memzero_symb_header i
      (protocon_state_memzero_context E i (protocon_state_memzero_services i (update_pc i (\<lambda>p. p\<lparr>state_pc_id := i\<rparr>) s)))) = Inr s2"
    "monitor_main_load_trustedlo E i s2 = Inr s3" "s' = protocon_state_set_lifecycle_state i PROTOCON_PASSIVE s3"
    using assms(1) by (auto simp: init_protocon_state_def Let_def elim!: bindR_InrE)
  let ?z = "protocon_state_memzero_symb_header i
      (protocon_state_memzero_context E i (protocon_state_memzero_services i (update_pc i (\<lambda>p. p\<lparr>state_pc_id := i\<rparr>) s)))"
  have upd: "idle_like t (update_pc i f t)" "dlg (update_pc i f t) = dlg t" "svc (update_pc i f t) = svc t"
    "num_pc (update_pc i f t) = num_pc t" for t f
    by (simp_all add: idle_like_def update_pc_def)
  have lcu: "lifecycles (update_pc i f t) = lifecycles t" if "\<And>p. life_cycle_state (f p) = life_cycle_state p" for f t
    using that unfolding update_pc_def lifecycles_def
    by (cases "unat i < length (protocon_states t)")
      (auto intro!: nth_equalityI simp: nth_list_update list_update_beyond)
  have z: "idle_like s ?z" "lifecycles ?z = lifecycles s" "dlg ?z = dlg s" "svc ?z = svc s" "num_pc ?z = num_pc s"
    unfolding protocon_state_memzero_symb_header_def protocon_state_memzero_context_def protocon_state_memzero_services_def
    by (simp_all add: upd(2-4) lcu) (simp add: idle_like_def update_pc_def)
  obtain t where t: "load_required E (PROTOCON_MKTSYMB_BASE + ucast (i * PROTOCON_MKTSYMB_SLOT_SIZE)) (sym_file_name i) ?z = Inr t"
    "s2 = update_pc i (\<lambda>p. p\<lparr>sym_header := mktsymb_read E (memory t)
        (PROTOCON_MKTSYMB_BASE + ucast (i * PROTOCON_MKTSYMB_SLOT_SIZE))\<rparr>) t"
    using r(1) by (auto simp: protocon_state_init_symb_header_def Let_def elim!: bindR_InrE)
  note rest = load_required_rest [OF t(1)]
  have t2: "idle_like ?z t" "lifecycles t = lifecycles ?z" "dlg t = dlg ?z" "svc t = svc ?z" "num_pc t = num_pc ?z"
    using rest_idle [OF rest] rest_fields(2) [OF rest] rest_databases [OF rest] by (simp_all add: lifecycles_def)
  have s2: "idle_like t s2" "lifecycles s2 = lifecycles t" "dlg s2 = dlg t" "svc s2 = svc t" "num_pc s2 = num_pc t"
    by (simp_all add: t(2) upd lcu)
  have s3: "idle_like s2 s3" "lifecycles s3 = lifecycles s2" "dlg s3 = dlg s2" "svc s3 = svc s2" "num_pc s3 = num_pc s2"
    by (subst load_trustedlo_memory [OF r(2)], simp add: idle_like_def lifecycles_def)+
  have s': "idle_like s3 s'" "dlg s' = dlg s3" "svc s' = svc s3" "num_pc s' = num_pc s3"
    by (simp_all add: r(3) protocon_state_set_lifecycle_state_def upd)
  show "idle_like s s'" using z(1) t2(1) s2(1) s3(1) s'(1) by (blast intro: idle_like_trans)
  show "lifecycles s' = (lifecycles s)[unat i := PROTOCON_PASSIVE]"
    by (simp add: r(3) lifecycles_set s3 s2 t2 z)
  show "dlg s' = dlg s" "svc s' = svc s" "num_pc s' = num_pc s" using z t2 s2 s3 s' by simp_all
qed

lemma init_loop_result:
  assumes "init_protocon_loop E k i s = Inr s'" and "i + k \<le> 16" and "length (protocon_states s) = 16"
  shows "idle_like s s' \<and> dlg s' = dlg s \<and> svc s' = svc s \<and> num_pc s' = num_pc s
    \<and> (\<forall>j. i \<le> j \<and> j < i + k \<longrightarrow> lifecycles s' ! j = PROTOCON_PASSIVE)
    \<and> (\<forall>j. j < i \<longrightarrow> lifecycles s' ! j = lifecycles s ! j)"
  using assms
proof (induction k arbitrary: i s)
  case 0
  then show ?case by (auto simp: idle_like_def)
next
  case (Suc k)
  obtain t where t: "init_protocon_state E (word_of_nat i) s = Inr t" "init_protocon_loop E k (Suc i) t = Inr s'"
    using Suc.prems(1) by (auto elim!: bindR_InrE)
  have u: "unat (word_of_nat i :: u32) = i" using Suc.prems(2) by (intro unat_word_of_nat_lt) simp
  note st = init_protocon_state_result [OF t(1), unfolded u]
  have lt: "i < length (protocon_states s)" using Suc.prems by simp
  have len: "length (protocon_states t) = 16" using st(1) [OF lt] Suc.prems(3) by (simp add: idle_like_def)
  have ih: "idle_like t s' \<and> dlg s' = dlg t \<and> svc s' = svc t \<and> num_pc s' = num_pc t
    \<and> (\<forall>j. Suc i \<le> j \<and> j < Suc i + k \<longrightarrow> lifecycles s' ! j = PROTOCON_PASSIVE)
    \<and> (\<forall>j. j < Suc i \<longrightarrow> lifecycles s' ! j = lifecycles t ! j)"
    by (rule Suc.IH [OF t(2) _ len]) (use Suc.prems(2) in simp)
  have ll: "length (lifecycles s) = 16" using Suc.prems(3) by (simp add: lifecycles_def)
  have "lifecycles s' ! j = PROTOCON_PASSIVE" if "i \<le> j" "j < i + Suc k" for j
  proof (cases "j = i")
    case True
    then show ?thesis using ih st(2) [OF lt] Suc.prems(2) ll by simp
  next
    case False
    then show ?thesis using ih that by simp
  qed
  moreover have "lifecycles s' ! j = lifecycles s ! j" if "j < i" for j
    using ih that st(2) [OF lt] by simp
  ultimately show ?case using ih st [OF lt] idle_like_trans by auto
qed

lemma registry_shape:
  assumes "registry_add_all m ps states = Inr states'"
  shows "length states' = length states \<and> map life_cycle_state states' = map life_cycle_state states"
  using assms
proof (induction ps arbitrary: states)
  case (Cons p ps)
  then obtain mid where mid: "registry_add m states p = Inr mid" "registry_add_all m ps mid = Inr states'"
    by (auto elim!: bindR_InrE)
  have "length mid = length states \<and> map life_cycle_state mid = map life_cycle_state states"
  proof (cases "mid = states")
    case False
    then obtain i f where i: "mid = states[i := f (states ! i)]" "\<And>p. life_cycle_state (f p) = life_cycle_state p"
      using mid(1) by (auto simp: registry_add_def Let_def split: if_splits)
    then show ?thesis
      by (cases "i < length states") (auto intro!: nth_equalityI simp: nth_list_update list_update_beyond)
  qed simp
  then show ?case using Cons.IH [OF mid(2)] by simp
qed simp

lemma init_states_result:
  assumes "ca_monitor_init_states E s = Inr s'" and "length (protocon_states s) = 16"
  shows "idle_like s s'" and "dlg s' = dlg s" and "num_pc s' = ucast (delegator_count (dlg s))"
    and "0 < unat (num_pc s')" and "unat (num_pc s') \<le> 16"
    and "\<forall>j < unat (num_pc s'). lifecycles s' ! j = PROTOCON_PASSIVE"
    and "monitored_protocon_count s' = ucast (num_pc s')" and "peer_policy s' = replicate 16 0"
proof -
  let ?n = "ucast (delegator_count (dlg s)) :: u64"
  obtain s1 s2 states where r: "delegator_count (dlg s) \<noteq> 0" "unat (delegator_count (dlg s)) \<le> 16"
    "s1 = s\<lparr>num_pc := ?n\<rparr>" "init_protocon_loop E (unat ?n) 0 s1 = Inr s2"
    "service_registry_create (memory s2) (Some (svc s2)) (protocon_states s2) = Inr states"
    "s' = monitor_acl_initialise (ucast (num_pc s2)) (s2\<lparr>protocon_states := states\<rparr>)"
    using assms(1)
    by (auto simp: ca_monitor_init_states_def ca_monitor_init_get_pcnum_def ca_monitor_init_validate_pc_count_def
        ca_monitor_init_protocon_states_def Let_def monitor_consts split: if_splits elim!: bindR_InrE)
  have n: "unat ?n \<le> 16" "0 < unat ?n" using r(1,2) by (simp_all add: unat_gt_0)
  have loop: "idle_like s1 s2 \<and> dlg s2 = dlg s1 \<and> svc s2 = svc s1 \<and> num_pc s2 = num_pc s1
    \<and> (\<forall>j. 0 \<le> j \<and> j < 0 + unat ?n \<longrightarrow> lifecycles s2 ! j = PROTOCON_PASSIVE)
    \<and> (\<forall>j. j < 0 \<longrightarrow> lifecycles s2 ! j = lifecycles s1 ! j)"
    by (rule init_loop_result [OF r(4)]) (use n(1) assms(2) r(3) in simp_all)
  have reg: "length states = length (protocon_states s2) \<and> map life_cycle_state states = map life_cycle_state (protocon_states s2)"
    using registry_shape r(5) by (simp add: service_registry_create_def)
  show "idle_like s s'" "dlg s' = dlg s" "num_pc s' = ucast (delegator_count (dlg s))"
    using loop reg by (simp_all add: r(3,6) idle_like_def monitor_acl_initialise_def)
  then show "0 < unat (num_pc s')" "unat (num_pc s') \<le> 16" using n by simp_all
  have "lifecycles s' = lifecycles s2" using reg by (simp add: r(6) monitor_acl_initialise_def lifecycles_def)
  then show "\<forall>j < unat (num_pc s'). lifecycles s' ! j = PROTOCON_PASSIVE"
    using loop \<open>num_pc s' = ucast (delegator_count (dlg s))\<close> by simp
  show "monitored_protocon_count s' = ucast (num_pc s')" "peer_policy s' = replicate 16 0"
    by (simp_all add: r(6) monitor_acl_initialise_def monitor_consts)
qed

lemma init_establishes:
  assumes "ca_monitor_init_system E (zero_globals E s) = Inr s'"
  shows "monitor_inv E (s', CoNone)"
    and "num_pc s' = ucast (delegator_count (dlg s'))" and "0 < unat (num_pc s')" and "unat (num_pc s') \<le> 16"
    and "\<forall>j < unat (num_pc s'). lifecycles s' ! j = PROTOCON_PASSIVE" and "peer_policy s' = replicate 16 0"
proof -
  obtain s1 where s1: "ca_monitor_init_storage E (zero_globals E s) = Inr s1" "ca_monitor_init_states E s1 = Inr s'"
    using assms by (auto simp: ca_monitor_init_system_def ca_monitor_init_cothread_spawn_def split: if_splits elim!: bindR_InrE)
  have z: "length (protocon_states (zero_globals E s)) = 16" "\<not> deploy_request_active (zero_globals E s)"
    by (simp_all add: zero_globals_def monitor_consts)
  then have len: "length (protocon_states s1) = 16" and idle1: "\<not> deploy_request_active s1"
    using init_storage_result(1) [OF s1(1)] by (simp_all add: idle_like_def)
  note r = init_states_result [OF s1(2) len]
  have idle: "\<not> deploy_request_active s'" "length (protocon_states s') = 16"
    using r(1) idle1 len by (simp_all add: idle_like_def)
  have "ucast (ucast (num_pc s') :: u32) = num_pc s'"
    by (rule bit_word_eqI) (auto simp: bit_ucast_iff r(3) dest: bit_imp_le_length)
  moreover have "mask_ok n i (replicate 16 (0 :: u32) ! i)" if "i < 16" for n i using that by simp
  ultimately have "base_ok s'" using r idle by (simp add: base_defs)
  then show "monitor_inv E (s', CoNone)" using idle by (simp add: monitor_inv_def)
  show "num_pc s' = ucast (delegator_count (dlg s'))" "0 < unat (num_pc s')" "unat (num_pc s') \<le> 16"
    "\<forall>j < unat (num_pc s'). lifecycles s' ! j = PROTOCON_PASSIVE" "peer_policy s' = replicate 16 0"
    using r by simp_all
qed

section \<open>Properties\<close>

text \<open>C10: when initialisation returns, the monitor is idle and its invariant holds; there is a protocon for each
  delegator of the database that was parsed, between one and 16, all of them free and none willing to
  talk to another.\<close>

theorem initialised_monitor:
  "case ca_monitor_init_system E (zero_globals E s) of
     Inl _ \<Rightarrow> True
   | Inr s' \<Rightarrow> monitor_inv E (s', CoNone)
       \<and> num_pc s' = ucast (delegator_count (dlg s')) \<and> 0 < unat (num_pc s') \<and> unat (num_pc s') \<le> 16
       \<and> list_all (\<lambda>i. lifecycles s' ! i = PROTOCON_PASSIVE) [0..<unat (num_pc s')]
       \<and> peer_policy s' = replicate 16 0"
proof (cases "ca_monitor_init_system E (zero_globals E s)")
  case (Inr s')
  then show ?thesis using init_establishes [OF Inr] by (simp add: list_all_iff)
qed simp

end
