(* ===== verification/Packed_Struct.thy ===== *)
theory Packed_Struct
  imports Carrels_Memory
begin

unbundle bit_operations_syntax

text \<open>
  Packed structs: a struct is the sequence of its fields without padding, integers in little endian.
  The interface states what a struct's fields are; copying a struct to bytes and back is proved once.
\<close>

section \<open>Integers\<close>

definition le_word :: "u8 list \<Rightarrow> 'a::len word" where
  "le_word bs = foldr (\<lambda>b w. ucast b OR push_bit 8 w) bs 0"

lemma le_word_simps [simp]:
  "le_word [] = 0"
  "le_word (b # bs) = ucast b OR push_bit 8 (le_word bs)"
  by (simp_all add: le_word_def)

lemma bit_le_word:
  "bit (le_word bs :: 'a::len word) j \<longleftrightarrow> j < LENGTH('a) \<and> j div 8 < length bs \<and> bit (bs ! (j div 8)) (j mod 8)"
proof (induction bs arbitrary: j)
  case (Cons b bs)
  show ?case
  proof (cases "j < 8")
    case True
    then show ?thesis by (auto simp: bit_simps)
  next
    case False
    then obtain i where i: "j = i + 8" by (metis add.commute le_Suc_ex not_less)
    have "\<not> bit b (i + 8)" using bit_imp_le_length [of b "i + 8"] by auto
    moreover have "(i + 8) div 8 = Suc (i div 8)" by simp
    ultimately show ?thesis using Cons.IH [of i] i by (auto simp: bit_simps)
  qed
qed simp

lemma le_word_le_bytes:
  fixes w :: "'a::len word"
  assumes "LENGTH('a) = 8 * n"
  shows "le_word (le_bytes n w) = w"
proof (rule bit_word_eqI)
  fix j
  assume "j < LENGTH('a)"
  then have "j div 8 < n" using assms by simp
  then show "bit (le_word (le_bytes n w) :: 'a word) j = bit w j"
    using \<open>j < LENGTH('a)\<close> by (simp add: bit_le_word le_bytes_def bit_simps)
qed

lemma le_bytes_le_word:
  assumes "LENGTH('a::len) = 8 * length bs"
  shows "le_bytes (length bs) (le_word bs :: 'a word) = bs"
proof (rule nth_equalityI)
  fix i
  assume "i < length (le_bytes (length bs) (le_word bs :: 'a word))"
  then have i: "i < length bs" by simp
  show "le_bytes (length bs) (le_word bs :: 'a word) ! i = bs ! i"
  proof (rule bit_word_eqI)
    fix j
    assume "j < LENGTH(8)"
    then show "bit (le_bytes (length bs) (le_word bs :: 'a word) ! i) j = bit (bs ! i) j"
      using i assms by (simp add: le_bytes_def bit_simps bit_le_word)
  qed
qed simp

lemmas le_words [simp] =
  le_word_le_bytes [of 2, where ?'a = 16, simplified] le_word_le_bytes [of 4, where ?'a = 32, simplified]
  le_word_le_bytes [of 8, where ?'a = 64, simplified]

lemma le_bytes_fields [simp]:
  "length a = 2 \<Longrightarrow> le_bytes 2 (le_word a :: u16) = a"
  "length a = 4 \<Longrightarrow> le_bytes 4 (le_word a :: u32) = a"
  "length a = 8 \<Longrightarrow> le_bytes 8 (le_word a :: u64) = a"
  using le_bytes_le_word [of a, where ?'a = 16] le_bytes_le_word [of a, where ?'a = 32]
    le_bytes_le_word [of a, where ?'a = 64]
  by simp_all

section \<open>Fields\<close>

fun split_fields :: "nat list \<Rightarrow> u8 list \<Rightarrow> u8 list list" where
  "split_fields [] bs = []"
| "split_fields (n # ns) bs = take n bs # split_fields ns (drop n bs)"

definition pack :: "('r \<Rightarrow> u8 list list) \<Rightarrow> 'r \<Rightarrow> u8 list" where
  "pack fields_of r = concat (fields_of r)"

definition unpack :: "nat list \<Rightarrow> (u8 list list \<Rightarrow> 'r) \<Rightarrow> u8 list \<Rightarrow> 'r" where
  "unpack sizes of_fields bs = of_fields (split_fields sizes bs)"

lemma split_concat: "split_fields (map length xs) (concat xs @ rest) = xs"
  by (induction xs) simp_all

lemma split_fields_sizes: "sum_list ns \<le> length bs \<Longrightarrow> map length (split_fields ns bs) = ns"
  by (induction ns arbitrary: bs) simp_all

lemma concat_split: "length bs = sum_list ns \<Longrightarrow> concat (split_fields ns bs) = bs"
  by (induction ns arbitrary: bs) simp_all

locale packed_struct =
  fixes fields_of :: "'r \<Rightarrow> u8 list list"
    and of_fields :: "u8 list list \<Rightarrow> 'r"
    and sizes :: "nat list"
    and valid :: "'r \<Rightarrow> bool"
  assumes field_sizes: "valid r \<Longrightarrow> map length (fields_of r) = sizes"
    and of_fields_of: "valid r \<Longrightarrow> of_fields (fields_of r) = r"
    and fields_of_of: "map length xs = sizes \<Longrightarrow> fields_of (of_fields xs) = xs"
    and valid_of_fields: "map length xs = sizes \<Longrightarrow> valid (of_fields xs)"
begin

lemma length_pack: "valid r \<Longrightarrow> length (pack fields_of r) = sum_list sizes"
  using field_sizes [of r] by (simp add: pack_def length_concat)

text \<open>Reading a struct from the front of a buffer.\<close>

lemma unpack_pack: "valid r \<Longrightarrow> unpack sizes of_fields (pack fields_of r @ rest) = r"
  using split_concat [of "fields_of r" rest]
  by (simp add: unpack_def pack_def field_sizes of_fields_of)

lemma unpack_pack_all: "valid r \<Longrightarrow> unpack sizes of_fields (pack fields_of r) = r"
  using unpack_pack [of r "[]"] by simp

lemma pack_unpack:
  assumes "length bs = sum_list sizes"
  shows "pack fields_of (unpack sizes of_fields bs) = bs"
  using assms fields_of_of [of "split_fields sizes bs"]
  by (simp add: pack_def unpack_def split_fields_sizes concat_split)

lemma valid_unpack: "sum_list sizes \<le> length bs \<Longrightarrow> valid (unpack sizes of_fields bs)"
  unfolding unpack_def by (rule valid_of_fields) (rule split_fields_sizes)

lemma unpack_take: "sum_list sizes \<le> n \<Longrightarrow> unpack sizes of_fields (take n bs) = unpack sizes of_fields bs"
proof -
  have "split_fields ns (take k bs) = split_fields ns bs" if "sum_list ns \<le> k" for ns k
    using that by (induction ns arbitrary: bs k) (simp_all add: drop_take min_def)
  then show "sum_list sizes \<le> n \<Longrightarrow> ?thesis" by (simp add: unpack_def)
qed

end

end
