(* ===== verification/Orch_Parse.thy ===== *)
theory Orch_Parse
  imports C_Strings
begin

unbundle bit_operations_syntax

text \<open>
  The arguments of the orchestrator's shell (\<open>src/orchestrator/orchestrator.c\<close>): decimal numbers,
  lists of peer ports and their printed form, and the image names of the container runtime. Arguments
  are terminated by the line editor, so they are the bytes before the zero.
\<close>

section \<open>Decimal numbers\<close>

definition is_digit :: "u8 \<Rightarrow> bool" where
  "is_digit c \<longleftrightarrow> 48 \<le> c \<and> c \<le> 57"

definition digit_of :: "u8 \<Rightarrow> u32" where
  "digit_of c = ucast (c - 48)"

definition UINT32_MAX :: u32 where "UINT32_MAX = 0xFFFFFFFF"

fun parse_digits :: "u8 list \<Rightarrow> u32 \<Rightarrow> u32 option" where
  "parse_digits [] val = Some val"
| "parse_digits (c # str) val =
     (if \<not> is_digit c then None
      else if val > (UINT32_MAX - digit_of c) div 10 then None
      else parse_digits str (val * 10 + digit_of c))"

definition parse_u32_decimal :: "u8 list \<Rightarrow> u32 option" where
  "parse_u32_decimal str = (if str = [] then None else parse_digits str 0)"

text \<open>The number a list of digits stands for.\<close>

definition decimal_value :: "nat \<Rightarrow> u8 list \<Rightarrow> nat" where
  "decimal_value v str = foldl (\<lambda>v c. v * 10 + (unat c - 48)) v str"

lemma decimal_value_simps [simp]:
  "decimal_value v [] = v"
  "decimal_value v (c # str) = decimal_value (v * 10 + (unat c - 48)) str"
  "decimal_value v (str @ [c]) = decimal_value v str * 10 + (unat c - 48)"
  by (simp_all add: decimal_value_def)

lemma decimal_value_ge: "v \<le> decimal_value v str"
proof (induction str arbitrary: v)
  case (Cons c str)
  have "v \<le> v * 10 + (unat c - 48)" by simp
  also have "\<dots> \<le> decimal_value (v * 10 + (unat c - 48)) str" by (rule Cons)
  finally show ?case by simp
qed simp

lemma digit_range: "is_digit c \<longleftrightarrow> 48 \<le> unat c \<and> unat c \<le> 57"
  by (simp add: is_digit_def word_le_nat_alt)

lemma unat_digit: "is_digit c \<Longrightarrow> unat (digit_of c) = unat c - 48"
  by (simp add: digit_of_def is_digit_def unat_sub)

lemma unat_digit_le: "is_digit c \<Longrightarrow> unat (digit_of c) \<le> 9"
  by (auto simp: unat_digit digit_range)

text \<open>The overflow test of the code is exact.\<close>

lemma accumulate_fits:
  assumes "is_digit c"
  shows "val > (UINT32_MAX - digit_of c) div 10 \<longleftrightarrow> 2 ^ 32 \<le> unat val * 10 + (unat c - 48)"
proof -
  have d: "unat (digit_of c) = unat c - 48" "unat c - 48 \<le> 9"
    using assms unat_digit unat_digit_le [OF assms] by simp_all
  have "unat (UINT32_MAX - digit_of c) = 4294967295 - (unat c - 48)"
    using d by (subst unat_sub) (simp_all add: UINT32_MAX_def word_le_nat_alt)
  then have "unat ((UINT32_MAX - digit_of c) div 10) = (4294967295 - (unat c - 48)) div 10"
    by (simp add: unat_div_distrib)
  then show ?thesis using d(2) by (simp add: word_less_nat_alt) linarith
qed

lemma accumulate_value:
  assumes "is_digit c" and "unat val * 10 + (unat c - 48) < 2 ^ 32"
  shows "unat (val * 10 + digit_of c) = unat val * 10 + (unat c - 48)"
  using assms unat_digit [OF assms(1)] by (simp add: unat_word_ariths)

lemma parse_digits_iff:
  "parse_digits str val = Some v \<longleftrightarrow>
     (\<forall>c \<in> set str. is_digit c) \<and> decimal_value (unat val) str < 2 ^ 32
     \<and> unat v = decimal_value (unat val) str"
proof (induction str arbitrary: val)
  case Nil
  then show ?case using u32_lt [of val] by (auto simp: word_unat_eq_iff)
next
  case (Cons c str)
  let ?n = "unat val * 10 + (unat c - 48)"
  show ?case
  proof (cases "is_digit c \<and> ?n < 2 ^ 32")
    case True
    then have "\<not> val > (UINT32_MAX - digit_of c) div 10" using accumulate_fits [of c val] by simp
    then show ?thesis using True Cons.IH [of "val * 10 + digit_of c"] accumulate_value [of c val]
      by simp
  next
    case False
    have "?n \<le> decimal_value ?n str" by (rule decimal_value_ge)
    then show ?thesis using False accumulate_fits [of c val] by auto
  qed
qed

lemma decimal_digits: "c \<in> set (decimal n) \<Longrightarrow> is_digit c"
proof (induction n rule: decimal.induct)
  case (1 n)
  have d: "is_digit (48 + word_of_nat k)" if "k < 10" for k
    using that by (simp add: digit_range unat_word_ariths unat_of_nat take_bit_eq_mod)
  show ?case using 1 d [of n] d [of "n mod 10"] by (subst (asm) (2) decimal.simps) (auto split: if_splits)
qed

lemma decimal_value_decimal: "decimal_value 0 (decimal n) = n"
proof (induction n rule: decimal.induct)
  case (1 n)
  have d: "unat (48 + word_of_nat k :: u8) = 48 + k" if "k < 10" for k
    using that by (simp add: unat_word_ariths unat_of_nat take_bit_eq_mod)
  show ?case using 1 d [of n] d [of "n mod 10"] by (subst decimal.simps) simp
qed

lemma decimal_not_Nil [simp]: "decimal n \<noteq> []"
  by (subst decimal.simps) simp

lemma parse_decimal [simp]: "parse_u32_decimal (decimal (unat v)) = Some v"
  using parse_digits_iff [of "decimal (unat v)" 0 v] u32_lt [of v]
  by (simp add: parse_u32_decimal_def decimal_value_decimal decimal_digits)

section \<open>Lists of ports\<close>

text \<open>The inner loop of \<open>parse_peer_ports\<close>: the port, whether it has a digit, and where the cursor stops.\<close>

fun port_digits :: "u8 list \<Rightarrow> u32 \<Rightarrow> bool \<Rightarrow> (u32 \<times> bool \<times> u8 list) option" where
  "port_digits [] port has_digit = Some (port, has_digit, [])"
| "port_digits (c # cursor) port has_digit =
     (if is_digit c
      then if port > (UINT32_MAX - digit_of c) div 10 then None
           else port_digits cursor (port * 10 + digit_of c) True
      else Some (port, has_digit, c # cursor))"

lemma port_digits_rest: "port_digits cursor p h = Some (port, has_digit, rest) \<Longrightarrow> length rest \<le> length cursor"
  by (induction cursor p h rule: port_digits.induct) (auto split: if_splits)

function parse_ports :: "u32 \<Rightarrow> u32 \<Rightarrow> u8 list \<Rightarrow> u32 \<Rightarrow> u32 option" where
  "parse_ports max_ports target_pc cursor peer_mask =
     (if cursor = [] then Some peer_mask
      else case port_digits cursor 0 False of
        None \<Rightarrow> None
      | Some (port, has_digit, rest) \<Rightarrow>
          if \<not> has_digit \<or> port \<ge> max_ports \<or> port = target_pc then None
          else
            let peer_mask = peer_mask OR push_bit (unat port) 1
            in case rest of
                 [] \<Rightarrow> Some peer_mask
               | c # cursor' \<Rightarrow>
                   if c \<noteq> 44 then None else if cursor' = [] then None
                   else parse_ports max_ports target_pc cursor' peer_mask)"
  by auto
termination
  by (relation "measure (\<lambda>(max_ports, target_pc, cursor, peer_mask). length cursor)")
    (auto dest!: port_digits_rest)

declare parse_ports.simps [simp del]

text \<open>The number of ports is a parameter of the build.\<close>

definition parse_peer_ports :: "u32 \<Rightarrow> u8 list \<Rightarrow> u32 \<Rightarrow> (u32 \<times> bool) option" where
  "parse_peer_ports max_ports str target_pc =
     (if str = c_bytes ''all'' then Some (0, True)
      else map_option (\<lambda>peer_mask. (peer_mask, False)) (parse_ports max_ports target_pc str 0))"

text \<open>\<open>print_peer_ports\<close>: the text it prints.\<close>

definition print_peer_ports :: "u32 \<Rightarrow> u32 \<Rightarrow> u8 list" where
  "print_peer_ports max_ports peer_mask =
     (let (out, first) = fold (\<lambda>port (out, first).
            if peer_mask AND push_bit port 1 = 0 then (out, first)
            else (out @ (if first then [] else [44]) @ decimal port, False)) [0..<unat max_ports] ([], True)
      in if first then out @ c_bytes ''none'' else out)"

section \<open>What a list of ports means\<close>

fun comma_join :: "u8 list list \<Rightarrow> u8 list" where
  "comma_join [] = []"
| "comma_join [w] = w"
| "comma_join (w # ws) = w @ 44 # comma_join ws"

definition ports_mask :: "u32 list \<Rightarrow> u32" where
  "ports_mask ps = fold (\<lambda>p m. m OR push_bit (unat p) 1) ps 0"

text \<open>\<open>str\<close> is the ports \<open>ps\<close>, written in decimal and separated by commas.\<close>

definition lists_ports :: "u8 list \<Rightarrow> u32 list \<Rightarrow> bool" where
  "lists_ports str ps \<longleftrightarrow> (\<exists>ws. str = comma_join ws \<and> map parse_u32_decimal ws = map Some ps)"

lemma comma_join_Cons: "comma_join (w # ws) = w @ (if ws = [] then [] else 44 # comma_join ws)"
  by (cases ws) simp_all

lemma port_digits_iff:
  "port_digits str v h = Some (port, has_digit, rest) \<longleftrightarrow>
     (\<exists>ds. str = ds @ rest \<and> parse_digits ds v = Some port \<and> (rest = [] \<or> \<not> is_digit (hd rest))
        \<and> has_digit = (h \<or> ds \<noteq> []))"
proof (induction str arbitrary: v h)
  case (Cons c str)
  show ?case
  proof (cases "is_digit c")
    case True
    have "port_digits (c # str) v h = Some (port, has_digit, rest) \<longleftrightarrow>
        \<not> v > (UINT32_MAX - digit_of c) div 10
        \<and> (\<exists>ds. str = ds @ rest \<and> parse_digits ds (v * 10 + digit_of c) = Some port
             \<and> (rest = [] \<or> \<not> is_digit (hd rest)) \<and> has_digit)"
      using True Cons.IH [of "v * 10 + digit_of c" True] by auto
    also have "\<dots> \<longleftrightarrow> (\<exists>ds. c # str = ds @ rest \<and> parse_digits ds v = Some port
        \<and> (rest = [] \<or> \<not> is_digit (hd rest)) \<and> has_digit = (h \<or> ds \<noteq> []))"
      using True by (auto simp: Cons_eq_append_conv split: if_splits)
    finally show ?thesis .
  next
    case False
    have "ds = []" if "c # str = ds @ rest" "parse_digits ds v = Some port" for ds
      using that False by (cases ds) auto
    then show ?thesis using False by fastforce
  qed
qed auto

lemma parse_digits_comma: "parse_digits ds v = Some p \<Longrightarrow> 44 \<notin> set ds"
  by (auto simp: parse_digits_iff is_digit_def)

lemma ports_mask_fold: "fold (\<lambda>p m. m OR push_bit (unat p) 1) ps m0 = m0 OR ports_mask ps"
proof (induction ps arbitrary: m0)
  case Nil
  then show ?case by (simp add: ports_mask_def)
next
  case (Cons p ps)
  have "ports_mask (p # ps) = push_bit (unat p) 1 OR ports_mask ps"
    using Cons [of "push_bit (unat p) 1"] by (simp add: ports_mask_def)
  then show ?case using Cons [of "m0 OR push_bit (unat p) 1"] by (simp add: or.assoc)
qed

lemma ports_mask_Cons: "m OR ports_mask (p # ps) = (m OR push_bit (unat p) 1) OR ports_mask ps"
  using ports_mask_fold [of "p # ps" m] ports_mask_fold [of ps "m OR push_bit (unat p) 1"] by simp

lemma ports_mask_Nil [simp]: "ports_mask [] = 0"
  by (simp add: ports_mask_def)

lemma parse_ports_sound:
  "parse_ports max_ports t str m = Some m' \<Longrightarrow>
     \<exists>ps. lists_ports str ps \<and> (\<forall>p \<in> set ps. p < max_ports \<and> p \<noteq> t) \<and> m' = m OR ports_mask ps"
proof (induction max_ports t str m rule: parse_ports.induct)
  case (1 max_ports t str m)
  show ?case
  proof (cases "str = []")
    case True
    then show ?thesis using 1(2)
      by (intro exI [of _ "[]"]) (simp add: parse_ports.simps lists_ports_def exI [of _ "[]"])
  next
    case False
    then obtain port rest where pd: "port_digits str 0 False = Some (port, True, rest)"
      and ok: "port < max_ports" "port \<noteq> t"
      and go: "(case rest of [] \<Rightarrow> Some (m OR push_bit (unat port) 1)
         | c # str' \<Rightarrow> if c \<noteq> 44 then None else if str' = [] then None
              else parse_ports max_ports t str' (m OR push_bit (unat port) 1)) = Some m'"
      using 1(2) [unfolded parse_ports.simps [of max_ports t str m]]
      by (auto simp: Let_def not_le simp del: push_bit_of_1 split: option.splits if_splits)
    then obtain w where w: "str = w @ rest" "parse_u32_decimal w = Some port"
      by (auto simp: port_digits_iff parse_u32_decimal_def)
    show ?thesis
    proof (cases rest)
      case Nil
      have "lists_ports str [port]" using w Nil unfolding lists_ports_def by (intro exI [of _ "[w]"]) simp
      then show ?thesis using go Nil ok ports_mask_Cons [of m port "[]"] by (intro exI [of _ "[port]"]) simp
    next
      case (Cons c str')
      then have c: "c = 44" "str' \<noteq> []" "parse_ports max_ports t str' (m OR push_bit (unat port) 1) = Some m'"
        using go by (auto split: if_splits)
      obtain ps where ps: "lists_ports str' ps" "\<forall>p \<in> set ps. p < max_ports \<and> p \<noteq> t"
          "m' = (m OR push_bit (unat port) 1) OR ports_mask ps"
        using 1(1) [OF False pd refl refl _ refl Cons] c ok by (auto simp: not_le)
      obtain ws where ws: "str' = comma_join ws" "map parse_u32_decimal ws = map Some ps"
        using ps(1) by (auto simp: lists_ports_def)
      have "ws \<noteq> []" using ws(1) c(2) by auto
      then have "lists_ports str (port # ps)"
        using ws w Cons c(1) unfolding lists_ports_def
        by (intro exI [of _ "w # ws"]) (simp add: comma_join_Cons)
      then show ?thesis using ps(2,3) ok by (intro exI [of _ "port # ps"]) (simp add: ports_mask_Cons)
    qed
  qed
qed

lemma parse_ports_complete:
  "map parse_u32_decimal ws = map Some ps \<Longrightarrow> \<forall>p \<in> set ps. p < max_ports \<and> p \<noteq> t \<Longrightarrow>
     parse_ports max_ports t (comma_join ws) m = Some (m OR ports_mask ps)"
proof (induction ws arbitrary: ps m)
  case Nil
  then show ?case by (simp add: parse_ports.simps)
next
  case (Cons w ws)
  then obtain p ps' where ps: "ps = p # ps'" "parse_u32_decimal w = Some p" "map parse_u32_decimal ws = map Some ps'"
    by (cases ps) auto
  let ?rest = "if ws = [] then [] else 44 # comma_join ws"
  have w: "w \<noteq> []" "parse_digits w 0 = Some p" using ps(2) by (auto simp: parse_u32_decimal_def split: if_splits)
  have pd: "port_digits (w @ ?rest) 0 False = Some (p, True, ?rest)"
    unfolding port_digits_iff using w by (intro exI [of _ w]) (auto simp: is_digit_def)
  have ne: "comma_join ws \<noteq> []" if ws: "ws \<noteq> []"
  proof -
    obtain w' ws' where "ws = w' # ws'" using ws by (cases ws) auto
    then show ?thesis using ps(3) by (cases ps') (auto simp: comma_join_Cons parse_u32_decimal_def split: if_splits)
  qed
  have "parse_ports max_ports t (comma_join (w # ws)) m
      = (if ws = [] then Some (m OR push_bit (unat p) 1)
         else parse_ports max_ports t (comma_join ws) (m OR push_bit (unat p) 1))"
    using pd w ne Cons.prems(2) ps(1) by (subst parse_ports.simps) (auto simp: comma_join_Cons)
  also have "\<dots> = Some (m OR ports_mask ps)"
    using Cons.IH [OF ps(3)] Cons.prems(2) ps(1,3) by (auto simp: ports_mask_Cons)
  finally show ?case .
qed

lemma parse_ports_iff:
  "parse_ports max_ports t str m = Some m' \<longleftrightarrow>
     (\<exists>ps. lists_ports str ps \<and> (\<forall>p \<in> set ps. p < max_ports \<and> p \<noteq> t) \<and> m' = m OR ports_mask ps)"
  using parse_ports_sound [of max_ports t str m m'] parse_ports_complete by (auto simp: lists_ports_def)

section \<open>Images, completion and input\<close>

definition K8S_C_HELLO_IMAGE :: "u8 list" where
  "K8S_C_HELLO_IMAGE = c_bytes ''carrels.local/c-hello:latest'' @ [0]"

definition K8S_C_HELLO_IMAGE_REF :: "u8 list" where
  "K8S_C_HELLO_IMAGE_REF = c_bytes ''carrels-image://'' @ K8S_C_HELLO_IMAGE"

definition K8S_C_HELLO_FILE :: "u8 list" where
  "K8S_C_HELLO_FILE = c_bytes ''c-hello.img'' @ [0]"

text \<open>The test that \<open>image_to_filename\<close> and \<open>orchestrator_cri_image_exists\<close> share.\<close>

definition known_image :: "u8 list \<Rightarrow> bool res" where
  "known_image img =
     bindR (strcmp_eq img K8S_C_HELLO_IMAGE) (\<lambda>same.
     if same then Inr True else strcmp_eq img K8S_C_HELLO_IMAGE_REF)"

text \<open>The new contents of the buffer \<open>filename\<close>, or nothing when the image is refused.\<close>

definition image_to_filename :: "u8 list \<Rightarrow> u8 list \<Rightarrow> u8 list option res" where
  "image_to_filename img filename =
     bindR (known_image img) (\<lambda>known.
     if \<not> known \<or> length K8S_C_HELLO_FILE > length filename then Inr None
     else Inr (Some (K8S_C_HELLO_FILE @ drop (length K8S_C_HELLO_FILE) filename)))"

definition shell_commands :: "u8 list list" where
  "shell_commands = map c_bytes [''start'', ''lspcs'', ''flip'', ''set-acl'', ''deploy'', ''stop'', ''suspend'',
     ''resume'', ''help'']"

definition shell_complete :: "u8 list list \<Rightarrow> u8 list list" where
  "shell_complete argv =
     (if length argv > 1 then []
      else
        let prefix = (if length argv = 1 then argv ! 0 else [])
        in filter (\<lambda>cmd. strncmp_eq (length prefix) (cmd @ [0]) (prefix @ [0]) = Inr True) shell_commands)"

definition shell_normalise_input :: "u8 \<Rightarrow> u8" where
  "shell_normalise_input c = (if c = 0x02 \<or> c = 0x08 \<or> c = 0x7f then 0x7f else c)"

lemma known_image_iff:
  assumes "terminated img"
  shows "known_image img =
    Inr (c_string img \<in> {c_string K8S_C_HELLO_IMAGE, c_string K8S_C_HELLO_IMAGE_REF})"
  using assms
  by (simp add: known_image_def strcmp_eq_terminated K8S_C_HELLO_IMAGE_REF_def K8S_C_HELLO_IMAGE_def)

section \<open>Printing is the inverse of parsing\<close>

lemma comma_join_snoc: "comma_join (ws @ [w]) = comma_join ws @ (if ws = [] then [] else [44]) @ w"
  by (induction ws rule: comma_join.induct) auto

text \<open>The ports of a mask, in order.\<close>

definition mask_ports :: "u32 \<Rightarrow> u32 \<Rightarrow> u32 list" where
  "mask_ports max_ports peer_mask = map word_of_nat (filter (bit peer_mask) [0..<unat max_ports])"

lemma mask_test_bit: "peer_mask AND push_bit port 1 = 0 \<longleftrightarrow> \<not> bit peer_mask port" for peer_mask :: u32
by (simp add: push_bit_of_1 and_exp_eq_0_iff_not_bit)

lemma print_loop:
  "fold (\<lambda>port (out, first). if peer_mask AND push_bit port 1 = 0 then (out, first)
       else (out @ (if first then [] else [44]) @ decimal port, False)) [0..<k] ([], True)
   = (let ps = filter (bit peer_mask) [0..<k] in (comma_join (map decimal ps), ps = []))"
  for peer_mask :: u32
proof (induction k)
  case (Suc k)
  show ?case
    using Suc unfolding mask_test_bit
    by (simp add: Let_def comma_join_snoc)
qed (simp add: Let_def)

lemma print_peer_ports_join:
  "print_peer_ports max_ports peer_mask =
     (let ps = filter (bit peer_mask) [0..<unat max_ports]
      in if ps = [] then c_bytes ''none'' else comma_join (map decimal ps))"
  unfolding print_peer_ports_def print_loop by (simp add: Let_def)

lemma bit_ports_mask: "bit (ports_mask ps) j \<longleftrightarrow> (\<exists>p \<in> set ps. unat p = j) \<and> j < 32"
proof (induction ps)
  case (Cons p ps)
  have "ports_mask (p # ps) = push_bit (unat p) 1 OR ports_mask ps"
    using ports_mask_Cons [of 0 p ps] by simp
  then show ?case using Cons by (auto simp: bit_simps simp del: push_bit_of_1)
qed simp

lemma unat_port: "p < 32 \<Longrightarrow> unat (word_of_nat p :: u32) = p"
  by (simp add: unat_of_nat take_bit_eq_mod)

lemma parse_port: "p < 32 \<Longrightarrow> parse_u32_decimal (decimal p) = Some (word_of_nat p)"
  using parse_decimal [of "word_of_nat p"] unat_port [of p] by simp

lemma printed_ports:
  assumes "unat max_ports \<le> 32" and "filter (bit peer_mask) [0..<unat max_ports] \<noteq> []"
  shows "lists_ports (print_peer_ports max_ports peer_mask) (mask_ports max_ports peer_mask)"
  unfolding lists_ports_def
  using assms
  by (intro exI [of _ "map decimal (filter (bit peer_mask) [0..<unat max_ports])"])
    (auto simp: print_peer_ports_join Let_def mask_ports_def parse_port)

lemma mask_of_mask_ports:
  assumes "unat max_ports \<le> 32" and "\<forall>j. bit peer_mask j \<longrightarrow> j < unat max_ports"
  shows "ports_mask (mask_ports max_ports peer_mask) = peer_mask"
proof (rule bit_word_eqI)
  fix j
  assume "j < LENGTH(32)"
  then have j: "j < 32" by simp
  have "bit (ports_mask (mask_ports max_ports peer_mask)) j
      \<longleftrightarrow> (\<exists>p < unat max_ports. bit peer_mask p \<and> unat (word_of_nat p :: u32) = j)"
    using j by (auto simp: bit_ports_mask mask_ports_def)
  also have "\<dots> \<longleftrightarrow> bit peer_mask j"
    using assms by (metis unat_port order_less_le_trans)
  finally show "bit (ports_mask (mask_ports max_ports peer_mask)) j = bit peer_mask j" .
qed

text \<open>What the parser lets through: ports below the maximum, without the target.\<close>

lemma parse_peer_ports_bits:
  assumes "parse_peer_ports max_ports str target_pc = Some (peer_mask, peers_all)" and "bit peer_mask j"
  shows "j < unat max_ports \<and> j \<noteq> unat target_pc"
proof -
  obtain ps where "peer_mask = ports_mask ps" "\<forall>p \<in> set ps. p < max_ports \<and> p \<noteq> target_pc"
    using assms by (auto simp: parse_peer_ports_def parse_ports_iff split: if_splits)
  moreover from this have "\<exists>p \<in> set ps. unat p = j" using assms(2) by (simp add: bit_ports_mask)
  ultimately show ?thesis by (auto simp: word_less_nat_alt word_unat_eq_iff)
qed

lemma all_is_no_list: "parse_ports max_ports t (c_bytes ''all'') m = None"
  by (subst parse_ports.simps) (simp add: c_bytes_def is_digit_def)

section \<open>Properties\<close>

text \<open>\<open>parse_u32_decimal\<close> accepts exactly the non-empty strings of digits whose number fits 32 bits, and
  returns that number; there is no wrap-around.\<close>

theorem parse_u32_decimal_iff:
  "parse_u32_decimal str = Some v \<longleftrightarrow>
     str \<noteq> [] \<and> (\<forall>c \<in> set str. is_digit c) \<and> decimal_value 0 str < 2 ^ 32 \<and> unat v = decimal_value 0 str"
  by (simp add: parse_u32_decimal_def parse_digits_iff)

theorem parse_u32_decimal_iff_witness:
  "parse_u32_decimal (c_bytes ''4294967295'') = Some 0xFFFFFFFF
   \<and> parse_u32_decimal (c_bytes ''4294967296'') \<noteq> Some 0"
  unfolding parse_u32_decimal_iff by (simp add: c_bytes_def is_digit_def)

text \<open>C34: \<open>parse_peer_ports\<close> accepts \<open>all\<close>, and otherwise exactly the comma-separated lists of decimal ports
  below the maximum that leave out the target; the mask has a bit for each port of the list.\<close>

theorem parse_peer_ports_iff:
  "parse_peer_ports max_ports str target_pc = Some (peer_mask, peers_all) \<longleftrightarrow>
     (if str = c_bytes ''all'' then peer_mask = 0 \<and> peers_all
      else \<not> peers_all \<and> (\<exists>ps. lists_ports str ps \<and> (\<forall>p \<in> set ps. p < max_ports \<and> p \<noteq> target_pc)
             \<and> (\<forall>j. bit peer_mask j \<longleftrightarrow> (\<exists>p \<in> set ps. unat p = j) \<and> j < 32)))"
proof -
  have "m = ports_mask ps \<longleftrightarrow> (\<forall>j. bit m j \<longleftrightarrow> (\<exists>p \<in> set ps. unat p = j) \<and> j < 32)" for m :: u32 and ps
    unfolding bit_ports_mask [symmetric] by (auto intro: bit_word_eqI)
  then show ?thesis
    by (auto simp: parse_peer_ports_def parse_ports_iff)
qed

theorem parse_peer_ports_iff_witness:
  "parse_peer_ports 4 (c_bytes ''1,3'') 2 = Some (0b1010, False)"
proof -
  have "lists_ports (c_bytes ''1,3'') [1, 3]"
    unfolding lists_ports_def
    by (intro exI [of _ "[c_bytes ''1'', c_bytes ''3'']"])
      (simp add: c_bytes_def parse_u32_decimal_def is_digit_def digit_of_def UINT32_MAX_def)
  moreover have "list_all (\<lambda>j. bit (0b1010 :: u32) j \<longleftrightarrow> (\<exists>p \<in> set [1, 3 :: u32]. unat p = j)) [0..<32]"
    by code_simp
  then have "\<forall>j. bit (0b1010 :: u32) j \<longleftrightarrow> (\<exists>p \<in> set [1, 3 :: u32]. unat p = j) \<and> j < 32"
    using bit_imp_le_length [of "0b1010 :: u32"] by (auto simp: list_all_iff)
  moreover have "c_bytes ''1,3'' \<noteq> c_bytes ''all''" by (simp add: c_bytes_def)
  ultimately show ?thesis
    unfolding parse_peer_ports_iff by (simp add: exI [of _ "[1, 3]"])
qed

text \<open>a non-empty mask of ports that leave out the target is printed as a list that parses to the same
  mask.\<close>

theorem peer_ports_roundtrip:
  assumes "unat max_ports \<le> 32" and "peer_mask \<noteq> 0"
    and "\<forall>j. bit peer_mask j \<longrightarrow> j < unat max_ports \<and> j \<noteq> unat target_pc"
  shows "parse_peer_ports max_ports (print_peer_ports max_ports peer_mask) target_pc = Some (peer_mask, False)"
proof -
  let ?str = "print_peer_ports max_ports peer_mask" and ?ps = "mask_ports max_ports peer_mask"
  obtain j where "bit peer_mask j" using assms(2) bit_eqI [of peer_mask 0] by auto
  then have "filter (bit peer_mask) [0..<unat max_ports] \<noteq> []" using assms(3) by (auto simp: filter_empty_conv)
  then have "lists_ports ?str ?ps" using assms(1) by (rule printed_ports [rotated])
  moreover have "\<forall>p \<in> set ?ps. p < max_ports \<and> p \<noteq> target_pc"
    using assms(1,3) by (auto simp: mask_ports_def word_less_nat_alt unat_port)
  moreover have "ports_mask ?ps = peer_mask" using assms(1,3) by (intro mask_of_mask_ports) auto
  ultimately have parsed: "parse_ports max_ports target_pc ?str 0 = Some peer_mask"
    unfolding parse_ports_iff by (intro exI [of _ ?ps]) simp
  then have "?str \<noteq> c_bytes ''all''" using all_is_no_list by (metis option.distinct(1))
  then show ?thesis using parsed by (simp add: parse_peer_ports_def)
qed

theorem peer_ports_roundtrip_witness:
  "parse_peer_ports 4 (print_peer_ports 4 0b1010) 2 = Some (0b1010, False)"
proof (rule peer_ports_roundtrip)
  have "list_all (\<lambda>j. bit (0b1010 :: u32) j \<longrightarrow> j < unat (4 :: u32) \<and> j \<noteq> unat (2 :: u32)) [0..<32]"
    by code_simp
  then show "\<forall>j. bit (0b1010 :: u32) j \<longrightarrow> j < unat (4 :: u32) \<and> j \<noteq> unat (2 :: u32)"
    using bit_imp_le_length [of "0b1010 :: u32"] by (auto simp: list_all_iff)
qed simp_all

end
