(* ===== verification/Cri_Object.thy ===== *)
theory Cri_Object
  imports Packed_Struct Slot_Pool Orch_Parse
begin

text \<open>
  The objects of the container runtime interface and the messages that carry them
  (\<open>src/orchestrator/cri_runtime.c\<close>): the packed structs, the fixed tables of objects, and the image
  references.
\<close>

section \<open>Structs\<close>

record cri_object =
  cursor :: u32
  present :: u32
  attempt :: u32
  cri_state :: u32
  exit_code :: u32
  network_ns :: u32
  ipc_ns :: u32
  pid_ns :: u32
  created_at :: u64
  started_at :: u64
  finished_at :: u64
  cri_id :: "u8 list"
  cri_name :: "u8 list"
  cri_namespace :: "u8 list"
  cri_uid :: "u8 list"
  labels :: "u8 list"
  annotations :: "u8 list"
  runtime_handler :: "u8 list"
  log_dir :: "u8 list"
  sandbox_id :: "u8 list"
  cri_image :: "u8 list"
  image_ref :: "u8 list"
  log_path :: "u8 list"
  reason :: "u8 list"
  ip :: "u8 list"

definition cri_sizes :: "nat list" where
  "cri_sizes = [4, 4, 4, 4, 4, 4, 4, 4, 8, 8, 8, 64, 128, 64, 64, 512, 512, 64, 192, 64, 256, 256, 192, 64, 48]"

definition cri_arrays :: "cri_object \<Rightarrow> u8 list list" where
  "cri_arrays o' = [cri_id o', cri_name o', cri_namespace o', cri_uid o', labels o', annotations o', runtime_handler o',
     log_dir o', sandbox_id o', cri_image o', image_ref o', log_path o', reason o', ip o']"

definition cri_fields :: "cri_object \<Rightarrow> u8 list list" where
  "cri_fields o' = map (le_bytes 4) [cursor o', present o', attempt o', cri_state o', exit_code o', network_ns o',
       ipc_ns o', pid_ns o']
     @ map (le_bytes 8) [created_at o', started_at o', finished_at o'] @ cri_arrays o'"

definition cri_of_fields :: "u8 list list \<Rightarrow> cri_object" where
  "cri_of_fields f = \<lparr>cursor = le_word (f ! 0), present = le_word (f ! 1), attempt = le_word (f ! 2),
     cri_state = le_word (f ! 3), exit_code = le_word (f ! 4), network_ns = le_word (f ! 5), ipc_ns = le_word (f ! 6),
     pid_ns = le_word (f ! 7), created_at = le_word (f ! 8), started_at = le_word (f ! 9), finished_at = le_word (f ! 10),
     cri_id = f ! 11, cri_name = f ! 12, cri_namespace = f ! 13, cri_uid = f ! 14, labels = f ! 15, annotations = f ! 16,
     runtime_handler = f ! 17, log_dir = f ! 18, sandbox_id = f ! 19, cri_image = f ! 20, image_ref = f ! 21,
     log_path = f ! 22, reason = f ! 23, ip = f ! 24\<rparr>"

text \<open>The arrays have the lengths that the struct declares.\<close>

definition cri_valid :: "cri_object \<Rightarrow> bool" where
  "cri_valid o' \<longleftrightarrow> map length (cri_arrays o') = drop 11 cri_sizes"

record rpc_header =
  rpc_magic :: u32
  rpc_version :: u16
  rpc_op :: u16
  request_id :: u32
  rpc_status :: u32
  rpc_length :: u32

definition rpc_sizes :: "nat list" where
  "rpc_sizes = [4, 2, 2, 4, 4, 4]"

definition rpc_fields :: "rpc_header \<Rightarrow> u8 list list" where
  "rpc_fields h = [le_bytes 4 (rpc_magic h), le_bytes 2 (rpc_version h), le_bytes 2 (rpc_op h),
     le_bytes 4 (request_id h), le_bytes 4 (rpc_status h), le_bytes 4 (rpc_length h)]"

definition rpc_of_fields :: "u8 list list \<Rightarrow> rpc_header" where
  "rpc_of_fields f = \<lparr>rpc_magic = le_word (f ! 0), rpc_version = le_word (f ! 1), rpc_op = le_word (f ! 2),
     request_id = le_word (f ! 3), rpc_status = le_word (f ! 4), rpc_length = le_word (f ! 5)\<rparr>"

record vsock_hdr =
  src_cid :: u64
  dst_cid :: u64
  src_port :: u32
  dst_port :: u32
  vsock_len :: u32
  vsock_type :: u16
  vsock_op :: u16
  vsock_flags :: u32
  buf_alloc :: u32
  fwd_cnt :: u32

definition vsock_sizes :: "nat list" where
  "vsock_sizes = [8, 8, 4, 4, 4, 2, 2, 4, 4, 4]"

definition vsock_fields :: "vsock_hdr \<Rightarrow> u8 list list" where
  "vsock_fields h = [le_bytes 8 (src_cid h), le_bytes 8 (dst_cid h), le_bytes 4 (src_port h), le_bytes 4 (dst_port h),
     le_bytes 4 (vsock_len h), le_bytes 2 (vsock_type h), le_bytes 2 (vsock_op h), le_bytes 4 (vsock_flags h),
     le_bytes 4 (buf_alloc h), le_bytes 4 (fwd_cnt h)]"

definition vsock_of_fields :: "u8 list list \<Rightarrow> vsock_hdr" where
  "vsock_of_fields f = \<lparr>src_cid = le_word (f ! 0), dst_cid = le_word (f ! 1), src_port = le_word (f ! 2),
     dst_port = le_word (f ! 3), vsock_len = le_word (f ! 4), vsock_type = le_word (f ! 5), vsock_op = le_word (f ! 6),
     vsock_flags = le_word (f ! 7), buf_alloc = le_word (f ! 8), fwd_cnt = le_word (f ! 9)\<rparr>"

lemma map_length_Cons: "map length xs = n # ns \<longleftrightarrow> (\<exists>y ys. xs = y # ys \<and> length y = n \<and> map length ys = ns)"
  by (cases xs) auto

interpretation cri: packed_struct cri_fields cri_of_fields cri_sizes cri_valid
proof unfold_locales
  show "map length (cri_fields r) = cri_sizes" if "cri_valid r" for r
    using that by (simp add: cri_valid_def cri_fields_def cri_sizes_def cri_arrays_def)
  show "cri_of_fields (cri_fields r) = r" for r
    by (cases r) (simp add: cri_of_fields_def cri_fields_def cri_arrays_def)
  show "cri_fields (cri_of_fields xs) = xs" if "map length xs = cri_sizes" for xs
    using that
    by (auto simp: cri_sizes_def map_length_Cons cri_of_fields_def cri_fields_def cri_arrays_def)
  show "cri_valid (cri_of_fields xs)" if "map length xs = cri_sizes" for xs
    using that
    by (auto simp: cri_sizes_def map_length_Cons cri_of_fields_def cri_valid_def cri_arrays_def)
qed

interpretation rpc: packed_struct rpc_fields rpc_of_fields rpc_sizes "\<lambda>_. True"
  by unfold_locales
    (auto simp: rpc_sizes_def rpc_fields_def rpc_of_fields_def map_length_Cons)

interpretation vsock: packed_struct vsock_fields vsock_of_fields vsock_sizes "\<lambda>_. True"
  by unfold_locales
    (auto simp: vsock_sizes_def vsock_fields_def vsock_of_fields_def map_length_Cons)

abbreviation cri_pack :: "cri_object \<Rightarrow> u8 list" where "cri_pack \<equiv> pack cri_fields"
abbreviation cri_unpack :: "u8 list \<Rightarrow> cri_object" where "cri_unpack \<equiv> unpack cri_sizes cri_of_fields"

end
