(* ===== verification/Microrl_Line.thy ===== *)
theory Microrl_Line
  imports C_Strings
begin

text \<open>
  The line editor of the shell (\<open>microrl/microrl.c\<close>), in the configuration of
  \<open>microrl_user_config.h\<close>: its state, the command-line buffer with the operations that edit it and
  split it into tokens, and what it prints. A \<open>char\<close> is unsigned, as on the AArch64 target. An access outside an
  array is undefined behaviour.
\<close>

section \<open>State\<close>

definition MICRORL_CFG_CMDLINE_LEN :: nat where "MICRORL_CFG_CMDLINE_LEN = 128"
definition MICRORL_CFG_CMD_TOKEN_NMB :: nat where "MICRORL_CFG_CMD_TOKEN_NMB = 8"
definition MICRORL_CFG_RING_HISTORY_LEN :: nat where "MICRORL_CFG_RING_HISTORY_LEN = 128"
definition MICRORL_CFG_PRINT_BUFFER_LEN :: nat where "MICRORL_CFG_PRINT_BUFFER_LEN = 64"
definition MICRORL_CFG_END_LINE :: "u8 list" where "MICRORL_CFG_END_LINE = [13, 10]"
definition MICRORL_CFG_PROMPT_STRING :: "u8 list" where "MICRORL_CFG_PROMPT_STRING = c_bytes ''orche@>$ ''"

datatype microrlr = microrlOK | microrlERR | microrlERRPAR | microrlERRTKNNUM | microrlERRCLFULL | microrlERRCPLT

datatype microrl_esc_code = MICRORL_ESC_BRACKET | MICRORL_ESC_HOME | MICRORL_ESC_END | MICRORL_ESC_DEL

record microrl_hist_rbuf =
  ring_buf :: "u8 list"
  hist_head :: nat
  hist_tail :: nat
  hist_count :: nat

text \<open>The callbacks are arguments of the functions that call them; \<open>printed\<close> is what \<open>out_fn\<close> was given.\<close>

record microrl =
  prompt_ptr :: "u8 list"
  prompt_size :: nat
  cmdline_str :: "u8 list"
  cmdlen :: nat
  mrl_cursor :: nat
  last_endl :: u8
  esc_code :: microrl_esc_code
  escape :: bool
  ring_hist :: microrl_hist_rbuf
  printed :: "u8 list"

definition out_fn :: "u8 list \<Rightarrow> microrl \<Rightarrow> microrl" where
  "out_fn str mrl = mrl\<lparr>printed := printed mrl @ str\<rparr>"

section \<open>Arrays\<close>

text \<open>\<open>memmove\<close> of \<open>n\<close> bytes inside an array, \<open>memset\<close>, and \<open>memcpy\<close> into an array.\<close>

definition mem_move :: "u8 list \<Rightarrow> nat \<Rightarrow> nat \<Rightarrow> nat \<Rightarrow> u8 list res" where
  "mem_move a dst src n =
     (if dst + n > length a \<or> src + n > length a then Inl UB
      else Inr (take dst a @ take n (drop src a) @ drop (dst + n) a))"

definition mem_set :: "u8 list \<Rightarrow> nat \<Rightarrow> u8 \<Rightarrow> nat \<Rightarrow> u8 list res" where
  "mem_set a pos v n = (if pos + n > length a then Inl UB else Inr (take pos a @ replicate n v @ drop (pos + n) a))"

definition mem_put :: "u8 list \<Rightarrow> nat \<Rightarrow> u8 list \<Rightarrow> u8 list res" where
  "mem_put a pos bs =
     (if pos + length bs > length a then Inl UB else Inr (take pos a @ bs @ drop (pos + length bs) a))"

lemma mem_length:
  "mem_move a dst src n = Inr a' \<Longrightarrow> length a' = length a"
  "mem_set a pos v n = Inr a' \<Longrightarrow> length a' = length a"
  "mem_put a pos bs = Inr a' \<Longrightarrow> length a' = length a"
  by (auto simp: mem_move_def mem_set_def mem_put_def split: if_splits)

section \<open>Tokens\<close>

abbreviation is_quote :: "u8 \<Rightarrow> bool" where
  "is_quote c \<equiv> c = 34 \<or> c = 39"

text \<open>
  The loop over a quoted token: whether it met the limit, the place where it ended, and the buffer.
\<close>

function split_quoted :: "nat \<Rightarrow> u8 list \<Rightarrow> nat \<Rightarrow> (bool \<times> nat \<times> u8 list) res" where
  "split_quoted limit a p =
     (if p \<ge> length a then Inl UB
      else if a ! p = 0 then Inr (False, p, a)
      else if \<not> p < limit then Inr (True, p, a)
      else if a ! p = 92
      then (if p + 1 \<ge> length a then Inl UB
            else if is_quote (a ! (p + 1)) then split_quoted limit a (p + 2)
            else split_quoted limit a (p + 1))
      else if is_quote (a ! p) then Inr (False, p + 1, a[p := 0])
      else split_quoted limit a (p + 1))"
  by pat_completeness auto
termination by (relation "measure (\<lambda>(limit, a, p). length a - p)") auto

text \<open>The loop over a token without quotes; a quote in the middle of it is replaced by a zero.\<close>

function split_plain :: "nat \<Rightarrow> u8 list \<Rightarrow> nat \<Rightarrow> (bool \<times> nat \<times> u8 list) res" where
  "split_plain limit a p =
     (if p \<ge> length a then Inl UB
      else if a ! p = 32 \<or> a ! p = 0 then Inr (False, p, a)
      else if \<not> p < limit then Inr (True, p, a)
      else split_plain limit (if is_quote (a ! p) then a[p := 0] else a) (p + 1))"
  by pat_completeness auto
termination by (relation "measure (\<lambda>(limit, a, p). length a - p)") auto

declare split_quoted.simps [simp del] split_plain.simps [simp del]

lemma split_quoted_moves: "split_quoted limit a p = Inr (stopped, q, a') \<Longrightarrow> p \<le> q \<and> length a' = length a"
proof (induction limit a p rule: split_quoted.induct)
  case (1 limit a p)
  show ?case
    using "1.IH" "1.prems" unfolding split_quoted.simps [of limit a p] by (auto split: if_splits)
qed

lemma split_plain_moves: "split_plain limit a p = Inr (stopped, q, a') \<Longrightarrow> p \<le> q \<and> length a' = length a"
proof (induction limit a p rule: split_plain.induct)
  case (1 limit a p)
  show ?case
    using "1.IH" "1.prems" unfolding split_plain.simps [of limit a p] by (auto split: if_splits)
qed

lemma bindR_cong [fundef_cong]:
  "r = r' \<Longrightarrow> (\<And>a. r' = Inr a \<Longrightarrow> f a = g a) \<Longrightarrow> bindR r f = bindR r' g"
  by (cases r') auto

text \<open>
  \<open>prv_cmdline_buf_split\<close> from the place \<open>p\<close> on, with the tokens found so far, each by its place. A token that
  meets the limit is dropped.
\<close>

function split_tokens :: "nat \<Rightarrow> u8 list \<Rightarrow> nat \<Rightarrow> nat list \<Rightarrow> (microrlr \<times> nat list \<times> u8 list) res" where
  "split_tokens limit a p tokens =
     (if p \<ge> length a then Inl UB
      else if a ! p = 0 then Inr (microrlOK, tokens, a)
      else if is_quote (a ! p)
      then bindR (split_quoted limit a (p + 1)) (\<lambda>(stopped, q, a).
           if stopped then Inr (microrlOK, tokens, a)
           else if q \<ge> length a then Inl UB
           else if length tokens + 1 = MICRORL_CFG_CMD_TOKEN_NMB \<and> a ! q \<noteq> 0 then Inr (microrlERRTKNNUM, [], a)
           else split_tokens limit a q (tokens @ [p + 1]))
      else bindR (split_plain limit a p) (\<lambda>(stopped, q, a).
           if stopped then Inr (microrlOK, tokens, a)
           else if a ! q = 0 then Inr (microrlOK, tokens @ [p], a)
           else if q + 1 \<ge> length a then Inl UB
           else if length tokens + 1 = MICRORL_CFG_CMD_TOKEN_NMB \<and> a ! (q + 1) \<noteq> 0
           then Inr (microrlERRTKNNUM, [], a[q := 0])
           else split_tokens limit (a[q := 0]) (q + 1) (tokens @ [p])))"
  by pat_completeness auto
termination
proof (relation "measure (\<lambda>(limit, a, p, tokens). length a - p)", goal_cases)
  case (2 limit a p tokens r stopped rest q a')
  then show ?case using split_quoted_moves [of limit a "p + 1" stopped q a'] by auto
next
  case (3 limit a p tokens r stopped rest q a')
  then show ?case using split_plain_moves [of limit a p stopped q a'] by auto
qed simp

declare split_tokens.simps [simp del]

text \<open>The array of tokens has room: at most eight are stored.\<close>

definition prv_cmdline_buf_split :: "nat \<Rightarrow> microrl \<Rightarrow> (microrlr \<times> nat list \<times> microrl) res" where
  "prv_cmdline_buf_split limit mrl =
     bindR (split_tokens limit (cmdline_str mrl) 0 []) (\<lambda>(status, tokens, a).
     Inr (status, tokens, mrl\<lparr>cmdline_str := a\<rparr>))"

section \<open>Editing\<close>

definition prv_cmdline_buf_insert_text :: "u8 list \<Rightarrow> microrl \<Rightarrow> (microrlr \<times> microrl) res" where
  "prv_cmdline_buf_insert_text str mrl =
     (let len = length str
      in if cmdlen mrl + len > length (cmdline_str mrl) - 1 then Inr (microrlERRCLFULL, mrl)
         else if mrl_cursor mrl > cmdlen mrl then Inl UB
         else
           bindR (mem_move (cmdline_str mrl) (mrl_cursor mrl + len) (mrl_cursor mrl) (cmdlen mrl - mrl_cursor mrl)) (\<lambda>a.
           bindR (mem_put a (mrl_cursor mrl) str) (\<lambda>a.
           bindR (mem_set a (cmdlen mrl + len) 0 (length (cmdline_str mrl) - 1 - (cmdlen mrl + len))) (\<lambda>a.
           Inr (microrlOK, mrl\<lparr>cmdline_str := a, mrl_cursor := mrl_cursor mrl + len, cmdlen := cmdlen mrl + len\<rparr>)))))"

definition prv_cmdline_buf_backspace :: "nat \<Rightarrow> microrl \<Rightarrow> microrl res" where
  "prv_cmdline_buf_backspace len mrl =
     (if mrl_cursor mrl < len then Inr mrl
      else if mrl_cursor mrl > cmdlen mrl then Inl UB
      else
        bindR (mem_move (cmdline_str mrl) (mrl_cursor mrl - len) (mrl_cursor mrl) (cmdlen mrl - mrl_cursor mrl + len)) (\<lambda>a.
        bindR (mem_put a (cmdlen mrl) [0]) (\<lambda>a.
        Inr (mrl\<lparr>cmdline_str := a, mrl_cursor := mrl_cursor mrl - len, cmdlen := cmdlen mrl - len\<rparr>))))"

definition prv_cmdline_buf_delete :: "microrl \<Rightarrow> microrl res" where
  "prv_cmdline_buf_delete mrl =
     (if cmdlen mrl = 0 \<or> mrl_cursor mrl = cmdlen mrl then Inr mrl
      else if mrl_cursor mrl > cmdlen mrl then Inl UB
      else
        bindR (mem_move (cmdline_str mrl) (mrl_cursor mrl) (mrl_cursor mrl + 1) (cmdlen mrl - mrl_cursor mrl + 1)) (\<lambda>a.
        bindR (mem_put a (cmdlen mrl) [0]) (\<lambda>a.
        Inr (mrl\<lparr>cmdline_str := a, cmdlen := cmdlen mrl - 1\<rparr>))))"

definition prv_cmdline_buf_reset :: "microrl \<Rightarrow> microrl" where
  "prv_cmdline_buf_reset mrl = mrl\<lparr>cmdline_str := replicate (length (cmdline_str mrl)) 0, cmdlen := 0, mrl_cursor := 0\<rparr>"

section \<open>Printing\<close>

definition prv_terminal_print_prompt :: "microrl \<Rightarrow> microrl" where
  "prv_terminal_print_prompt mrl = out_fn (prompt_ptr mrl) mrl"

definition prv_terminal_backspace :: "microrl \<Rightarrow> microrl" where
  "prv_terminal_backspace mrl = out_fn [8, 32, 8] mrl"

definition prv_terminal_newline :: "microrl \<Rightarrow> microrl" where
  "prv_terminal_newline mrl = out_fn MICRORL_CFG_END_LINE mrl"

text \<open>The bytes that \<open>prv_cursor_generate_move\<close> writes before its zero.\<close>

definition prv_cursor_generate_move :: "int \<Rightarrow> u8 list" where
  "prv_cursor_generate_move offset =
     (let offset = max (- 999) (min 999 offset)
      in if offset = 0 then []
         else [27, 91] @ decimal (nat \<bar>offset\<bar>) @ [if offset < 0 then 68 else 67])"

definition prv_terminal_move_cursor :: "int \<Rightarrow> microrl \<Rightarrow> microrl" where
  "prv_terminal_move_cursor offset mrl = (if offset = 0 then mrl else out_fn (prv_cursor_generate_move offset) mrl)"

text \<open>
  The loop of \<open>prv_terminal_print_line\<close> over the bytes to print: the local buffer, the place of
  \<open>str_ptr\<close> in it, and the output. The buffer is given out when its string ends at \<open>str_ptr\<close>.
\<close>

fun print_chars :: "u8 list \<Rightarrow> u8 list \<Rightarrow> nat \<Rightarrow> u8 list \<Rightarrow> (u8 list \<times> nat \<times> u8 list) res" where
  "print_chars [] str p out = Inr (str, p, out)"
| "print_chars (c # cs) str p out =
     (if p \<ge> length str then Inl UB
      else
        let str = str[p := c]
        in bindR (read_string str) (\<lambda>text.
           if length text = p + 1 then print_chars cs str 0 (out @ text) else print_chars cs str (p + 1) out))"

definition prv_terminal_print_line :: "nat \<Rightarrow> bool \<Rightarrow> microrl \<Rightarrow> microrl res" where
  "prv_terminal_print_line pos reset mrl =
     (let start = (if reset then 13 # prv_cursor_generate_move (int (prompt_size mrl) + int pos) else [])
      in bindR (mem_put (replicate MICRORL_CFG_PRINT_BUFFER_LEN 0) 0 (start @ [0])) (\<lambda>str.
         if pos < cmdlen mrl \<and> cmdlen mrl > length (cmdline_str mrl) then Inl UB
         else
           bindR (print_chars (drop pos (take (cmdlen mrl) (cmdline_str mrl))) str (length start) []) (\<lambda>(str, p, out).
           bindR (if p + 3 + 6 + 1 > length str
                  then bindR (mem_put str p [0]) (\<lambda>str. Inr (str, 0, out @ c_string str))
                  else Inr (str, p, out)) (\<lambda>(str, p, out).
           bindR (mem_put str p ([27, 91, 75]
                    @ prv_cursor_generate_move (int (mrl_cursor mrl) - int (cmdlen mrl)) @ [0])) (\<lambda>str.
           Inr (out_fn (out @ c_string str) mrl))))))"

end
