(* ===== verification/Microrl_History.thy ===== *)
theory Microrl_History
  imports Microrl_Line
begin

text \<open>
  The history of the line editor (\<open>microrl/microrl.c\<close>): records in a ring of bytes, each after a zero that marks its
  start. The loops that step over records read the byte before they test whether the index has left the
  array, so they are undefined as soon as they meet the end of the array.
\<close>

section \<open>Stepping over records\<close>

text \<open>
  \<open>prv_hist_next_record\<close>: the place of the next zero. The wrap-around in the loop body is never reached
  by a defined read.
\<close>

function prv_hist_next_record :: "u8 list \<Rightarrow> nat \<Rightarrow> nat res" where
  "prv_hist_next_record buf idx =
     (if idx + 1 \<ge> length buf then Inl UB
      else if buf ! (idx + 1) = 0 then Inr (idx + 1)
      else prv_hist_next_record buf (idx + 1))"
  by pat_completeness auto
termination by (relation "measure (\<lambda>(buf, idx). length buf - idx)") auto

declare prv_hist_next_record.simps [simp del]

lemma next_record_moves: "prv_hist_next_record buf idx = Inr i \<Longrightarrow> idx < i \<and> i < length buf \<and> buf ! i = 0"
proof (induction buf idx rule: prv_hist_next_record.induct)
  case (1 buf idx)
  show ?case
    using "1.IH" "1.prems" unfolding prv_hist_next_record.simps [of buf idx] by (auto split: if_splits)
qed

text \<open>\<open>while (i != tail)\<close>: how many records there are from \<open>i\<close> to the tail.\<close>

function hist_records :: "u8 list \<Rightarrow> nat \<Rightarrow> nat \<Rightarrow> nat res" where
  "hist_records buf tail_pos i =
     (if i = tail_pos then Inr 0
      else bindR (prv_hist_next_record buf i) (\<lambda>i. bindR (hist_records buf tail_pos i) (\<lambda>cnt. Inr (cnt + 1))))"
  by pat_completeness auto
termination
  by (relation "measure (\<lambda>(buf, tail_pos, i). length buf - i)") (auto dest: next_record_moves)

declare hist_records.simps [simp del]

fun hist_skip :: "nat \<Rightarrow> u8 list \<Rightarrow> nat \<Rightarrow> nat res" where
  "hist_skip 0 buf idx = Inr idx"
| "hist_skip (Suc n) buf idx = bindR (prv_hist_next_record buf idx) (hist_skip n buf)"

text \<open>
  The length of the record at \<open>k\<close>. In a ring without a zero the loop would not end, which the first
  argument, one more than the length of the ring, detects.
\<close>

fun hist_record_len :: "nat \<Rightarrow> u8 list \<Rightarrow> nat \<Rightarrow> nat res" where
  "hist_record_len 0 buf k = Inl Spin"
| "hist_record_len (Suc n) buf k =
     (if k \<ge> length buf then Inl UB
      else if buf ! k = 0 then Inr 0
      else bindR (hist_record_len n buf (if k + 1 \<ge> length buf then k + 1 - length buf else k + 1)) (\<lambda>l. Inr (l + 1)))"

section \<open>Space\<close>

text \<open>\<open>prv_hist_is_space_for_new\<close>: True for \<open>MICRORL_HIST_NOT_FULL\<close>.\<close>

definition prv_hist_is_space_for_new :: "microrl_hist_rbuf \<Rightarrow> nat \<Rightarrow> bool" where
  "prv_hist_is_space_for_new r len \<longleftrightarrow>
     (if hist_tail r \<ge> hist_head r
      then length (ring_buf r) - hist_tail r + hist_head r - 1 > len
      else hist_head r - hist_tail r - 1 > len)"

definition prv_hist_erase_older :: "microrl_hist_rbuf \<Rightarrow> microrl_hist_rbuf res" where
  "prv_hist_erase_older r =
     bindR (prv_hist_next_record (ring_buf r) (hist_head r)) (\<lambda>new_pos. Inr (r\<lparr>hist_head := new_pos\<rparr>))"

function hist_make_room :: "nat \<Rightarrow> microrl_hist_rbuf \<Rightarrow> microrl_hist_rbuf res" where
  "hist_make_room len r =
     (if prv_hist_is_space_for_new r len then Inr r
      else bindR (prv_hist_erase_older r) (hist_make_room len))"
  by pat_completeness auto
termination
  by (relation "measure (\<lambda>(len, r). length (ring_buf r) - hist_head r)")
    (auto simp: prv_hist_erase_older_def bindR_Inr_iff dest!: next_record_moves)

declare hist_make_room.simps [simp del]

section \<open>Restoring and saving\<close>

datatype microrl_hist_dir = MICRORL_HIST_DIR_NONE | MICRORL_HIST_DIR_UP | MICRORL_HIST_DIR_DOWN

text \<open>
  The navigation counter after a step, or nothing when the line is empty. With fewer records than the counter says
  the search would run for \<open>2 ^ 64\<close> steps and leave the array on its way.
\<close>

definition hist_navigate :: "nat \<Rightarrow> nat \<Rightarrow> microrl_hist_dir \<Rightarrow> nat option \<times> nat" where
  "hist_navigate cnt count dir =
     (case dir of
        MICRORL_HIST_DIR_UP \<Rightarrow>
          if cnt < count then (None, count) else if cnt \<noteq> count then (Some (count + 1), count + 1) else (Some count, count)
      | MICRORL_HIST_DIR_DOWN \<Rightarrow>
          if count = 0 then (None, 0) else if count - 1 = 0 then (None, 0) else (Some (count - 1), count - 1)
      | MICRORL_HIST_DIR_NONE \<Rightarrow> (Some count, count))"

text \<open>Placing the record of length \<open>rec_len\<close> at \<open>idx\<close> on the line.\<close>

definition hist_copy_line :: "u8 list \<Rightarrow> nat \<Rightarrow> nat \<Rightarrow> u8 list \<Rightarrow> u8 list res" where
  "hist_copy_line buf idx rec_len line =
     bindR (mem_set line 0 0 MICRORL_CFG_CMDLINE_LEN) (\<lambda>line.
     if idx + rec_len < length buf then mem_put line 0 (take rec_len (drop idx buf))
     else
       let part0 = length buf - idx
       in bindR (mem_put line 0 (drop idx buf)) (\<lambda>line. mem_put line part0 (take (rec_len - part0) buf)))"

text \<open>
  \<open>prv_hist_restore_line\<close>: the length of the record that was placed on the line, or nothing when
  the line was left as it is and the length returned is 0.
\<close>

definition prv_hist_restore_line ::
  "microrl_hist_dir \<Rightarrow> u8 list \<Rightarrow> microrl_hist_rbuf \<Rightarrow> (nat option \<times> u8 list \<times> microrl_hist_rbuf) res" where
  "prv_hist_restore_line dir line r =
     bindR (hist_records (ring_buf r) (hist_tail r) (hist_head r)) (\<lambda>cnt.
     let (target, count) = hist_navigate cnt (hist_count r) dir
     in case target of
          None \<Rightarrow> Inr (None, line, r\<lparr>hist_count := count\<rparr>)
        | Some n \<Rightarrow>
            if cnt < n then Inl UB
            else
              bindR (hist_skip (cnt - n) (ring_buf r) (hist_head r)) (\<lambda>idx.
              bindR (hist_record_len (length (ring_buf r) + 1) (ring_buf r) (idx + 1)) (\<lambda>rec_len.
              bindR (hist_copy_line (ring_buf r) (idx + 1) rec_len line) (\<lambda>line.
              Inr (Some rec_len, line, r\<lparr>hist_count := count\<rparr>)))))"

definition prv_hist_search :: "microrl_hist_dir \<Rightarrow> microrl \<Rightarrow> microrl res" where
  "prv_hist_search dir mrl =
     bindR (prv_hist_restore_line dir (cmdline_str mrl) (ring_hist mrl)) (\<lambda>(found, line, r).
     let len = (case found of None \<Rightarrow> 0 | Some n \<Rightarrow> n)
     in bindR (mem_set line len 0 (length line - 1 - len)) (\<lambda>line.
        prv_terminal_print_line 0 True
          (mrl\<lparr>ring_hist := r, cmdline_str := line, mrl_cursor := len, cmdlen := len\<rparr>)))"

text \<open>Storing the new record behind the tail; its end may continue at the start of the ring.\<close>

definition hist_store :: "u8 list \<Rightarrow> nat \<Rightarrow> microrl_hist_rbuf \<Rightarrow> microrl_hist_rbuf res" where
  "hist_store line len r =
     bindR (if len < length (ring_buf r) - hist_tail r - 1
            then mem_put (ring_buf r) (hist_tail r + 1) (take len line)
            else
              let part_len = length (ring_buf r) - hist_tail r - 1
              in bindR (mem_put (ring_buf r) (hist_tail r + 1) (take part_len line)) (\<lambda>buf.
                 mem_put buf 0 (take (len - part_len) (drop part_len line)))) (\<lambda>buf.
     let new_tail = hist_tail r + len + 1;
         new_tail = (if new_tail \<ge> length buf then new_tail - length buf else new_tail)
     in bindR (mem_put buf new_tail [0]) (\<lambda>buf.
        Inr (r\<lparr>ring_buf := buf, hist_tail := new_tail, hist_count := 0\<rparr>)))"

text \<open>
  \<open>prv_hist_save_line\<close>. When no record is placed on the local line it is compared uninitialised.
\<close>

definition prv_hist_save_line :: "u8 list \<Rightarrow> nat \<Rightarrow> microrl_hist_rbuf \<Rightarrow> microrl_hist_rbuf res" where
  "prv_hist_save_line line len r =
     (if len > length (ring_buf r) - 1 then Inr r
      else
        bindR (prv_hist_restore_line (if hist_count r = 1 then MICRORL_HIST_DIR_NONE else MICRORL_HIST_DIR_UP)
                 (replicate (MICRORL_CFG_CMDLINE_LEN + 1) 0) r) (\<lambda>(found, last_record, r).
        if found = None then Inl UB
        else
          bindR (strcmp_eq line last_record) (\<lambda>same.
          if same then Inr (r\<lparr>hist_count := 0\<rparr>)
          else bindR (hist_make_room len r) (hist_store line len))))"

end
