(* ===== verification/Microrl.thy ===== *)
theory Microrl
  imports Microrl_History
begin

text \<open>
  The line editor of the shell (\<open>microrl/microrl.c\<close>): control keys, escape sequences, the end of a line, completion, and the
  loop over the input.
\<close>

section \<open>Callbacks\<close>

text \<open>
  The functions the user of the editor sets, of which two may be missing. A command gets its arguments as strings and
  changes the user's state; it may not return.
\<close>

record 's microrl_fns =
  exec_fn :: "u8 list list \<Rightarrow> 's \<Rightarrow> (int \<times> 's) res"
  get_completion_fn :: "(u8 list list \<Rightarrow> u8 list list) option"
  sigint_fn :: "(microrl \<Rightarrow> microrl) option"

definition microrl_set_prompt :: "u8 list \<Rightarrow> microrl \<Rightarrow> microrl" where
  "microrl_set_prompt prompt_str mrl = mrl\<lparr>prompt_ptr := prompt_str, prompt_size := length prompt_str\<rparr>"

text \<open>The instance after \<open>microrl_init\<close>; what \<open>memset\<close> leaves is zero.\<close>

definition microrl_init :: microrl where
  "microrl_init = microrl_set_prompt MICRORL_CFG_PROMPT_STRING
     \<lparr>prompt_ptr = [], prompt_size = 0, cmdline_str = replicate (MICRORL_CFG_CMDLINE_LEN + 1) 0, cmdlen = 0,
      mrl_cursor = 0, last_endl = 0, esc_code = MICRORL_ESC_BRACKET, escape = False,
      ring_hist = \<lparr>ring_buf = replicate MICRORL_CFG_RING_HISTORY_LEN 0, hist_head = 0, hist_tail = 0, hist_count = 0\<rparr>,
      printed = []\<rparr>"

definition microrl_set_execute_callback ::
  "(u8 list list \<Rightarrow> 's \<Rightarrow> (int \<times> 's) res) option \<Rightarrow> ('s, 'e) microrl_fns_scheme \<Rightarrow> microrlr \<times> ('s, 'e) microrl_fns_scheme" where
  "microrl_set_execute_callback f F =
     (case f of None \<Rightarrow> (microrlERRPAR, F) | Some g \<Rightarrow> (microrlOK, F\<lparr>exec_fn := g\<rparr>))"

definition microrl_set_complete_callback ::
  "(u8 list list \<Rightarrow> u8 list list) option \<Rightarrow> ('s, 'e) microrl_fns_scheme \<Rightarrow> microrlr \<times> ('s, 'e) microrl_fns_scheme" where
  "microrl_set_complete_callback f F =
     (if f = None then (microrlERRPAR, F) else (microrlOK, F\<lparr>get_completion_fn := f\<rparr>))"

definition microrl_set_sigint_callback ::
  "(microrl \<Rightarrow> microrl) option \<Rightarrow> ('s, 'e) microrl_fns_scheme \<Rightarrow> microrlr \<times> ('s, 'e) microrl_fns_scheme" where
  "microrl_set_sigint_callback f F =
     (if f = None then (microrlERRPAR, F) else (microrlOK, F\<lparr>sigint_fn := f\<rparr>))"

definition MICRORL_VERSION_MAJOR :: u32 where "MICRORL_VERSION_MAJOR = 2"
definition MICRORL_VERSION_MINOR :: u32 where "MICRORL_VERSION_MINOR = 6"
definition MICRORL_VERSION_PATCH :: u32 where "MICRORL_VERSION_PATCH = 0"

definition microrl_get_version :: u32 where
  "microrl_get_version = push_bit 16 MICRORL_VERSION_MAJOR OR push_bit 8 MICRORL_VERSION_MINOR OR MICRORL_VERSION_PATCH"

lemma microrl_version: "microrl_get_version = 0x20600"
  by (simp add: microrl_get_version_def MICRORL_VERSION_MAJOR_def MICRORL_VERSION_MINOR_def MICRORL_VERSION_PATCH_def)

section \<open>Escape sequences\<close>

definition move_right :: "microrl \<Rightarrow> microrl" where
  "move_right mrl =
     (if mrl_cursor mrl < cmdlen mrl
      then (prv_terminal_move_cursor 1 mrl)\<lparr>mrl_cursor := mrl_cursor mrl + 1\<rparr> else mrl)"

definition move_left :: "microrl \<Rightarrow> microrl" where
  "move_left mrl =
     (if mrl_cursor mrl > 0
      then (prv_terminal_move_cursor (- 1) mrl)\<lparr>mrl_cursor := mrl_cursor mrl - 1\<rparr> else mrl)"

definition move_home :: "microrl \<Rightarrow> microrl" where
  "move_home mrl = (prv_terminal_move_cursor (- int (mrl_cursor mrl)) mrl)\<lparr>mrl_cursor := 0\<rparr>"

definition move_end :: "microrl \<Rightarrow> microrl" where
  "move_end mrl = (prv_terminal_move_cursor (int (cmdlen mrl) - int (mrl_cursor mrl)) mrl)\<lparr>mrl_cursor := cmdlen mrl\<rparr>"

definition delete_at_cursor :: "microrl \<Rightarrow> microrl res" where
  "delete_at_cursor mrl =
     bindR (prv_cmdline_buf_delete mrl) (\<lambda>mrl. prv_terminal_print_line (mrl_cursor mrl) False mrl)"

text \<open>Whether the sequence is complete.\<close>

definition prv_escape_process :: "u8 \<Rightarrow> microrl \<Rightarrow> (bool \<times> microrl) res" where
  "prv_escape_process ch mrl =
     (let complete = (\<lambda>mrl. Inr (True, mrl))
      in if ch = 91 then Inr (False, mrl\<lparr>esc_code := MICRORL_ESC_BRACKET\<rparr>)
         else if ch = 0x7f then bindR (delete_at_cursor mrl) complete
         else if esc_code mrl = MICRORL_ESC_BRACKET
         then (if ch = 65 then bindR (prv_hist_search MICRORL_HIST_DIR_UP mrl) complete
               else if ch = 66 then bindR (prv_hist_search MICRORL_HIST_DIR_DOWN mrl) complete
               else if ch = 67 then complete (move_right mrl)
               else if ch = 68 then complete (move_left mrl)
               else if ch = 55 \<or> ch = 49 then Inr (False, mrl\<lparr>esc_code := MICRORL_ESC_HOME\<rparr>)
               else if ch = 56 \<or> ch = 52 then Inr (False, mrl\<lparr>esc_code := MICRORL_ESC_END\<rparr>)
               else if ch = 51 then Inr (False, mrl\<lparr>esc_code := MICRORL_ESC_DEL\<rparr>)
               else complete mrl)
         else if ch = 126
         then (case esc_code mrl of
                 MICRORL_ESC_HOME \<Rightarrow> complete (move_home mrl)
               | MICRORL_ESC_END \<Rightarrow> complete (move_end mrl)
               | MICRORL_ESC_DEL \<Rightarrow> bindR (delete_at_cursor mrl) complete
               | MICRORL_ESC_BRACKET \<Rightarrow> complete mrl)
         else complete mrl)"

section \<open>The end of a line\<close>

text \<open>The arguments are the strings that start at the tokens.\<close>

definition token_str :: "u8 list \<Rightarrow> nat \<Rightarrow> u8 list" where
  "token_str a p = c_string (drop p a)"

definition prv_handle_newline :: "('s, 'e) microrl_fns_scheme \<Rightarrow> microrl \<Rightarrow> 's \<Rightarrow> (microrlr \<times> microrl \<times> 's) res" where
  "prv_handle_newline F mrl s =
     (let mrl = prv_terminal_newline mrl;
          finish = (\<lambda>mrl. prv_cmdline_buf_reset (prv_terminal_print_prompt mrl))
      in if cmdlen mrl = 0 then Inr (microrlOK, finish mrl, s)
         else
           bindR (prv_hist_save_line (cmdline_str mrl) (cmdlen mrl) (ring_hist mrl)) (\<lambda>r.
           bindR (prv_cmdline_buf_split (cmdlen mrl) (mrl\<lparr>ring_hist := r\<rparr>)) (\<lambda>(status, tokens, mrl).
           if status = microrlOK
           then bindR (exec_fn F (map (token_str (cmdline_str mrl)) tokens) s) (\<lambda>(_, s).
                Inr (status, finish mrl, s))
           else Inr (status, finish (prv_terminal_newline (out_fn (c_bytes ''ERROR: too many tokens'') mrl)), s))))"

section \<open>Completion\<close>

text \<open>The length of the longest common prefix: the first place where a word differs from the shortest one.\<close>

definition prv_complete_total_len :: "u8 list list \<Rightarrow> nat" where
  "prv_complete_total_len argv =
     (let short_str = foldl (\<lambda>short w. if length w < length short then w else short) (argv ! 0) argv
      in length (takeWhile (\<lambda>i. \<forall>w \<in> set argv. short_str ! i = w ! i) [0..<length short_str]))"

text \<open>The zeros after all tokens but the last become spaces again.\<close>

fun restore_spaces :: "nat list \<Rightarrow> u8 list \<Rightarrow> u8 list res" where
  "restore_spaces [] a = Inr a"
| "restore_spaces (p # tokens) a =
     bindR (mem_put a (p + length (token_str a p)) [32]) (restore_spaces tokens)"

text \<open>
  A token is a place on the line, or nothing for the empty string after a final space. The places before the first
  and after the last entry of an array are not there, and a text that is longer than what completes it has a huge
  size.
\<close>

definition complete_with ::
  "u8 list list \<Rightarrow> nat option list \<Rightarrow> microrl \<Rightarrow> (microrlr \<times> microrl) res" where
  "complete_with words tokens mrl =
     (let show = (\<lambda>mrl. prv_terminal_print_prompt (prv_terminal_newline
                    (fold (\<lambda>w mrl. out_fn [32] (out_fn w mrl)) words (prv_terminal_newline mrl))));
          (len, pos, mrl) = (if length words = 1 then (length (words ! 0), mrl_cursor mrl, mrl)
                             else (prv_complete_total_len words, 0, show mrl));
          typed = (case last tokens of None \<Rightarrow> 0 | Some p \<Rightarrow> length (token_str (cmdline_str mrl) p))
      in bindR (if len = 0 then Inr mrl
                else if tokens = [] \<or> typed > len then Inl UB
                else bindR (prv_cmdline_buf_insert_text (drop typed (take len (words ! 0))) mrl) (\<lambda>(_, mrl). Inr mrl)) (\<lambda>mrl.
         bindR (if length words = 1
                then bindR (prv_cmdline_buf_insert_text [32] mrl) (\<lambda>(_, mrl). Inr mrl) else Inr mrl) (\<lambda>mrl.
         bindR (restore_spaces (map the (butlast tokens)) (cmdline_str mrl)) (\<lambda>a.
         bindR (prv_terminal_print_line pos False (mrl\<lparr>cmdline_str := a\<rparr>)) (\<lambda>mrl.
         Inr (microrlOK, mrl))))))"

definition prv_complete_get_input :: "(u8 list list \<Rightarrow> u8 list list) \<Rightarrow> microrl \<Rightarrow> (microrlr \<times> microrl) res" where
  "prv_complete_get_input complete_fn mrl =
     bindR (prv_cmdline_buf_split (mrl_cursor mrl) mrl) (\<lambda>(status, tokens, mrl).
     if status \<noteq> microrlOK then Inr (microrlERRCPLT, mrl)
     else if mrl_cursor mrl = 0 \<or> mrl_cursor mrl > length (cmdline_str mrl) then Inl UB
     else
       let final_space = cmdline_str mrl ! (mrl_cursor mrl - 1) = 0
       in if final_space \<and> length tokens + 1 \<ge> MICRORL_CFG_CMD_TOKEN_NMB then Inl UB
          else
            let tokens = map Some tokens @ (if final_space then [None] else []);
                words = complete_fn (map (\<lambda>t. case t of None \<Rightarrow> [] | Some p \<Rightarrow> token_str (cmdline_str mrl) p) tokens)
            in if words = [] then Inr (microrlERRCPLT, mrl) else complete_with words tokens mrl)"

section \<open>Control keys\<close>

definition microrl_clear_terminal :: "microrl \<Rightarrow> microrl res" where
  "microrl_clear_terminal mrl =
     prv_terminal_print_line 0 False
       (prv_terminal_print_prompt (out_fn [27, 91, 72] (out_fn [27, 91, 50, 74] mrl)))"

definition prv_control_char_process :: "('s, 'e) microrl_fns_scheme \<Rightarrow> u8 \<Rightarrow> microrl \<Rightarrow> (microrlr \<times> microrl) res" where
  "prv_control_char_process F ch mrl =
     (let ok = (\<lambda>mrl. Inr (microrlOK, mrl))
      in if ch = 0x09
         then (case get_completion_fn F of
                 None \<Rightarrow> Inr (microrlERRPAR, mrl)
               | Some f \<Rightarrow> bindR (prv_complete_get_input f mrl) (\<lambda>(res, mrl).
                             Inr (if res \<noteq> microrlOK then microrlERRCPLT else microrlOK, mrl)))
         else if ch = 0x1b then ok (mrl\<lparr>escape := True\<rparr>)
         else if ch = 0x15
         then bindR (if mrl_cursor mrl > 0 then prv_cmdline_buf_backspace (mrl_cursor mrl) mrl else Inr mrl) (\<lambda>mrl.
              bindR (prv_terminal_print_line 0 True mrl) ok)
         else if ch = 0x0b then ok ((out_fn [27, 91, 75] mrl)\<lparr>cmdlen := mrl_cursor mrl\<rparr>)
         else if ch = 0x05 then ok (move_end mrl)
         else if ch = 0x01 then ok (move_home mrl)
         else if ch = 0x06 then ok (move_right mrl)
         else if ch = 0x02 then ok (move_left mrl)
         else if ch = 0x10 then bindR (prv_hist_search MICRORL_HIST_DIR_UP mrl) ok
         else if ch = 0x0e then bindR (prv_hist_search MICRORL_HIST_DIR_DOWN mrl) ok
         else if ch = 0x7f \<or> ch = 0x08
         then (if mrl_cursor mrl > 0
               then bindR (prv_cmdline_buf_backspace 1 mrl) (\<lambda>mrl.
                    if mrl_cursor mrl = cmdlen mrl then ok (prv_terminal_backspace mrl)
                    else bindR (prv_terminal_print_line (mrl_cursor mrl) True mrl) ok)
               else ok mrl)
         else if ch = 0x04 then bindR (delete_at_cursor mrl) ok
         else if ch = 0x12
         then bindR (prv_terminal_print_line 0 False (prv_terminal_print_prompt (prv_terminal_newline mrl))) ok
         else if ch = 0x03
         then (case sigint_fn F of None \<Rightarrow> Inr (microrlERRPAR, mrl) | Some f \<Rightarrow> ok (f mrl))
         else if ch = 0x0c then bindR (microrl_clear_terminal mrl) ok
         else ok mrl)"

section \<open>The loop over the input\<close>

definition prv_insert_char :: "u8 \<Rightarrow> microrl \<Rightarrow> (microrlr \<times> microrl) res" where
  "prv_insert_char ch mrl =
     bindR (prv_cmdline_buf_insert_text [ch] mrl) (\<lambda>(res, mrl).
     if res \<noteq> microrlOK then Inr (microrlERRCLFULL, mrl)
     else if mrl_cursor mrl = cmdlen mrl then Inr (microrlOK, out_fn (c_string [ch]) mrl)
     else bindR (prv_terminal_print_line (mrl_cursor mrl - 1) False mrl) (\<lambda>mrl. Inr (microrlOK, mrl)))"

definition is_control_char :: "u8 \<Rightarrow> bool" where
  "is_control_char ch \<longleftrightarrow> ch \<le> 0x1f \<or> ch = 0x7f"

fun process_chars :: "('s, 'e) microrl_fns_scheme \<Rightarrow> u8 list \<Rightarrow> microrl \<Rightarrow> 's \<Rightarrow> (microrlr \<times> microrl \<times> 's) res" where
  "process_chars F [] mrl s = Inr (microrlOK, mrl, s)"
| "process_chars F (ch # input) mrl s =
     (if escape mrl
      then bindR (prv_escape_process ch mrl) (\<lambda>(complete, mrl).
           process_chars F input (if complete then mrl\<lparr>escape := False\<rparr> else mrl) s)
      else if ch = 0x0d \<or> ch = 0x0a
      then (if last_endl mrl = (if ch = 0x0d then 0x0a else 0x0d)
            then process_chars F input (mrl\<lparr>last_endl := 0\<rparr>) s
            else bindR (prv_handle_newline F (mrl\<lparr>last_endl := ch\<rparr>) s) (\<lambda>(status, mrl, s).
                 if status \<noteq> microrlOK then Inr (microrlERRTKNNUM, mrl, s) else process_chars F input mrl s))
      else
        let mrl = mrl\<lparr>last_endl := 0\<rparr>
        in if is_control_char ch
           then bindR (prv_control_char_process F ch mrl) (\<lambda>(res, mrl).
                if res \<noteq> microrlOK then Inr (res, mrl, s) else process_chars F input mrl s)
           else if ch = 32 \<and> cmdlen mrl = 0 then Inr (microrlOK, mrl, s)
           else bindR (prv_insert_char ch mrl) (\<lambda>(res, mrl).
                if res \<noteq> microrlOK then Inr (res, mrl, s) else process_chars F input mrl s))"

definition microrl_processing_input ::
  "('s, 'e) microrl_fns_scheme \<Rightarrow> u8 list \<Rightarrow> microrl \<Rightarrow> 's \<Rightarrow> (microrlr \<times> microrl \<times> 's) res" where
  "microrl_processing_input F input mrl s =
     (if input = [] then Inr (microrlERRPAR, mrl, s) else process_chars F input mrl s)"

end
