(* ===== verification/Orch_State.thy ===== *)
theory Orch_State
  imports Monitor_Call Cri_Object Microrl
begin

unbundle bit_operations_syntax

text \<open>
  The state of the orchestrator (\<open>src/orchestrator/orchestrator.c\<close>, \<open>cri_runtime.c\<close>), its calls to the
  monitor, and the operations it offers to the container runtime.
\<close>

section \<open>Environment\<close>

text \<open>
  What the orchestrator uses of other code: the file system; the monitor behind channel 1, a function
  of the memory that it shares with the orchestrator, its own state and the message, that may not return; whether a coroutine can be spawned, given the
  ones that run; the code of an error; the number of protocons the system is built with; and the
  transmit queue of the vsock transport, given the packets sent before.
\<close>

record 'm orch_env =
  orch_fs :: fs_env
  orch_read_bound :: nat
  ppcall :: "mem \<Rightarrow> 'm \<Rightarrow> u64 list \<Rightarrow> (pc_monitor_error \<times> (nat \<Rightarrow> u64) \<times> 'm) res"
  orch_spawn :: "nat \<Rightarrow> bool"
  error_code :: "pc_monitor_error \<Rightarrow> u64"
  MAX_PROTOCON_PORTS :: u32
  tx_buffer_available :: "u8 list list \<Rightarrow> bool"
  tx_buffer_size :: u32
  tx_enqueue_ok :: "u8 list list \<Rightarrow> bool"

section \<open>State\<close>

definition FNAME_BUF_SIZE :: nat where "FNAME_BUF_SIZE = 64"
definition MIN_REQ_PC_NUM :: u32 where "MIN_REQ_PC_NUM = 1"
definition MAX_REQ_PC_NUM :: u32 where "MAX_REQ_PC_NUM = 16"
definition shared1 :: u64 where "shared1 = 0x4000000"
definition shared2 :: u64 where "shared2 = 0xb000000"
definition shared3 :: u64 where "shared3 = 0x6000000"

text \<open>
  The two loader functions run as coroutines: one that was spawned, and one that is reading the file
  whose name it has passed on.
\<close>

datatype loader_kind = LoadElf | LoadTargeted
datatype loader = Spawned loader_kind | Reading loader_kind "u8 list"

record 'm orch = fs_state +
  orch_monitor :: 'm
  orch_mrs :: "nat \<Rightarrow> u64"
  fs_init :: bool
  fname_buf :: "u8 list"
  start_pc_num :: u32
  deploy_pc_id :: u32
  deploy_peer_mask :: u32
  deploy_peers_all :: bool
  deploy_pending :: bool
  deploy_from_cri :: bool
  cri_slots_in_use :: u32
  cri_c_hello_available :: bool
  loaders :: "loader list"
  sandboxes :: "cri_object list"
  containers :: "cri_object list"
  cri_images :: "cri_object list"
  next_id :: u64
  timestamp :: u64
  connected :: bool
  peer_cid :: u64
  peer_port :: u32
  tx_count :: u32
  rx_fwd_cnt :: u32
  stream :: "u8 list"
  stream_len :: u32
  start_after_reply :: "nat option"
  sent :: "u8 list list"
  shell :: microrl

section \<open>Calls to the monitor\<close>

text \<open>\<open>microkit_mr_set\<close> of the first registers, and \<open>microkit_ppcall(1, ...)\<close> with their number.\<close>

definition monitor_ppcall :: "'m orch_env \<Rightarrow> u64 list \<Rightarrow> 'm orch \<Rightarrow> (pc_monitor_error \<times> 'm orch) res" where
  "monitor_ppcall E msg s =
     bindR (ppcall E (memory s) (orch_monitor s) msg) (\<lambda>(label, regs, m).
     Inr (label, s\<lparr>orch_monitor := m, orch_mrs := regs\<rparr>))"

definition call_monitor :: "'m orch_env \<Rightarrow> u64 \<Rightarrow> u64 option \<Rightarrow> 'm orch \<Rightarrow> (int \<times> 'm orch) res" where
  "call_monitor E syscall_id argument s =
     bindR (monitor_ppcall E (syscall_id # (case argument of None \<Rightarrow> [] | Some a \<Rightarrow> [a])) s) (\<lambda>(error, s).
     if error \<noteq> MON_NO_ERROR then Inl (Crash (error_code E error)) else Inr (0, s))"

text \<open>Whether the protocon runs, or nothing after an error.\<close>

definition monitor_protocon_is_running :: "'m orch_env \<Rightarrow> u32 \<Rightarrow> 'm orch \<Rightarrow> (bool option \<times> 'm orch) res" where
  "monitor_protocon_is_running E pc_id s =
     (if pc_id \<ge> MAX_PROTOCON_PORTS E then Inr (None, s)
      else
        bindR (monitor_ppcall E [PC_MONITOR_CALL_QUERY_PROTOCONS] s) (\<lambda>(label, s).
        if label \<noteq> MON_NO_ERROR then Inr (None, s)
        else Inr (Some (orch_mrs s 0 AND push_bit (unat pc_id) 1 \<noteq> 0), s)))"

section \<open>What the container runtime asks for\<close>

definition orchestrator_cri_image_exists :: "u8 list \<Rightarrow> 'm orch \<Rightarrow> bool res" where
  "orchestrator_cri_image_exists img s =
     bindR (known_image img) (\<lambda>known. Inr (known \<and> cri_c_hello_available s))"

definition slot_bit :: "u32 \<Rightarrow> u32" where
  "slot_bit pc_id = push_bit (unat pc_id) 1"

text \<open>\<open>microkit_cothread_yield\<close>: spawned loaders run until they wait for the file system.\<close>

definition loader_begin :: "u8 list \<Rightarrow> loader \<Rightarrow> loader" where
  "loader_begin fname l = (case l of Spawned k \<Rightarrow> Reading k fname | Reading k f \<Rightarrow> Reading k f)"

definition orch_yield :: "'m orch \<Rightarrow> 'm orch" where
  "orch_yield s =
     (if fs_init s then s\<lparr>loaders := map (loader_begin (c_string (fname_buf s))) (loaders s)\<rparr> else s)"

definition orch_cothread_spawn :: "'m orch_env \<Rightarrow> loader_kind \<Rightarrow> 'm orch \<Rightarrow> bool \<times> 'm orch" where
  "orch_cothread_spawn E k s =
     (if orch_spawn E (length (loaders s)) then (True, s\<lparr>loaders := loaders s @ [Spawned k]\<rparr>) else (False, s))"

text \<open>The protocon that was taken, or nothing for -1.\<close>

definition orchestrator_cri_start :: "'m orch_env \<Rightarrow> u8 list \<Rightarrow> 'm orch \<Rightarrow> (u32 option \<times> 'm orch) res" where
  "orchestrator_cri_start E img s =
     (if deploy_pending s then Inr (None, s)
      else
        bindR (orchestrator_cri_image_exists img s) (\<lambda>exists.
        if \<not> exists then Inr (None, s)
        else
          bindR (image_to_filename img (fname_buf s)) (\<lambda>fname.
          case fname of
            None \<Rightarrow> Inr (None, s)
          | Some f \<Rightarrow>
              let s = s\<lparr>fname_buf := f\<rparr>
              in case first_index (\<lambda>i. cri_slots_in_use s AND slot_bit (word_of_nat i) = 0)
                        [0..<unat (MAX_PROTOCON_PORTS E)] of
                   None \<Rightarrow> Inr (None, s)
                 | Some i \<Rightarrow>
                     let pc_id = word_of_nat i;
                         s = s\<lparr>deploy_pc_id := pc_id, deploy_peer_mask := 0, deploy_peers_all := False,
                               deploy_pending := True, deploy_from_cri := True,
                               cri_slots_in_use := cri_slots_in_use s OR slot_bit pc_id\<rparr>;
                         (spawned, s) = orch_cothread_spawn E LoadTargeted s
                     in if \<not> spawned
                        then Inr (None, s\<lparr>cri_slots_in_use := cri_slots_in_use s AND NOT (slot_bit pc_id),
                                          deploy_pending := False, deploy_from_cri := False\<rparr>)
                        else Inr (Some pc_id, orch_yield s))))"

text \<open>Whether the protocon was stopped: False for -1.\<close>

definition orchestrator_cri_stop :: "'m orch_env \<Rightarrow> u32 \<Rightarrow> 'm orch \<Rightarrow> (bool \<times> 'm orch) res" where
  "orchestrator_cri_stop E pc_id s =
     (if pc_id \<ge> MAX_PROTOCON_PORTS E \<or> cri_slots_in_use s AND slot_bit pc_id = 0 then Inr (False, s)
      else
        bindR (monitor_ppcall E [PC_MONITOR_CALL_TERMINATE_EXT, ucast pc_id] s) (\<lambda>(label, s).
        if label \<noteq> MON_NO_ERROR then Inr (False, s)
        else
          bindR (monitor_protocon_is_running E pc_id s) (\<lambda>(running, s).
          if running \<noteq> Some False then Inr (False, s)
          else Inr (True, s\<lparr>cri_slots_in_use := cri_slots_in_use s AND NOT (slot_bit pc_id)\<rparr>))))"

end
