(* ===== verification/Cri_Runtime.thy ===== *)
theory Cri_Runtime
  imports Orch_State
begin

unbundle bit_operations_syntax

text \<open>
  The container runtime (\<open>src/orchestrator/cri_runtime.c\<close>): the tables of sandboxes, containers and
  images, and the dispatcher of requests.
\<close>

section \<open>Constants\<close>

definition CRI_PORT :: u32 where "CRI_PORT = 1234"
definition CRI_MAGIC :: u32 where "CRI_MAGIC = 0x4352564d"
definition CRI_VERSION :: u16 where "CRI_VERSION = 1"
definition CRI_MAX_OBJECTS :: nat where "CRI_MAX_OBJECTS = 32"
definition VSOCK_HOST_CID :: u64 where "VSOCK_HOST_CID = 2"
definition VSOCK_TYPE_STREAM :: u16 where "VSOCK_TYPE_STREAM = 1"
definition VSOCK_OP_REQUEST :: u16 where "VSOCK_OP_REQUEST = 1"
definition VSOCK_OP_RESPONSE :: u16 where "VSOCK_OP_RESPONSE = 2"
definition VSOCK_OP_RST :: u16 where "VSOCK_OP_RST = 3"
definition VSOCK_OP_SHUTDOWN :: u16 where "VSOCK_OP_SHUTDOWN = 4"
definition VSOCK_OP_RW :: u16 where "VSOCK_OP_RW = 5"
definition VSOCK_OP_CREDIT_UPDATE :: u16 where "VSOCK_OP_CREDIT_UPDATE = 6"
definition VSOCK_OP_CREDIT_REQUEST :: u16 where "VSOCK_OP_CREDIT_REQUEST = 7"
definition CARRELS_IMAGE_SCHEME :: "u8 list" where "CARRELS_IMAGE_SCHEME = c_bytes ''carrels-image://''"

text \<open>A number that is none of these is refused by the dispatcher.\<close>

datatype cri_op =
    CRI_HELLO | CRI_RUN_SANDBOX | CRI_STOP_SANDBOX | CRI_REMOVE_SANDBOX | CRI_SANDBOX_STATUS | CRI_LIST_SANDBOX
  | CRI_CREATE_CONTAINER | CRI_START_CONTAINER | CRI_STOP_CONTAINER | CRI_REMOVE_CONTAINER
  | CRI_CONTAINER_STATUS | CRI_LIST_CONTAINER | CRI_REOPEN_LOG
  | CRI_PULL_IMAGE | CRI_REMOVE_IMAGE | CRI_IMAGE_STATUS | CRI_LIST_IMAGE

definition cri_ops :: "(u16 \<times> cri_op) list" where
  "cri_ops = [(1, CRI_HELLO), (10, CRI_RUN_SANDBOX), (11, CRI_STOP_SANDBOX), (12, CRI_REMOVE_SANDBOX),
     (13, CRI_SANDBOX_STATUS), (14, CRI_LIST_SANDBOX), (20, CRI_CREATE_CONTAINER), (21, CRI_START_CONTAINER),
     (22, CRI_STOP_CONTAINER), (23, CRI_REMOVE_CONTAINER), (24, CRI_CONTAINER_STATUS), (25, CRI_LIST_CONTAINER),
     (26, CRI_REOPEN_LOG), (30, CRI_PULL_IMAGE), (31, CRI_REMOVE_IMAGE), (32, CRI_IMAGE_STATUS), (33, CRI_LIST_IMAGE)]"

datatype cri_result = CRI_OK | CRI_NOT_FOUND | CRI_INVALID | CRI_FULL

fun cri_result_code :: "cri_result \<Rightarrow> u32" where
  "cri_result_code CRI_OK = 0"
| "cri_result_code CRI_NOT_FOUND = 1"
| "cri_result_code CRI_INVALID = 2"
| "cri_result_code CRI_FULL = 3"

section \<open>Tables\<close>

text \<open>\<open>memset(o, 0, sizeof(*o))\<close>.\<close>

definition cri_zero :: cri_object where
  "cri_zero = cri_unpack (replicate 2536 0)"

text \<open>The static variables before the first notification, with the monitor and the file-system client as they are.\<close>

definition orch_globals :: "fs_state \<Rightarrow> 'm \<Rightarrow> 'm orch" where
  "orch_globals F m = \<lparr>memory = memory F, request_table = request_table F, buffer_table = buffer_table F,
     fs_command_queue = fs_command_queue F, fs_completion_queue = fs_completion_queue F,
     blocking_wait_set = blocking_wait_set F, issued = issued F,
     orch_monitor = m, orch_mrs = \<lambda>_. 0, fs_init = False, fname_buf = replicate FNAME_BUF_SIZE 0,
     start_pc_num = MIN_REQ_PC_NUM, deploy_pc_id = 0, deploy_peer_mask = 0, deploy_peers_all = False,
     deploy_pending = False, deploy_from_cri = False, cri_slots_in_use = 0, cri_c_hello_available = False,
     loaders = [], sandboxes = replicate CRI_MAX_OBJECTS cri_zero, containers = replicate CRI_MAX_OBJECTS cri_zero,
     cri_images = replicate CRI_MAX_OBJECTS cri_zero, next_id = 0, timestamp = 0, connected = False, peer_cid = 0,
     peer_port = 0, tx_count = 0, rx_fwd_cnt = 0, stream = replicate 2556 0, stream_len = 0,
     start_after_reply = None, sent = [], shell = microrl_init\<rparr>"

definition copy_string :: "u8 list \<Rightarrow> u8 list \<Rightarrow> u8 list res" where
  "copy_string dst src = (if dst = [] then Inr [] else bindR (read_string src) (\<lambda>s. Inr (store_string dst s)))"

definition set_image_ref :: "cri_object \<Rightarrow> cri_object res" where
  "set_image_ref obj =
     bindR (strncmp_eq (length CARRELS_IMAGE_SCHEME) (cri_image obj) (CARRELS_IMAGE_SCHEME @ [0])) (\<lambda>has_scheme.
     if has_scheme
     then bindR (copy_string (image_ref obj) (cri_image obj)) (\<lambda>r. Inr (obj\<lparr>image_ref := r\<rparr>))
     else bindR (read_string (cri_image obj)) (\<lambda>s.
            Inr (obj\<lparr>image_ref := store_string (image_ref obj) (CARRELS_IMAGE_SCHEME @ s)\<rparr>)))"

text \<open>The search loops, for an object whose array \<open>f\<close> holds the string \<open>key\<close>: its index.\<close>

fun search :: "(cri_object \<Rightarrow> u8 list) \<Rightarrow> u8 list \<Rightarrow> cri_object list \<Rightarrow> nat \<Rightarrow> nat option res" where
  "search f key [] i = Inr None"
| "search f key (obj # table) i =
     (if present obj = 0 then search f key table (Suc i)
      else bindR (strcmp_eq (f obj) key) (\<lambda>same.
           if same then Inr (Some i) else search f key table (Suc i)))"

definition cri_find :: "cri_object list \<Rightarrow> u8 list \<Rightarrow> nat option res" where
  "cri_find table key = search cri_id key table 0"

definition allocate :: "cri_object list \<Rightarrow> (nat \<times> cri_object list) option" where
  "allocate table =
     (case first_index (\<lambda>obj. present obj = 0) table of
        None \<Rightarrow> None
      | Some i \<Rightarrow> Some (i, table[i := cri_zero\<lparr>present := 1\<rparr>]))"

text \<open>\<open>list_one\<close> always succeeds; this is the response it leaves.\<close>

definition list_one :: "cri_object list \<Rightarrow> u32 \<Rightarrow> cri_object \<Rightarrow> cri_object" where
  "list_one table start response =
     (case first_index (\<lambda>i. present (table ! i) \<noteq> 0) [unat start..<CRI_MAX_OBJECTS] of
        None \<Rightarrow> response\<lparr>cursor := word_of_nat CRI_MAX_OBJECTS\<rparr>
      | Some k \<Rightarrow> (table ! (unat start + k))\<lparr>cursor := word_of_nat (unat start + k + 1)\<rparr>)"

definition sandbox_name :: "u64 \<Rightarrow> u8 list" where
  "sandbox_name n = c_bytes ''carrels-sandbox-'' @ hex8 n"

definition container_name :: "u64 \<Rightarrow> u8 list" where
  "container_name n = c_bytes ''carrels-container-'' @ hex8 n"

text \<open>\<open>copy_string\<close> of a literal.\<close>

abbreviation copy_literal :: "u8 list \<Rightarrow> string \<Rightarrow> u8 list" where
  "copy_literal dst str \<equiv> store_string dst (c_bytes str)"

section \<open>Requests on sandboxes\<close>

type_synonym cri_reply = "cri_result \<times> cri_object"

definition with_found :: "cri_object list \<Rightarrow> u8 list \<Rightarrow> 'a res \<Rightarrow> (nat \<Rightarrow> 'a res) \<Rightarrow> 'a res" where
  "with_found table key missing found =
     bindR (cri_find table key) (\<lambda>r. case r of None \<Rightarrow> missing | Some i \<Rightarrow> found i)"

definition run_sandbox :: "cri_object \<Rightarrow> 'm orch \<Rightarrow> cri_reply \<times> 'm orch" where
  "run_sandbox request s =
     (case allocate (sandboxes s) of
        None \<Rightarrow> ((CRI_FULL, cri_zero), s)
      | Some (i, table) \<Rightarrow>
          let obj = request\<lparr>present := 1,
                            cri_id := store_string (cri_id request) (sandbox_name (next_id s + 1)),
                            created_at := timestamp s + 1,
                            ip := copy_literal (ip request) ''192.0.2.1'',
                            reason := copy_literal (reason request) ''CarrelsReady''\<rparr>
          in ((CRI_OK, obj), s\<lparr>sandboxes := table[i := obj], next_id := next_id s + 1, timestamp := timestamp s + 1\<rparr>))"

definition stop_sandbox :: "cri_object \<Rightarrow> 'm orch \<Rightarrow> (cri_reply \<times> 'm orch) res" where
  "stop_sandbox request s = with_found (sandboxes s) (cri_id request) (Inr ((CRI_OK, cri_zero), s))
     (\<lambda>i. Inr ((CRI_OK, cri_zero), s\<lparr>sandboxes := (sandboxes s)[i := (sandboxes s ! i)\<lparr>cri_state := 1\<rparr>]\<rparr>))"

definition remove_sandbox :: "cri_object \<Rightarrow> 'm orch \<Rightarrow> (cri_reply \<times> 'm orch) res" where
  "remove_sandbox request s = with_found (sandboxes s) (cri_id request) (Inr ((CRI_OK, cri_zero), s))
     (\<lambda>i. Inr ((CRI_OK, cri_zero), s\<lparr>sandboxes := (sandboxes s)[i := cri_zero]\<rparr>))"

text \<open>\<open>CRI_SANDBOX_STATUS\<close> and \<open>CRI_CONTAINER_STATUS\<close>.\<close>

definition object_status :: "cri_object list \<Rightarrow> cri_object \<Rightarrow> 'm orch \<Rightarrow> (cri_reply \<times> 'm orch) res" where
  "object_status table request s = with_found table (cri_id request) (Inr ((CRI_NOT_FOUND, cri_zero), s))
     (\<lambda>i. Inr ((CRI_OK, table ! i), s))"

section \<open>Requests on containers\<close>

definition create_container :: "cri_object \<Rightarrow> 'm orch \<Rightarrow> (cri_reply \<times> 'm orch) res" where
  "create_container request s =
     (case allocate (containers s) of
        None \<Rightarrow> Inr ((CRI_FULL, cri_zero), s)
      | Some (i, table) \<Rightarrow>
          let obj = request\<lparr>present := 1,
                            cri_id := store_string (cri_id request) (container_name (next_id s + 1)),
                            created_at := timestamp s + 1\<rparr>
          in bindR (set_image_ref obj) (\<lambda>obj.
             let obj = obj\<lparr>reason := copy_literal (reason obj) ''CarrelsCreated''\<rparr>
             in Inr ((CRI_OK, obj),
                  s\<lparr>containers := table[i := obj], next_id := next_id s + 1, timestamp := timestamp s + 1\<rparr>)))"

definition start_container :: "cri_object \<Rightarrow> 'm orch \<Rightarrow> (cri_reply \<times> 'm orch) res" where
  "start_container request s = with_found (containers s) (cri_id request) (Inr ((CRI_NOT_FOUND, cri_zero), s))
     (\<lambda>i. let obj = (containers s ! i)\<lparr>cri_state := 1, started_at := timestamp s + 1,
                       reason := copy_literal (reason (containers s ! i)) ''CarrelsStarting''\<rparr>
          in Inr ((CRI_OK, cri_zero), s\<lparr>containers := (containers s)[i := obj], timestamp := timestamp s + 1,
                                        start_after_reply := Some i\<rparr>))"

text \<open>The container that is found: in state 1 it is stopped at the monitor first.\<close>

definition stop_found :: "'m orch_env \<Rightarrow> nat \<Rightarrow> 'm orch \<Rightarrow> (cri_reply \<times> 'm orch) res" where
  "stop_found E i s =
     bindR (if cri_state (containers s ! i) = 1 then orchestrator_cri_stop E (network_ns (containers s ! i)) s
            else Inr (True, s)) (\<lambda>(stopped, s).
     if \<not> stopped then Inr ((CRI_INVALID, cri_zero), s)
     else
       let obj = (containers s ! i)\<lparr>cri_state := 2, finished_at := timestamp s + 1,
                    reason := copy_literal (reason (containers s ! i)) ''CarrelsStopped''\<rparr>
       in Inr ((CRI_OK, cri_zero), s\<lparr>containers := (containers s)[i := obj], timestamp := timestamp s + 1\<rparr>))"

definition stop_container :: "'m orch_env \<Rightarrow> cri_object \<Rightarrow> 'm orch \<Rightarrow> (cri_reply \<times> 'm orch) res" where
  "stop_container E request s =
     with_found (containers s) (cri_id request) (Inr ((CRI_NOT_FOUND, cri_zero), s)) (\<lambda>i. stop_found E i s)"

definition remove_container :: "cri_object \<Rightarrow> 'm orch \<Rightarrow> (cri_reply \<times> 'm orch) res" where
  "remove_container request s = with_found (containers s) (cri_id request) (Inr ((CRI_OK, cri_zero), s))
     (\<lambda>i. Inr ((CRI_OK, cri_zero), s\<lparr>containers := (containers s)[i := cri_zero]\<rparr>))"

definition reopen_log :: "cri_object \<Rightarrow> 'm orch \<Rightarrow> (cri_reply \<times> 'm orch) res" where
  "reopen_log request s = with_found (containers s) (cri_id request) (Inr ((CRI_NOT_FOUND, cri_zero), s))
     (\<lambda>i. Inr ((CRI_OK, cri_zero), s))"

section \<open>Requests on images\<close>

definition pull_image :: "cri_object \<Rightarrow> 'm orch \<Rightarrow> (cri_reply \<times> 'm orch) res" where
  "pull_image request s =
     bindR (orchestrator_cri_image_exists (cri_image request) s) (\<lambda>exists.
     if \<not> exists then Inr ((CRI_NOT_FOUND, cri_zero), s)
     else
       bindR (search cri_image (cri_image request) (cri_images s) 0) (\<lambda>r.
       case r of
         Some i \<Rightarrow> Inr ((CRI_OK, cri_images s ! i), s)
       | None \<Rightarrow>
           (case allocate (cri_images s) of
              None \<Rightarrow> Inr ((CRI_FULL, cri_zero), s)
            | Some (i, table) \<Rightarrow>
                bindR (set_image_ref (request\<lparr>present := 1\<rparr>)) (\<lambda>obj.
                bindR (copy_string (cri_id obj) (image_ref obj)) (\<lambda>name.
                let obj = obj\<lparr>cri_id := name\<rparr>
                in Inr ((CRI_OK, obj), s\<lparr>cri_images := table[i := obj]\<rparr>))))))"

definition remove_image :: "cri_object \<Rightarrow> 'm orch \<Rightarrow> (cri_reply \<times> 'm orch) res" where
  "remove_image request s = with_found (cri_images s) (cri_id request) (Inr ((CRI_OK, cri_zero), s))
     (\<lambda>i. Inr ((CRI_OK, cri_zero), s\<lparr>cri_images := (cri_images s)[i := cri_zero]\<rparr>))"

definition image_status :: "cri_object \<Rightarrow> 'm orch \<Rightarrow> (cri_reply \<times> 'm orch) res" where
  "image_status request s =
     bindR (cri_find (cri_images s) (cri_id request)) (\<lambda>r.
     bindR (case r of Some i \<Rightarrow> Inr (Some i) | None \<Rightarrow> search cri_image (cri_image request) (cri_images s) 0) (\<lambda>r.
     case r of
       None \<Rightarrow> Inr ((CRI_NOT_FOUND, cri_zero), s)
     | Some i \<Rightarrow> Inr ((CRI_OK, cri_images s ! i), s)))"

section \<open>The dispatcher\<close>

definition cri_dispatch :: "'m orch_env \<Rightarrow> u16 \<Rightarrow> cri_object \<Rightarrow> 'm orch \<Rightarrow> (cri_reply \<times> 'm orch) res" where
  "cri_dispatch E op request s =
     (case map_of cri_ops op of
        None \<Rightarrow> Inr ((CRI_INVALID, cri_zero), s)
      | Some CRI_HELLO \<Rightarrow> Inr ((CRI_OK, cri_zero\<lparr>present := 1\<rparr>), s)
      | Some CRI_RUN_SANDBOX \<Rightarrow> Inr (run_sandbox request s)
      | Some CRI_STOP_SANDBOX \<Rightarrow> stop_sandbox request s
      | Some CRI_REMOVE_SANDBOX \<Rightarrow> remove_sandbox request s
      | Some CRI_SANDBOX_STATUS \<Rightarrow> object_status (sandboxes s) request s
      | Some CRI_LIST_SANDBOX \<Rightarrow> Inr ((CRI_OK, list_one (sandboxes s) (cursor request) cri_zero), s)
      | Some CRI_CREATE_CONTAINER \<Rightarrow> create_container request s
      | Some CRI_START_CONTAINER \<Rightarrow> start_container request s
      | Some CRI_STOP_CONTAINER \<Rightarrow> stop_container E request s
      | Some CRI_REMOVE_CONTAINER \<Rightarrow> remove_container request s
      | Some CRI_CONTAINER_STATUS \<Rightarrow> object_status (containers s) request s
      | Some CRI_LIST_CONTAINER \<Rightarrow> Inr ((CRI_OK, list_one (containers s) (cursor request) cri_zero), s)
      | Some CRI_REOPEN_LOG \<Rightarrow> reopen_log request s
      | Some CRI_PULL_IMAGE \<Rightarrow> pull_image request s
      | Some CRI_REMOVE_IMAGE \<Rightarrow> remove_image request s
      | Some CRI_IMAGE_STATUS \<Rightarrow> image_status request s
      | Some CRI_LIST_IMAGE \<Rightarrow> Inr ((CRI_OK, list_one (cri_images s) (cursor request) cri_zero), s))"

end
