(* ===== verification/Cri_Stream.thy ===== *)
theory Cri_Stream
  imports Cri_Runtime
begin

text \<open>
  The packets of the container runtime (\<open>src/orchestrator/cri_runtime.c\<close>): what it sends, how it
  collects a request from a stream of packets, and what it does when a deployment has ended.
\<close>

section \<open>Sending\<close>

text \<open>Whether the packet was queued; the host is notified when it was.\<close>

definition send_packet :: "'m orch_env \<Rightarrow> u16 \<Rightarrow> u8 list \<Rightarrow> 'm orch \<Rightarrow> bool \<times> 'm orch" where
  "send_packet E op payload s =
     (let h = \<lparr>src_cid = VSOCK_HOST_CID, dst_cid = peer_cid s, src_port = CRI_PORT, dst_port = peer_port s,
               vsock_len = word_of_nat (length payload), vsock_type = VSOCK_TYPE_STREAM, vsock_op = op,
               vsock_flags = 0, buf_alloc = 2556, fwd_cnt = rx_fwd_cnt s\<rparr>
      in if \<not> tx_buffer_available E (sent s) \<or> 44 + length payload > unat (tx_buffer_size E) then (False, s)
         else if \<not> tx_enqueue_ok E (sent s) then (False, s)
         else (True, s\<lparr>sent := sent s @ [pack vsock_fields h @ payload],
                       tx_count := (if op = VSOCK_OP_RW then tx_count s + word_of_nat (length payload)
                                    else tx_count s)\<rparr>))"

section \<open>Requests\<close>

definition SIZEOF_RPC_HEADER :: nat where "SIZEOF_RPC_HEADER = 20"
definition SIZEOF_CRI_OBJECT :: nat where "SIZEOF_CRI_OBJECT = 2536"
definition SIZEOF_STREAM :: nat where "SIZEOF_STREAM = SIZEOF_RPC_HEADER + SIZEOF_CRI_OBJECT"

text \<open>The deployment that follows the reply to a start request.\<close>

definition start_after :: "'m orch_env \<Rightarrow> nat \<Rightarrow> 'm orch \<Rightarrow> 'm orch res" where
  "start_after E i s =
     bindR (orchestrator_cri_start E (cri_image (containers s ! i)) (s\<lparr>start_after_reply := None\<rparr>)) (\<lambda>(pc_id, s).
     let obj = containers s ! i
     in case pc_id of
          None \<Rightarrow> Inr (s\<lparr>containers := (containers s)[i := obj\<lparr>cri_state := 2, exit_code := 1,
                            finished_at := timestamp s + 1,
                            reason := copy_literal (reason obj) ''CarrelsStartFailed''\<rparr>],
                         timestamp := timestamp s + 1\<rparr>)
        | Some p \<Rightarrow> Inr (s\<lparr>containers := (containers s)[i := obj\<lparr>network_ns := p\<rparr>]\<rparr>))"

text \<open>The reply to a complete request, and what follows it.\<close>

definition answer_request :: "'m orch_env \<Rightarrow> rpc_header \<Rightarrow> cri_object \<Rightarrow> 'm orch \<Rightarrow> 'm orch res" where
  "answer_request E header request s =
     bindR (cri_dispatch E (rpc_op header) request s) (\<lambda>((result, response), s).
     let reply = pack rpc_fields (header\<lparr>rpc_status := cri_result_code result,
                                         rpc_length := word_of_nat SIZEOF_CRI_OBJECT\<rparr>) @ cri_pack response;
         (_, s) = send_packet E VSOCK_OP_RW reply s;
         s = s\<lparr>stream_len := 0\<rparr>
     in if map_of cri_ops (rpc_op header) = Some CRI_START_CONTAINER \<and> result = CRI_OK
        then case start_after_reply s of None \<Rightarrow> Inr s | Some i \<Rightarrow> start_after E i s
        else Inr s)"

definition process_stream :: "'m orch_env \<Rightarrow> 'm orch \<Rightarrow> 'm orch res" where
  "process_stream E s =
     (if unat (stream_len s) < SIZEOF_RPC_HEADER then Inr s
      else
        let header = unpack rpc_sizes rpc_of_fields (stream s)
        in if rpc_magic header \<noteq> CRI_MAGIC \<or> rpc_version header \<noteq> CRI_VERSION
              \<or> unat (rpc_length header) \<noteq> SIZEOF_CRI_OBJECT
           then let (_, s) = send_packet E VSOCK_OP_RST [] (s\<lparr>stream_len := 0\<rparr>) in Inr (s\<lparr>connected := False\<rparr>)
           else if unat (stream_len s) < SIZEOF_STREAM then Inr s
           else answer_request E header (cri_unpack (drop SIZEOF_RPC_HEADER (stream s))) s)"

section \<open>Packets\<close>

definition SIZEOF_VSOCK_HDR :: nat where "SIZEOF_VSOCK_HDR = 44"

text \<open>The payload of a data packet is added to the stream when it fits.\<close>

definition receive_payload :: "'m orch_env \<Rightarrow> u8 list \<Rightarrow> 'm orch \<Rightarrow> 'm orch res" where
  "receive_payload E payload s =
     (if length payload \<le> SIZEOF_STREAM - unat (stream_len s)
      then process_stream E (s\<lparr>stream := take (unat (stream_len s)) (stream s) @ payload
                                   @ drop (unat (stream_len s) + length payload) (stream s),
                              stream_len := stream_len s + word_of_nat (length payload),
                              rx_fwd_cnt := rx_fwd_cnt s + word_of_nat (length payload)\<rparr>)
      else Inr s)"

definition process_packet :: "'m orch_env \<Rightarrow> u8 list \<Rightarrow> 'm orch \<Rightarrow> 'm orch res" where
  "process_packet E packet s =
     (let h = unpack vsock_sizes vsock_of_fields packet
      in if length packet < SIZEOF_VSOCK_HDR then Inr s
         else if unat (vsock_len h) > length packet - SIZEOF_VSOCK_HDR \<or> dst_cid h \<noteq> VSOCK_HOST_CID
                 \<or> vsock_type h \<noteq> VSOCK_TYPE_STREAM then Inr s
         else if vsock_op h = VSOCK_OP_REQUEST
         then (if connected s \<or> dst_port h \<noteq> CRI_PORT then Inr s
               else Inr (snd (send_packet E VSOCK_OP_RESPONSE []
                      (s\<lparr>connected := True, peer_cid := src_cid h, peer_port := src_port h, stream_len := 0\<rparr>))))
         else if \<not> connected s \<or> src_cid h \<noteq> peer_cid s \<or> src_port h \<noteq> peer_port s \<or> dst_port h \<noteq> CRI_PORT
         then Inr s
         else if vsock_op h = VSOCK_OP_RW
         then receive_payload E (take (unat (vsock_len h)) (drop SIZEOF_VSOCK_HDR packet)) s
         else if vsock_op h = VSOCK_OP_CREDIT_REQUEST then Inr (snd (send_packet E VSOCK_OP_CREDIT_UPDATE [] s))
         else if vsock_op h = VSOCK_OP_SHUTDOWN \<or> vsock_op h = VSOCK_OP_RST
         then Inr ((if vsock_op h = VSOCK_OP_SHUTDOWN then snd (send_packet E VSOCK_OP_RST [] s) else s)
                     \<lparr>connected := False, stream_len := 0\<rparr>)
         else Inr s)"

text \<open>The packets that are in the receive queue, in order.\<close>

fun cri_runtime_notified :: "'m orch_env \<Rightarrow> u8 list list \<Rightarrow> 'm orch \<Rightarrow> 'm orch res" where
  "cri_runtime_notified E [] s = Inr s"
| "cri_runtime_notified E (packet # packets) s = bindR (process_packet E packet s) (cri_runtime_notified E packets)"

section \<open>The end of a deployment\<close>

fun deploy_complete_from :: "u32 \<Rightarrow> bool \<Rightarrow> cri_object list \<Rightarrow> u64 \<Rightarrow> (cri_object list \<times> u64) res" where
  "deploy_complete_from pc_id failed [] now = Inr ([], now)"
| "deploy_complete_from pc_id failed (obj # table) now =
     (let next = bindR (deploy_complete_from pc_id failed table now) (\<lambda>(table, now). Inr (obj # table, now))
      in if present obj = 0 \<or> cri_state obj \<noteq> 1 \<or> network_ns obj \<noteq> pc_id then next
         else bindR (strcmp_eq (reason obj) (c_bytes ''CarrelsStarting'' @ [0])) (\<lambda>starting.
              if \<not> starting then next
              else if failed
              then Inr (obj\<lparr>reason := copy_literal (reason obj) ''CarrelsStartFailed'', cri_state := 2, exit_code := 1,
                            finished_at := now + 1\<rparr> # table, now + 1)
              else Inr (obj\<lparr>reason := copy_literal (reason obj) ''CarrelsRunning''\<rparr> # table, now)))"

definition cri_runtime_deploy_complete :: "u32 \<Rightarrow> bool \<Rightarrow> 'm orch \<Rightarrow> 'm orch res" where
  "cri_runtime_deploy_complete pc_id failed s =
     bindR (deploy_complete_from pc_id failed (containers s) (timestamp s)) (\<lambda>(table, now).
     Inr (s\<lparr>containers := table, timestamp := now\<rparr>))"

end
