(* ===== verification/Orch_Shell.thy ===== *)
theory Orch_Shell
  imports Cri_Stream
begin

unbundle bit_operations_syntax

text \<open>
  The orchestrator (\<open>src/orchestrator/orchestrator.c\<close>): the coroutines that load an image and ask the
  monitor to deploy it, the result of a deployment, the commands of the shell, and the entry points.
  Messages to the user are left out; a command returns 0, or 1 after an error.
\<close>

section \<open>Loaders\<close>

text \<open>\<open>load_elf_payload\<close>, when the file is read.\<close>

definition load_elf_payload :: "'m orch_env \<Rightarrow> u8 list \<Rightarrow> 'm orch \<Rightarrow> 'm orch res" where
  "load_elf_payload E fname s =
     bindR (pico_vfs_readfile2buf (orch_read_bound E) (orch_fs E) shared2 fname s) (\<lambda>(error, _, s).
     if error \<noteq> 0 then Inr s
     else bindR (monitor_ppcall E [PC_MONITOR_CALL_DEPLOY, ucast (start_pc_num s)] s) (\<lambda>(error, s). Inr s))"

text \<open>What a targeted deployment that failed early does: the container has failed and its slot is free.\<close>

definition targeted_failed :: "'m orch \<Rightarrow> 'm orch res" where
  "targeted_failed s =
     bindR (if deploy_from_cri s
            then bindR (cri_runtime_deploy_complete (deploy_pc_id s) True s) (\<lambda>s.
                 Inr (s\<lparr>cri_slots_in_use := cri_slots_in_use s AND NOT (slot_bit (deploy_pc_id s)),
                        deploy_from_cri := False\<rparr>))
            else Inr s) (\<lambda>s.
     Inr (s\<lparr>deploy_pending := False\<rparr>))"

definition load_targeted_elf_payload :: "'m orch_env \<Rightarrow> u8 list \<Rightarrow> 'm orch \<Rightarrow> 'm orch res" where
  "load_targeted_elf_payload E fname s =
     bindR (pico_vfs_readfile2buf (orch_read_bound E) (orch_fs E) shared2 fname s) (\<lambda>(fs_error, _, s).
     if fs_error \<noteq> 0 then targeted_failed s
     else
       bindR (monitor_ppcall E [PC_MONITOR_CALL_DEPLOY_TO_PROTOCON, ucast (deploy_pc_id s),
                ucast (deploy_peer_mask s), if deploy_peers_all s then 1 else 0] s) (\<lambda>(monitor_error, s).
       if monitor_error \<noteq> MON_NO_ERROR then targeted_failed s else Inr s))"

text \<open>The coroutine at place \<open>k\<close> gets its file; when it ends its stack is free again.\<close>

definition loader_finish :: "'m orch_env \<Rightarrow> nat \<Rightarrow> 'm orch \<Rightarrow> 'm orch res" where
  "loader_finish E k s =
     (if k \<ge> length (loaders s) then Inr s
      else
        let t = s\<lparr>loaders := take k (loaders s) @ drop (Suc k) (loaders s)\<rparr>
        in case loaders s ! k of
             Spawned what \<Rightarrow> Inr s
           | Reading LoadElf fname \<Rightarrow> load_elf_payload E fname t
           | Reading LoadTargeted fname \<Rightarrow> load_targeted_elf_payload E fname t)"

section \<open>The result of a deployment\<close>

definition print_deploy_result :: "'m orch_env \<Rightarrow> 'm orch \<Rightarrow> 'm orch res" where
  "print_deploy_result E s =
     bindR (monitor_ppcall E [PC_MONITOR_CALL_DEPLOY_RESULT] s) (\<lambda>(error, s).
     if error = MON_DEPLOY_IN_PROGRESS then Inr s
     else
       let pc_id = ucast (orch_mrs s 0)
       in bindR (if \<not> deploy_from_cri s then Inr s
                 else
                   bindR (if error = MON_NO_ERROR then monitor_protocon_is_running E pc_id s else Inr (None, s))
                     (\<lambda>(running, s).
                      let failed = running \<noteq> Some True
                      in bindR (cri_runtime_deploy_complete pc_id failed s) (\<lambda>s.
                         Inr (s\<lparr>cri_slots_in_use := (if failed then cri_slots_in_use s AND NOT (slot_bit pc_id)
                                                    else cri_slots_in_use s),
                                deploy_from_cri := False\<rparr>)))) (\<lambda>s.
          Inr (s\<lparr>deploy_pending := False\<rparr>)))"

section \<open>Commands\<close>

definition set_fname :: "u8 list \<Rightarrow> 'm orch \<Rightarrow> 'm orch" where
  "set_fname name s = s\<lparr>fname_buf := name @ 0 # drop (Suc (length name)) (fname_buf s)\<rparr>"

definition cmd_start :: "'m orch_env \<Rightarrow> u8 list list \<Rightarrow> 'm orch \<Rightarrow> int \<times> 'm orch" where
  "cmd_start E argv s =
     (if length argv \<noteq> 2 \<and> length argv \<noteq> 3 then (1, s)
      else if argv ! 1 = [] \<or> length (argv ! 1) \<ge> FNAME_BUF_SIZE then (1, s)
      else
        case (if length argv = 3 then parse_u32_decimal (argv ! 2) else Some MIN_REQ_PC_NUM) of
          None \<Rightarrow> (1, s)
        | Some pc_num \<Rightarrow>
            if pc_num < MIN_REQ_PC_NUM \<or> pc_num > MAX_REQ_PC_NUM then (1, s)
            else
              let (spawned, s) = orch_cothread_spawn E LoadElf ((set_fname (argv ! 1) s)\<lparr>start_pc_num := pc_num\<rparr>)
              in (if spawned then 0 else 1, s))"

definition cmd_no_argument :: "'m orch_env \<Rightarrow> u8 list list \<Rightarrow> u64 \<Rightarrow> 'm orch \<Rightarrow> (int \<times> 'm orch) res" where
  "cmd_no_argument E argv syscall_id s =
     (if length argv \<noteq> 1 then Inr (1, s) else call_monitor E syscall_id None s)"

definition cmd_pd_control :: "'m orch_env \<Rightarrow> u8 list list \<Rightarrow> u64 \<Rightarrow> 'm orch \<Rightarrow> (int \<times> 'm orch) res" where
  "cmd_pd_control E argv syscall_id s =
     (if length argv \<noteq> 3 \<or> argv ! 1 \<noteq> c_bytes ''-i'' then Inr (1, s)
      else case parse_u32_decimal (argv ! 2) of
        None \<Rightarrow> Inr (1, s)
      | Some pd \<Rightarrow> call_monitor E syscall_id (Some (ucast pd)) s)"

definition parse_acl_port :: "u8 list \<Rightarrow> u32 option" where
  "parse_acl_port str = (case parse_u32_decimal str of None \<Rightarrow> None | Some p \<Rightarrow> if p > 255 then None else Some p)"

definition cmd_set_acl :: "'m orch_env \<Rightarrow> u8 list list \<Rightarrow> 'm orch \<Rightarrow> (int \<times> 'm orch) res" where
  "cmd_set_acl E argv s =
     (if length argv \<noteq> 6 \<or> argv ! 1 \<noteq> c_bytes ''-i'' \<or> argv ! 4 \<noteq> c_bytes ''-v'' then Inr (1, s)
      else case (parse_acl_port (argv ! 2), parse_acl_port (argv ! 3), parse_u32_decimal (argv ! 5)) of
        (Some port0, Some port1, Some allow) \<Rightarrow>
          if allow > 1 then Inr (1, s)
          else bindR (monitor_ppcall E [PC_MONITOR_CALL_SET_VSWITCH_ACL, ucast port0, ucast port1, ucast allow] s)
                 (\<lambda>(label, s). Inr (if label \<noteq> MON_NO_ERROR then 1 else 0, s))
      | _ \<Rightarrow> Inr (1, s))"

definition cmd_deploy :: "'m orch_env \<Rightarrow> u8 list list \<Rightarrow> 'm orch \<Rightarrow> int \<times> 'm orch" where
  "cmd_deploy E argv s =
     (if length argv \<noteq> 7 \<or> argv ! 1 \<noteq> c_bytes ''-a'' \<or> argv ! 3 \<noteq> c_bytes ''-pc''
         \<or> argv ! 5 \<noteq> c_bytes ''-peers'' \<or> argv ! 2 = [] then (1, s)
      else if deploy_pending s then (1, s)
      else if length (argv ! 2) \<ge> FNAME_BUF_SIZE then (1, s)
      else case parse_u32_decimal (argv ! 4) of
        None \<Rightarrow> (1, s)
      | Some pc_id \<Rightarrow>
          if pc_id \<ge> MAX_PROTOCON_PORTS E then (1, s)
          else case parse_peer_ports (MAX_PROTOCON_PORTS E) (argv ! 6) pc_id of
            None \<Rightarrow> (1, s)
          | Some (peer_mask, peers_all) \<Rightarrow>
              let (spawned, s) = orch_cothread_spawn E LoadTargeted
                    ((set_fname (argv ! 2) s)\<lparr>deploy_pc_id := pc_id, deploy_peer_mask := peer_mask,
                       deploy_peers_all := peers_all, deploy_pending := True\<rparr>)
              in if \<not> spawned then (1, s\<lparr>deploy_pending := False\<rparr>) else (0, orch_yield s))"

definition shell_execute :: "'m orch_env \<Rightarrow> u8 list list \<Rightarrow> 'm orch \<Rightarrow> (int \<times> 'm orch) res" where
  "shell_execute E argv s =
     (if argv = [] then Inr (0, s)
      else if argv ! 0 = c_bytes ''start'' then Inr (cmd_start E argv s)
      else if argv ! 0 = c_bytes ''lspcs'' then cmd_no_argument E argv PC_MONITOR_CALL_LIST_PROTOCONS s
      else if argv ! 0 = c_bytes ''flip'' then cmd_no_argument E argv PC_MONITOR_CALL_FLIP_ACL_RULE s
      else if argv ! 0 = c_bytes ''set-acl'' then cmd_set_acl E argv s
      else if argv ! 0 = c_bytes ''deploy'' then Inr (cmd_deploy E argv s)
      else if argv ! 0 = c_bytes ''stop'' then cmd_pd_control E argv PC_MONITOR_CALL_TERMINATE_EXT s
      else if argv ! 0 = c_bytes ''suspend'' then cmd_pd_control E argv PC_MONITOR_CALL_SUSPEND s
      else if argv ! 0 = c_bytes ''resume'' then cmd_pd_control E argv PC_MONITOR_CALL_RESUME s
      else if argv ! 0 = c_bytes ''help'' then Inr (if length argv \<noteq> 1 then 1 else 0, s)
      else Inr (1, s))"

section \<open>Entry points\<close>

definition SHELL_INPUT_BUFFER_SIZE :: nat where "SHELL_INPUT_BUFFER_SIZE = 64"

text \<open>The blocks that \<open>orche_handle_serial_event\<close> passes to the line editor.\<close>

fun serial_blocks :: "u8 list \<Rightarrow> u8 list \<Rightarrow> u8 list list" where
  "serial_blocks [] input = (if input \<noteq> [] then [input] else [])"
| "serial_blocks (c # received) input =
     (let input = input @ [shell_normalise_input c]
      in if length input = SHELL_INPUT_BUFFER_SIZE then input # serial_blocks received []
         else serial_blocks received input)"

text \<open>The callbacks that \<open>init\<close> sets.\<close>

definition shell_sigint :: "microrl \<Rightarrow> microrl" where
  "shell_sigint mrl = out_fn (c_bytes ''^C'' @ [13, 10]) mrl"

definition shell_fns :: "'m orch_env \<Rightarrow> 'm orch microrl_fns" where
  "shell_fns E =
     snd (microrl_set_sigint_callback (Some shell_sigint)
       (snd (microrl_set_complete_callback (Some shell_complete)
         \<lparr>exec_fn = shell_execute E, get_completion_fn = None, sigint_fn = None\<rparr>)))"

fun process_blocks :: "'m orch_env \<Rightarrow> u8 list list \<Rightarrow> 'm orch \<Rightarrow> 'm orch res" where
  "process_blocks E [] s = Inr s"
| "process_blocks E (b # blocks) s =
     bindR (microrl_processing_input (shell_fns E) b (shell s) s) (\<lambda>(_, mrl, s).
     process_blocks E blocks (s\<lparr>shell := mrl\<rparr>))"

definition orche_handle_serial_event :: "'m orch_env \<Rightarrow> u8 list \<Rightarrow> 'm orch \<Rightarrow> 'm orch res" where
  "orche_handle_serial_event E received s = process_blocks E (serial_blocks received []) s"

text \<open>What a notification is for: serial input, packets in the receive queue, the monitor, or the file system.\<close>

datatype orch_channel = SerialRx "u8 list" | VsockRx "u8 list list" | FromMonitor | OtherChannel

definition orch_notified :: "'m orch_env \<Rightarrow> orch_channel \<Rightarrow> 'm orch \<Rightarrow> 'm orch res" where
  "orch_notified E ch s =
     (let s = fs_process_completions (orch_fs E) s
      in case ch of
           SerialRx received \<Rightarrow> orche_handle_serial_event E received s
         | VsockRx packets \<Rightarrow> cri_runtime_notified E packets s
         | FromMonitor \<Rightarrow> if deploy_pending s then print_deploy_result E s else Inr s
         | OtherChannel \<Rightarrow> Inr s)"

text \<open>The coroutine that mounts the file system and loads the images every protocon needs.\<close>

definition orchestrator_prologue :: "'m orch_env \<Rightarrow> 'm orch \<Rightarrow> 'm orch res" where
  "orchestrator_prologue E s =
     bindR (fs_command_blocking (orch_fs E) FS_CMD_INITIALISE None s) (\<lambda>(_, _, s).
     bindR (pico_vfs_file_exists (orch_fs E) (c_string K8S_C_HELLO_FILE) (s\<lparr>fs_init := True\<rparr>)) (\<lambda>(available, s).
     bindR (pico_vfs_readfile2buf (orch_read_bound E) (orch_fs E) shared1 (c_bytes ''protocon.elf'')
              (s\<lparr>cri_c_hello_available := available\<rparr>)) (\<lambda>(err, _, s).
     if err \<noteq> 0 then Inr s
     else bindR (pico_vfs_readfile2buf (orch_read_bound E) (orch_fs E) shared3 (c_bytes ''trampoline.elf'') s)
            (\<lambda>(err, _, s). Inr s))))"

end
