(* ===== verification/Cri_Tables.thy ===== *)
theory Cri_Tables
  imports Cri_Stream
begin

text \<open>
  The tables of the container runtime: what their objects satisfy, that every request keeps it, and
  when a request is undefined behaviour.
\<close>

section \<open>Well-formed objects\<close>

lemma cri_valid_iff:
  "cri_valid obj \<longleftrightarrow> length (cri_id obj) = 64 \<and> length (cri_name obj) = 128 \<and> length (cri_namespace obj) = 64
     \<and> length (cri_uid obj) = 64 \<and> length (labels obj) = 512 \<and> length (annotations obj) = 512
     \<and> length (runtime_handler obj) = 64 \<and> length (log_dir obj) = 192 \<and> length (sandbox_id obj) = 64
     \<and> length (cri_image obj) = 256 \<and> length (image_ref obj) = 256 \<and> length (log_path obj) = 192
     \<and> length (reason obj) = 64 \<and> length (ip obj) = 48"
  by (simp add: cri_valid_def cri_arrays_def cri_sizes_def)

text \<open>The objects in use have terminated identifiers, and the strings that are searched or copied later.\<close>

definition object_ok :: "cri_object \<Rightarrow> bool" where
  "object_ok obj \<longleftrightarrow> cri_valid obj \<and> (present obj \<noteq> 0 \<longrightarrow> terminated (cri_id obj))"

definition container_ok :: "cri_object \<Rightarrow> bool" where
  "container_ok obj \<longleftrightarrow> object_ok obj \<and> (present obj \<noteq> 0 \<longrightarrow> terminated (cri_image obj) \<and> terminated (reason obj))"

definition image_ok :: "cri_object \<Rightarrow> bool" where
  "image_ok obj \<longleftrightarrow> object_ok obj \<and> (present obj \<noteq> 0 \<longrightarrow> terminated (cri_image obj))"

definition table_of :: "(cri_object \<Rightarrow> bool) \<Rightarrow> cri_object list \<Rightarrow> bool" where
  "table_of P table \<longleftrightarrow> length table = CRI_MAX_OBJECTS \<and> (\<forall>obj \<in> set table. P obj)"

definition tables_wf :: "'m orch \<Rightarrow> bool" where
  "tables_wf s \<longleftrightarrow> table_of object_ok (sandboxes s) \<and> table_of container_ok (containers s)
     \<and> table_of image_ok (cri_images s)"

lemma table_update: "table_of P table \<Longrightarrow> P obj \<Longrightarrow> table_of P (table[i := obj])"
  using set_update_subset_insert [of table i obj] by (auto simp: table_of_def)

lemma table_nth: "table_of P table \<Longrightarrow> i < length table \<Longrightarrow> P (table ! i)"
  by (simp add: table_of_def)

lemma table_mono: "table_of P table \<Longrightarrow> (\<And>obj. P obj \<Longrightarrow> Q obj) \<Longrightarrow> table_of Q table"
  by (simp add: table_of_def)

lemma ok_objects: "container_ok obj \<Longrightarrow> object_ok obj" "image_ok obj \<Longrightarrow> object_ok obj" "object_ok obj \<Longrightarrow> cri_valid obj"
  by (simp_all add: container_ok_def image_ok_def object_ok_def)

lemma cri_valid_zero [simp]: "cri_valid cri_zero"
  unfolding cri_zero_def by (rule cri.valid_unpack) (simp add: cri_sizes_def)

lemma le_word_zeros [simp]: "le_word (replicate n 0) = 0"
  by (induction n) simp_all

lemma present_zero [simp]: "present cri_zero = 0"
  by (simp add: cri_zero_def unpack_def cri_sizes_def cri_of_fields_def min_def)

lemma zero_ok [simp]: "object_ok cri_zero" "container_ok cri_zero" "image_ok cri_zero"
  by (simp_all add: container_ok_def image_ok_def object_ok_def)

lemma valid_updates [simp]:
  "cri_valid (obj\<lparr>present := w\<rparr>) = cri_valid obj"
  "cri_valid (obj\<lparr>cri_state := w\<rparr>) = cri_valid obj"
  "cri_valid (obj\<lparr>exit_code := w\<rparr>) = cri_valid obj"
  "cri_valid (obj\<lparr>network_ns := w\<rparr>) = cri_valid obj"
  "cri_valid (obj\<lparr>cursor := w\<rparr>) = cri_valid obj"
  "cri_valid (obj\<lparr>created_at := v\<rparr>) = cri_valid obj"
  "cri_valid (obj\<lparr>started_at := v\<rparr>) = cri_valid obj"
  "cri_valid (obj\<lparr>finished_at := v\<rparr>) = cri_valid obj"
  by (simp_all add: cri_valid_iff)

section \<open>Searching and allocating\<close>

text \<open>A search among terminated strings finds the first object with the string, and never runs off an array.\<close>

lemma search_first:
  assumes "\<forall>obj \<in> set table. present obj \<noteq> 0 \<longrightarrow> terminated (f obj) \<and> length (c_string (f obj)) < length key"
  shows "search f key table i = Inr (map_option ((+) i)
     (first_index (\<lambda>obj. present obj \<noteq> 0 \<and> terminated key \<and> c_string (f obj) = c_string key) table))"
  using assms
proof (induction table arbitrary: i)
  case (Cons obj table)
  have "search f key table (Suc i) = Inr (map_option ((+) (Suc i))
     (first_index (\<lambda>obj. present obj \<noteq> 0 \<and> terminated key \<and> c_string (f obj) = c_string key) table))"
    using Cons by simp
  moreover have "(\<lambda>x. Suc (i + x)) = (+) (Suc i)" by (simp add: fun_eq_iff)
  ultimately show ?case
    using Cons.prems strcmp_eq_left [of "f obj" key]
    by (auto simp: option.map_comp comp_def)
qed simp

lemma short_string: "terminated a \<Longrightarrow> length a = length b \<Longrightarrow> length (c_string a) < length b"
  using length_c_string_lt [of a] by simp

lemma short_ids:
  "object_ok obj \<Longrightarrow> present obj \<noteq> 0 \<Longrightarrow> cri_valid r \<Longrightarrow>
     terminated (cri_id obj) \<and> length (c_string (cri_id obj)) < length (cri_id r)"
  using short_string [of "cri_id obj" "cri_id r"] by (simp add: object_ok_def cri_valid_iff)

lemma short_images:
  "image_ok obj \<Longrightarrow> present obj \<noteq> 0 \<Longrightarrow> cri_valid r \<Longrightarrow>
     terminated (cri_image obj) \<and> length (c_string (cri_image obj)) < length (cri_image r)"
  using short_string [of "cri_image obj" "cri_image r"] by (simp add: image_ok_def object_ok_def cri_valid_iff)

lemma map_option_add_0 [simp]: "map_option ((+) (0 :: nat)) x = x"
  by (cases x) simp_all

lemma cri_find_first:
  assumes "table_of object_ok table" and "cri_valid request"
  shows "cri_find table (cri_id request) =
    Inr (first_index (\<lambda>obj. present obj \<noteq> 0 \<and> terminated (cri_id request) \<and> c_string (cri_id obj) = c_string (cri_id request)) table)"
proof -
  have "\<forall>obj \<in> set table. present obj \<noteq> 0 \<longrightarrow> terminated (cri_id obj) \<and> length (c_string (cri_id obj)) < length (cri_id request)"
    using assms short_ids by (auto simp: table_of_def)
  from search_first [where f = cri_id, OF this] show ?thesis
    by (simp add: cri_find_def)
qed

lemma search_image_first:
  assumes "table_of image_ok table" and "cri_valid request"
  shows "search cri_image (cri_image request) table 0 =
    Inr (first_index (\<lambda>obj. present obj \<noteq> 0 \<and> terminated (cri_image request) \<and> c_string (cri_image obj) = c_string (cri_image request)) table)"
proof -
  have "\<forall>obj \<in> set table. present obj \<noteq> 0 \<longrightarrow> terminated (cri_image obj) \<and> length (c_string (cri_image obj)) < length (cri_image request)"
    using assms short_images by (auto simp: table_of_def)
  from search_first [where f = cri_image, OF this] show ?thesis
    by simp
qed

lemma search_index:
  assumes "table_of image_ok table" and "cri_valid request"
    and "search cri_image (cri_image request) table 0 = Inr (Some i)"
  shows "i < length table"
proof -
  have "first_index (\<lambda>obj. present obj \<noteq> 0 \<and> terminated (cri_image request)
      \<and> c_string (cri_image obj) = c_string (cri_image request)) table = Some i"
    using assms(3) search_image_first [OF assms(1,2)] by simp
  then show ?thesis by (rule first_index_lt)
qed

lemma found_index:
  assumes "table_of object_ok table" and "cri_valid request" and "cri_find table (cri_id request) = Inr (Some i)"
  shows "i < length table" and "present (table ! i) \<noteq> 0" and "terminated (cri_id request)"
    and "c_string (cri_id (table ! i)) = c_string (cri_id request)"
  using first_index_SomeD assms(3) unfolding cri_find_first [OF assms(1,2)] by force+

lemma with_found_cases:
  assumes "table_of object_ok table" and "cri_valid request"
  obtains (missing) "with_found table (cri_id request) m f = m"
    | (found) i where "i < length table" and "present (table ! i) \<noteq> 0" and "with_found table (cri_id request) m f = f i"
proof (cases "cri_find table (cri_id request)")
  case (Inl e)
  then show thesis by (simp add: cri_find_first [OF assms])
next
  case (Inr r)
  show thesis
  proof (cases r)
    case None
    then show thesis using Inr missing by (simp add: with_found_def)
  next
    case (Some i)
    then have "cri_find table (cri_id request) = Inr (Some i)" using Inr by simp
    then show thesis using found [of i] found_index [OF assms] by (simp add: with_found_def)
  qed
qed

lemma allocate_SomeD:
  assumes "allocate table = Some (i, table')"
  shows "i < length table" and "present (table ! i) = 0" and "table' = table[i := cri_zero\<lparr>present := 1\<rparr>]"
  using assms first_index_SomeD by (auto simp: allocate_def split: option.splits)

lemma allocate_put: "allocate table = Some (i, table') \<Longrightarrow> table'[i := obj] = table[i := obj]"
  by (drule allocate_SomeD(3)) simp

lemma allocated_table:
  "table_of P table \<Longrightarrow> allocate table = Some (i, table') \<Longrightarrow> P obj \<Longrightarrow> table_of P (table'[i := obj])"
  by (simp add: allocate_put table_update)

lemma allocate_None: "allocate table = None \<longleftrightarrow> (\<forall>obj \<in> set table. present obj \<noteq> 0)"
  using first_index_None_iff [of "\<lambda>obj. present obj = 0" table]
  by (auto simp: allocate_def simp del: first_index_None_iff split: option.splits)

section \<open>What requests keep\<close>

lemma strncmp_within: "n \<le> length a \<Longrightarrow> n \<le> length b \<Longrightarrow> \<exists>r. strncmp_eq n a b = Inr r"
  by (induction n a b rule: strncmp_eq.induct) auto

lemma length_scheme [simp]: "length CARRELS_IMAGE_SCHEME = 16"
  by (simp add: CARRELS_IMAGE_SCHEME_def c_bytes_def)

lemma set_image_ref_cases:
  assumes "cri_valid obj"
  shows "terminated (cri_image obj) \<Longrightarrow>
      \<exists>x. set_image_ref obj = Inr (obj\<lparr>image_ref := store_string (image_ref obj) x\<rparr>)"
    and "\<not> terminated (cri_image obj) \<Longrightarrow> set_image_ref obj = Inl UB"
proof -
  have len: "length (cri_image obj) = 256" "length (image_ref obj) = 256" using assms by (simp_all add: cri_valid_iff)
  then obtain b where b: "strncmp_eq 16 (cri_image obj) (CARRELS_IMAGE_SCHEME @ [0]) = Inr b"
    using strncmp_within [of 16 "cri_image obj" "CARRELS_IMAGE_SCHEME @ [0]"] by auto
  have ne: "image_ref obj \<noteq> []" using len by auto
  show "terminated (cri_image obj) \<Longrightarrow>
      \<exists>x. set_image_ref obj = Inr (obj\<lparr>image_ref := store_string (image_ref obj) x\<rparr>)"
    using b ne by (cases b) (auto simp: set_image_ref_def copy_string_def read_string_def)
  show "\<not> terminated (cri_image obj) \<Longrightarrow> set_image_ref obj = Inl UB"
    using b ne by (cases b) (simp_all add: set_image_ref_def copy_string_def read_string_def)
qed

text \<open>Storing a string in an array keeps the struct valid and terminates the array.\<close>

lemma stored:
  assumes "cri_valid obj"
  shows "cri_valid (obj\<lparr>cri_id := store_string (cri_id obj) a\<rparr>)" and "cri_valid (obj\<lparr>reason := store_string (reason obj) a\<rparr>)"
    and "cri_valid (obj\<lparr>ip := store_string (ip obj) a\<rparr>)" and "terminated (store_string (cri_id obj) a)"
    and "terminated (store_string (reason obj) a)"
proof -
  have "cri_id obj \<noteq> []" "reason obj \<noteq> []" using assms by (auto simp: cri_valid_iff)
  then show "terminated (store_string (cri_id obj) a)" "terminated (store_string (reason obj) a)" by simp_all
qed (use assms in \<open>simp_all add: cri_valid_iff\<close>)

lemma container_restated:
  assumes "container_ok obj"
  shows "container_ok (obj\<lparr>cri_state := st, reason := store_string (reason obj) a\<rparr>)"
    and "container_ok (obj\<lparr>cri_state := st, started_at := v, reason := store_string (reason obj) a\<rparr>)"
    and "container_ok (obj\<lparr>cri_state := st, finished_at := v, reason := store_string (reason obj) a\<rparr>)"
    and "container_ok (obj\<lparr>cri_state := st, exit_code := x, finished_at := v, reason := store_string (reason obj) a\<rparr>)"
    and "container_ok (obj\<lparr>reason := store_string (reason obj) a\<rparr>)"
    and "container_ok (obj\<lparr>network_ns := w\<rparr>)"
  using assms stored [of obj a] by (simp_all add: container_ok_def object_ok_def cri_valid_iff)

text \<open>What a request leaves alone, and what it keeps when it succeeds.\<close>

definition orch_control :: "'m orch \<Rightarrow> _" where
  "orch_control s = (fs_init s, fname_buf s, start_pc_num s, deploy_pc_id s, deploy_peer_mask s, deploy_peers_all s,
     deploy_pending s, deploy_from_cri s, cri_c_hello_available s, loaders s, connected s, peer_cid s, peer_port s,
     tx_count s, rx_fwd_cnt s, stream s, stream_len s, sent s, shell s)"

definition done_ok :: "'m orch \<Rightarrow> (cri_reply \<times> 'm orch) \<Rightarrow> bool" where
  "done_ok s r \<longleftrightarrow> tables_wf (snd r) \<and> cri_valid (snd (fst r)) \<and> orch_control (snd r) = orch_control s
     \<and> (\<forall>j. bit (cri_slots_in_use (snd r)) j \<longrightarrow> bit (cri_slots_in_use s) j)
     \<and> start_after_reply (snd r) = start_after_reply s"

text \<open>A start request that succeeds also remembers the container.\<close>

definition started_ok :: "'m orch \<Rightarrow> (cri_reply \<times> 'm orch) \<Rightarrow> bool" where
  "started_ok s r \<longleftrightarrow> fst (fst r) = CRI_OK \<and> (\<exists>i < CRI_MAX_OBJECTS. start_after_reply (snd r) = Some i)
     \<and> done_ok s (fst r, (snd r)\<lparr>start_after_reply := start_after_reply s\<rparr>)"

lemma orch_control_tables [simp]:
  "orch_control (s\<lparr>sandboxes := a\<rparr>) = orch_control s"
  "orch_control (s\<lparr>containers := a\<rparr>) = orch_control s"
  "orch_control (s\<lparr>cri_images := a\<rparr>) = orch_control s"
  "orch_control (s\<lparr>next_id := n\<rparr>) = orch_control s"
  "orch_control (s\<lparr>timestamp := n\<rparr>) = orch_control s"
  "orch_control (s\<lparr>start_after_reply := r\<rparr>) = orch_control s"
  "orch_control (s\<lparr>orch_monitor := m\<rparr>) = orch_control s"
  "orch_control (s\<lparr>orch_mrs := regs\<rparr>) = orch_control s"
  "orch_control (s\<lparr>cri_slots_in_use := w\<rparr>) = orch_control s"
  by (simp_all add: orch_control_def)

lemma done_same: "tables_wf s \<Longrightarrow> cri_valid response \<Longrightarrow> done_ok s ((result, response), s)"
  by (simp add: done_ok_def)

lemma done_sandboxes:
  "tables_wf s \<Longrightarrow> table_of object_ok table \<Longrightarrow> cri_valid response \<Longrightarrow>
     done_ok s ((result, response), s\<lparr>sandboxes := table, next_id := n, timestamp := v\<rparr>)"
  "tables_wf s \<Longrightarrow> table_of object_ok table \<Longrightarrow> cri_valid response \<Longrightarrow>
     done_ok s ((result, response), s\<lparr>sandboxes := table\<rparr>)"
  by (simp_all add: done_ok_def tables_wf_def)

lemma done_containers:
  "tables_wf s \<Longrightarrow> table_of container_ok table \<Longrightarrow> cri_valid response \<Longrightarrow>
     done_ok s ((result, response), s\<lparr>containers := table, next_id := n, timestamp := v\<rparr>)"
  "tables_wf s \<Longrightarrow> table_of container_ok table \<Longrightarrow> cri_valid response \<Longrightarrow>
     done_ok s ((result, response), s\<lparr>containers := table\<rparr>)"
  "tables_wf s \<Longrightarrow> table_of container_ok table \<Longrightarrow> cri_valid response \<Longrightarrow>
     done_ok s ((result, response), s\<lparr>containers := table, timestamp := v\<rparr>)"
  by (simp_all add: done_ok_def tables_wf_def)

lemma done_images:
  "tables_wf s \<Longrightarrow> table_of image_ok table \<Longrightarrow> cri_valid response \<Longrightarrow>
     done_ok s ((result, response), s\<lparr>cri_images := table\<rparr>)"
  by (simp add: done_ok_def tables_wf_def)

lemma tables_wfD:
  assumes "tables_wf s"
  shows "table_of object_ok (sandboxes s)" and "table_of container_ok (containers s)" and "table_of image_ok (cri_images s)"
    and "table_of object_ok (containers s)" and "table_of object_ok (cri_images s)"
  using assms ok_objects by (auto simp: tables_wf_def intro: table_mono)

lemma nth_valid:
  assumes "tables_wf s"
  shows "i < length (sandboxes s) \<Longrightarrow> cri_valid (sandboxes s ! i)"
    and "i < length (containers s) \<Longrightarrow> cri_valid (containers s ! i)"
    and "i < length (cri_images s) \<Longrightarrow> cri_valid (cri_images s ! i)"
  using tables_wfD [OF assms] table_nth ok_objects(3) by blast+

text \<open>A request on the object it names: it is not there, or it is done with the object found.\<close>

lemma found_rule:
  assumes "table_of object_ok table" and "cri_valid request"
    and "P m" and "\<And>i. i < length table \<Longrightarrow> present (table ! i) \<noteq> 0 \<Longrightarrow> P (f i)"
  shows "\<exists>r. with_found table (cri_id request) (Inr m) (\<lambda>i. Inr (f i)) = Inr r \<and> P r"
  by (rule with_found_cases [OF assms(1,2), of "Inr m" "\<lambda>i. Inr (f i)"]) (use assms(3,4) in auto)

lemmas found_done = found_rule [where P = "done_ok s" for s]

section \<open>Each request\<close>

text \<open>Sandboxes.\<close>

lemma run_sandbox_done:
  assumes "tables_wf s" and "cri_valid request"
  shows "done_ok s (run_sandbox request s)"
proof (cases "allocate (sandboxes s)")
  case None
  then show ?thesis using assms by (simp add: run_sandbox_def done_same)
next
  case (Some it)
  obtain i table where it: "it = (i, table)" by (cases it)
  show ?thesis
    using assms Some it stored [OF assms(2)] allocated_table [OF tables_wfD(1) [OF assms(1)]]
    by (auto simp: run_sandbox_def Let_def object_ok_def cri_valid_iff intro!: done_sandboxes)
qed

lemma sandbox_requests_done:
  assumes "tables_wf s" and "cri_valid request"
  shows "\<exists>r. stop_sandbox request s = Inr r \<and> done_ok s r"
    and "\<exists>r. remove_sandbox request s = Inr r \<and> done_ok s r"
    and "\<exists>r. object_status (sandboxes s) request s = Inr r \<and> done_ok s r"
  unfolding stop_sandbox_def remove_sandbox_def object_status_def
  using tables_wfD(1) [OF assms(1)] nth_valid [OF assms(1)] table_nth
  by (fastforce intro!: found_done done_same done_sandboxes table_update assms simp: object_ok_def)+

text \<open>Containers. A request to create one needs a terminated image name.\<close>

lemma create_container_done:
  assumes "tables_wf s" and "cri_valid request"
    and "terminated (cri_image request) \<or> allocate (containers s) = None"
  shows "\<exists>r. create_container request s = Inr r \<and> done_ok s r"
proof (cases "allocate (containers s)")
  case None
  then show ?thesis using assms by (simp add: create_container_def done_same)
next
  case (Some it)
  obtain i table where it: "it = (i, table)" by (cases it)
  let ?obj = "request\<lparr>present := 1, cri_id := store_string (cri_id request) (container_name (next_id s + 1)),
    created_at := timestamp s + 1\<rparr>"
  have obj: "cri_valid ?obj" "terminated (cri_image ?obj)" "terminated (cri_id ?obj)"
    using assms Some stored [OF assms(2)] by (simp_all add: cri_valid_iff)
  obtain x where x: "set_image_ref ?obj = Inr (?obj\<lparr>image_ref := store_string (image_ref request) x\<rparr>)"
    using set_image_ref_cases(1) [OF obj(1,2)] by auto
  let ?new = "?obj\<lparr>image_ref := store_string (image_ref request) x,
    reason := copy_literal (reason request) ''CarrelsCreated''\<rparr>"
  have new: "container_ok ?new" "cri_valid ?new"
    using obj stored(5) [OF assms(2)] by (simp_all add: container_ok_def object_ok_def cri_valid_iff)
  have "create_container request s = Inr ((CRI_OK, ?new),
      s\<lparr>containers := table[i := ?new], next_id := next_id s + 1, timestamp := timestamp s + 1\<rparr>)"
    using Some it x by (simp add: create_container_def Let_def)
  then show ?thesis
    using done_containers(1) [OF assms(1) allocated_table [OF tables_wfD(2) [OF assms(1)] Some [unfolded it] new(1)] new(2)]
    by blast
qed

lemma create_container_ub:
  assumes "cri_valid request" and "\<not> terminated (cri_image request)" and "allocate (containers s) \<noteq> None"
  shows "create_container request s = Inl UB"
proof -
  obtain i table where it: "allocate (containers s) = Some (i, table)" using assms(3) by auto
  let ?obj = "request\<lparr>present := 1, cri_id := store_string (cri_id request) (container_name (next_id s + 1)),
    created_at := timestamp s + 1\<rparr>"
  have "cri_valid ?obj" using assms(1) stored [OF assms(1)] by (simp add: cri_valid_iff)
  then have "set_image_ref ?obj = Inl UB" using assms(2) set_image_ref_cases(2) [of ?obj] by simp
  then show ?thesis using it by (simp add: create_container_def)
qed

lemma container_requests_done:
  assumes "tables_wf s" and "cri_valid request"
  shows "\<exists>r. remove_container request s = Inr r \<and> done_ok s r"
    and "\<exists>r. object_status (containers s) request s = Inr r \<and> done_ok s r"
    and "\<exists>r. reopen_log request s = Inr r \<and> done_ok s r"
  unfolding remove_container_def object_status_def reopen_log_def
  using tables_wfD [OF assms(1)] nth_valid [OF assms(1)]
  by (fastforce intro!: found_done done_same done_containers table_update assms)+

lemma start_container_done:
  assumes "tables_wf s" and "cri_valid request"
  shows "\<exists>r. start_container request s = Inr r \<and> (if fst (fst r) = CRI_OK then started_ok s r else done_ok s r)"
  unfolding start_container_def Let_def
proof (rule found_rule [OF tables_wfD(4) [OF assms(1)] assms(2)])
  show "if fst (fst ((CRI_NOT_FOUND, cri_zero), s)) = CRI_OK then started_ok s ((CRI_NOT_FOUND, cri_zero), s)
      else done_ok s ((CRI_NOT_FOUND, cri_zero), s)" using assms by (simp add: done_same)
  fix i
  assume i: "i < length (containers s)" "present (containers s ! i) \<noteq> 0"
  have "container_ok (containers s ! i)" using table_nth [OF tables_wfD(2) [OF assms(1)] i(1)] .
  moreover have "length (containers s) = CRI_MAX_OBJECTS" using assms(1) by (simp add: tables_wf_def table_of_def)
  ultimately show "if fst (fst ((CRI_OK, cri_zero), s\<lparr>containers := (containers s)[i := (containers s ! i)
      \<lparr>cri_state := 1, started_at := timestamp s + 1, reason := copy_literal (reason (containers s ! i)) ''CarrelsStarting''\<rparr>],
      timestamp := timestamp s + 1, start_after_reply := Some i\<rparr>)) = CRI_OK
    then started_ok s ((CRI_OK, cri_zero), s\<lparr>containers := (containers s)[i := (containers s ! i)
      \<lparr>cri_state := 1, started_at := timestamp s + 1, reason := copy_literal (reason (containers s ! i)) ''CarrelsStarting''\<rparr>],
      timestamp := timestamp s + 1, start_after_reply := Some i\<rparr>)
    else done_ok s ((CRI_OK, cri_zero), s\<lparr>containers := (containers s)[i := (containers s ! i)
      \<lparr>cri_state := 1, started_at := timestamp s + 1, reason := copy_literal (reason (containers s ! i)) ''CarrelsStarting''\<rparr>],
      timestamp := timestamp s + 1, start_after_reply := Some i\<rparr>)"
    using assms(1) i by (auto simp: started_ok_def done_ok_def tables_wf_def table_update container_restated)
qed

text \<open>Stopping asks the monitor, which may not answer.\<close>

definition no_ub :: "'m orch_env \<Rightarrow> bool" where
  "no_ub E \<longleftrightarrow> (\<forall>mem m msg. ppcall E mem m msg \<noteq> Inl UB)"

lemma orch_ppcall_cases:
  assumes "no_ub E"
  obtains (stopped) e where "monitor_ppcall E msg s = Inl e" and "e \<noteq> UB"
    | (answered) label m regs where "monitor_ppcall E msg s = Inr (label, s\<lparr>orch_monitor := m, orch_mrs := regs\<rparr>)"
proof (cases "ppcall E (memory s) (orch_monitor s) msg")
  case (Inl e)
  then show thesis using assms stopped by (auto simp: no_ub_def monitor_ppcall_def)
next
  case (Inr r)
  then show thesis using answered by (cases r) (simp add: monitor_ppcall_def)
qed

text \<open>What a call to the monitor changes.\<close>

definition called :: "'m orch \<Rightarrow> 'm orch \<Rightarrow> bool" where
  "called s s' \<longleftrightarrow> (\<exists>m regs. s' = s\<lparr>orch_monitor := m, orch_mrs := regs\<rparr>)"

lemma called_trans: "called s t \<Longrightarrow> called t u \<Longrightarrow> called s u"
  unfolding called_def
proof (elim exE)
  fix m regs m' regs'
  assume "t = s\<lparr>orch_monitor := m, orch_mrs := regs\<rparr>" and "u = t\<lparr>orch_monitor := m', orch_mrs := regs'\<rparr>"
  then have "u = s\<lparr>orch_monitor := m', orch_mrs := regs'\<rparr>" by simp
  then show "\<exists>m regs. u = s\<lparr>orch_monitor := m, orch_mrs := regs\<rparr>" by blast
qed

lemma called_refl: "called s s"
  unfolding called_def by (intro exI [of _ "orch_monitor s"] exI [of _ "orch_mrs s"]) simp

lemma ppcall_called: "monitor_ppcall E msg s = Inr (label, s') \<Longrightarrow> called s s'"
  by (auto simp: monitor_ppcall_def called_def elim!: bindR_InrE)

lemma is_running_called: "monitor_protocon_is_running E pc s = Inr (r, s') \<Longrightarrow> called s s'"
  by (auto simp: monitor_protocon_is_running_def called_refl split: if_splits elim!: bindR_InrE dest: ppcall_called)

lemma is_running_no_ub: "no_ub E \<Longrightarrow> monitor_protocon_is_running E pc s \<noteq> Inl UB"
  by (rule orch_ppcall_cases [of E "[PC_MONITOR_CALL_QUERY_PROTOCONS]" s]) (auto simp: monitor_protocon_is_running_def)

lemma cri_stop_no_ub:
  assumes "no_ub E"
  shows "orchestrator_cri_stop E pc s \<noteq> Inl UB"
proof (rule orch_ppcall_cases [OF assms, of "[PC_MONITOR_CALL_TERMINATE_EXT, ucast pc]" s])
  fix label m regs
  assume call: "monitor_ppcall E [PC_MONITOR_CALL_TERMINATE_EXT, ucast pc] s
    = Inr (label, s\<lparr>orch_monitor := m, orch_mrs := regs\<rparr>)"
  show ?thesis
  proof (cases "monitor_protocon_is_running E pc (s\<lparr>orch_monitor := m, orch_mrs := regs\<rparr>)")
    case (Inl e)
    then have "e \<noteq> UB" using is_running_no_ub [OF assms, of pc "s\<lparr>orch_monitor := m, orch_mrs := regs\<rparr>"] by auto
    then show ?thesis using call Inl by (simp add: orchestrator_cri_stop_def)
  next
    case (Inr r)
    then show ?thesis using call by (cases r) (simp add: orchestrator_cri_stop_def)
  qed
qed (simp add: orchestrator_cri_stop_def)

lemma cri_stop_result:
  assumes "orchestrator_cri_stop E pc s = Inr (stopped, s')"
  shows "\<exists>t. called s t \<and> s' = (if stopped then t\<lparr>cri_slots_in_use := cri_slots_in_use t AND NOT (slot_bit pc)\<rparr> else t)"
  using assms
  by (auto simp: orchestrator_cri_stop_def called_refl split: if_splits elim!: bindR_InrE)
    (blast intro: ppcall_called is_running_called called_trans)+

lemma called_fields:
  assumes "called s t"
  shows "orch_control t = orch_control s" and "containers t = containers s" and "sandboxes t = sandboxes s"
    and "cri_images t = cri_images s" and "cri_slots_in_use t = cri_slots_in_use s" and "next_id t = next_id s"
    and "start_after_reply t = start_after_reply s" and "timestamp t = timestamp s"
  using assms by (auto simp: called_def orch_control_def)

lemma stop_found_done:
  assumes "tables_wf s" and i: "i < length (containers s)"
  shows "(\<forall>r. stop_found E i s = Inr r \<longrightarrow> done_ok s r) \<and> (no_ub E \<longrightarrow> stop_found E i s \<noteq> Inl UB)"
proof (cases "if cri_state (containers s ! i) = 1
       then orchestrator_cri_stop E (network_ns (containers s ! i)) s else Inr (True, s)")
  case (Inl e)
  then have "no_ub E \<Longrightarrow> e \<noteq> UB" using cri_stop_no_ub by (auto split: if_splits)
  then show ?thesis using Inl by (simp add: stop_found_def)
next
  case (Inr r)
  obtain stopped u where r: "r = (stopped, u)" by (cases r)
  have u: "orch_control u = orch_control s" "containers u = containers s" "sandboxes u = sandboxes s"
      "cri_images u = cri_images s" "start_after_reply u = start_after_reply s"
      "\<forall>j. bit (cri_slots_in_use u) j \<longrightarrow> bit (cri_slots_in_use s) j"
  proof -
    have "\<exists>t. called s t \<and> (u = t \<or> u = t\<lparr>cri_slots_in_use := cri_slots_in_use t AND NOT (slot_bit (network_ns (containers s ! i)))\<rparr>)"
      using Inr r cri_stop_result [of E "network_ns (containers s ! i)" s stopped u] called_refl [of s]
      by (cases "cri_state (containers s ! i) = 1"; cases stopped) auto
    then obtain t where t: "called s t"
      and u: "u = t \<or> u = t\<lparr>cri_slots_in_use := cri_slots_in_use t AND NOT (slot_bit (network_ns (containers s ! i)))\<rparr>"
      by blast
    note f = called_fields [OF t]
    show "orch_control u = orch_control s" "containers u = containers s" "sandboxes u = sandboxes s"
      "cri_images u = cri_images s" "start_after_reply u = start_after_reply s"
      by (rule disjE [OF u]; simp add: f)+
    show "\<forall>j. bit (cri_slots_in_use u) j \<longrightarrow> bit (cri_slots_in_use s) j"
      by (rule disjE [OF u]) (simp_all add: f(5) bit_and_iff)
  qed
  have ok: "container_ok (containers s ! i)" using table_nth [OF tables_wfD(2) [OF assms(1)] i] .
  show ?thesis
    using Inr r assms u ok container_restated(3) [OF ok]
    by (cases stopped) (simp_all add: stop_found_def Let_def done_ok_def tables_wf_def table_update)
qed

lemma stop_container_done:
  assumes "tables_wf s" and "cri_valid request"
  shows "(\<forall>r. stop_container E request s = Inr r \<longrightarrow> done_ok s r) \<and> (no_ub E \<longrightarrow> stop_container E request s \<noteq> Inl UB)"
  by (rule with_found_cases [OF tables_wfD(4) [OF assms(1)] assms(2), of "Inr ((CRI_NOT_FOUND, cri_zero), s)"
        "\<lambda>i. stop_found E i s"])
    (use stop_found_done [OF assms(1)] assms in \<open>simp_all add: stop_container_def done_same\<close>)

text \<open>Images. Only an image with a known, and so terminated, name is pulled.\<close>

lemma strcmp_eq_right:
  assumes "terminated b" and "length (c_string b) < length a"
  shows "strcmp_eq a b = Inr (terminated a \<and> c_string a = c_string b)"
  using assms by (induction a b rule: strcmp_eq.induct) auto

lemma known_names:
  "terminated K8S_C_HELLO_IMAGE" "length (c_string K8S_C_HELLO_IMAGE) < 256"
  "terminated K8S_C_HELLO_IMAGE_REF" "length (c_string K8S_C_HELLO_IMAGE_REF) < 256"
proof -
  show t: "terminated K8S_C_HELLO_IMAGE" "terminated K8S_C_HELLO_IMAGE_REF"
    by (simp_all add: K8S_C_HELLO_IMAGE_def K8S_C_HELLO_IMAGE_REF_def)
  have "length K8S_C_HELLO_IMAGE < 256" "length K8S_C_HELLO_IMAGE_REF < 256"
    by (simp_all add: K8S_C_HELLO_IMAGE_def K8S_C_HELLO_IMAGE_REF_def c_bytes_def)
  then show "length (c_string K8S_C_HELLO_IMAGE) < 256" "length (c_string K8S_C_HELLO_IMAGE_REF) < 256"
    using t length_c_string_lt less_trans by blast+
qed

lemma known_image_valid:
  assumes "length img = 256"
  shows "known_image img = Inr (terminated img
    \<and> c_string img \<in> {c_string K8S_C_HELLO_IMAGE, c_string K8S_C_HELLO_IMAGE_REF})"
  using assms known_names by (auto simp: known_image_def strcmp_eq_right)

lemma image_exists_cases:
  assumes "cri_valid obj"
  shows "\<exists>b. orchestrator_cri_image_exists (cri_image obj) s = Inr b \<and> (b \<longrightarrow> terminated (cri_image obj))"
  using assms by (simp add: orchestrator_cri_image_exists_def known_image_valid cri_valid_iff)

lemma pull_new_done:
  assumes "tables_wf s" and "cri_valid request" and "terminated (cri_image request)"
    and "allocate (cri_images s) = Some (i, table)"
  shows "\<exists>obj. bindR (set_image_ref (request\<lparr>present := 1\<rparr>)) (\<lambda>obj.
       bindR (copy_string (cri_id obj) (image_ref obj)) (\<lambda>name. f (obj\<lparr>cri_id := name\<rparr>))) = f obj
     \<and> image_ok obj \<and> present obj = 1 \<and> cri_image obj = cri_image request"
proof -
  let ?req = "request\<lparr>present := 1\<rparr>"
  obtain x where x: "set_image_ref ?req = Inr (?req\<lparr>image_ref := store_string (image_ref request) x\<rparr>)"
    using set_image_ref_cases(1) [of ?req] assms(2,3) by auto
  have ne: "image_ref request \<noteq> []" "cri_id request \<noteq> []" using assms(2) by (auto simp: cri_valid_iff)
  let ?ref = "store_string (image_ref request) x"
  let ?obj = "?req\<lparr>image_ref := ?ref, cri_id := store_string (cri_id request) (c_string ?ref)\<rparr>"
  have "image_ok ?obj"
    using assms(2,3) ne by (simp add: image_ok_def object_ok_def cri_valid_iff)
  then show ?thesis
    using x ne by (intro exI [of _ ?obj]) (simp add: copy_string_def read_string_def)
qed

lemma pull_image_done:
  assumes "tables_wf s" and "cri_valid request"
  shows "\<exists>r. pull_image request s = Inr r \<and> done_ok s r"
proof -
  obtain b where b: "orchestrator_cri_image_exists (cri_image request) s = Inr b" "b \<longrightarrow> terminated (cri_image request)"
    using image_exists_cases [OF assms(2)] by blast
  show ?thesis
  proof (cases "\<not> b")
    case True
    then show ?thesis using b(1) assms by (simp add: pull_image_def done_same)
  next
    case False
    show ?thesis
    proof (cases "search cri_image (cri_image request) (cri_images s) 0")
      case (Inl e)
      then show ?thesis using search_image_first [OF tables_wfD(3) [OF assms(1)] assms(2)] by simp
    next
      case (Inr r)
      show ?thesis
      proof (cases r)
        case (Some i)
        then have "i < length (cri_images s)"
          using Inr search_index [OF tables_wfD(3) [OF assms(1)] assms(2)] by simp
        then show ?thesis
          using b(1) False Inr Some nth_valid(3) [OF assms(1)] assms by (simp add: pull_image_def done_same)
      next
        case None
        show ?thesis
        proof (cases "allocate (cri_images s)")
          case None
          then show ?thesis using b(1) False Inr \<open>r = None\<close> assms by (simp add: pull_image_def done_same)
        next
          case (Some it)
          obtain i table where it: "allocate (cri_images s) = Some (i, table)" using Some by (cases it) simp
          have "terminated (cri_image request)" using b(2) False by simp
          from pull_new_done [OF assms this it,
              where f = "\<lambda>obj. Inr ((CRI_OK, obj), s\<lparr>cri_images := table[i := obj]\<rparr>)"]
          obtain obj where obj: "pull_image request s = Inr ((CRI_OK, obj), s\<lparr>cri_images := table[i := obj]\<rparr>)" "image_ok obj"
            using b(1) False Inr \<open>r = None\<close> it by (auto simp: pull_image_def Let_def)
          then show ?thesis
            using done_images [OF assms(1) allocated_table [OF tables_wfD(3) [OF assms(1)] it obj(2)]] ok_objects by blast
        qed
      qed
    qed
  qed
qed

lemma image_requests_done:
  assumes "tables_wf s" and "cri_valid request"
  shows "\<exists>r. remove_image request s = Inr r \<and> done_ok s r"
    and "\<exists>r. image_status request s = Inr r \<and> done_ok s r"
proof -
  show "\<exists>r. remove_image request s = Inr r \<and> done_ok s r"
    unfolding remove_image_def
    using tables_wfD [OF assms(1)] by (fastforce intro!: found_done done_same done_images table_update assms)
  have "\<forall>i r. cri_find (cri_images s) (cri_id request) = Inr (Some i) \<longrightarrow> i < length (cri_images s)"
    using found_index(1) [OF tables_wfD(5) [OF assms(1)] assms(2)] by blast
  moreover have "\<forall>i. search cri_image (cri_image request) (cri_images s) 0 = Inr (Some i) \<longrightarrow> i < length (cri_images s)"
    using search_index [OF tables_wfD(3) [OF assms(1)] assms(2)] by blast
  ultimately show "\<exists>r. image_status request s = Inr r \<and> done_ok s r"
    using cri_find_first [OF tables_wfD(5) [OF assms(1)] assms(2)] search_image_first [OF tables_wfD(3) [OF assms(1)] assms(2)]
      nth_valid(3) [OF assms(1)] assms
    by (auto simp: image_status_def done_same split: option.splits)
qed

section \<open>Every request\<close>

lemma list_one_valid: "table_of object_ok table \<Longrightarrow> cri_valid (list_one table start cri_zero)"
proof (cases "first_index (\<lambda>i. present (table ! i) \<noteq> 0) [unat start..<CRI_MAX_OBJECTS]")
  case None
  then show ?thesis by (simp add: list_one_def del: first_index_None_iff)
next
  case (Some k)
  assume t: "table_of object_ok table"
  have "k < CRI_MAX_OBJECTS - unat start" using first_index_lt [OF Some] by simp
  then have "unat start + k < length table" using t by (simp add: table_of_def)
  then show ?thesis using Some table_nth [OF t] ok_objects(3) by (simp add: list_one_def)
qed

lemma dispatch_done:
  assumes "tables_wf s" and "cri_valid request"
  shows "(\<forall>r. cri_dispatch E op request s = Inr r \<longrightarrow>
        (if map_of cri_ops op = Some CRI_START_CONTAINER \<and> fst (fst r) = CRI_OK then started_ok s r else done_ok s r))
    \<and> (no_ub E \<longrightarrow> (cri_dispatch E op request s = Inl UB \<longleftrightarrow>
         map_of cri_ops op = Some CRI_CREATE_CONTAINER \<and> \<not> terminated (cri_image request)
         \<and> (\<exists>obj \<in> set (containers s). present obj = 0)))"
proof (cases "map_of cri_ops op")
  case None
  then show ?thesis using assms by (simp add: cri_dispatch_def done_same)
next
  case (Some what)
  note lists = tables_wfD(1,4,5) [OF assms(1), THEN list_one_valid]
  show ?thesis
  proof (cases what)
    case CRI_CREATE_CONTAINER
    then have d: "cri_dispatch E op request s = create_container request s" using Some by (simp add: cri_dispatch_def)
    show ?thesis
      using create_container_done [OF assms] create_container_ub [OF assms(2), of s] Some CRI_CREATE_CONTAINER
        allocate_None [of "containers s"]
      unfolding d by (cases "terminated (cri_image request) \<or> allocate (containers s) = None") auto
  next
    case CRI_STOP_CONTAINER
    then show ?thesis using stop_container_done [OF assms, of E] Some by (simp add: cri_dispatch_def)
  next
    case CRI_RUN_SANDBOX
    then show ?thesis using run_sandbox_done [OF assms] Some by (simp add: cri_dispatch_def)
  next
    case CRI_HELLO
    then show ?thesis using Some assms by (simp add: cri_dispatch_def done_same)
  next
    case CRI_STOP_SANDBOX
    then show ?thesis using sandbox_requests_done(1) [OF assms] Some by (auto simp: cri_dispatch_def)
  next
    case CRI_REMOVE_SANDBOX
    then show ?thesis using sandbox_requests_done(2) [OF assms] Some by (auto simp: cri_dispatch_def)
  next
    case CRI_SANDBOX_STATUS
    then show ?thesis using sandbox_requests_done(3) [OF assms] Some by (auto simp: cri_dispatch_def)
  next
    case CRI_LIST_SANDBOX
    then show ?thesis using Some assms lists by (simp add: cri_dispatch_def done_same)
  next
    case CRI_START_CONTAINER
    then show ?thesis using start_container_done [OF assms] Some by (auto simp: cri_dispatch_def)
  next
    case CRI_REMOVE_CONTAINER
    then show ?thesis using container_requests_done(1) [OF assms] Some by (auto simp: cri_dispatch_def)
  next
    case CRI_CONTAINER_STATUS
    then show ?thesis using container_requests_done(2) [OF assms] Some by (auto simp: cri_dispatch_def)
  next
    case CRI_LIST_CONTAINER
    then show ?thesis using Some assms lists by (simp add: cri_dispatch_def done_same)
  next
    case CRI_REOPEN_LOG
    then show ?thesis using container_requests_done(3) [OF assms] Some by (auto simp: cri_dispatch_def)
  next
    case CRI_PULL_IMAGE
    then show ?thesis using pull_image_done [OF assms] Some by (auto simp: cri_dispatch_def)
  next
    case CRI_REMOVE_IMAGE
    then show ?thesis using image_requests_done(1) [OF assms] Some by (auto simp: cri_dispatch_def)
  next
    case CRI_IMAGE_STATUS
    then show ?thesis using image_requests_done(2) [OF assms] Some by (auto simp: cri_dispatch_def)
  next
    case CRI_LIST_IMAGE
    then show ?thesis using Some assms lists by (simp add: cri_dispatch_def done_same)
  qed
qed

end
