(* ===== verification/Microrl_Invariant.thy ===== *)
theory Microrl_Invariant
  imports Microrl
begin

text \<open>
  What every operation of the line editor keeps: the line and the history stay inside their arrays, and the
  user's state changes by commands only.
\<close>

section \<open>The invariant\<close>

definition hist_ok :: "microrl_hist_rbuf \<Rightarrow> bool" where
  "hist_ok r \<longleftrightarrow> length (ring_buf r) = 128 \<and> hist_head r < 128 \<and> hist_tail r < 128 \<and> ring_buf r ! hist_tail r = 0"

definition line_ok :: "microrl \<Rightarrow> bool" where
  "line_ok mrl \<longleftrightarrow> length (cmdline_str mrl) = 129 \<and> cmdlen mrl \<le> 128 \<and> mrl_cursor mrl \<le> cmdlen mrl
     \<and> cmdline_str mrl ! 128 = 0"

definition editor_ok :: "microrl \<Rightarrow> bool" where
  "editor_ok mrl \<longleftrightarrow> line_ok mrl \<and> hist_ok (ring_hist mrl)"

lemma editor_updates [simp]:
  "editor_ok (mrl\<lparr>last_endl := c\<rparr>) = editor_ok mrl" "editor_ok (mrl\<lparr>escape := b\<rparr>) = editor_ok mrl"
  "editor_ok (mrl\<lparr>esc_code := e\<rparr>) = editor_ok mrl" "editor_ok (out_fn str mrl) = editor_ok mrl"
  by (simp_all add: editor_ok_def line_ok_def out_fn_def)

lemma out_fn_fields [simp]:
  "cmdline_str (out_fn str mrl) = cmdline_str mrl" "cmdlen (out_fn str mrl) = cmdlen mrl"
  "mrl_cursor (out_fn str mrl) = mrl_cursor mrl" "ring_hist (out_fn str mrl) = ring_hist mrl"
  "escape (out_fn str mrl) = escape mrl" "last_endl (out_fn str mrl) = last_endl mrl"
  "esc_code (out_fn str mrl) = esc_code mrl" "prompt_ptr (out_fn str mrl) = prompt_ptr mrl"
  "prompt_size (out_fn str mrl) = prompt_size mrl"
  by (simp_all add: out_fn_def)

lemma printers_are_out:
  "\<exists>str. prv_terminal_print_prompt mrl = out_fn str mrl" "\<exists>str. prv_terminal_newline mrl = out_fn str mrl"
  "\<exists>str. prv_terminal_backspace mrl = out_fn str mrl" "\<exists>str. prv_terminal_move_cursor i mrl = out_fn str mrl"
proof -
  have "mrl = out_fn [] mrl" by (simp add: out_fn_def)
  then show "\<exists>str. prv_terminal_move_cursor i mrl = out_fn str mrl"
    by (auto simp: prv_terminal_move_cursor_def)
qed (auto simp: prv_terminal_print_prompt_def prv_terminal_newline_def prv_terminal_backspace_def)

lemma print_line_is_out: "prv_terminal_print_line pos reset mrl = Inr mrl' \<Longrightarrow> \<exists>str. mrl' = out_fn str mrl"
  by (auto simp: prv_terminal_print_line_def Let_def split: if_splits elim!: bindR_InrE)

lemma editor_printers [simp]:
  "editor_ok (prv_terminal_print_prompt mrl) = editor_ok mrl" "editor_ok (prv_terminal_newline mrl) = editor_ok mrl"
  "editor_ok (prv_terminal_backspace mrl) = editor_ok mrl" "editor_ok (prv_terminal_move_cursor i mrl) = editor_ok mrl"
  using printers_are_out(1-3) [of mrl] printers_are_out(4) [where i = i and mrl = mrl] by (metis editor_updates(4))+

lemma print_line_ok: "prv_terminal_print_line pos reset mrl = Inr mrl' \<Longrightarrow> editor_ok mrl' = editor_ok mrl"
  using print_line_is_out by fastforce

section \<open>Editing\<close>

lemma editor_okI:
  assumes "editor_ok mrl" and "length a = 129" and "a ! 128 = 0" and "c \<le> n" and "n \<le> 128"
  shows "editor_ok (mrl\<lparr>cmdline_str := a, mrl_cursor := c, cmdlen := n\<rparr>)"
    and "c \<le> cmdlen mrl \<Longrightarrow> editor_ok (mrl\<lparr>mrl_cursor := c\<rparr>)"
  using assms by (simp_all add: editor_ok_def line_ok_def)

text \<open>The last byte of a line that is written before it only.\<close>

lemma last_byte:
  "mem_move a dst src n = Inr a' \<Longrightarrow> dst + n < length a \<Longrightarrow> last a' = last a"
  "mem_put a pos bs = Inr a' \<Longrightarrow> pos + length bs < length a \<Longrightarrow> last a' = last a"
  "mem_set a pos v n = Inr a' \<Longrightarrow> pos + n < length a \<Longrightarrow> last a' = last a"
  by (auto simp: mem_move_def mem_put_def mem_set_def last_drop split: if_splits)

lemma last_129: "length a = 129 \<Longrightarrow> a ! 128 = last a"
  using last_conv_nth [of a] by (cases "a = []") auto

lemma insert_ok:
  assumes "editor_ok mrl" and "prv_cmdline_buf_insert_text str mrl = Inr (res, mrl')"
  shows "editor_ok mrl'"
proof (cases "cmdlen mrl + length str > 128")
  case True
  then show ?thesis using assms by (simp add: prv_cmdline_buf_insert_text_def editor_ok_def line_ok_def)
next
  case False
  have m: "length (cmdline_str mrl) = 129" "mrl_cursor mrl \<le> cmdlen mrl" "last (cmdline_str mrl) = 0"
    using assms(1) last_129 [of "cmdline_str mrl"] by (simp_all add: editor_ok_def line_ok_def)
  then obtain a b c where a: "mem_move (cmdline_str mrl) (mrl_cursor mrl + length str) (mrl_cursor mrl) (cmdlen mrl - mrl_cursor mrl) = Inr a"
    and b: "mem_put a (mrl_cursor mrl) str = Inr b"
    and c: "mem_set b (cmdlen mrl + length str) 0 (128 - (cmdlen mrl + length str)) = Inr c"
    and mrl': "mrl' = mrl\<lparr>cmdline_str := c, mrl_cursor := mrl_cursor mrl + length str, cmdlen := cmdlen mrl + length str\<rparr>"
    using assms(2) False by (auto simp: prv_cmdline_buf_insert_text_def Let_def split: if_splits elim!: bindR_InrE)
  have "length a = 129" "length b = 129" "length c = 129" using mem_length a b c m(1) by metis+
  moreover have "last a = 0" using last_byte(1) [OF a] m False by simp
  moreover have "last b = 0" using last_byte(2) [OF b] m(2) False calculation by simp
  moreover have "last c = 0" using last_byte(3) [OF c] calculation False by simp
  ultimately show ?thesis
    using assms(1) m(2) False last_129 [of c] unfolding mrl' by (intro editor_okI) simp_all
qed

lemma backspace_ok:
  assumes "editor_ok mrl" and "0 < len" and "prv_cmdline_buf_backspace len mrl = Inr mrl'"
  shows "editor_ok mrl'"
proof (cases "mrl_cursor mrl < len")
  case False
  have m: "length (cmdline_str mrl) = 129" "mrl_cursor mrl \<le> cmdlen mrl" "last (cmdline_str mrl) = 0" "cmdlen mrl \<le> 128"
    using assms(1) last_129 [of "cmdline_str mrl"] by (simp_all add: editor_ok_def line_ok_def)
  then obtain a b where a: "mem_move (cmdline_str mrl) (mrl_cursor mrl - len) (mrl_cursor mrl) (cmdlen mrl - mrl_cursor mrl + len) = Inr a"
    and b: "mem_put a (cmdlen mrl) [0] = Inr b"
    and mrl': "mrl' = mrl\<lparr>cmdline_str := b, mrl_cursor := mrl_cursor mrl - len, cmdlen := cmdlen mrl - len\<rparr>"
    using assms(3) False by (auto simp: prv_cmdline_buf_backspace_def split: if_splits elim!: bindR_InrE)
  have len: "length a = 129" "length b = 129" using mem_length a b m(1) by metis+
  have "last a = 0" using last_byte(1) [OF a] m False assms(2) by simp
  then have "last b = 0"
    using last_byte(2) [OF b] len b by (cases "cmdlen mrl = 128") (auto simp: mem_put_def)
  then show ?thesis
    using assms(1) m len False last_129 [of b] unfolding mrl' by (intro editor_okI) simp_all
qed (use assms in \<open>simp add: prv_cmdline_buf_backspace_def\<close>)

lemma delete_ok:
  assumes "editor_ok mrl" and "prv_cmdline_buf_delete mrl = Inr mrl'"
  shows "editor_ok mrl'"
proof (cases "cmdlen mrl = 0 \<or> mrl_cursor mrl = cmdlen mrl")
  case False
  have m: "length (cmdline_str mrl) = 129" "mrl_cursor mrl \<le> cmdlen mrl" "last (cmdline_str mrl) = 0"
    using assms(1) last_129 [of "cmdline_str mrl"] by (simp_all add: editor_ok_def line_ok_def)
  then obtain a b where a: "mem_move (cmdline_str mrl) (mrl_cursor mrl) (mrl_cursor mrl + 1) (cmdlen mrl - mrl_cursor mrl + 1) = Inr a"
    and b: "mem_put a (cmdlen mrl) [0] = Inr b" and mrl': "mrl' = mrl\<lparr>cmdline_str := b, cmdlen := cmdlen mrl - 1\<rparr>"
    using assms(2) False by (auto simp: prv_cmdline_buf_delete_def split: if_splits elim!: bindR_InrE)
  have len: "length a = 129" "length b = 129" using mem_length a b m(1) by metis+
  have n: "cmdlen mrl < 128" using a m False by (auto simp: mem_move_def split: if_splits)
  then have "last a = 0" using last_byte(1) [OF a] m by simp
  then have "last b = 0" using last_byte(2) [OF b] len n by simp
  moreover have "mrl_cursor mrl \<le> cmdlen mrl - 1" using m(2) False by linarith
  ultimately show ?thesis
    using assms(1) m len False n last_129 [of b] unfolding mrl' by (simp add: editor_ok_def line_ok_def)
qed (use assms in \<open>simp add: prv_cmdline_buf_delete_def\<close>)

section \<open>History\<close>

lemma record_len_bound: "hist_record_len n buf k = Inr l \<Longrightarrow> l < n"
  by (induction n buf k arbitrary: l rule: hist_record_len.induct) (auto split: if_splits elim!: bindR_InrE)

lemma copy_ok:
  assumes "length buf = 128" and "length line = 129" and "l \<le> 128" and "hist_copy_line buf idx l line = Inr line'"
  shows "length line' = 129 \<and> last line' = last line"
proof -
  obtain line1 where line1: "mem_set line 0 0 MICRORL_CFG_CMDLINE_LEN = Inr line1"
    and rest: "(if idx + l < length buf then mem_put line1 0 (take l (drop idx buf))
       else
         let part0 = length buf - idx
         in bindR (mem_put line1 0 (drop idx buf)) (\<lambda>line. mem_put line part0 (take (l - part0) buf))) = Inr line'"
    using assms(4) unfolding hist_copy_line_def by (rule bindR_InrE)
  have 1: "length line1 = 129" "last line1 = last line"
    using mem_length(2) [OF line1] last_byte(3) [OF line1] assms(2) by (simp_all add: MICRORL_CFG_CMDLINE_LEN_def)
  show ?thesis
  proof (cases "idx + l < length buf")
    case True
    then have p: "mem_put line1 0 (take l (drop idx buf)) = Inr line'" using rest by simp
    then show ?thesis using mem_length(3) [OF p] last_byte(2) [OF p] 1 assms(1) by simp
  next
    case False
    then obtain line2 where p: "mem_put line1 0 (drop idx buf) = Inr line2"
      and q: "mem_put line2 (length buf - idx) (take (l - (length buf - idx)) buf) = Inr line'"
      using rest by (auto simp: Let_def elim!: bindR_InrE)
    have "length line2 = 129" "last line2 = last line1"
      using mem_length(3) [OF p] last_byte(2) [OF p] 1 assms(1) by simp_all
    then show ?thesis
      using mem_length(3) [OF q] last_byte(2) [OF q] 1 assms(1,3) False by simp
  qed
qed

lemma restore_ok:
  assumes "hist_ok r" and "length line = 129" and "prv_hist_restore_line dir line r = Inr (found, line', r')"
  shows "length line' = 129 \<and> last line' = last line \<and> hist_ok r' \<and> (\<forall>n. found = Some n \<longrightarrow> n \<le> 128)
    \<and> (\<exists>count. r' = r\<lparr>hist_count := count\<rparr>)"
proof -
  obtain cnt where cnt: "hist_records (ring_buf r) (hist_tail r) (hist_head r) = Inr cnt"
    using assms(3) by (auto simp: prv_hist_restore_line_def elim!: bindR_InrE)
  obtain target count where nav: "hist_navigate cnt (hist_count r) dir = (target, count)" by fastforce
  have ok: "hist_ok (r\<lparr>hist_count := c\<rparr>)" for c using assms(1) by (simp add: hist_ok_def)
  have buf: "length (ring_buf r) = 128" using assms(1) by (simp add: hist_ok_def)
  show ?thesis
  proof (cases target)
    case None
    then show ?thesis
      using assms cnt nav ok by (auto simp: prv_hist_restore_line_def)
  next
    case (Some n)
    then have rest: "(if cnt < n then Inl UB
            else
              bindR (hist_skip (cnt - n) (ring_buf r) (hist_head r)) (\<lambda>idx.
              bindR (hist_record_len (length (ring_buf r) + 1) (ring_buf r) (idx + 1)) (\<lambda>rec_len.
              bindR (hist_copy_line (ring_buf r) (idx + 1) rec_len line) (\<lambda>line.
              Inr (Some rec_len, line, r\<lparr>hist_count := count\<rparr>))))) = Inr (found, line', r')"
      using assms(3) cnt nav by (simp add: prv_hist_restore_line_def del: hist_record_len.simps)
    then obtain idx l where l: "hist_record_len (length (ring_buf r) + 1) (ring_buf r) (idx + 1) = Inr l"
      and c: "hist_copy_line (ring_buf r) (idx + 1) l line = Inr line'"
      and r: "found = Some l" "r' = r\<lparr>hist_count := count\<rparr>"
      by (auto simp del: hist_record_len.simps split: if_split_asm elim!: bindR_InrE)
    have "l \<le> 128" using record_len_bound [OF l] buf by simp
    then have "length line' = 129 \<and> last line' = last line" using copy_ok [OF buf assms(2) _ c] by blast
    then show ?thesis using \<open>l \<le> 128\<close> ok unfolding r by blast
  qed
qed

lemma make_room_ok:
  "hist_make_room len r = Inr r' \<Longrightarrow> hist_head r < length (ring_buf r) \<Longrightarrow>
     hist_head r' < length (ring_buf r) \<and> (\<exists>h. r' = r\<lparr>hist_head := h\<rparr>) \<and> prv_hist_is_space_for_new r' len"
proof (induction len r rule: hist_make_room.induct)
  case (1 len r)
  show ?case
  proof (cases "prv_hist_is_space_for_new r len")
    case True
    then have "r' = r\<lparr>hist_head := hist_head r\<rparr>" using "1.prems"(1) by (simp add: hist_make_room.simps [of len r])
    then show ?thesis using True "1.prems"(2) by (intro conjI exI [of _ "hist_head r"]) simp_all
  next
    case False
    then obtain h where h: "prv_hist_next_record (ring_buf r) (hist_head r) = Inr h"
      and rest: "hist_make_room len (r\<lparr>hist_head := h\<rparr>) = Inr r'"
      using "1.prems"(1) by (auto simp: hist_make_room.simps [of len r] prv_hist_erase_older_def elim!: bindR_InrE)
    have e: "prv_hist_erase_older r = Inr (r\<lparr>hist_head := h\<rparr>)" using h by (simp add: prv_hist_erase_older_def)
    have "hist_head (r\<lparr>hist_head := h\<rparr>) < length (ring_buf (r\<lparr>hist_head := h\<rparr>))" using next_record_moves [OF h] by simp
    from "1.IH" [OF False e rest this] show ?thesis by auto
  qed
qed

lemma store_ok:
  assumes "hist_ok r" and "len \<le> 127" and "hist_store line len r = Inr r'"
  shows "hist_ok r'"
proof -
  have m: "length (ring_buf r) = 128" "hist_head r < 128" "hist_tail r < 128" using assms(1) by (simp_all add: hist_ok_def)
  obtain buf1 where b1: "(if len < length (ring_buf r) - hist_tail r - 1
            then mem_put (ring_buf r) (hist_tail r + 1) (take len line)
            else
              let part_len = length (ring_buf r) - hist_tail r - 1
              in bindR (mem_put (ring_buf r) (hist_tail r + 1) (take part_len line)) (\<lambda>buf.
                 mem_put buf 0 (take (len - part_len) (drop part_len line)))) = Inr buf1"
    and rest: "(let new_tail = hist_tail r + len + 1;
         new_tail = (if new_tail \<ge> length buf1 then new_tail - length buf1 else new_tail)
     in bindR (mem_put buf1 new_tail [0]) (\<lambda>buf.
        Inr (r\<lparr>ring_buf := buf, hist_tail := new_tail, hist_count := 0\<rparr>))) = Inr r'"
    using assms(3) unfolding hist_store_def by (rule bindR_InrE)
  have len1: "length buf1 = 128"
    using b1 m(1) by (auto simp: Let_def split: if_split_asm elim!: bindR_InrE dest!: mem_length(3))
  define t where "t = (if hist_tail r + len + 1 \<ge> length buf1 then hist_tail r + len + 1 - length buf1 else hist_tail r + len + 1)"
  obtain buf2 where b2: "mem_put buf1 t [0] = Inr buf2" and r': "r' = r\<lparr>ring_buf := buf2, hist_tail := t, hist_count := 0\<rparr>"
    using rest unfolding Let_def t_def by (rule bindR_InrE) simp
  have t: "t < 128" using m(3) assms(2) len1 by (auto simp: t_def)
  then have "buf2 ! t = 0" "length buf2 = 128"
    using b2 len1 by (auto simp: mem_put_def nth_append)
  then show ?thesis using m(2) t by (simp add: r' hist_ok_def)
qed

lemma save_ok:
  assumes "hist_ok r" and "prv_hist_save_line line len r = Inr r'"
  shows "hist_ok r'"
proof (cases "len > length (ring_buf r) - 1")
  case True
  then show ?thesis using assms by (simp add: prv_hist_save_line_def)
next
  case False
  then obtain found last_record r1 same where
    r1: "prv_hist_restore_line (if hist_count r = 1 then MICRORL_HIST_DIR_NONE else MICRORL_HIST_DIR_UP)
        (replicate (MICRORL_CFG_CMDLINE_LEN + 1) 0) r = Inr (found, last_record, r1)"
    and rest: "(if same then Inr (r1\<lparr>hist_count := 0\<rparr>) else bindR (hist_make_room len r1) (hist_store line len)) = Inr r'"
    using assms(2) by (auto simp: prv_hist_save_line_def split: if_split_asm elim!: bindR_InrE)
  have ok1: "hist_ok r1" using restore_ok [OF assms(1) _ r1] by (simp add: MICRORL_CFG_CMDLINE_LEN_def)
  show ?thesis
  proof (cases same)
    case True
    then show ?thesis using rest ok1 by (auto simp: hist_ok_def)
  next
    case diff: False
    then obtain r2 where r2: "hist_make_room len r1 = Inr r2" and s: "hist_store line len r2 = Inr r'"
      using rest by (auto elim!: bindR_InrE)
    have "hist_ok r2" using make_room_ok [OF r2] ok1 by (auto simp: hist_ok_def)
    then show ?thesis using store_ok [OF _ _ s] False assms(1) by (simp add: hist_ok_def)
  qed
qed

lemma search_ok:
  assumes "editor_ok mrl" and "prv_hist_search dir mrl = Inr mrl'"
  shows "editor_ok mrl'"
proof -
  have m: "length (cmdline_str mrl) = 129" "last (cmdline_str mrl) = 0" "hist_ok (ring_hist mrl)"
    using assms(1) last_129 [of "cmdline_str mrl"] by (simp_all add: editor_ok_def line_ok_def)
  obtain found line r line' where r: "prv_hist_restore_line dir (cmdline_str mrl) (ring_hist mrl) = Inr (found, line, r)"
    and line': "mem_set line (case found of None \<Rightarrow> 0 | Some n \<Rightarrow> n) 0 (length line - 1 - (case found of None \<Rightarrow> 0 | Some n \<Rightarrow> n)) = Inr line'"
    and p: "prv_terminal_print_line 0 True (mrl\<lparr>ring_hist := r, cmdline_str := line',
        mrl_cursor := (case found of None \<Rightarrow> 0 | Some n \<Rightarrow> n), cmdlen := (case found of None \<Rightarrow> 0 | Some n \<Rightarrow> n)\<rparr>) = Inr mrl'"
    using assms(2) by (auto simp: prv_hist_search_def Let_def elim!: bindR_InrE)
  note ok = restore_ok [OF m(3,1) r]
  have n: "(case found of None \<Rightarrow> 0 | Some n \<Rightarrow> n) \<le> 128" using ok by (auto split: option.split)
  have "length line' = 129" "last line' = 0"
    using mem_length(2) [OF line'] last_byte(3) [OF line'] ok m(2) n by simp_all
  then show ?thesis
    using print_line_ok [OF p] ok n last_129 [of line'] by (simp add: editor_ok_def line_ok_def)
qed

section \<open>Keys\<close>

definition zeros_kept :: "u8 list \<Rightarrow> u8 list \<Rightarrow> bool" where
  "zeros_kept a b \<longleftrightarrow> length b = length a \<and> (\<forall>i. a ! i = 0 \<longrightarrow> b ! i = 0)"

lemma zeros_kept_refl [simp]: "zeros_kept a a"
  by (simp add: zeros_kept_def)

lemma zeros_kept_trans: "zeros_kept a b \<Longrightarrow> zeros_kept b c \<Longrightarrow> zeros_kept a c"
  by (simp add: zeros_kept_def)

lemma zeros_kept_put [simp]: "zeros_kept a (a[p := 0])"
  unfolding zeros_kept_def by (metis length_list_update list_update_beyond not_le nth_list_update_eq nth_list_update_neq)

lemma split_quoted_zeros: "split_quoted limit a p = Inr (stopped, q, b) \<Longrightarrow> zeros_kept a b"
proof (induction limit a p rule: split_quoted.induct)
  case (1 limit a p)
  show ?case
    using "1.IH" "1.prems" unfolding split_quoted.simps [of limit a p] by (auto split: if_splits)
qed

lemma split_plain_zeros: "split_plain limit a p = Inr (stopped, q, b) \<Longrightarrow> zeros_kept a b"
proof (induction limit a p rule: split_plain.induct)
  case (1 limit a p)
  let ?a = "if is_quote (a ! p) then a[p := 0] else a"
  have "zeros_kept ?a b \<Longrightarrow> zeros_kept a b" using zeros_kept_trans [of a ?a b] by simp
  then show ?case
    using "1.IH" "1.prems" unfolding split_plain.simps [of limit a p]
    by (cases "p < length a \<and> \<not> (a ! p = 32 \<or> a ! p = 0) \<and> p < limit") (auto split: if_split_asm)
qed

lemma split_tokens_zeros: "split_tokens limit a p tokens = Inr (status, tokens', b) \<Longrightarrow> zeros_kept a b"
proof (induction limit a p tokens rule: split_tokens.induct)
  case (1 limit a p tokens)
  consider (at_end) "a ! p = 0" "p < length a" | (quoted) "a ! p \<noteq> 0" "p < length a" "is_quote (a ! p)"
    | (plain) "a ! p \<noteq> 0" "p < length a" "\<not> is_quote (a ! p)"
    using "1.prems" by (fastforce simp: split_tokens.simps [of limit a p tokens])
  then show ?case
  proof cases
    case at_end
    then show ?thesis using "1.prems" by (simp add: split_tokens.simps [of limit a p tokens])
  next
    case quoted
    then obtain stopped q c where c: "split_quoted limit a (p + 1) = Inr (stopped, q, c)"
      and rest: "(if stopped then Inr (microrlOK, tokens, c)
           else if q \<ge> length c then Inl UB
           else if length tokens + 1 = MICRORL_CFG_CMD_TOKEN_NMB \<and> c ! q \<noteq> 0 then Inr (microrlERRTKNNUM, [], c)
           else split_tokens limit c q (tokens @ [p + 1])) = Inr (status, tokens', b)"
      using "1.prems" by (auto simp: split_tokens.simps [of limit a p tokens] elim!: bindR_InrE)
    show ?thesis
      using split_quoted_zeros [OF c] "1.IH"(1) [OF _ _ quoted(3) c] quoted rest zeros_kept_trans
      by (auto split: if_split_asm)
  next
    case plain
    then obtain stopped q c where c: "split_plain limit a p = Inr (stopped, q, c)"
      and rest: "(if stopped then Inr (microrlOK, tokens, c)
           else if c ! q = 0 then Inr (microrlOK, tokens @ [p], c)
           else if q + 1 \<ge> length c then Inl UB
           else if length tokens + 1 = MICRORL_CFG_CMD_TOKEN_NMB \<and> c ! (q + 1) \<noteq> 0
           then Inr (microrlERRTKNNUM, [], c[q := 0])
           else split_tokens limit (c[q := 0]) (q + 1) (tokens @ [p])) = Inr (status, tokens', b)"
      using "1.prems" by (auto simp: split_tokens.simps [of limit a p tokens] elim!: bindR_InrE)
    have a: "zeros_kept a (c[q := 0])" using zeros_kept_trans [OF split_plain_zeros [OF c] zeros_kept_put] .
    show ?thesis
      using a split_plain_zeros [OF c] "1.IH"(2) [OF _ _ plain(3) c] plain rest zeros_kept_trans [OF a, of b]
      by (auto split: if_split_asm)
  qed
qed

lemma split_ok:
  assumes "editor_ok mrl" and "prv_cmdline_buf_split limit mrl = Inr (status, tokens, mrl')"
  shows "editor_ok mrl' \<and> (\<exists>a. mrl' = mrl\<lparr>cmdline_str := a\<rparr>)"
  using assms
  by (auto simp: prv_cmdline_buf_split_def editor_ok_def line_ok_def zeros_kept_def elim!: bindR_InrE
      dest!: split_tokens_zeros)

text \<open>
  Callbacks of a user who completes the first word only, as the orchestrator does, and whose reaction to an interrupt
  keeps the editor in order.
\<close>

definition first_word_fns :: "('s, 'e) microrl_fns_scheme \<Rightarrow> bool" where
  "first_word_fns F \<longleftrightarrow> (\<forall>f argv. get_completion_fn F = Some f \<longrightarrow> 1 < length argv \<longrightarrow> f argv = [])
     \<and> (\<forall>f mrl. sigint_fn F = Some f \<longrightarrow> editor_ok mrl \<longrightarrow> editor_ok (f mrl))"

lemma moves_ok [simp]:
  "editor_ok mrl \<Longrightarrow> editor_ok (move_right mrl)" "editor_ok mrl \<Longrightarrow> editor_ok (move_left mrl)"
  "editor_ok mrl \<Longrightarrow> editor_ok (move_home mrl)" "editor_ok mrl \<Longrightarrow> editor_ok (move_end mrl)"
proof -
  have same: "cmdlen (prv_terminal_move_cursor i mrl) = cmdlen mrl" for i
    using printers_are_out(4) [where i = i and mrl = mrl] by auto
  assume ok: "editor_ok mrl"
  then have c: "mrl_cursor mrl \<le> cmdlen mrl" by (simp add: editor_ok_def line_ok_def)
  have set_cursor: "k \<le> cmdlen mrl \<Longrightarrow> editor_ok ((prv_terminal_move_cursor i mrl)\<lparr>mrl_cursor := k\<rparr>)" for k i
    using ok editor_printers(4) [of i mrl] same [of i] by (simp add: editor_ok_def line_ok_def)
  show "editor_ok (move_right mrl)" "editor_ok (move_left mrl)" "editor_ok (move_home mrl)" "editor_ok (move_end mrl)"
    using ok c set_cursor by (simp_all add: move_right_def move_left_def move_home_def move_end_def)
qed

lemma delete_at_cursor_ok: "editor_ok mrl \<Longrightarrow> delete_at_cursor mrl = Inr mrl' \<Longrightarrow> editor_ok mrl'"
  by (auto simp: delete_at_cursor_def elim!: bindR_InrE dest!: print_line_ok dest: delete_ok)

lemma escape_ok:
  assumes "editor_ok mrl" and "prv_escape_process ch mrl = Inr (b, mrl')"
  shows "editor_ok mrl'"
  using assms
  by (auto simp: prv_escape_process_def Let_def split: if_split_asm microrl_esc_code.split_asm elim!: bindR_InrE
      dest: delete_at_cursor_ok search_ok)

lemma reset_ok [simp]: "editor_ok mrl \<Longrightarrow> editor_ok (prv_cmdline_buf_reset mrl)"
  by (simp add: editor_ok_def line_ok_def prv_cmdline_buf_reset_def)

lemma newline_ok:
  assumes "editor_ok mrl" and "prv_handle_newline F mrl s = Inr (status, mrl', s')"
  shows "editor_ok mrl'"
proof (cases "cmdlen (prv_terminal_newline mrl) = 0")
  case True
  then show ?thesis using assms by (auto simp: prv_handle_newline_def)
next
  case False
  let ?m = "prv_terminal_newline mrl"
  obtain r st tokens m where r: "prv_hist_save_line (cmdline_str ?m) (cmdlen ?m) (ring_hist ?m) = Inr r"
    and m: "prv_cmdline_buf_split (cmdlen ?m) (?m\<lparr>ring_hist := r\<rparr>) = Inr (st, tokens, m)"
    and rest: "(if st = microrlOK
           then bindR (exec_fn F (map (token_str (cmdline_str m)) tokens) s) (\<lambda>(_, s).
                Inr (st, prv_cmdline_buf_reset (prv_terminal_print_prompt m), s))
           else Inr (st, prv_cmdline_buf_reset (prv_terminal_print_prompt
                  (prv_terminal_newline (out_fn (c_bytes ''ERROR: too many tokens'') m))), s)) = Inr (status, mrl', s')"
    using assms(2) False by (auto simp: prv_handle_newline_def Let_def elim!: bindR_InrE)
  have ok: "editor_ok ?m" using assms(1) by simp
  then have "editor_ok (?m\<lparr>ring_hist := r\<rparr>)" using save_ok [OF _ r] by (simp add: editor_ok_def line_ok_def)
  then have "editor_ok m" using split_ok m by blast
  then show ?thesis using rest by (auto split: if_split_asm elim!: bindR_InrE)
qed

lemma fold_out_ok: "editor_ok (fold (\<lambda>w mrl. out_fn [32] (out_fn w mrl)) ws mrl) = editor_ok mrl"
  by (induction ws arbitrary: mrl) simp_all

lemma inserted_ok:
  assumes "editor_ok mrl" and "(if b then Inr mrl else bindR (prv_cmdline_buf_insert_text str mrl) (\<lambda>(_, mrl). Inr mrl)) = Inr mrl'"
  shows "editor_ok mrl'"
  using assms insert_ok by (cases b) (auto elim!: bindR_InrE)

lemma complete_with_ok:
  assumes "editor_ok mrl" and "length tokens \<le> 1" and "complete_with words tokens mrl = Inr (res, mrl')"
  shows "editor_ok mrl'"
proof -
  obtain len pos m where start: "(if length words = 1 then (length (words ! 0), mrl_cursor mrl, mrl)
       else (prv_complete_total_len words, 0, prv_terminal_print_prompt (prv_terminal_newline
                    (fold (\<lambda>w mrl. out_fn [32] (out_fn w mrl)) words (prv_terminal_newline mrl))))) = (len, pos, m)"
    by (metis prod_cases3)
  have m: "editor_ok m" using start assms(1) by (auto simp: fold_out_ok split: if_split_asm)
  define typed where "typed = (case last tokens of None \<Rightarrow> 0 | Some p \<Rightarrow> length (token_str (cmdline_str m) p))"
  obtain m1 m2 a m3 where m1: "(if len = 0 then Inr m else if tokens = [] \<or> typed > len then Inl UB
        else bindR (prv_cmdline_buf_insert_text (drop typed (take len (words ! 0))) m) (\<lambda>(_, mrl). Inr mrl)) = Inr m1"
    and m2: "(if length words = 1 then bindR (prv_cmdline_buf_insert_text [32] m1) (\<lambda>(_, mrl). Inr mrl) else Inr m1) = Inr m2"
    and a: "restore_spaces (map the (butlast tokens)) (cmdline_str m2) = Inr a"
    and m3: "prv_terminal_print_line pos False (m2\<lparr>cmdline_str := a\<rparr>) = Inr m3" and res: "mrl' = m3"
    using assms(3) unfolding complete_with_def Let_def start prod.case typed_def [symmetric]
    by (elim bindR_InrE) simp
  have "editor_ok m1" using m m1 insert_ok by (auto split: if_split_asm elim!: bindR_InrE)
  then have "editor_ok m2" using m2 insert_ok by (auto split: if_split_asm elim!: bindR_InrE)
  moreover have "butlast tokens = []" using assms(2) by (cases tokens) simp_all
  then have "a = cmdline_str m2" using a by simp
  ultimately show ?thesis using print_line_ok [OF m3] res by simp
qed

lemma complete_ok:
  assumes "editor_ok mrl" and "\<forall>argv. 1 < length argv \<longrightarrow> f argv = []" and "prv_complete_get_input f mrl = Inr (res, mrl')"
  shows "editor_ok mrl'"
proof -
  obtain status tokens m where m: "prv_cmdline_buf_split (mrl_cursor mrl) mrl = Inr (status, tokens, m)"
    using assms(3) by (auto simp: prv_complete_get_input_def elim!: bindR_InrE)
  have ok: "editor_ok m" using split_ok [OF assms(1) m] by simp
  define ts where "ts = map Some tokens @ (if cmdline_str m ! (mrl_cursor m - 1) = 0 then [None] else [])"
  have words: "length ts \<le> 1" if "f (map (\<lambda>t. case t of None \<Rightarrow> [] | Some p \<Rightarrow> token_str (cmdline_str m) p) ts) \<noteq> []"
    using assms(2) that by (metis length_map not_le)
  show ?thesis
  proof (cases "mrl' = m")
    case False
    then have "complete_with (f (map (\<lambda>t. case t of None \<Rightarrow> [] | Some p \<Rightarrow> token_str (cmdline_str m) p) ts)) ts m = Inr (res, mrl')"
      and "f (map (\<lambda>t. case t of None \<Rightarrow> [] | Some p \<Rightarrow> token_str (cmdline_str m) p) ts) \<noteq> []"
      using assms(3) m by (auto simp: prv_complete_get_input_def Let_def ts_def split: if_split_asm)
    then show ?thesis using complete_with_ok [OF ok words] by blast
  qed (use ok in simp)
qed

lemma control_ok:
  assumes "editor_ok mrl" and "first_word_fns F" and "prv_control_char_process F ch mrl = Inr (res, mrl')"
  shows "editor_ok mrl'"
proof -
  have cut: "editor_ok ((out_fn str mrl)\<lparr>cmdlen := mrl_cursor mrl\<rparr>)" for str
    using assms(1) by (simp add: editor_ok_def line_ok_def)
  have completes: "editor_ok m" if "get_completion_fn F = Some f" "prv_complete_get_input f mrl = Inr (r, m)" for f r m
    using complete_ok [OF assms(1) _ that(2)] that(1) assms(2) by (simp add: first_word_fns_def)
  have clears: "editor_ok m" if "microrl_clear_terminal mrl = Inr m" for m
    using that assms(1) by (auto simp: microrl_clear_terminal_def dest!: print_line_ok)
  have removes: "editor_ok m" if "prv_cmdline_buf_backspace n mrl = Inr m" "0 < n" for n m
    using backspace_ok [OF assms(1)] that by blast
  show ?thesis
    using assms cut completes clears removes
    by (auto simp: prv_control_char_process_def Let_def first_word_fns_def split: if_split_asm option.split_asm
        elim!: bindR_InrE dest: search_ok delete_at_cursor_ok dest!: print_line_ok)
qed

lemma insert_char_ok:
  assumes "editor_ok mrl" and "prv_insert_char ch mrl = Inr (res, mrl')"
  shows "editor_ok mrl'"
proof -
  obtain r m where m: "prv_cmdline_buf_insert_text [ch] mrl = Inr (r, m)"
    and rest: "(if r \<noteq> microrlOK then Inr (microrlERRCLFULL, m)
     else if mrl_cursor m = cmdlen m then Inr (microrlOK, out_fn (c_string [ch]) m)
     else bindR (prv_terminal_print_line (mrl_cursor m - 1) False m) (\<lambda>mrl. Inr (microrlOK, mrl))) = Inr (res, mrl')"
    using assms(2) unfolding prv_insert_char_def by (rule bindR_pairE)
  have "editor_ok m" using insert_ok [OF assms(1) m] .
  then show ?thesis using rest by (auto split: if_split_asm elim!: bindR_InrE dest!: print_line_ok)
qed

section \<open>The input\<close>

text \<open>What the loop does with a byte of the input.\<close>

lemma process_chars_cases:
  assumes "process_chars F (ch # input) mrl s = Inr out"
  obtains (esc) c m where "escape mrl" and "prv_escape_process ch mrl = Inr (c, m)"
      and "process_chars F input (if c then m\<lparr>escape := False\<rparr> else m) s = Inr out"
    | (pair) "process_chars F input (mrl\<lparr>last_endl := 0\<rparr>) s = Inr out"
    | (newline) st m t where "prv_handle_newline F (mrl\<lparr>last_endl := ch\<rparr>) s = Inr (st, m, t)"
      and "(if st \<noteq> microrlOK then Inr (microrlERRTKNNUM, m, t) else process_chars F input m t) = Inr out"
    | (key) r m where "prv_control_char_process F ch (mrl\<lparr>last_endl := 0\<rparr>) = Inr (r, m)
        \<or> prv_insert_char ch (mrl\<lparr>last_endl := 0\<rparr>) = Inr (r, m)"
      and "(if r \<noteq> microrlOK then Inr (r, m, s) else process_chars F input m s) = Inr out"
    | (skip) "out = (microrlOK, mrl\<lparr>last_endl := 0\<rparr>, s)"
proof (cases "escape mrl")
  case True
  then show thesis using assms esc by (auto elim!: bindR_InrE)
next
  case not_esc: False
  show thesis
  proof (cases "ch = 0x0d \<or> ch = 0x0a")
    case True
    show thesis
    proof (cases "last_endl mrl = (if ch = 0x0d then 0x0a else 0x0d)")
      case pair: True
      then show thesis using assms not_esc True that(2) by simp
    next
      case False
      then show thesis using assms not_esc True newline by (auto elim!: bindR_InrE)
    qed
  next
    case not_endl: False
    show thesis
    proof (cases "is_control_char ch")
      case True
      then show thesis using assms not_esc not_endl key by (auto simp: Let_def elim!: bindR_InrE)
    next
      case not_control: False
      show thesis
      proof (cases "ch = 32 \<and> cmdlen mrl = 0")
        case True
        then show thesis using assms not_esc not_endl not_control skip by simp
      next
        case False
        then have "bindR (prv_insert_char ch (mrl\<lparr>last_endl := 0\<rparr>)) (\<lambda>(res, mrl).
            if res \<noteq> microrlOK then Inr (res, mrl, s) else process_chars F input mrl s) = Inr out"
          using assms not_esc not_endl not_control by (auto simp: Let_def)
        then show thesis using key by (auto elim!: bindR_InrE)
      qed
    qed
  qed
qed

lemma process_chars_ok:
  "process_chars F input mrl s = Inr (res, mrl', s') \<Longrightarrow> first_word_fns F \<Longrightarrow> editor_ok mrl \<Longrightarrow> editor_ok mrl'"
proof (induction input arbitrary: mrl s)
  case (Cons ch input)
  note IH = Cons.IH [OF _ Cons.prems(2)]
  from Cons.prems(1) show ?case
  proof (cases rule: process_chars_cases)
    case (esc c m)
    have "editor_ok (if c then m\<lparr>escape := False\<rparr> else m)" using escape_ok [OF Cons.prems(3) esc(2)] by simp
    then show ?thesis using IH esc(3) by blast
  next
    case pair
    then show ?thesis using IH Cons.prems(3) by simp
  next
    case (newline st m t)
    have "editor_ok m" using newline_ok [OF _ newline(1)] Cons.prems(3) by simp
    then show ?thesis using newline(2) IH by (cases "st = microrlOK") auto
  next
    case (key r m)
    have "editor_ok m"
      using key(1) control_ok [OF _ Cons.prems(2), of "mrl\<lparr>last_endl := 0\<rparr>"] insert_char_ok [of "mrl\<lparr>last_endl := 0\<rparr>"]
        Cons.prems(3) by auto
    then show ?thesis using key(2) IH by (cases "r = microrlOK") auto
  next
    case skip
    then show ?thesis using Cons.prems(3) by simp
  qed
qed simp

lemma processing_input_ok:
  "microrl_processing_input F input mrl s = Inr (res, mrl', s') \<Longrightarrow> first_word_fns F \<Longrightarrow> editor_ok mrl \<Longrightarrow> editor_ok mrl'"
  by (auto simp: microrl_processing_input_def split: if_split_asm dest: process_chars_ok)

text \<open>The user's state changes by commands only.\<close>

lemma newline_user:
  assumes "\<And>argv s r s'. P s \<Longrightarrow> exec_fn F argv s = Inr (r, s') \<Longrightarrow> P s'" and "P s"
    and "prv_handle_newline F mrl s = Inr (status, mrl', s')"
  shows "P s'"
  using assms(2,3) by (auto simp: prv_handle_newline_def Let_def split: if_split_asm elim!: bindR_InrE dest: assms(1))

lemma process_chars_user:
  assumes "\<And>argv s r s'. P s \<Longrightarrow> exec_fn F argv s = Inr (r, s') \<Longrightarrow> P s'"
  shows "process_chars F input mrl s = Inr (res, mrl', s') \<Longrightarrow> P s \<Longrightarrow> P s'"
proof (induction input arbitrary: mrl s)
  case (Cons ch input)
  from Cons.prems(1) show ?case
  proof (cases rule: process_chars_cases)
    case (newline st m t)
    have "P t" by (rule newline_user [where P = P, OF _ Cons.prems(2) newline(1)]) (rule assms)
    then show ?thesis using newline(2) Cons.IH by (cases "st = microrlOK") auto
  next
    case (key r m)
    then show ?thesis using Cons by (cases "r = microrlOK") auto
  qed (use Cons in auto)
qed simp

lemma processing_input_user:
  assumes "\<And>argv s r s'. P s \<Longrightarrow> exec_fn F argv s = Inr (r, s') \<Longrightarrow> P s'"
  shows "microrl_processing_input F input mrl s = Inr (res, mrl', s') \<Longrightarrow> P s \<Longrightarrow> P s'"
  using process_chars_user [where P = P and F = F, OF assms] by (auto simp: microrl_processing_input_def split: if_split_asm)

lemma init_ok [simp]: "editor_ok microrl_init"
  by (simp add: editor_ok_def line_ok_def hist_ok_def microrl_init_def microrl_set_prompt_def MICRORL_CFG_CMDLINE_LEN_def
      MICRORL_CFG_RING_HISTORY_LEN_def)

end
