(* ===== verification/Orch_Invariant.thy ===== *)
theory Orch_Invariant
  imports Orch_Shell Cri_Tables Microrl_Invariant
begin

unbundle bit_operations_syntax

text \<open>
  The orchestrator as a step relation: notifications, coroutines that go on, and the monitor that does
  something by itself, in any order. Every state it reaches keeps its tables, buffers and slots in order.
\<close>

section \<open>Steps\<close>

inductive orch_runs :: "'m orch_env \<Rightarrow> 'm orch \<Rightarrow> 'm orch \<Rightarrow> bool" for E where
  notified: "orch_notified E ch s = Inr s' \<Longrightarrow> orch_runs E s s'"
| mounted: "orchestrator_prologue E s = Inr s' \<Longrightarrow> orch_runs E s s'"
| begin_reading: "orch_runs E s (orch_yield s)"
| finish_reading: "loader_finish E k s = Inr s' \<Longrightarrow> orch_runs E s s'"

inductive orch_step :: "'m orch_env \<Rightarrow> 'm orch \<Rightarrow> 'm orch \<Rightarrow> bool" for E where
  runs: "orch_runs E s s' \<Longrightarrow> orch_step E s s'"
| monitor_alone: "orch_step E s (s\<lparr>orch_monitor := m\<rparr>)"

inductive orch_reaches :: "'m orch_env \<Rightarrow> 'm orch \<Rightarrow> 'm orch \<Rightarrow> bool" for E where
  here: "orch_reaches E s s"
| more: "orch_reaches E s t \<Longrightarrow> orch_step E t u \<Longrightarrow> orch_reaches E s u"

section \<open>The invariant\<close>

text \<open>
  The tables are well-formed, the buffers have their sizes, the stream holds at most one request, a
  deployment for a container is a deployment in progress, only slots of the system are in use, and what
  was sent are frames: an answer to a request, or a frame without payload. The line editor is in order.
\<close>

definition frame_ok :: "u8 list \<Rightarrow> bool" where
  "frame_ok packet \<longleftrightarrow> (\<exists>h payload. packet = pack vsock_fields h @ payload \<and> unat (vsock_len h) = length payload
     \<and> src_cid h = VSOCK_HOST_CID \<and> src_port h = CRI_PORT \<and> vsock_type h = VSOCK_TYPE_STREAM
     \<and> length payload = (if vsock_op h = VSOCK_OP_RW then SIZEOF_STREAM else 0))"

text \<open>The last target and its peers are protocons of the system, and the target is not one of the peers.\<close>

definition target_ok :: "'m orch_env \<Rightarrow> u32 \<Rightarrow> u32 \<Rightarrow> bool" where
  "target_ok E pc_id peer_mask \<longleftrightarrow> (pc_id = 0 \<or> pc_id < MAX_PROTOCON_PORTS E)
     \<and> (\<forall>j. bit peer_mask j \<longrightarrow> j < unat (MAX_PROTOCON_PORTS E) \<and> j \<noteq> unat pc_id)"

lemma target_alone [simp]: "target_ok E pc_id 0 \<longleftrightarrow> pc_id = 0 \<or> pc_id < MAX_PROTOCON_PORTS E"
  by (simp add: target_ok_def)

lemma target_parsed:
  "parse_peer_ports (MAX_PROTOCON_PORTS E) str pc_id = Some (peer_mask, peers_all) \<Longrightarrow> pc_id < MAX_PROTOCON_PORTS E
     \<Longrightarrow> target_ok E pc_id peer_mask"
  using parse_peer_ports_bits by (auto simp: target_ok_def)

definition orch_base :: "'m orch_env \<Rightarrow> 'm orch \<Rightarrow> bool" where
  "orch_base E s \<longleftrightarrow> tables_wf s \<and> length (fname_buf s) = FNAME_BUF_SIZE \<and> length (stream s) = SIZEOF_STREAM
     \<and> unat (stream_len s) \<le> SIZEOF_STREAM \<and> (deploy_from_cri s \<longrightarrow> deploy_pending s)
     \<and> (deploy_pending s \<longrightarrow> deploy_pc_id s < MAX_PROTOCON_PORTS E)
     \<and> (\<forall>j. bit (cri_slots_in_use s) j \<longrightarrow> j < unat (MAX_PROTOCON_PORTS E))
     \<and> (\<forall>packet \<in> set (sent s). frame_ok packet) \<and> editor_ok (shell s) \<and> target_ok E (deploy_pc_id s) (deploy_peer_mask s)"

definition orch_inv :: "'m orch_env \<Rightarrow> 'm orch \<Rightarrow> bool" where
  "orch_inv E s \<longleftrightarrow> orch_base E s \<and> start_after_reply s = None"

lemmas stream_sizes = SIZEOF_STREAM_def SIZEOF_RPC_HEADER_def SIZEOF_CRI_OBJECT_def

lemma tables_wf_updates [simp]:
  "tables_wf (s\<lparr>orch_monitor := m\<rparr>) = tables_wf s" "tables_wf (s\<lparr>orch_mrs := regs\<rparr>) = tables_wf s"
  "tables_wf (s\<lparr>fname_buf := f\<rparr>) = tables_wf s" "tables_wf (s\<lparr>start_pc_num := n\<rparr>) = tables_wf s"
  "tables_wf (s\<lparr>deploy_pc_id := n\<rparr>) = tables_wf s" "tables_wf (s\<lparr>deploy_peer_mask := n\<rparr>) = tables_wf s"
  "tables_wf (s\<lparr>deploy_peers_all := b\<rparr>) = tables_wf s" "tables_wf (s\<lparr>deploy_pending := b\<rparr>) = tables_wf s"
  "tables_wf (s\<lparr>deploy_from_cri := b\<rparr>) = tables_wf s" "tables_wf (s\<lparr>cri_slots_in_use := n\<rparr>) = tables_wf s"
  "tables_wf (s\<lparr>loaders := l\<rparr>) = tables_wf s" "tables_wf (s\<lparr>next_id := v\<rparr>) = tables_wf s"
  "tables_wf (s\<lparr>timestamp := v\<rparr>) = tables_wf s" "tables_wf (s\<lparr>connected := b\<rparr>) = tables_wf s"
  "tables_wf (s\<lparr>peer_cid := v\<rparr>) = tables_wf s" "tables_wf (s\<lparr>peer_port := n\<rparr>) = tables_wf s"
  "tables_wf (s\<lparr>tx_count := n\<rparr>) = tables_wf s" "tables_wf (s\<lparr>rx_fwd_cnt := n\<rparr>) = tables_wf s"
  "tables_wf (s\<lparr>stream := f\<rparr>) = tables_wf s" "tables_wf (s\<lparr>stream_len := n\<rparr>) = tables_wf s"
  "tables_wf (s\<lparr>start_after_reply := i\<rparr>) = tables_wf s" "tables_wf (s\<lparr>sent := ps\<rparr>) = tables_wf s"
  "tables_wf (s\<lparr>shell := mrl\<rparr>) = tables_wf s"
  by (simp_all add: tables_wf_def)

lemma inv_updates [simp]:
  "orch_base E (s\<lparr>orch_monitor := m\<rparr>) = orch_base E s" "orch_base E (s\<lparr>orch_mrs := regs\<rparr>) = orch_base E s"
  "orch_base E (s\<lparr>start_pc_num := n\<rparr>) = orch_base E s"
  "orch_base E (s\<lparr>loaders := l\<rparr>) = orch_base E s" "orch_base E (s\<lparr>next_id := v\<rparr>) = orch_base E s"
  "orch_base E (s\<lparr>timestamp := v\<rparr>) = orch_base E s" "orch_base E (s\<lparr>connected := b\<rparr>) = orch_base E s"
  "orch_base E (s\<lparr>peer_cid := v\<rparr>) = orch_base E s" "orch_base E (s\<lparr>peer_port := n\<rparr>) = orch_base E s"
  "orch_base E (s\<lparr>tx_count := n\<rparr>) = orch_base E s" "orch_base E (s\<lparr>rx_fwd_cnt := n\<rparr>) = orch_base E s"
  "orch_base E (s\<lparr>start_after_reply := i\<rparr>) = orch_base E s"
  "orch_base E s \<Longrightarrow> editor_ok mrl \<Longrightarrow> orch_base E (s\<lparr>shell := mrl\<rparr>)"
  "orch_base E s \<Longrightarrow> orch_base E (s\<lparr>stream_len := 0\<rparr>)"
  by (simp_all add: orch_base_def)

lemma rest_base: "rest_of s' = rest_of s \<Longrightarrow> orch_inv E s' = orch_inv E s"
  by (cases s; cases s') (simp add: orch_inv_def orch_base_def tables_wf_def)

lemma called_inv: "called s t \<Longrightarrow> orch_inv E t = orch_inv E s"
  by (auto simp: called_def orch_inv_def)

lemma called_base: "called s t \<Longrightarrow> orch_base E t = orch_base E s"
  by (auto simp: called_def)

section \<open>Requests\<close>

lemma done_base:
  assumes "orch_base E s" and "done_ok s r"
  shows "orch_base E (snd r)"
  using assms by (simp add: orch_base_def done_ok_def orch_control_def)

lemma send_packet_state: "\<exists>ps n. snd (send_packet E op payload s) = s\<lparr>sent := ps, tx_count := n\<rparr>"
proof -
  have same: "\<exists>ps n. s = s\<lparr>sent := ps, tx_count := n\<rparr>"
    by (intro exI [of _ "sent s"] exI [of _ "tx_count s"]) simp
  moreover have "\<exists>ps n. s\<lparr>sent := x\<rparr> = s\<lparr>sent := ps, tx_count := n\<rparr>" for x
    by (intro exI [of _ x] exI [of _ "tx_count s"]) simp
  ultimately show ?thesis by (auto simp: send_packet_def Let_def)
qed

lemma send_packet_frame [simp]:
  "start_after_reply (snd (send_packet E op payload s)) = start_after_reply s"
  "containers (snd (send_packet E op payload s)) = containers s"
  using send_packet_state [of E op payload s] by auto

lemma send_packet_inv:
  assumes "orch_base E s" and "length payload = (if op = VSOCK_OP_RW then SIZEOF_STREAM else 0)"
  shows "orch_base E (snd (send_packet F op payload s))"
proof -
  let ?h = "\<lparr>src_cid = VSOCK_HOST_CID, dst_cid = peer_cid s, src_port = CRI_PORT, dst_port = peer_port s,
               vsock_len = word_of_nat (length payload), vsock_type = VSOCK_TYPE_STREAM, vsock_op = op,
               vsock_flags = 0, buf_alloc = 2556, fwd_cnt = rx_fwd_cnt s\<rparr>"
  have "unat (word_of_nat (length payload) :: u32) = length payload"
    using assms(2) by (intro unat_word_of_nat_lt) (simp add: stream_sizes)
  then have "frame_ok (pack vsock_fields ?h @ payload)"
    unfolding frame_ok_def using assms(2) by (intro exI [of _ ?h] exI [of _ payload]) simp
  then show ?thesis using assms(1) by (auto simp: send_packet_def Let_def orch_base_def)
qed

lemma send_empty_inv: "orch_base E s \<Longrightarrow> op \<noteq> VSOCK_OP_RW \<Longrightarrow> orch_base E (snd (send_packet F op [] s))"
  by (rule send_packet_inv) simp_all

lemma op_not_RW [simp]:
  "VSOCK_OP_RST \<noteq> VSOCK_OP_RW" "VSOCK_OP_RESPONSE \<noteq> VSOCK_OP_RW" "VSOCK_OP_CREDIT_UPDATE \<noteq> VSOCK_OP_RW"
  by (simp_all add: VSOCK_OP_RST_def VSOCK_OP_RW_def VSOCK_OP_RESPONSE_def VSOCK_OP_CREDIT_UPDATE_def)

lemma slot_bit_iff: "bit (slot_bit p) j \<longleftrightarrow> j < 32 \<and> j = unat p"
  by (auto simp: slot_bit_def bit_simps simp del: push_bit_of_1)

lemma slot_free: "w AND slot_bit p = 0 \<longleftrightarrow> \<not> bit w (unat p)"
  by (simp add: slot_bit_def push_bit_of_1 and_exp_eq_0_iff_not_bit)

text \<open>Clearing a slot and taking one.\<close>

lemma slots_cleared: "orch_base E s \<Longrightarrow> orch_base E (s\<lparr>cri_slots_in_use := cri_slots_in_use s AND NOT (slot_bit p)\<rparr>)"
  by (simp add: orch_base_def bit_and_iff)

lemma image_to_filename_length: "image_to_filename img fname = Inr (Some f) \<Longrightarrow> length f = length fname"
  by (auto simp: image_to_filename_def split: if_splits elim!: bindR_InrE)

text \<open>
  Starting a container: nothing happens but that the file name may be set, or the lowest free slot is
  taken for a deployment and given back when its loader cannot be spawned.
\<close>

definition lowest_free :: "'m orch_env \<Rightarrow> u32 \<Rightarrow> nat option" where
  "lowest_free E slots =
     first_index (\<lambda>i. slots AND slot_bit (word_of_nat i) = 0) [0..<unat (MAX_PROTOCON_PORTS E)]"

definition slot_taken :: "u32 \<Rightarrow> 'm orch \<Rightarrow> 'm orch" where
  "slot_taken p s = s\<lparr>deploy_pc_id := p, deploy_peer_mask := 0, deploy_peers_all := False, deploy_pending := True,
     deploy_from_cri := True, cri_slots_in_use := cri_slots_in_use s OR slot_bit p,
     loaders := loaders s @ [Spawned LoadTargeted]\<rparr>"

lemma cri_start_cases:
  assumes "orchestrator_cri_start E img s = Inr (r, s')"
  obtains (refused) f where "r = None" and "length f = length (fname_buf s)" and "s' = s\<lparr>fname_buf := f\<rparr>"
    | (no_stack) f i where "r = None" and "length f = length (fname_buf s)" and "\<not> deploy_pending s"
        and "lowest_free E (cri_slots_in_use s) = Some i"
        and "s' = s\<lparr>fname_buf := f, deploy_pc_id := word_of_nat i, deploy_peer_mask := 0, deploy_peers_all := False,
               cri_slots_in_use := (cri_slots_in_use s OR slot_bit (word_of_nat i)) AND NOT (slot_bit (word_of_nat i)),
               deploy_pending := False, deploy_from_cri := False\<rparr>"
    | (started) f i where "r = Some (word_of_nat i)" and "length f = length (fname_buf s)" and "\<not> deploy_pending s"
        and "lowest_free E (cri_slots_in_use s) = Some i"
        and "s' = orch_yield (slot_taken (word_of_nat i) (s\<lparr>fname_buf := f\<rparr>))"
proof (cases "deploy_pending s \<or> orchestrator_cri_image_exists img s \<noteq> Inr True
    \<or> image_to_filename img (fname_buf s) = Inr None")
  case True
  then have "r = None \<and> s' = s\<lparr>fname_buf := fname_buf s\<rparr>"
    using assms by (auto simp: orchestrator_cri_start_def split: if_splits elim!: bindR_InrE)
  then show thesis using refused [of "fname_buf s"] by blast
next
  case False
  then have pending: "\<not> deploy_pending s" and known: "orchestrator_cri_image_exists img s = Inr True"
    and "image_to_filename img (fname_buf s) \<noteq> Inr None" by simp_all
  then obtain f where f: "image_to_filename img (fname_buf s) = Inr (Some f)"
    using assms by (cases "image_to_filename img (fname_buf s)") (auto simp: orchestrator_cri_start_def)
  note len = image_to_filename_length [OF f]
  show thesis
  proof (cases "lowest_free E (cri_slots_in_use s)")
    case None
    then have "r = None \<and> s' = s\<lparr>fname_buf := f\<rparr>"
      using assms pending known f
      by (simp add: orchestrator_cri_start_def lowest_free_def [symmetric] del: first_index_None_iff)
    then show thesis using refused [OF _ len] by blast
  next
    case (Some i)
    show thesis
    proof (cases "orch_spawn E (length (loaders s))")
      case True
      then have "r = Some (word_of_nat i) \<and> s' = orch_yield (slot_taken (word_of_nat i) (s\<lparr>fname_buf := f\<rparr>))"
        using assms pending known f Some
        by (simp add: orchestrator_cri_start_def lowest_free_def [symmetric] orch_cothread_spawn_def slot_taken_def Let_def)
      then show thesis using started [OF _ len pending Some] by blast
    next
      case False
      then have "r = None \<and> s' = s\<lparr>fname_buf := f, deploy_pc_id := word_of_nat i, deploy_peer_mask := 0,
          deploy_peers_all := False,
          cri_slots_in_use := (cri_slots_in_use s OR slot_bit (word_of_nat i)) AND NOT (slot_bit (word_of_nat i)),
          deploy_pending := False, deploy_from_cri := False\<rparr>"
        using assms pending known f Some
        by (simp add: orchestrator_cri_start_def lowest_free_def [symmetric] orch_cothread_spawn_def Let_def)
      then show thesis using no_stack [OF _ len pending Some] by blast
    qed
  qed
qed

lemma lowest_free_SomeD:
  assumes "lowest_free E slots = Some i"
  shows "i < unat (MAX_PROTOCON_PORTS E)" and "slots AND slot_bit (word_of_nat i) = 0"
    and "unat (word_of_nat i :: u32) = i"
proof -
  have d: "i < length [0..<unat (MAX_PROTOCON_PORTS E)]
      \<and> slots AND slot_bit (word_of_nat ([0..<unat (MAX_PROTOCON_PORTS E)] ! i)) = 0"
    using first_index_SomeD [OF assms [unfolded lowest_free_def]] by blast
  then show i: "i < unat (MAX_PROTOCON_PORTS E)" by simp
  then show "slots AND slot_bit (word_of_nat i) = 0" using d by simp
  have "i < 2 ^ 32" using i unsigned_less [of "MAX_PROTOCON_PORTS E", where ?'a = nat] by simp
  then show "unat (word_of_nat i :: u32) = i" by (simp add: unat_word_of_nat_lt)
qed

lemma cri_start_base:
  assumes "orch_base E s" and "orchestrator_cri_start E img s = Inr (r, s')"
  shows "orch_base E s' \<and> containers s' = containers s \<and> start_after_reply s' = start_after_reply s"
  using assms(2)
proof (cases rule: cri_start_cases)
  case (refused f)
  then show ?thesis using assms(1) by (simp add: orch_base_def)
next
  case (no_stack f i)
  then show ?thesis using assms(1) lowest_free_SomeD [OF no_stack(4)]
    by (auto simp: orch_base_def bit_and_iff bit_or_iff bit_not_iff word_less_nat_alt)
next
  case (started f i)
  then show ?thesis using assms(1) lowest_free_SomeD [OF started(4)]
    by (auto simp: orch_base_def bit_or_iff orch_yield_def slot_taken_def slot_bit_iff word_less_nat_alt)
qed

section \<open>Packets\<close>

lemma base_tables: "orch_base E s \<Longrightarrow> tables_wf s"
  by (simp add: orch_base_def)

lemma update_container_base:
  assumes "orch_base E s" and "container_ok obj"
  shows "orch_base E (s\<lparr>containers := (containers s)[i := obj]\<rparr>)"
    and "orch_base E (s\<lparr>containers := (containers s)[i := obj], timestamp := v\<rparr>)"
  using assms by (simp_all add: orch_base_def tables_wf_def table_update)

lemma start_after_inv:
  assumes "orch_base E s" and "i < CRI_MAX_OBJECTS" and "start_after E i s = Inr s'"
  shows "orch_inv E s'"
proof -
  obtain pc_id t where t: "orchestrator_cri_start E (cri_image (containers s ! i)) (s\<lparr>start_after_reply := None\<rparr>) = Inr (pc_id, t)"
    and s': "s' = (case pc_id of
          None \<Rightarrow> t\<lparr>containers := (containers t)[i := (containers t ! i)\<lparr>cri_state := 2, exit_code := 1,
                            finished_at := timestamp t + 1,
                            reason := copy_literal (reason (containers t ! i)) ''CarrelsStartFailed''\<rparr>],
                         timestamp := timestamp t + 1\<rparr>
        | Some p \<Rightarrow> t\<lparr>containers := (containers t)[i := (containers t ! i)\<lparr>network_ns := p\<rparr>]\<rparr>)"
    using assms(3) by (auto simp: start_after_def Let_def elim!: bindR_InrE split: option.splits)
  have base: "orch_base E t" "start_after_reply t = None"
    using cri_start_base [OF _ t] assms(1) by simp_all
  have "table_of container_ok (containers t)" using base_tables [OF base(1)] by (simp add: tables_wf_def)
  then have "container_ok (containers t ! i)" using assms(2) by (simp add: table_of_def)
  then show ?thesis
    using base update_container_base [OF base(1)] container_restated
    by (simp add: s' orch_inv_def split: option.split)
qed

lemma done_or_started:
  assumes "orch_inv E s" and "cri_valid request" and "cri_dispatch E op request s = Inr ((result, response), s')"
  shows "orch_base E s' \<and> (if map_of cri_ops op = Some CRI_START_CONTAINER \<and> result = CRI_OK
      then \<exists>i < CRI_MAX_OBJECTS. start_after_reply s' = Some i else start_after_reply s' = None)
    \<and> cri_valid response"
proof -
  have base: "orch_base E s" "start_after_reply s = None" using assms(1) by (simp_all add: orch_inv_def)
  have r: "if map_of cri_ops op = Some CRI_START_CONTAINER \<and> result = CRI_OK then started_ok s ((result, response), s')
      else done_ok s ((result, response), s')"
    using conjunct1 [OF dispatch_done [OF base_tables [OF base(1)] assms(2), of E op]] assms(3) by fastforce
  show ?thesis
  proof (cases "map_of cri_ops op = Some CRI_START_CONTAINER \<and> result = CRI_OK")
    case True
    then show ?thesis
      using r done_base [OF base(1), of "((result, response), s'\<lparr>start_after_reply := start_after_reply s\<rparr>)"]
      by (simp add: started_ok_def) (simp add: done_ok_def)
  next
    case False
    then have "done_ok s ((result, response), s')" using r by argo
    then show ?thesis
      using False base done_base [OF base(1), of "((result, response), s')"] by (auto simp: done_ok_def)
  qed
qed

lemma answer_request_inv:
  assumes "orch_inv E s" and "cri_valid request" and "answer_request E header request s = Inr s'"
  shows "orch_inv E s'"
proof -
  obtain result response t where d: "cri_dispatch E (rpc_op header) request s = Inr ((result, response), t)"
    using assms(3) by (auto simp: answer_request_def elim!: bindR_InrE)
  note t = done_or_started [OF assms(1,2) d]
  define u where "u = (snd (send_packet E VSOCK_OP_RW
      (pack rpc_fields (header\<lparr>rpc_status := cri_result_code result, rpc_length := word_of_nat SIZEOF_CRI_OBJECT\<rparr>)
        @ cri_pack response) t))\<lparr>stream_len := 0\<rparr>"
  have "length (cri_pack response) = SIZEOF_CRI_OBJECT" "length (pack rpc_fields r) = SIZEOF_RPC_HEADER" for r
    using t cri.length_pack [of response] rpc.length_pack [of r] by (simp_all add: cri_sizes_def rpc_sizes_def stream_sizes)
  then have u: "orch_base E u" "start_after_reply u = start_after_reply t"
    using t by (simp_all add: u_def send_packet_inv SIZEOF_STREAM_def)
  have s': "(if map_of cri_ops (rpc_op header) = Some CRI_START_CONTAINER \<and> result = CRI_OK
      then case start_after_reply u of None \<Rightarrow> Inr u | Some i \<Rightarrow> start_after E i u else Inr u) = Inr s'"
    using assms(3) d by (simp add: answer_request_def u_def Let_def split_beta cong: if_cong option.case_cong)
  show ?thesis
  proof (cases "map_of cri_ops (rpc_op header) = Some CRI_START_CONTAINER \<and> result = CRI_OK")
    case True
    then obtain i where i: "i < CRI_MAX_OBJECTS" "start_after_reply u = Some i" using t u by auto
    then have "start_after E i u = Inr s'" using s' True by simp
    then show ?thesis by (rule start_after_inv [OF u(1) i(1)])
  next
    case False
    then have "start_after_reply t = None" using t by argo
    then show ?thesis using s' False u by (auto simp: orch_inv_def)
  qed
qed

lemma reset_inv [simp]: "orch_inv E s \<Longrightarrow> orch_inv E (s\<lparr>stream_len := 0\<rparr>)"
  by (simp add: orch_inv_def)

lemma inv_simps [simp]:
  "orch_inv E (s\<lparr>fs_init := b\<rparr>) = orch_inv E s" "orch_inv E (s\<lparr>cri_c_hello_available := b\<rparr>) = orch_inv E s"
  "orch_inv E (s\<lparr>connected := b\<rparr>) = orch_inv E s" "orch_inv E (s\<lparr>peer_cid := v\<rparr>) = orch_inv E s"
  "orch_inv E (s\<lparr>peer_port := n\<rparr>) = orch_inv E s" "orch_inv E (s\<lparr>rx_fwd_cnt := n\<rparr>) = orch_inv E s"
  "orch_inv E (s\<lparr>orch_monitor := m\<rparr>) = orch_inv E s" "orch_inv E (s\<lparr>orch_mrs := regs\<rparr>) = orch_inv E s"
  "orch_inv E (s\<lparr>start_pc_num := n\<rparr>) = orch_inv E s" "orch_inv E (s\<lparr>loaders := l\<rparr>) = orch_inv E s"
  by (simp_all add: orch_inv_def orch_base_def tables_wf_def)

lemma send_inv: "orch_inv E s \<Longrightarrow> op \<noteq> VSOCK_OP_RW \<Longrightarrow> orch_inv E (snd (send_packet F op [] s))"
  by (simp add: orch_inv_def send_empty_inv)

lemma request_valid: "length bs = SIZEOF_STREAM \<Longrightarrow> cri_valid (cri_unpack (drop SIZEOF_RPC_HEADER bs))"
  by (rule cri.valid_unpack) (simp add: stream_sizes cri_sizes_def)

lemma process_stream_inv:
  assumes "orch_inv E s" and "process_stream E s = Inr s'"
  shows "orch_inv E s'"
proof -
  have "length (stream s) = SIZEOF_STREAM" using assms(1) by (simp add: orch_inv_def orch_base_def)
  note v = request_valid [OF this]
  show ?thesis
    using assms answer_request_inv [OF assms(1) v] send_inv [OF reset_inv [OF assms(1)]]
    by (auto simp: process_stream_def Let_def split_beta split: if_splits)
qed

lemma receive_payload_inv:
  assumes "orch_inv E s" and "receive_payload E payload s = Inr s'"
  shows "orch_inv E s'"
proof (cases "length payload \<le> SIZEOF_STREAM - unat (stream_len s)")
  case True
  let ?n = "unat (stream_len s)"
  let ?t = "s\<lparr>stream := take ?n (stream s) @ payload @ drop (?n + length payload) (stream s),
      stream_len := stream_len s + word_of_nat (length payload),
      rx_fwd_cnt := rx_fwd_cnt s + word_of_nat (length payload)\<rparr>"
  have b: "length (stream s) = SIZEOF_STREAM" "?n \<le> SIZEOF_STREAM" using assms(1) by (simp_all add: orch_inv_def orch_base_def)
  have "unat (stream_len s + word_of_nat (length payload)) = ?n + length payload"
    using True b(2) by (simp add: unat_word_ariths unat_of_nat take_bit_eq_mod stream_sizes)
  then have "orch_inv E ?t" using assms(1) True b by (simp add: orch_inv_def orch_base_def)
  moreover have "process_stream E ?t = Inr s'" using assms(2) True by (simp add: receive_payload_def)
  ultimately show ?thesis by (rule process_stream_inv)
next
  case False
  then show ?thesis using assms by (simp add: receive_payload_def)
qed

lemma process_packet_inv:
  assumes "orch_inv E s" and "process_packet E packet s = Inr s'"
  shows "orch_inv E s'"
  using assms receive_payload_inv [OF assms(1)]
  by (auto simp: process_packet_def send_inv Let_def split: if_splits)

lemma packets_inv: "orch_inv E s \<Longrightarrow> cri_runtime_notified E packets s = Inr s' \<Longrightarrow> orch_inv E s'"
  by (induction packets arbitrary: s) (auto elim!: bindR_InrE dest: process_packet_inv)

section \<open>Deployments\<close>

lemma deploy_complete_table:
  assumes "deploy_complete_from pc failed table now = Inr (table', now')" and "\<forall>obj \<in> set table. container_ok obj"
  shows "length table' = length table \<and> (\<forall>obj \<in> set table'. container_ok obj)"
  using assms
proof (induction table arbitrary: table' now now')
  case (Cons obj table)
  have ok: "container_ok obj" using Cons.prems(2) by simp
  then have new: "container_ok (obj\<lparr>reason := copy_literal (reason obj) ''CarrelsStartFailed'', cri_state := 2, exit_code := 1,
         finished_at := now + 1\<rparr>)" "container_ok (obj\<lparr>reason := copy_literal (reason obj) ''CarrelsRunning''\<rparr>)"
    using stored [of obj] by (simp_all add: container_ok_def object_ok_def cri_valid_iff)
  show ?case
    using Cons ok new
    by (auto simp: Let_def split: if_splits elim!: bindR_InrE)
qed simp

lemma deploy_complete_inv:
  assumes "orch_inv E s" and "cri_runtime_deploy_complete pc failed s = Inr s'"
  shows "orch_inv E s' \<and> (\<exists>table now. s' = s\<lparr>containers := table, timestamp := now\<rparr>)"
proof -
  obtain table now where t: "deploy_complete_from pc failed (containers s) (timestamp s) = Inr (table, now)"
    and s': "s' = s\<lparr>containers := table, timestamp := now\<rparr>"
    using assms(2) by (auto simp: cri_runtime_deploy_complete_def elim!: bindR_InrE)
  have "table_of container_ok table"
    using deploy_complete_table [OF t] assms(1) by (simp add: orch_inv_def orch_base_def tables_wf_def table_of_def)
  then show ?thesis using assms(1) s' by (auto simp: orch_inv_def orch_base_def tables_wf_def)
qed

text \<open>The end of a deployment for a container.\<close>

lemma concluded_inv:
  assumes "orch_inv E s"
  shows "orch_inv E (s\<lparr>cri_slots_in_use := cri_slots_in_use s AND NOT (slot_bit p), deploy_from_cri := False\<rparr>)"
    and "orch_inv E (s\<lparr>deploy_from_cri := False\<rparr>)"
    and "\<not> deploy_from_cri s \<Longrightarrow> orch_inv E (s\<lparr>deploy_pending := False\<rparr>)"
  using assms by (simp_all add: orch_inv_def orch_base_def bit_and_iff)

lemma targeted_failed_inv:
  assumes "orch_inv E s" and "targeted_failed s = Inr s'"
  shows "orch_inv E s'"
proof (cases "deploy_from_cri s")
  case True
  then obtain t where t: "cri_runtime_deploy_complete (deploy_pc_id s) True s = Inr t"
    and s': "s' = t\<lparr>cri_slots_in_use := cri_slots_in_use t AND NOT (slot_bit (deploy_pc_id t)),
                   deploy_from_cri := False, deploy_pending := False\<rparr>"
    using assms(2) by (auto simp: targeted_failed_def elim!: bindR_InrE)
  have "orch_inv E t" using deploy_complete_inv [OF assms(1) t] by simp
  then have "orch_inv E (t\<lparr>cri_slots_in_use := cri_slots_in_use t AND NOT (slot_bit (deploy_pc_id t)), deploy_from_cri := False\<rparr>)"
    by (rule concluded_inv(1))
  then show ?thesis unfolding s' by (rule concluded_inv(3) [where s = "_\<lparr>deploy_from_cri := False\<rparr>"]) simp
next
  case False
  then have "s' = s\<lparr>deploy_pending := False\<rparr>" using assms(2) by (simp add: targeted_failed_def)
  then show ?thesis using concluded_inv(3) [OF assms(1) False] by simp
qed

lemma read_inv:
  assumes "orch_inv E s" and "pico_vfs_readfile2buf n F a fname s = Inr (e, p, t)"
  shows "orch_inv E t"
  using assms(1) rest_base [OF readfile2buf_rest [OF assms(2)], of E] by blast

lemma ppcall_inv:
  assumes "orch_inv E s" and "monitor_ppcall F msg s = Inr (label, t)"
  shows "orch_inv E t"
  using assms(1) called_inv [OF ppcall_called [OF assms(2)], of E] by blast

lemma load_elf_inv: "orch_inv E s \<Longrightarrow> load_elf_payload E fname s = Inr s' \<Longrightarrow> orch_inv E s'"
  by (auto simp: load_elf_payload_def split: if_splits elim!: bindR_InrE) (blast intro: read_inv ppcall_inv)+

lemma load_targeted_inv:
  assumes "orch_inv E s" and "load_targeted_elf_payload E fname s = Inr s'"
  shows "orch_inv E s'"
proof -
  obtain e p t where t: "pico_vfs_readfile2buf (orch_read_bound E) (orch_fs E) shared2 fname s = Inr (e, p, t)"
    and rest: "(if e \<noteq> 0 then targeted_failed t
       else bindR (monitor_ppcall E [PC_MONITOR_CALL_DEPLOY_TO_PROTOCON, ucast (deploy_pc_id t),
                ucast (deploy_peer_mask t), if deploy_peers_all t then 1 else 0] t) (\<lambda>(monitor_error, s).
       if monitor_error \<noteq> MON_NO_ERROR then targeted_failed s else Inr s)) = Inr s'"
    using assms(2) by (auto simp: load_targeted_elf_payload_def elim!: bindR_InrE)
  have inv: "orch_inv E t" using read_inv [OF assms(1) t] .
  show ?thesis
  proof (cases "e = 0")
    case True
    then obtain label u where u: "orch_inv E u" "(if label \<noteq> MON_NO_ERROR then targeted_failed u else Inr u) = Inr s'"
      using rest by (auto elim!: bindR_InrE dest: ppcall_inv [OF inv])
    then show ?thesis using targeted_failed_inv [OF u(1)] by (cases "label = MON_NO_ERROR") simp_all
  next
    case False
    then show ?thesis using rest targeted_failed_inv [OF inv] by simp
  qed
qed

lemmas load_inv = load_elf_inv load_targeted_inv

lemma loader_finish_inv:
  assumes "orch_inv E s" and "loader_finish E k s = Inr s'"
  shows "orch_inv E s'"
proof -
  have t: "orch_inv E (s\<lparr>loaders := l\<rparr>)" for l using assms(1) by simp
  show ?thesis
    using assms load_inv [OF t]
    by (auto simp: loader_finish_def Let_def split: if_splits loader.splits loader_kind.splits)
qed

text \<open>The container part of a deployment's result.\<close>

definition container_result :: "'m orch_env \<Rightarrow> pc_monitor_error \<Rightarrow> u32 \<Rightarrow> 'm orch \<Rightarrow> 'm orch res" where
  "container_result E error pc_id s =
     bindR (if error = MON_NO_ERROR then monitor_protocon_is_running E pc_id s else Inr (None, s)) (\<lambda>(running, s).
     let failed = running \<noteq> Some True
     in bindR (cri_runtime_deploy_complete pc_id failed s) (\<lambda>s.
        Inr (s\<lparr>cri_slots_in_use := (if failed then cri_slots_in_use s AND NOT (slot_bit pc_id) else cri_slots_in_use s),
               deploy_from_cri := False\<rparr>)))"

lemma print_deploy_result_unfold:
  "print_deploy_result E s =
     bindR (monitor_ppcall E [PC_MONITOR_CALL_DEPLOY_RESULT] s) (\<lambda>(error, s).
     if error = MON_DEPLOY_IN_PROGRESS then Inr s
     else bindR (if deploy_from_cri s then container_result E error (ucast (orch_mrs s 0)) s else Inr s)
            (\<lambda>s. Inr (s\<lparr>deploy_pending := False\<rparr>)))"
  unfolding print_deploy_result_def container_result_def
  by (rule arg_cong [where f = "bindR _"]) (auto simp: fun_eq_iff Let_def)

lemma container_result_inv:
  assumes "orch_inv E s" and "container_result E error pc_id s = Inr s'"
  shows "orch_inv E s' \<and> \<not> deploy_from_cri s'"
proof -
  obtain running t where t: "(if error = MON_NO_ERROR then monitor_protocon_is_running E pc_id s else Inr (None, s)) = Inr (running, t)"
    and rest: "(let failed = running \<noteq> Some True
     in bindR (cri_runtime_deploy_complete pc_id failed t) (\<lambda>s.
        Inr (s\<lparr>cri_slots_in_use := (if failed then cri_slots_in_use s AND NOT (slot_bit pc_id) else cri_slots_in_use s),
               deploy_from_cri := False\<rparr>))) = Inr s'"
    using assms(2) unfolding container_result_def by (rule bindR_pairE)
  have "orch_inv E t"
  proof (cases "error = MON_NO_ERROR")
    case True
    then have "monitor_protocon_is_running E pc_id s = Inr (running, t)" using t by simp
    then show ?thesis using assms(1) called_inv [OF is_running_called, of E pc_id s running t E] by blast
  qed (use t assms(1) in simp)
  moreover obtain u where u: "cri_runtime_deploy_complete pc_id (running \<noteq> Some True) t = Inr u"
    "s' = u\<lparr>cri_slots_in_use := (if running \<noteq> Some True then cri_slots_in_use u AND NOT (slot_bit pc_id)
              else cri_slots_in_use u), deploy_from_cri := False\<rparr>"
    using rest by (auto simp: Let_def elim!: bindR_InrE)
  ultimately have "orch_inv E u" using deploy_complete_inv by blast
  then show ?thesis using concluded_inv u(2) by (cases "running = Some True") simp_all
qed

lemma print_deploy_result_inv:
  assumes "orch_inv E s" and "print_deploy_result E s = Inr s'"
  shows "orch_inv E s'"
proof -
  obtain error t where t: "monitor_ppcall E [PC_MONITOR_CALL_DEPLOY_RESULT] s = Inr (error, t)"
    and rest: "(if error = MON_DEPLOY_IN_PROGRESS then Inr t
     else bindR (if deploy_from_cri t then container_result E error (ucast (orch_mrs t 0)) t else Inr t)
            (\<lambda>s. Inr (s\<lparr>deploy_pending := False\<rparr>))) = Inr s'"
    using assms(2) unfolding print_deploy_result_unfold by (rule bindR_pairE)
  have inv: "orch_inv E t" using ppcall_inv [OF assms(1) t] .
  show ?thesis
  proof (cases "error = MON_DEPLOY_IN_PROGRESS")
    case False
    then obtain u where u: "(if deploy_from_cri t then container_result E error (ucast (orch_mrs t 0)) t else Inr t) = Inr u"
      and s': "s' = u\<lparr>deploy_pending := False\<rparr>"
      using rest by (auto elim!: bindR_InrE)
    have "orch_inv E u \<and> \<not> deploy_from_cri u"
      using u inv container_result_inv [OF inv] by (cases "deploy_from_cri t") auto
    then show ?thesis using concluded_inv(3) s' by blast
  qed (use rest inv in simp)
qed

section \<open>The shell\<close>

lemma set_fname_inv: "orch_inv E s \<Longrightarrow> length name < FNAME_BUF_SIZE \<Longrightarrow> orch_inv E (set_fname name s)"
  by (simp add: orch_inv_def orch_base_def set_fname_def)

lemma cmd_start_inv: "orch_inv E s \<Longrightarrow> orch_inv E (snd (cmd_start E argv s))"
  by (auto simp: cmd_start_def orch_cothread_spawn_def Let_def set_fname_inv split: option.split)

lemma cmd_deploy_inv: "orch_inv E s \<Longrightarrow> orch_inv E (snd (cmd_deploy E argv s))"
  by (auto simp: cmd_deploy_def orch_cothread_spawn_def orch_yield_def Let_def orch_inv_def orch_base_def set_fname_def
      not_le target_parsed split: option.split)

lemma call_monitor_inv: "orch_inv E s \<Longrightarrow> call_monitor E n arg s = Inr (r, s') \<Longrightarrow> orch_inv E s'"
  by (auto simp: call_monitor_def split: if_splits elim!: bindR_InrE dest: ppcall_inv)

lemma control_inv:
  assumes "orch_inv E s"
  shows "cmd_no_argument E argv n s = Inr (r, s') \<Longrightarrow> orch_inv E s'"
    and "cmd_pd_control E argv n s = Inr (r, s') \<Longrightarrow> orch_inv E s'"
    and "cmd_set_acl E argv s = Inr (r, s') \<Longrightarrow> orch_inv E s'"
  using assms
  by (auto simp: cmd_no_argument_def cmd_pd_control_def cmd_set_acl_def split: if_splits option.splits
      elim!: bindR_InrE dest: ppcall_inv call_monitor_inv)

lemma shell_execute_inv:
  assumes "orch_inv E s" and "shell_execute E argv s = Inr (r, s')"
  shows "orch_inv E s'"
proof -
  have start: "cmd_start E argv s = (r, s') \<Longrightarrow> orch_inv E s'" and deploy: "cmd_deploy E argv s = (r, s') \<Longrightarrow> orch_inv E s'"
    using cmd_start_inv [OF assms(1), of argv] cmd_deploy_inv [OF assms(1), of argv] by simp_all
  show ?thesis
    using assms(2) start deploy control_inv [OF assms(1)] assms(1)
    unfolding shell_execute_def by (simp split: if_split_asm)
qed

lemma shell_fns_fields [simp]:
  "exec_fn (shell_fns E) = shell_execute E" "get_completion_fn (shell_fns E) = Some shell_complete"
  "sigint_fn (shell_fns E) = Some shell_sigint"
  by (simp_all add: shell_fns_def microrl_set_sigint_callback_def microrl_set_complete_callback_def)

lemma shell_fns_ok [simp]: "first_word_fns (shell_fns E)"
  by (auto simp: first_word_fns_def shell_complete_def shell_sigint_def)

lemma process_blocks_inv: "orch_inv E s \<Longrightarrow> process_blocks E blocks s = Inr s' \<Longrightarrow> orch_inv E s'"
proof (induction blocks arbitrary: s)
  case (Cons b blocks)
  obtain r mrl t where t: "microrl_processing_input (shell_fns E) b (shell s) s = Inr (r, mrl, t)"
    and rest: "process_blocks E blocks (t\<lparr>shell := mrl\<rparr>) = Inr s'"
    using Cons.prems(2) by (auto elim!: bindR_InrE)
  have "orch_inv E t"
    by (rule processing_input_user [where P = "orch_inv E", OF _ t Cons.prems(1)]) (simp add: shell_execute_inv)
  moreover have "editor_ok mrl"
    using processing_input_ok [OF t shell_fns_ok] Cons.prems(1) by (simp add: orch_inv_def orch_base_def)
  ultimately have "orch_inv E (t\<lparr>shell := mrl\<rparr>)" by (simp add: orch_inv_def)
  then show ?case by (rule Cons.IH [OF _ rest])
qed simp

section \<open>Reachable states\<close>

lemma orch_notified_inv:
  assumes "orch_inv E s" and "orch_notified E ch s = Inr s'"
  shows "orch_inv E s'"
proof -
  have "orch_inv E (fs_process_completions (orch_fs E) s)"
    using assms(1) rest_base [OF process_completions_rest] by blast
  then show ?thesis
    using assms(2) process_blocks_inv packets_inv print_deploy_result_inv
    by (auto simp: orch_notified_def orche_handle_serial_event_def Let_def split: orch_channel.splits if_splits)
qed

lemma prologue_inv:
  assumes "orch_inv E s" and "orchestrator_prologue E s = Inr s'"
  shows "orch_inv E s'"
proof -
  obtain e c t where t: "fs_command_blocking (orch_fs E) FS_CMD_INITIALISE None s = Inr (e, c, t)"
    and 1: "bindR (pico_vfs_file_exists (orch_fs E) (c_string K8S_C_HELLO_FILE) (t\<lparr>fs_init := True\<rparr>)) (\<lambda>(available, s).
       bindR (pico_vfs_readfile2buf (orch_read_bound E) (orch_fs E) shared1 (c_bytes ''protocon.elf'')
                (s\<lparr>cri_c_hello_available := available\<rparr>)) (\<lambda>(err, _, s).
       if err \<noteq> 0 then Inr s
       else bindR (pico_vfs_readfile2buf (orch_read_bound E) (orch_fs E) shared3 (c_bytes ''trampoline.elf'') s)
              (\<lambda>(err, _, s). Inr s))) = Inr s'"
    using assms(2) unfolding orchestrator_prologue_def by (rule bindR_tripleE)
  obtain available u where u: "pico_vfs_file_exists (orch_fs E) (c_string K8S_C_HELLO_FILE) (t\<lparr>fs_init := True\<rparr>) = Inr (available, u)"
    and 2: "bindR (pico_vfs_readfile2buf (orch_read_bound E) (orch_fs E) shared1 (c_bytes ''protocon.elf'')
                (u\<lparr>cri_c_hello_available := available\<rparr>)) (\<lambda>(err, _, s).
       if err \<noteq> 0 then Inr s
       else bindR (pico_vfs_readfile2buf (orch_read_bound E) (orch_fs E) shared3 (c_bytes ''trampoline.elf'') s)
              (\<lambda>(err, _, s). Inr s)) = Inr s'"
    using 1 by (rule bindR_pairE)
  have "orch_inv E t" using assms(1) rest_base [OF command_blocking_rest [OF t], of E] by blast
  then have "orch_inv E (t\<lparr>fs_init := True\<rparr>)" by simp
  then have "orch_inv E u" using rest_base [OF file_exists_rest [OF u], of E] by blast
  then have inv: "orch_inv E (u\<lparr>cri_c_hello_available := available\<rparr>)" by simp
  obtain err p v where v: "pico_vfs_readfile2buf (orch_read_bound E) (orch_fs E) shared1 (c_bytes ''protocon.elf'')
                (u\<lparr>cri_c_hello_available := available\<rparr>) = Inr (err, p, v)"
    and 3: "(if err \<noteq> 0 then Inr v
       else bindR (pico_vfs_readfile2buf (orch_read_bound E) (orch_fs E) shared3 (c_bytes ''trampoline.elf'') v)
              (\<lambda>(err, _, s). Inr s)) = Inr s'"
    using 2 by (rule bindR_tripleE)
  note vinv = read_inv [OF inv v]
  show ?thesis
  proof (cases "err = 0")
    case True
    then obtain e' p' where "pico_vfs_readfile2buf (orch_read_bound E) (orch_fs E) shared3 (c_bytes ''trampoline.elf'') v
        = Inr (e', p', s')"
      using 3 by (auto elim!: bindR_InrE)
    then show ?thesis by (rule read_inv [OF vinv])
  qed (use 3 vinv in simp)
qed

lemma orch_runs_inv: "orch_runs E s s' \<Longrightarrow> orch_inv E s \<Longrightarrow> orch_inv E s'"
  by (cases rule: orch_runs.cases)
    (auto simp: orch_yield_def dest: orch_notified_inv loader_finish_inv prologue_inv)

lemma orch_step_inv: "orch_step E s s' \<Longrightarrow> orch_inv E s \<Longrightarrow> orch_inv E s'"
  by (cases rule: orch_step.cases) (auto dest: orch_runs_inv)

lemma orch_reaches_inv: "orch_reaches E s s' \<Longrightarrow> orch_inv E s \<Longrightarrow> orch_inv E s'"
  by (induction rule: orch_reaches.induct) (auto dest: orch_step_inv)

text \<open>The state that the orchestrator starts in.\<close>

lemma globals_objects [simp]:
  "sandboxes (orch_globals F m) = replicate CRI_MAX_OBJECTS cri_zero" "containers (orch_globals F m) = replicate CRI_MAX_OBJECTS cri_zero"
  "cri_images (orch_globals F m) = replicate CRI_MAX_OBJECTS cri_zero" "next_id (orch_globals F m) = 0"
  "timestamp (orch_globals F m) = 0" "cri_slots_in_use (orch_globals F m) = 0" "deploy_pending (orch_globals F m) = False"
  "deploy_from_cri (orch_globals F m) = False" "stream_len (orch_globals F m) = 0" "start_after_reply (orch_globals F m) = None"
  "loaders (orch_globals F m) = []" "orch_monitor (orch_globals F m) = m" "sent (orch_globals F m) = []"
  "cri_c_hello_available (orch_globals F m) = False" "connected (orch_globals F m) = False"
  "deploy_pc_id (orch_globals F m) = 0" "deploy_peer_mask (orch_globals F m) = 0"
  by (simp_all add: orch_globals_def)

lemma globals_wf [simp]: "tables_wf (orch_globals F m)"
  by (simp add: tables_wf_def table_of_def)

lemma globals_inv [simp]: "orch_inv E (orch_globals F m)"
proof -
  have "length (fname_buf (orch_globals F m)) = FNAME_BUF_SIZE" "length (stream (orch_globals F m)) = SIZEOF_STREAM"
    by (simp_all add: orch_globals_def stream_sizes)
  moreover have "editor_ok (shell (orch_globals F m))" by (simp add: orch_globals_def)
  ultimately show ?thesis by (simp add: orch_inv_def orch_base_def)
qed

lemma reachable_inv: "orch_reaches E (orch_globals F m) s \<Longrightarrow> orch_inv E s"
  by (erule orch_reaches_inv) simp

end
