(* ===== verification/Orch_Deploy.thy ===== *)
theory Orch_Deploy
  imports Orch_Invariant Deploy_Properties
begin

unbundle bit_operations_syntax

text \<open>
  Deployments across the protection domains: the orchestrator with the real monitor behind its channel, how a
  deployment for a container is concluded, and the ways in which a slot or a container is lost.
\<close>

section \<open>The monitor behind the channel\<close>

text \<open>
  Three images are memory of both domains (\<open>connect_orchestrator\<close> in \<open>examples/simple/meta/engine.py\<close>): the
  orchestrator writes the files there, and the monitor reads them at other addresses.
\<close>

definition image_size :: u64 where "image_size = 0x800000"

definition shared_view :: "mem \<Rightarrow> mem \<Rightarrow> mem" where
  "shared_view orch mon =
     (\<lambda>a. if a - 0x6000000 < image_size then orch (shared1 + (a - 0x6000000))
          else if a - 0x6800000 < image_size then orch (shared3 + (a - 0x6800000))
          else if a - carrels_payload_start < image_size then orch (shared2 + (a - carrels_payload_start))
          else mon a)"

definition monitor_sees :: "mem \<Rightarrow> monitor_system \<Rightarrow> monitor_system" where
  "monitor_sees mem sys = ((fst sys)\<lparr>memory := shared_view mem (memory (fst sys))\<rparr>, snd sys)"

lemma monitor_sees_fields [simp]:
  "snd (monitor_sees mem sys) = snd sys" "mrs (fst (monitor_sees mem sys)) = mrs (fst sys)"
  "num_pc (fst (monitor_sees mem sys)) = num_pc (fst sys)" "peer_policy (fst (monitor_sees mem sys)) = peer_policy (fst sys)"
  "protocon_states (fst (monitor_sees mem sys)) = protocon_states (fst sys)"
  "deploy_result (fst (monitor_sees mem sys)) = deploy_result (fst sys)"
  "deploy_request_active (fst (monitor_sees mem sys)) = deploy_request_active (fst sys)"
  "deploy_request (fst (monitor_sees mem sys)) = deploy_request (fst sys)"
  "events (fst (monitor_sees mem sys)) = events (fst sys)"
  by (simp_all add: monitor_sees_def)

text \<open>
  Calls of the orchestrator reach the monitor on channel 23. The message is in its registers when it runs, and the
  registers are the orchestrator's when it returns.
\<close>

definition linked :: "mon_env \<Rightarrow> monitor_system orch_env \<Rightarrow> bool" where
  "linked M E \<longleftrightarrow> (\<forall>mem sys msg. ppcall E mem sys msg =
     bindR (monitor_protected M 23 (\<lambda>i. if i < length msg then msg ! i else mrs (fst sys) i) (monitor_sees mem sys)) (\<lambda>((label, _), sys).
     Inr (label, mrs (fst sys), sys)))"

lemma linkedD: "linked M E \<Longrightarrow> ppcall E mem sys msg =
     bindR (monitor_protected M 23 (\<lambda>i. if i < length msg then msg ! i else mrs (fst sys) i) (monitor_sees mem sys)) (\<lambda>((label, _), sys).
     Inr (label, mrs (fst sys), sys))"
  unfolding linked_def by blast

lemma linked_call:
  assumes "linked M E" and "\<And>regs. regs 0 = w \<Longrightarrow> \<exists>n. monitor_protected M 23 regs (monitor_sees (memory s) (orch_monitor s)) = Inr ((label, n), (g regs, co))"
  shows "\<exists>regs. regs 0 = w \<and>
    monitor_ppcall E [w] s = Inr (label, s\<lparr>orch_monitor := (g regs, co), orch_mrs := mrs (g regs)\<rparr>)"
proof -
  let ?regs = "\<lambda>i. if i < length [w] then [w] ! i else mrs (fst (orch_monitor s)) i"
  obtain n where "monitor_protected M 23 ?regs (monitor_sees (memory s) (orch_monitor s)) = Inr ((label, n), (g ?regs, co))"
    using assms(2) [of ?regs] by auto
  then have "monitor_ppcall E [w] s = Inr (label, s\<lparr>orch_monitor := (g ?regs, co), orch_mrs := mrs (g ?regs)\<rparr>)"
    using linkedD [OF assms(1), of "memory s" "orch_monitor s" "[w]"] by (simp add: monitor_ppcall_def)
  then show ?thesis by (intro exI [of _ ?regs]) simp
qed

lemma linked_result:
  assumes "linked M E" and "r = deploy_result (fst (orch_monitor s))"
  obtains t where "monitor_ppcall E [PC_MONITOR_CALL_DEPLOY_RESULT] s
      = Inr (if res_ready r then res_error r else MON_DEPLOY_IN_PROGRESS, t)"
    and "called s t" and "res_ready r \<longrightarrow> orch_mrs t 0 = ucast (res_target_pc r)"
    and "protocon_states (fst (orch_monitor t)) = protocon_states (fst (orch_monitor s))"
proof -
  let ?m = "fst (monitor_sees (memory s) (orch_monitor s))"
  let ?g = "\<lambda>regs. snd (monitor_call_deploy_result (?m\<lparr>mrs := regs\<rparr>))"
  have "\<exists>n. monitor_protected M 23 regs (monitor_sees (memory s) (orch_monitor s))
      = Inr ((if res_ready r then res_error r else MON_DEPLOY_IN_PROGRESS, n), (?g regs, snd (orch_monitor s)))"
    if "regs 0 = PC_MONITOR_CALL_DEPLOY_RESULT" for regs
    using that assms(2)
    by (simp add: monitor_protected_def monitor_main_handle_pccall_def with_state_def monitor_call_deploy_result_def
        call_numbers Let_def)
  from linked_call [OF assms(1) this] obtain regs where
    c: "monitor_ppcall E [PC_MONITOR_CALL_DEPLOY_RESULT] s = Inr (if res_ready r then res_error r else MON_DEPLOY_IN_PROGRESS,
      s\<lparr>orch_monitor := (?g regs, snd (orch_monitor s)), orch_mrs := mrs (?g regs)\<rparr>)" by blast
  show thesis
    by (rule that [OF c]) (use assms(2) in \<open>auto simp: called_def monitor_call_deploy_result_def Let_def\<close>)
qed

lemma linked_query:
  assumes "linked M E"
  obtains t where "monitor_ppcall E [PC_MONITOR_CALL_QUERY_PROTOCONS] s = Inr (MON_NO_ERROR, t)" and "called s t"
    and "orch_mrs t 0 = query_bitmap (monitor_get_pcid_from_ch 23) (fst (orch_monitor s))"
    and "protocon_states (fst (orch_monitor t)) = protocon_states (fst (orch_monitor s))"
proof -
  let ?m = "fst (monitor_sees (memory s) (orch_monitor s))"
  let ?g = "\<lambda>regs. snd (monitor_call_query_protocons 23 (?m\<lparr>mrs := regs\<rparr>))"
  have "\<exists>n. monitor_protected M 23 regs (monitor_sees (memory s) (orch_monitor s)) = Inr ((MON_NO_ERROR, n), (?g regs, snd (orch_monitor s)))"
    if "regs 0 = PC_MONITOR_CALL_QUERY_PROTOCONS" for regs
    using that
    by (simp add: monitor_protected_def monitor_main_handle_pccall_def with_state_def monitor_call_query_protocons_def
        call_numbers Let_def)
  from linked_call [OF assms(1) this] obtain regs where
    c: "monitor_ppcall E [PC_MONITOR_CALL_QUERY_PROTOCONS] s
      = Inr (MON_NO_ERROR, s\<lparr>orch_monitor := (?g regs, snd (orch_monitor s)), orch_mrs := mrs (?g regs)\<rparr>)" by blast
  show thesis
    by (rule that [OF c])
      (auto simp: called_def monitor_call_query_protocons_def Let_def query_bitmap_def
        protocon_state_check_lifecycle_state_def protocon_state_get_lifecycle_state_def)
qed

lemma self_of_orchestrator: "n < 16 \<Longrightarrow> word_of_nat n \<noteq> monitor_get_pcid_from_ch 23"
proof
  assume "n < 16" and "word_of_nat n = monitor_get_pcid_from_ch 23"
  moreover have "unat (monitor_get_pcid_from_ch 23) \<ge> 16" by (simp add: monitor_get_pcid_from_ch_def PC_MONITOR_PROTOCON_BASE_CHANNEL_def INVALID_PC_ID_def)
  moreover from \<open>n < 16\<close> have "unat (word_of_nat n :: u32) = n" by (intro unat_word_of_nat_lt) simp
  ultimately show False by simp
qed

lemma linked_running:
  assumes "linked M E"
  obtains t where "monitor_protocon_is_running E p s = Inr
      (if p < MAX_PROTOCON_PORTS E then Some (unat p < 16 \<and> running (fst (orch_monitor s)) (unat p)) else None, t)"
    and "called s t"
proof (cases "p < MAX_PROTOCON_PORTS E")
  case True
  obtain t where t: "monitor_ppcall E [PC_MONITOR_CALL_QUERY_PROTOCONS] s = Inr (MON_NO_ERROR, t)" "called s t"
    and regs: "orch_mrs t 0 = query_bitmap (monitor_get_pcid_from_ch 23) (fst (orch_monitor s))"
    by (rule linked_query [OF assms])
  have "orch_mrs t 0 AND push_bit (unat p) 1 \<noteq> 0 \<longleftrightarrow> unat p < 16 \<and> running (fst (orch_monitor s)) (unat p)"
    using self_of_orchestrator [of "unat p"] by (auto simp: regs push_bit_of_1 and_exp_eq_0_iff_not_bit query_bit)
  then show thesis using that t True by (simp add: monitor_protocon_is_running_def not_le)
next
  case False
  then show thesis using that [of s] by (simp add: monitor_protocon_is_running_def not_le called_refl)
qed

section \<open>The container of a deployment\<close>

definition starting :: "u32 \<Rightarrow> cri_object \<Rightarrow> bool" where
  "starting p obj \<longleftrightarrow> present obj \<noteq> 0 \<and> cri_state obj = 1 \<and> network_ns obj = p
     \<and> c_string (reason obj) = c_bytes ''CarrelsStarting''"

definition concluded :: "bool \<Rightarrow> u64 \<Rightarrow> cri_object \<Rightarrow> cri_object" where
  "concluded failed now obj =
     (if failed then obj\<lparr>reason := copy_literal (reason obj) ''CarrelsStartFailed'', cri_state := 2, exit_code := 1, finished_at := now\<rparr>
      else obj\<lparr>reason := copy_literal (reason obj) ''CarrelsRunning''\<rparr>)"

lemma deploy_complete_first:
  assumes "\<forall>obj \<in> set table. container_ok obj"
  shows "deploy_complete_from p failed table now = Inr (case first_index (starting p) table of None \<Rightarrow> (table, now)
     | Some i \<Rightarrow> (table[i := concluded failed (now + 1) (table ! i)], if failed then now + 1 else now))"
  using assms
proof (induction table)
  case (Cons obj table)
  have "terminated (c_bytes ''CarrelsStarting'' @ [0])" "c_string (c_bytes ''CarrelsStarting'' @ [0]) = c_bytes ''CarrelsStarting''"
    by (simp_all add: c_bytes_def)
  then have s: "present obj \<noteq> 0 \<Longrightarrow> strcmp_eq (reason obj) (c_bytes ''CarrelsStarting'' @ [0])
      = Inr (c_string (reason obj) = c_bytes ''CarrelsStarting'')"
    using Cons.prems strcmp_eq_terminated [of "reason obj" "c_bytes ''CarrelsStarting'' @ [0]"] by (simp add: container_ok_def)
  have IH: "deploy_complete_from p failed table now = Inr (case first_index (starting p) table of None \<Rightarrow> (table, now)
     | Some i \<Rightarrow> (table[i := concluded failed (now + 1) (table ! i)], if failed then now + 1 else now))"
    using Cons by simp
  show ?case
  proof (cases "starting p obj")
    case True
    then show ?thesis using s by (simp add: starting_def concluded_def Let_def)
  next
    case False
    then have "deploy_complete_from p failed (obj # table) now =
        bindR (deploy_complete_from p failed table now) (\<lambda>(table, now). Inr (obj # table, now))"
      using s by (auto simp: starting_def Let_def)
    then show ?thesis using IH False by (cases "first_index (starting p) table") (simp_all del: first_index_None_iff)
  qed
qed simp


section \<open>The result of a deployment\<close>

text \<open>Whether the monitor reports success and the protocon it reports runs.\<close>

definition went_well :: "monitor_system orch_env \<Rightarrow> monitor \<Rightarrow> bool" where
  "went_well E m \<longleftrightarrow> res_error (deploy_result m) = MON_NO_ERROR \<and> res_target_pc (deploy_result m) < MAX_PROTOCON_PORTS E
     \<and> unat (res_target_pc (deploy_result m)) < 16 \<and> running m (unat (res_target_pc (deploy_result m)))"

text \<open>A table after the deployment for protocon \<open>p\<close> has ended.\<close>

definition conclude :: "u32 \<Rightarrow> bool \<Rightarrow> u64 \<Rightarrow> cri_object list \<Rightarrow> cri_object list" where
  "conclude p failed now table = (case first_index (starting p) table of None \<Rightarrow> table
     | Some i \<Rightarrow> table[i := concluded failed now (table ! i)])"

lemma deploy_complete_concludes:
  assumes "orch_inv E s"
  shows "\<exists>v. cri_runtime_deploy_complete p failed s
    = Inr (s\<lparr>containers := conclude p failed (timestamp s + 1) (containers s), timestamp := v\<rparr>)"
proof -
  have "\<forall>obj \<in> set (containers s). container_ok obj"
    using assms by (simp add: orch_inv_def orch_base_def tables_wf_def table_of_def)
  note first = deploy_complete_first [OF this]
  show ?thesis
  proof (cases "first_index (starting p) (containers s)")
    case None
    then show ?thesis
      unfolding cri_runtime_deploy_complete_def first conclude_def
      by (intro exI [of _ "timestamp s"]) (simp del: first_index_None_iff)
  next
    case (Some i)
    then show ?thesis
      unfolding cri_runtime_deploy_complete_def first conclude_def
      by (intro exI [of _ "if failed then timestamp s + 1 else timestamp s"]) simp
  qed
qed

lemma running_states: "protocon_states s = protocon_states t \<Longrightarrow> running s = running t"
  by (simp add: running_def fun_eq_iff)

lemma container_result_linked:
  assumes "linked M E" and "orch_inv E s"
  shows "\<exists>t v. called s t \<and> (let failed = \<not> (error = MON_NO_ERROR \<and> p < MAX_PROTOCON_PORTS E \<and> unat p < 16
        \<and> running (fst (orch_monitor s)) (unat p))
    in container_result E error p s = Inr (t\<lparr>containers := conclude p failed (timestamp s + 1) (containers s), timestamp := v,
         cri_slots_in_use := (if failed then cri_slots_in_use s AND NOT (slot_bit p) else cri_slots_in_use s),
         deploy_from_cri := False\<rparr>))"
proof -
  let ?ok = "error = MON_NO_ERROR \<and> p < MAX_PROTOCON_PORTS E \<and> unat p < 16 \<and> running (fst (orch_monitor s)) (unat p)"
  obtain r t where t: "(if error = MON_NO_ERROR then monitor_protocon_is_running E p s else Inr (None, s)) = Inr (r, t)"
    and called: "called s t" and r: "r = Some True \<longleftrightarrow> ?ok"
  proof (cases "error = MON_NO_ERROR")
    case True
    show thesis by (rule linked_running [OF assms(1), of p s]) (use that True in \<open>auto split: if_splits\<close>)
  next
    case False
    then show thesis using that [of None s] by (simp add: called_refl)
  qed
  note f = called_fields [OF called]
  have "orch_inv E t" using called_inv [OF called] assms(2) by simp
  from deploy_complete_concludes [OF this, of p "r \<noteq> Some True"] obtain v where
    v: "cri_runtime_deploy_complete p (r \<noteq> Some True) t
      = Inr (t\<lparr>containers := conclude p (r \<noteq> Some True) (timestamp s + 1) (containers s), timestamp := v\<rparr>)"
    by (auto simp: f)
  have c: "container_result E error p s = Inr (t\<lparr>containers := conclude p (r \<noteq> Some True) (timestamp s + 1) (containers s),
      timestamp := v, cri_slots_in_use := (if r \<noteq> Some True then cri_slots_in_use s AND NOT (slot_bit p) else cri_slots_in_use s),
      deploy_from_cri := False\<rparr>)"
    unfolding container_result_def t bindR_simps prod.case Let_def v by (simp add: f)
  show ?thesis
    unfolding Let_def r [symmetric] by (rule exI [of _ t], rule exI [of _ v]) (simp only: called c simp_thms)
qed

lemma result_concludes:
  assumes "linked M E" and "orch_inv E s" and "deploy_from_cri s"
    and "res_ready (deploy_result m)" and "res_error (deploy_result m) \<noteq> MON_DEPLOY_IN_PROGRESS"
    and "m = fst (orch_monitor s)" and "p = res_target_pc (deploy_result m)"
  shows "\<exists>s'. print_deploy_result E s = Inr s' \<and> \<not> deploy_pending s' \<and> \<not> deploy_from_cri s' \<and> loaders s' = loaders s
    \<and> containers s' = conclude p (\<not> went_well E m) (timestamp s + 1) (containers s)
    \<and> (\<forall>j. bit (cri_slots_in_use s') j \<longleftrightarrow> bit (cri_slots_in_use s) j \<and> (went_well E m \<or> j \<noteq> unat p))"
proof -
  obtain t where t: "monitor_ppcall E [PC_MONITOR_CALL_DEPLOY_RESULT] s = Inr (res_error (deploy_result m), t)" "called s t"
    and regs: "orch_mrs t 0 = ucast p" and states: "protocon_states (fst (orch_monitor t)) = protocon_states m"
    by (rule linked_result [OF assms(1) refl, of s]) (use assms(4,6,7) in auto)
  note f = called_fields [OF t(2)]
  have inv: "orch_inv E t" "deploy_from_cri t"
    using called_inv [OF t(2), of E] assms(2,3) t(2) by (auto simp: called_def)
  have p: "ucast (orch_mrs t 0) = p"
    unfolding regs by (rule bit_eqI) (auto simp: bit_ucast_iff dest: bit_imp_le_length)
  have ok: "(res_error (deploy_result m) = MON_NO_ERROR \<and> p < MAX_PROTOCON_PORTS E \<and> unat p < 16
      \<and> running (fst (orch_monitor t)) (unat p)) = went_well E m"
    using running_states [OF states] assms(7) by (auto simp: went_well_def)
  obtain u v where called: "called t u" and u: "container_result E (res_error (deploy_result m)) p t
      = Inr (u\<lparr>containers := conclude p (\<not> went_well E m) (timestamp s + 1) (containers s), timestamp := v,
         cri_slots_in_use := (if \<not> went_well E m then cri_slots_in_use s AND NOT (slot_bit p) else cri_slots_in_use s),
         deploy_from_cri := False\<rparr>)"
    using container_result_linked [OF assms(1) inv(1), of "res_error (deploy_result m)" p] unfolding ok Let_def f by blast
  have "loaders u = loaders s" using called t(2) by (auto simp: called_def)
  moreover have "j < 32" if "bit (cri_slots_in_use s) j" for j using bit_imp_le_length [OF that] by simp
  ultimately show ?thesis
    using t(1) u inv(2) assms(5) p
    by (auto simp: print_deploy_result_unfold bit_and_iff bit_not_iff slot_bit_iff)
qed

section \<open>A result of an earlier deployment\<close>

lemma result_keeps_containers:
  assumes "\<not> deploy_from_cri t" and "print_deploy_result E t = Inr t'"
  shows "containers t' = containers t"
proof -
  obtain error u where u: "monitor_ppcall E [PC_MONITOR_CALL_DEPLOY_RESULT] t = Inr (error, u)"
    and rest: "(if error = MON_DEPLOY_IN_PROGRESS then Inr u
     else bindR (if deploy_from_cri u then container_result E error (ucast (orch_mrs u 0)) u else Inr u)
            (\<lambda>s. Inr (s\<lparr>deploy_pending := False\<rparr>))) = Inr t'"
    using assms(2) unfolding print_deploy_result_unfold by (rule bindR_pairE)
  have "containers u = containers t" "\<not> deploy_from_cri u"
    using ppcall_called [OF u] assms(1) by (auto simp: called_def)
  then show ?thesis using rest by (cases "error = MON_DEPLOY_IN_PROGRESS") auto
qed

lemma starting_changed: "p \<noteq> q \<Longrightarrow> starting q (table ! i) \<Longrightarrow> conclude p failed now table ! i = table ! i"
proof (cases "first_index (starting p) table")
  case (Some j)
  assume "p \<noteq> q" and "starting q (table ! i)"
  moreover have "starting p (table ! j)" using first_index_SomeD [OF Some] by simp
  ultimately have "j \<noteq> i" by (auto simp: starting_def)
  then show ?thesis using Some by (simp add: conclude_def)
qed (simp add: conclude_def del: first_index_None_iff)

section \<open>Stopping a container that is starting\<close>

lemma cri_stop_accepted:
  assumes "orchestrator_cri_stop E p s = Inr (True, u)"
  shows "\<exists>t. called s t \<and> u = t\<lparr>cri_slots_in_use := cri_slots_in_use s AND NOT (slot_bit p)\<rparr>"
proof -
  obtain t where "called s t" "u = t\<lparr>cri_slots_in_use := cri_slots_in_use t AND NOT (slot_bit p)\<rparr>"
    using cri_stop_result [OF assms] by auto
  then show ?thesis using called_fields(5) [of s t] by auto
qed

lemma stop_accepted:
  assumes "cri_find (containers s) (cri_id request) = Inr (Some i)" and "cri_state (containers s ! i) = 1"
    and "orchestrator_cri_stop E (network_ns (containers s ! i)) s = Inr (True, u)"
  shows "stop_container E request s = Inr ((CRI_OK, cri_zero), u\<lparr>containers := (containers s)[i := (containers s ! i)
      \<lparr>cri_state := 2, finished_at := timestamp s + 1, reason := copy_literal (reason (containers s ! i)) ''CarrelsStopped''\<rparr>],
      timestamp := timestamp s + 1\<rparr>)"
proof -
  have "containers u = containers s" "timestamp u = timestamp s" using cri_stop_accepted [OF assms(3)] by (auto simp: called_def)
  then show ?thesis using assms by (simp add: stop_container_def with_found_def stop_found_def Let_def)
qed

lemma conclude_none: "\<forall>obj \<in> set table. \<not> starting p obj \<Longrightarrow> conclude p failed now table = table"
  using first_index_None_iff [of "starting p" table] by (simp add: conclude_def del: first_index_None_iff)

end
