(* ===== verification/Orch_Example.thy ===== *)
theory Orch_Example
  imports Orch_Deploy
begin

unbundle bit_operations_syntax

text \<open>
  Used by the witnesses: the example monitor behind the channel, and a container that is starting in a protocon.
\<close>

definition ex_orch_env :: "monitor_system orch_env" where
  "ex_orch_env = \<lparr>orch_fs = ex_fs_env ex_file_server, orch_read_bound = 32,
     ppcall = (\<lambda>mem sys msg. bindR (monitor_protected ex_mon_env 23 (\<lambda>i. if i < length msg then msg ! i else mrs (fst sys) i) (monitor_sees mem sys))
       (\<lambda>((label, _), sys). Inr (label, mrs (fst sys), sys))),
     orch_spawn = (\<lambda>n. n < 2), error_code = (\<lambda>_. 0), MAX_PROTOCON_PORTS = 4,
     tx_buffer_available = (\<lambda>_. True), tx_buffer_size = 4096, tx_enqueue_ok = (\<lambda>_. True)\<rparr>"

lemma ex_linked: "linked ex_mon_env ex_orch_env"
  by (simp add: linked_def ex_orch_env_def)

lemma ex_ports: "MAX_PROTOCON_PORTS ex_orch_env = 4"
  by (simp add: ex_orch_env_def)

definition ex_named :: cri_object where
  "ex_named = cri_zero\<lparr>cri_id := store_string (cri_id cri_zero) (container_name 1)\<rparr>"

definition ex_container :: "u32 \<Rightarrow> cri_object" where
  "ex_container p = ex_named\<lparr>present := 1, cri_state := 1, network_ns := p,
     reason := copy_literal (reason cri_zero) ''CarrelsStarting''\<rparr>"

definition ex_deploying :: "u32 \<Rightarrow> monitor \<Rightarrow> monitor_system orch" where
  "ex_deploying p m = (orch_globals ex_fs_state (m, CoNone))\<lparr>
     containers := (replicate CRI_MAX_OBJECTS cri_zero)[0 := ex_container p], cri_slots_in_use := slot_bit p,
     deploy_pc_id := p, deploy_pending := True, deploy_from_cri := True, cri_c_hello_available := True,
     loaders := [Reading LoadTargeted (c_string K8S_C_HELLO_FILE)]\<rparr>"

lemma zero_fields:
  "cri_image cri_zero = replicate 256 0" "length (reason cri_zero) = 64" "length (cri_id cri_zero) = 64"
  using cri_valid_zero by (simp_all add: cri_valid_iff) (simp add: cri_zero_def unpack_def cri_sizes_def cri_of_fields_def min_def)

lemma ex_named_valid: "cri_valid ex_named"
  using stored(1) [OF cri_valid_zero] by (simp add: ex_named_def)

lemma ex_container_ok: "container_ok (ex_container p)"
proof -
  have "cri_id cri_zero \<noteq> []" "reason cri_zero \<noteq> []" using zero_fields(2,3) by auto
  moreover have "terminated (replicate 256 0)" by (simp add: terminated_def)
  ultimately show ?thesis
    using ex_named_valid zero_fields
    by (simp add: container_ok_def object_ok_def ex_container_def ex_named_def cri_valid_iff)
qed

lemma ex_fields:
  "present (ex_container p) = 1" "cri_state (ex_container p) = 1" "network_ns (ex_container p) = p"
  "cri_id (ex_container p) = cri_id ex_named" "c_string (reason (ex_container p)) = c_bytes ''CarrelsStarting''"
  using zero_fields by (simp_all add: ex_container_def ex_named_def c_string_store c_bytes_def)

lemma ex_table: "(replicate CRI_MAX_OBJECTS cri_zero)[0 := ex_container p] ! j = (if j = 0 then ex_container p else cri_zero)"
    if "j < CRI_MAX_OBJECTS"
  using that by (cases j) simp_all

lemma ex_objects: "0 < CRI_MAX_OBJECTS"
  by (simp add: CRI_MAX_OBJECTS_def)

lemma ex_starting: "starting q (ex_container p) \<longleftrightarrow> q = p" "\<not> starting q cri_zero"
  by (auto simp: starting_def ex_fields)

lemma ex_deploying_fields:
  "containers (ex_deploying p m) = (replicate CRI_MAX_OBJECTS cri_zero)[0 := ex_container p]"
  "deploy_from_cri (ex_deploying p m)" "fst (orch_monitor (ex_deploying p m)) = m"
  "cri_slots_in_use (ex_deploying p m) = slot_bit p" "deploy_pc_id (ex_deploying p m) = p"
  by (simp_all add: ex_deploying_def)

lemma ex_first: "first_index (starting p) ((replicate CRI_MAX_OBJECTS cri_zero)[0 := ex_container p]) = Some 0"
  by (rule first_index_SomeI) (simp_all add: ex_table ex_starting CRI_MAX_OBJECTS_def del: first_index_None_iff)

lemma ex_deploying_inv: "p < 4 \<Longrightarrow> orch_inv ex_orch_env (ex_deploying p m)"
proof -
  assume p: "p < 4"
  have g: "orch_inv ex_orch_env (orch_globals ex_fs_state (m, CoNone))" by simp
  have "table_of container_ok ((replicate CRI_MAX_OBJECTS cri_zero)[0 := ex_container p])"
    by (rule table_update) (simp_all add: table_of_def ex_container_ok)
  moreover have "bit (slot_bit p) j \<Longrightarrow> j < 4" for j using p by (auto simp: slot_bit_iff word_less_nat_alt)
  ultimately show ?thesis
    using g p by (simp add: ex_deploying_def orch_inv_def orch_base_def tables_wf_def ex_orch_env_def)
qed

lemma ex_find: "cri_find (containers (ex_deploying p m)) (cri_id ex_named) = Inr (Some 0)"
proof -
  have t: "table_of object_ok (containers (ex_deploying p m))"
    unfolding ex_deploying_fields
    by (rule table_update) (use ex_container_ok ok_objects in \<open>simp_all add: table_of_def\<close>)
  have "terminated (cri_id ex_named)" using stored(4) [OF cri_valid_zero] by (simp add: ex_named_def)
  then show ?thesis
    unfolding cri_find_first [OF t ex_named_valid] sum.inject
    by (intro first_index_SomeI) (simp_all add: ex_deploying_fields ex_table ex_fields CRI_MAX_OBJECTS_def)
qed

text \<open>The example monitor, with the result of a deployment to a protocon.\<close>

definition ex_reports :: "u32 \<Rightarrow> monitor" where
  "ex_reports p = (ex_monitor [1, 1] [])\<lparr>deploy_result := \<lparr>res_target_pc = p, connected_peer_mask = 0,
     rejected_peer_mask = 0, unavailable_peer_mask = 0, res_error = MON_NO_ERROR, res_ready = True\<rparr>\<rparr>"

lemma ex_reports_fields:
  "res_ready (deploy_result (ex_reports p))" "res_error (deploy_result (ex_reports p)) = MON_NO_ERROR"
  "res_target_pc (deploy_result (ex_reports p)) = p"
  by (simp_all add: ex_reports_def)

lemma ex_went_well: "went_well ex_orch_env (ex_reports 1)"
  by (simp add: went_well_def ex_reports_fields)
    (simp add: ex_orch_env_def running_def ex_reports_def ex_states ex_pc_def ex_monitor_def lifecycle_consts)

text \<open>The example monitor accepts a stop of protocon 1.\<close>

lemma ex_stop: "\<exists>u. orchestrator_cri_stop ex_orch_env 1 (ex_deploying 1 (ex_monitor [2, 2] [])) = Inr (True, u)"
proof -
  let ?s = "ex_deploying 1 (ex_monitor [2, 2] [])"
  define msg where "msg = (\<lambda>i. if i < length [PC_MONITOR_CALL_TERMINATE_EXT, 1] then [PC_MONITOR_CALL_TERMINATE_EXT, 1] ! i
    else mrs (fst (orch_monitor ?s)) i)"
  have msg_regs: "msg 0 = PC_MONITOR_CALL_TERMINATE_EXT" "msg 1 = 1" by (simp_all add: msg_def)
  let ?m = "(ex_monitor [2, 2] [])\<lparr>memory := shared_view (memory ?s) (memory (ex_monitor [2, 2] [])), mrs := msg\<rparr>"
  have p: "unat (1 :: u32) < 16" by simp
  obtain reply m' where r: "monitor_call_stop_and_restore_protocon ex_mon_env 1 ?m = Inr (reply, m')"
    using restore_succeeds [OF ex_loads p, of "emit (PdStop 1) (monitor_acl_release_protocon ex_mon_env 1 ?m)"]
    by (auto simp: monitor_call_stop_and_restore_protocon_def PC_CHILD_PER_MONITOR_MAX_NUM_def)
  have c: "monitor_call_restore_protocon ex_mon_env (1 + PC_MONITOR_PROTOCON_BASE_CHANNEL)
      (emit (PdStop 1) (monitor_acl_release_protocon ex_mon_env 1 ?m)) = Inr (reply, m')"
    using r by (simp add: monitor_call_stop_and_restore_protocon_def PC_CHILD_PER_MONITOR_MAX_NUM_def)
  obtain regs es pol where rel: "monitor_acl_release_protocon ex_mon_env 1 ?m = ?m\<lparr>peer_policy := pol, mrs := regs, events := events ?m @ es\<rparr>"
    using release_frame [of ?m ex_mon_env 1] by (auto simp: ex_monitor_def)
  note res = restore_result [OF ex_load_contained ex_images_fit p c]
  have m': "m' = (protocon_state_set_lifecycle_state 1 PROTOCON_PASSIVE (emit (PdStop 1) (monitor_acl_release_protocon ex_mon_env 1 ?m)))
      \<lparr>memory := memory m', events := events (emit (PdStop 1) (monitor_acl_release_protocon ex_mon_env 1 ?m)) @ [Notify PC_MONITOR_ORCHESTRATOR_CHANNEL]\<rparr>"
    using res by blast
  have "lifecycles m' = (lifecycles (ex_monitor [2, 2] []))[1 := PROTOCON_PASSIVE]"
    by (subst m') (simp add: lifecycles_set rel)
  moreover have "length (lifecycles (ex_monitor [2, 2] [])) = 16" by (simp add: lifecycles_def ex_monitor_def)
  ultimately have "lifecycles m' ! 1 = PROTOCON_PASSIVE" by simp
  moreover have len: "length (protocon_states m') = 16"
    using \<open>lifecycles m' = _\<close> by (metis length_list_update length_map lifecycles_def \<open>length (lifecycles _) = 16\<close>)
  ultimately have stopped: "\<not> running m' 1" by (simp add: running_def lifecycles_def lifecycle_consts)
  have "monitor_protected ex_mon_env 23 msg (monitor_sees (memory ?s) (orch_monitor ?s)) = Inr (reply, (m', CoNone))"
    using r msg_regs by (simp add: monitor_protected_def monitor_main_handle_pccall_def with_state_res_def call_numbers ex_deploying_def
      orch_globals_def monitor_sees_def)
  then have call: "monitor_ppcall ex_orch_env [PC_MONITOR_CALL_TERMINATE_EXT, ucast (1 :: u32)] ?s
      = Inr (MON_NO_ERROR, ?s\<lparr>orch_monitor := (m', CoNone), orch_mrs := mrs m'\<rparr>)"
    using res by (simp add: monitor_ppcall_def ex_orch_env_def msg_def)
  obtain t where "monitor_protocon_is_running ex_orch_env 1 (?s\<lparr>orch_monitor := (m', CoNone), orch_mrs := mrs m'\<rparr>) = Inr (Some False, t)"
    by (rule linked_running [OF ex_linked, of 1 "?s\<lparr>orch_monitor := (m', CoNone), orch_mrs := mrs m'\<rparr>"])
      (use stopped in \<open>simp add: ex_orch_env_def\<close>)
  then show ?thesis
    using call by (simp add: orchestrator_cri_stop_def ex_deploying_fields ex_ports word_le_nat_alt slot_bit_def)
qed

end
