(* ===== verification/Cri_Properties.thy ===== *)
theory Cri_Properties
  imports Orch_Example
begin

unbundle bit_operations_syntax

text \<open>
  What the container runtime promises and where it breaks its promises: requests are independent of how
  they are cut into packets, every reachable state is in order, and there is one request whose behaviour is undefined.
\<close>

section \<open>Requests in pieces\<close>

text \<open>A data packet of the connected peer, with \<open>chunk\<close> as its payload.\<close>

definition carries :: "'m orch \<Rightarrow> u8 list \<Rightarrow> u8 list \<Rightarrow> bool" where
  "carries s chunk packet \<longleftrightarrow> (\<exists>h rest. packet = pack vsock_fields h @ chunk @ rest
     \<and> unat (vsock_len h) = length chunk \<and> dst_cid h = VSOCK_HOST_CID \<and> vsock_type h = VSOCK_TYPE_STREAM
     \<and> vsock_op h = VSOCK_OP_RW \<and> src_cid h = peer_cid s \<and> src_port h = peer_port s \<and> dst_port h = CRI_PORT)"

lemma packet_carries:
  assumes "carries s chunk packet" and "connected s"
  shows "process_packet E packet s = receive_payload E chunk s"
proof -
  obtain h rest where p: "packet = pack vsock_fields h @ chunk @ rest" and len: "unat (vsock_len h) = length chunk"
    and h: "dst_cid h = VSOCK_HOST_CID" "vsock_type h = VSOCK_TYPE_STREAM" "vsock_op h = VSOCK_OP_RW"
      "src_cid h = peer_cid s" "src_port h = peer_port s" "dst_port h = CRI_PORT"
    using assms(1) by (auto simp: carries_def)
  have "length (pack vsock_fields h) = SIZEOF_VSOCK_HDR"
    using vsock.length_pack [of h] by (simp add: vsock_sizes_def SIZEOF_VSOCK_HDR_def)
  then show ?thesis
    using assms(2) p len h
    by (simp add: process_packet_def vsock.unpack_pack VSOCK_OP_RW_def VSOCK_OP_REQUEST_def)
qed

text \<open>The state when the first \<open>n\<close> bytes of a message have arrived.\<close>

definition arrived :: "'m orch \<Rightarrow> u8 list \<Rightarrow> nat \<Rightarrow> 'm orch" where
  "arrived s bs n = s\<lparr>stream := take n bs @ drop n (stream s), stream_len := word_of_nat n,
     rx_fwd_cnt := rx_fwd_cnt s + word_of_nat n\<rparr>"

definition good_header :: "rpc_header \<Rightarrow> bool" where
  "good_header h \<longleftrightarrow> rpc_magic h = CRI_MAGIC \<and> rpc_version h = CRI_VERSION \<and> unat (rpc_length h) = SIZEOF_CRI_OBJECT"

lemma header_arrived:
  assumes "take n bs = take n (pack rpc_fields h @ rest)" and "SIZEOF_RPC_HEADER \<le> n"
  shows "unpack rpc_sizes rpc_of_fields (take n bs @ d) = h"
proof -
  have n: "sum_list rpc_sizes \<le> n" using assms(2) by (simp add: rpc_sizes_def SIZEOF_RPC_HEADER_def)
  have len: "length (pack rpc_fields h) = 20" using rpc.length_pack [of h] by (simp add: rpc_sizes_def)
  have "take n bs @ d = pack rpc_fields h @ take (n - 20) rest @ d"
    using assms len n by (simp add: rpc_sizes_def)
  then show ?thesis by (simp add: rpc.unpack_pack)
qed

lemma receive_arrived:
  assumes "length (stream s) = SIZEOF_STREAM" and "length bs = SIZEOF_STREAM"
    and "n + length c \<le> SIZEOF_STREAM" and "take (length c) (drop n bs) = c"
  shows "receive_payload E c (arrived s bs n) = process_stream E (arrived s bs (n + length c))"
proof -
  have n: "unat (word_of_nat n :: u32) = n" using assms(3) by (intro unat_word_of_nat_lt) (simp add: stream_sizes)
  have "take (n + length c) bs = take n bs @ c" using assms(4) by (simp add: take_add)
  moreover have "drop (n + length c) (take n bs @ drop n (stream s)) = drop (n + length c) (stream s)"
    using assms(2,3) by (simp add: add.commute)
  moreover have "length c \<le> SIZEOF_STREAM - n" using assms(3) by simp
  ultimately show ?thesis
    using assms(2,3) by (simp add: receive_payload_def arrived_def n add.assoc)
qed

lemma stream_waits:
  assumes "n < SIZEOF_STREAM" and "take n bs = take n (pack rpc_fields h @ rest)" and "good_header h"
  shows "process_stream E (arrived s bs n) = Inr (arrived s bs n)"
proof -
  have n: "unat (word_of_nat n :: u32) = n" using assms(1) by (intro unat_word_of_nat_lt) (simp add: stream_sizes)
  show ?thesis
  proof (cases "n < SIZEOF_RPC_HEADER")
    case True
    then show ?thesis by (simp add: process_stream_def arrived_def n)
  next
    case False
    then show ?thesis
      using assms header_arrived [OF assms(2)] by (simp add: process_stream_def arrived_def n good_header_def)
  qed
qed

lemma stream_complete:
  assumes "bs = pack rpc_fields h @ cri_pack request" and "good_header h" and "cri_valid request"
    and "length (stream s) = SIZEOF_STREAM"
  shows "process_stream E (arrived s bs SIZEOF_STREAM) = answer_request E h request (arrived s bs SIZEOF_STREAM)"
proof -
  have len: "length (pack rpc_fields h) = SIZEOF_RPC_HEADER" "length bs = SIZEOF_STREAM"
    using assms(1) rpc.length_pack [of h] cri.length_pack [OF assms(3)]
    by (simp_all add: rpc_sizes_def cri_sizes_def stream_sizes)
  have n: "unat (word_of_nat SIZEOF_STREAM :: u32) = SIZEOF_STREAM" by (simp add: stream_sizes)
  have st: "stream (arrived s bs SIZEOF_STREAM) = pack rpc_fields h @ cri_pack request"
    using len assms(1,4) by (simp add: arrived_def)
  have "cri_unpack (drop SIZEOF_RPC_HEADER (stream (arrived s bs SIZEOF_STREAM))) = request"
    using st len(1) by (simp add: cri.unpack_pack_all [OF assms(3)])
  moreover have "unpack rpc_sizes rpc_of_fields (stream (arrived s bs SIZEOF_STREAM)) = h"
    using st by (simp add: rpc.unpack_pack)
  moreover have "unat (stream_len (arrived s bs SIZEOF_STREAM)) = SIZEOF_STREAM" by (simp add: arrived_def n)
  ultimately show ?thesis
    using assms(2) by (simp add: process_stream_def good_header_def) (simp add: stream_sizes)
qed

lemma arrived_peer [simp]:
  "connected (arrived s bs n) = connected s" "carries (arrived s bs n) = carries s" "stream (arrived s bs n) = take n bs @ drop n (stream s)"
  by (simp_all add: arrived_def carries_def fun_eq_iff)

lemma chunks_arrive:
  assumes "bs = pack rpc_fields h @ cri_pack request" and "good_header h" and "cri_valid request"
    and "length (stream s) = SIZEOF_STREAM" and "connected s"
  shows "list_all2 (carries s) chunks packets \<Longrightarrow> concat chunks = drop n bs \<Longrightarrow> [] \<notin> set chunks \<Longrightarrow> n < SIZEOF_STREAM
    \<Longrightarrow> cri_runtime_notified E packets (arrived s bs n) = answer_request E h request (arrived s bs SIZEOF_STREAM)"
proof (induction chunks packets arbitrary: n rule: list_all2_induct)
  case Nil
  have "length bs = SIZEOF_STREAM"
    using assms(1) rpc.length_pack [of h] cri.length_pack [OF assms(3)]
    by (simp add: rpc_sizes_def cri_sizes_def stream_sizes)
  then show ?case using Nil by simp
next
  case (Cons c chunks p packets)
  have len: "length bs = SIZEOF_STREAM"
    using assms(1) rpc.length_pack [of h] cri.length_pack [OF assms(3)]
    by (simp add: rpc_sizes_def cri_sizes_def stream_sizes)
  have d: "drop n bs = c @ concat chunks" using Cons.prems(1) by simp
  then have "length (drop n bs) = length c + length (concat chunks)" by simp
  then have total: "n + length c + length (concat chunks) = SIZEOF_STREAM" using len Cons.prems(3) by simp
  have p: "process_packet E p (arrived s bs n) = process_stream E (arrived s bs (n + length c))"
    using packet_carries [of "arrived s bs n" c p E] Cons.hyps(1) assms(5) total d
      receive_arrived [OF assms(4) len, of n c E]
    by simp
  show ?case
  proof (cases "concat chunks = []")
    case True
    then have "chunks = []" using Cons.prems(2) by (cases chunks) auto
    then have "packets = []" using Cons.hyps(2) by simp
    moreover have "n + length c = SIZEOF_STREAM" using total True by simp
    moreover have "bindR r (cri_runtime_notified E []) = r" for r :: "'a orch res" by (cases r) simp_all
    ultimately show ?thesis using p stream_complete [OF assms(1-4), of E] by simp
  next
    case False
    then have "0 < length (concat chunks)" using length_greater_0_conv by blast
    then have lt: "n + length c < SIZEOF_STREAM" using total by linarith
    have "drop (n + length c) bs = drop (length c) (drop n bs)" by (simp add: add.commute)
    then have "concat chunks = drop (n + length c) bs" using d by simp
    then have "cri_runtime_notified E packets (arrived s bs (n + length c))
        = answer_request E h request (arrived s bs SIZEOF_STREAM)"
      using Cons.IH lt Cons.prems(2) by simp
    then show ?thesis
      using p stream_waits [OF lt _ assms(2), of bs "cri_pack request" E s] assms(1) by simp
  qed
qed

text \<open>C12: a request is answered in the same way whatever packets the peer cuts it into: the runtime goes on from
  the last packet exactly as it would with the whole request in its buffer.\<close>

theorem cri_request_reassembled:
  assumes "orch_inv E s" and "connected s" and "stream_len s = 0" and "cri_valid request" and "good_header h"
    and "list_all2 (carries s) chunks packets" and "[] \<notin> set chunks"
    and "concat chunks = pack rpc_fields h @ cri_pack request"
  shows "cri_runtime_notified E packets s = answer_request E h request
    (s\<lparr>stream := concat chunks, stream_len := 2556, rx_fwd_cnt := rx_fwd_cnt s + 2556\<rparr>)"
proof -
  have st: "length (stream s) = SIZEOF_STREAM" using assms(1) by (simp add: orch_inv_def orch_base_def)
  have len: "length (concat chunks) = SIZEOF_STREAM"
    using assms(4,8) rpc.length_pack [of h] cri.length_pack [OF assms(4)]
    by (simp add: rpc_sizes_def cri_sizes_def stream_sizes)
  have "arrived s (concat chunks) 0 = s" using assms(3) by (simp add: arrived_def)
  moreover have "arrived s (concat chunks) SIZEOF_STREAM
      = s\<lparr>stream := concat chunks, stream_len := 2556, rx_fwd_cnt := rx_fwd_cnt s + 2556\<rparr>"
    using st len by (simp add: arrived_def stream_sizes)
  ultimately show ?thesis
    using chunks_arrive [OF assms(8,5,4) st assms(2,6), of 0 E] assms(7) by (simp add: stream_sizes)
qed

text \<open>A request of the example, and the peer that sends it.\<close>

definition ex_rpc :: "u16 \<Rightarrow> rpc_header" where
  "ex_rpc op = \<lparr>rpc_magic = CRI_MAGIC, rpc_version = CRI_VERSION, rpc_op = op, request_id = 0, rpc_status = 0,
     rpc_length = 2536\<rparr>"

definition ex_connected :: "monitor_system orch" where
  "ex_connected = (orch_globals ex_fs_state (ex_reports 1, CoNone))\<lparr>connected := True, peer_cid := 5, peer_port := 6\<rparr>"

definition ex_packet :: "u8 list \<Rightarrow> u8 list" where
  "ex_packet chunk = pack vsock_fields \<lparr>src_cid = 5, dst_cid = VSOCK_HOST_CID, src_port = 6, dst_port = CRI_PORT,
     vsock_len = word_of_nat (length chunk), vsock_type = VSOCK_TYPE_STREAM, vsock_op = VSOCK_OP_RW, vsock_flags = 0,
     buf_alloc = 0, fwd_cnt = 0\<rparr> @ chunk"

lemma ex_carries:
  assumes "length chunk \<le> SIZEOF_STREAM"
  shows "carries ex_connected chunk (ex_packet chunk)"
proof -
  let ?h = "\<lparr>src_cid = 5, dst_cid = VSOCK_HOST_CID, src_port = 6, dst_port = CRI_PORT,
     vsock_len = word_of_nat (length chunk), vsock_type = VSOCK_TYPE_STREAM, vsock_op = VSOCK_OP_RW, vsock_flags = 0,
     buf_alloc = 0, fwd_cnt = 0\<rparr>"
  have "unat (word_of_nat (length chunk) :: u32) = length chunk"
    using assms by (intro unat_word_of_nat_lt) (simp add: stream_sizes)
  then show ?thesis
    unfolding carries_def
    by (intro exI [of _ ?h] exI [of _ "[]"]) (simp add: ex_packet_def ex_connected_def)
qed

theorem cri_request_reassembled_witness:
  "cri_runtime_notified ex_orch_env (map ex_packet [take 3 (pack rpc_fields (ex_rpc 1) @ cri_pack cri_zero),
      drop 3 (pack rpc_fields (ex_rpc 1) @ cri_pack cri_zero)]) ex_connected
    = answer_request ex_orch_env (ex_rpc 1) cri_zero
        (ex_connected\<lparr>stream := pack rpc_fields (ex_rpc 1) @ cri_pack cri_zero, stream_len := 2556,
           rx_fwd_cnt := rx_fwd_cnt ex_connected + 2556\<rparr>)"
proof -
  let ?bs = "pack rpc_fields (ex_rpc 1) @ cri_pack cri_zero"
  let ?chunks = "[take 3 ?bs, drop 3 ?bs]"
  have len: "length ?bs = SIZEOF_STREAM"
    using rpc.length_pack [of "ex_rpc 1"] cri.length_pack [OF cri_valid_zero] by (simp add: rpc_sizes_def cri_sizes_def stream_sizes)
  then have ne: "[] \<notin> set ?chunks" by (auto simp: stream_sizes)
  have inv: "orch_inv ex_orch_env ex_connected" by (simp add: ex_connected_def)
  have c: "connected ex_connected" "stream_len ex_connected = 0" by (simp_all add: ex_connected_def)
  have h: "good_header (ex_rpc 1)" by (simp add: good_header_def ex_rpc_def SIZEOF_CRI_OBJECT_def)
  have "list_all2 (carries ex_connected) ?chunks (map ex_packet ?chunks)"
    using ex_carries len by simp
  moreover have "concat ?chunks = ?bs" by (simp only: concat.simps append_Nil2 append_take_drop_id)
  ultimately show ?thesis
    using cri_request_reassembled [OF inv c cri_valid_zero h _ ne, of "map ex_packet ?chunks"] by simp
qed

section \<open>Reachable states\<close>

text \<open>C13: in every state that the orchestrator reaches, by notifications, coroutines and the monitor in any
  order, the objects of the runtime have arrays of their declared sizes and those in use are terminated
  strings, the buffers have their sizes, the stream holds at most one request, a deployment for a
  container is one in progress for a protocon of the system, only slots of the system are in use, every packet that was
  sent is a well-formed frame, and the line and the history of the editor stay inside their arrays, with the cursor on the
  line, and the last target and its peers are different protocons of the system.\<close>

theorem orch_reachable_states:
  assumes "orch_reaches E (orch_globals F m) s"
  shows "orch_inv E s"
  using assms by (rule reachable_inv)

theorem orch_reachable_states_witness:
  "orch_inv ex_orch_env ((orch_globals ex_fs_state (ex_reports 1, CoNone))\<lparr>orch_monitor := (ex_reports 2, CoNone)\<rparr>)"
  by (rule orch_reachable_states [OF orch_reaches.more [OF orch_reaches.here orch_step.monitor_alone]])

section \<open>Undefined behaviour\<close>

lemma cri_start_defined:
  assumes "terminated img" and "length img = 256"
  shows "\<exists>r. orchestrator_cri_start E img s = Inr r"
proof -
  obtain b where b: "known_image img = Inr b" using known_image_valid [OF assms(2)] by simp
  then have "\<exists>r. image_to_filename img f = Inr r" for f by (simp add: image_to_filename_def)
  then obtain f where f: "image_to_filename img (fname_buf s) = Inr f" by blast
  show ?thesis
    using b f
    by (auto simp: orchestrator_cri_start_def orchestrator_cri_image_exists_def Let_def split_beta split: option.split)
qed

lemma start_after_defined:
  assumes "tables_wf s" and "i < CRI_MAX_OBJECTS" and "present (containers s ! i) \<noteq> 0"
  shows "\<exists>t. start_after E i s = Inr t"
proof -
  have "i < length (containers s)" using assms(1,2) by (simp add: tables_wf_def table_of_def)
  then have "container_ok (containers s ! i)" using table_nth tables_wfD(2) [OF assms(1)] by blast
  then have "terminated (cri_image (containers s ! i))" "length (cri_image (containers s ! i)) = 256"
    using assms(3) by (simp_all add: container_ok_def object_ok_def cri_valid_iff)
  from cri_start_defined [OF this, of E "s\<lparr>start_after_reply := None\<rparr>"]
  obtain r where "orchestrator_cri_start E (cri_image (containers s ! i)) (s\<lparr>start_after_reply := None\<rparr>) = Inr r" by blast
  then show ?thesis by (cases r) (auto simp: start_after_def Let_def split: option.split)
qed

text \<open>The container that a start request remembers is in use.\<close>

lemma started_present:
  assumes "tables_wf s" and "cri_valid request" and "start_container request s = Inr ((CRI_OK, response), t)"
  shows "\<exists>i < CRI_MAX_OBJECTS. start_after_reply t = Some i \<and> present (containers t ! i) \<noteq> 0"
proof -
  have len: "length (containers s) = CRI_MAX_OBJECTS" using assms(1) by (simp add: tables_wf_def table_of_def)
  show ?thesis
    by (rule with_found_cases [OF tables_wfD(4) [OF assms(1)] assms(2), of "Inr ((CRI_NOT_FOUND, cri_zero), s)"
        "\<lambda>i. let obj = (containers s ! i)\<lparr>cri_state := 1, started_at := timestamp s + 1,
                       reason := copy_literal (reason (containers s ! i)) ''CarrelsStarting''\<rparr>
          in Inr ((CRI_OK, cri_zero), s\<lparr>containers := (containers s)[i := obj], timestamp := timestamp s + 1,
                                        start_after_reply := Some i\<rparr>)"])
      (use assms(3) len in \<open>auto simp: start_container_def Let_def\<close>)
qed

text \<open>C19: whatever the peer asks for in a reachable state, the runtime's behaviour is defined, provided the
  monitor's is, with one exception: a request to create a container whose image name is not terminated, while a
  container can be allocated, makes \<open>set_image_ref\<close> read past the array.\<close>

theorem cri_answer_ub:
  assumes "orch_reaches E (orch_globals F m) s" and "no_ub E" and "cri_valid request"
  shows "answer_request E header request s = Inl UB \<longleftrightarrow>
    map_of cri_ops (rpc_op header) = Some CRI_CREATE_CONTAINER \<and> \<not> terminated (cri_image request)
    \<and> (\<exists>obj \<in> set (containers s). present obj = 0)"
proof -
  have inv: "orch_inv E s" using reachable_inv [OF assms(1)] .
  then have wf: "tables_wf s" by (simp add: orch_inv_def orch_base_def)
  have ub: "cri_dispatch E (rpc_op header) request s = Inl UB \<longleftrightarrow>
      map_of cri_ops (rpc_op header) = Some CRI_CREATE_CONTAINER \<and> \<not> terminated (cri_image request)
      \<and> (\<exists>obj \<in> set (containers s). present obj = 0)"
    using conjunct2 [OF dispatch_done [OF wf assms(3), of E "rpc_op header"]] assms(2) by blast
  show ?thesis
  proof (cases "cri_dispatch E (rpc_op header) request s")
    case (Inl e)
    then show ?thesis using ub by (simp add: answer_request_def)
  next
    case (Inr r)
    obtain result response t where d: "cri_dispatch E (rpc_op header) request s = Inr ((result, response), t)"
      using Inr by (metis prod.collapse)
    have "answer_request E header request s \<noteq> Inl UB"
    proof (cases "map_of cri_ops (rpc_op header) = Some CRI_START_CONTAINER \<and> result = CRI_OK")
      case True
      define u where "u = (snd (send_packet E VSOCK_OP_RW
          (pack rpc_fields (header\<lparr>rpc_status := cri_result_code result, rpc_length := word_of_nat SIZEOF_CRI_OBJECT\<rparr>)
            @ cri_pack response) t))\<lparr>stream_len := 0\<rparr>"
      have "start_container request s = Inr ((CRI_OK, response), t)" using d True by (simp add: cri_dispatch_def)
      from started_present [OF wf assms(3) this]
      obtain i where i: "i < CRI_MAX_OBJECTS" "start_after_reply u = Some i" "present (containers u ! i) \<noteq> 0"
        by (auto simp: u_def)
      have "tables_wf t" using base_tables done_or_started [OF inv assms(3) d] by blast
      moreover obtain ps n where "snd (send_packet E VSOCK_OP_RW
          (pack rpc_fields (header\<lparr>rpc_status := cri_result_code result, rpc_length := word_of_nat SIZEOF_CRI_OBJECT\<rparr>)
            @ cri_pack response) t) = t\<lparr>sent := ps, tx_count := n\<rparr>"
        using send_packet_state by blast
      ultimately have "tables_wf u" by (simp add: u_def)
      from start_after_defined [OF this i(1,3), of E] show ?thesis
        using d True i(2) by (auto simp: answer_request_def u_def Let_def split_beta)
    next
      case False
      then show ?thesis using d by (auto simp: answer_request_def Let_def split_beta)
    qed
    then show ?thesis using Inr ub by simp
  qed
qed

theorem cri_answer_ub_witness:
  "answer_request (ex_orch_env\<lparr>ppcall := \<lambda>_ m _. Inr (MON_NO_ERROR, \<lambda>_. 0, m)\<rparr>) (ex_rpc 20) (cri_zero\<lparr>cri_image := replicate 256 1\<rparr>)
     (orch_globals ex_fs_state (ex_reports 1, CoNone)) = Inl UB"
proof -
  let ?E = "ex_orch_env\<lparr>ppcall := \<lambda>_ m _. Inr (MON_NO_ERROR, \<lambda>_. 0, m)\<rparr>"
  let ?s = "orch_globals ex_fs_state (ex_reports 1, CoNone)"
  let ?r = "cri_zero\<lparr>cri_image := replicate 256 1\<rparr>"
  have ub: "no_ub ?E" by (simp add: no_ub_def)
  have v: "cri_valid ?r" using cri_valid_zero by (simp add: cri_valid_iff)
  have "map_of cri_ops (rpc_op (ex_rpc 20)) = Some CRI_CREATE_CONTAINER" by (simp add: ex_rpc_def cri_ops_def)
  moreover have "\<not> terminated (cri_image ?r)" by (simp add: terminated_def)
  moreover have "\<exists>obj \<in> set (containers ?s). present obj = 0" by (simp add: CRI_MAX_OBJECTS_def)
  ultimately show ?thesis using cri_answer_ub [OF orch_reaches.here ub v, where header = "ex_rpc 20"] by blast
qed

end
