(* ===== verification/Cri_Names.thy ===== *)
theory Cri_Names
  imports Orch_Invariant
begin

text \<open>
  The identifiers of sandboxes and containers (\<open>src/orchestrator/cri_runtime.c\<close>): that no request
  makes two objects in use share one.
\<close>

section \<open>Tables with different identifiers\<close>

text \<open>The objects in use have different identifiers, each made from a number that was given out.\<close>

definition names_ok :: "(u64 \<Rightarrow> u8 list) \<Rightarrow> u64 \<Rightarrow> cri_object list \<Rightarrow> bool" where
  "names_ok name n table \<longleftrightarrow>
     (\<forall>i < length table. present (table ! i) \<noteq> 0 \<longrightarrow> (\<exists>k \<le> n. c_string (cri_id (table ! i)) = name k))
   \<and> (\<forall>i < length table. \<forall>j < length table. present (table ! i) \<noteq> 0 \<longrightarrow> present (table ! j) \<noteq> 0
        \<longrightarrow> c_string (cri_id (table ! i)) = c_string (cri_id (table ! j)) \<longrightarrow> i = j)"

definition ids_ok :: "'m orch \<Rightarrow> bool" where
  "ids_ok s \<longleftrightarrow> names_ok sandbox_name (next_id s) (sandboxes s) \<and> names_ok container_name (next_id s) (containers s)"

lemma name_bytes:
  "0 \<notin> set (sandbox_name n)" "0 \<notin> set (container_name n)"
  "length (sandbox_name n) < 64" "length (container_name n) < 64"
  "sandbox_name n = sandbox_name m \<longleftrightarrow> n = m" "container_name n = container_name m \<longleftrightarrow> n = m"
  using length_hex8 [of n] hex8_nonzero [of n]
  by (simp_all add: sandbox_name_def container_name_def c_bytes_def hex8_inj)

lemma names_keep:
  assumes "names_ok name n table"
    and "present obj \<noteq> 0 \<Longrightarrow> present (table ! i) \<noteq> 0 \<and> cri_id obj = cri_id (table ! i)"
  shows "names_ok name n (table[i := obj])"
proof -
  have "present (table[i := obj] ! j) \<noteq> 0 \<Longrightarrow> j < length table \<Longrightarrow>
      present (table ! j) \<noteq> 0 \<and> cri_id (table[i := obj] ! j) = cri_id (table ! j)" for j
    using assms(2) by (cases "i = j") simp_all
  then show ?thesis using assms(1) unfolding names_ok_def by (simp add: length_list_update)
qed

lemma below_next: "k \<le> n \<Longrightarrow> n \<noteq> - 1 \<Longrightarrow> k < n + 1" for n :: u64
  using unatSuc [of n] by (simp add: word_less_nat_alt word_le_nat_alt add.commute eq_neg_iff_add_eq_0)

lemma names_new:
  assumes "names_ok name n table" and "n \<noteq> - 1" and "\<And>a b. name a = name b \<longleftrightarrow> a = b"
    and "present (table ! i) = 0" and "c_string (cri_id obj) = name (n + 1)"
  shows "names_ok name (n + 1) (table[i := obj])"
proof -
  have old: "present (table ! j) \<noteq> 0 \<Longrightarrow> j < length table \<Longrightarrow> \<exists>k < n + 1. c_string (cri_id (table ! j)) = name k" for j
    using assms(1,2) below_next unfolding names_ok_def by blast
  show ?thesis
    unfolding names_ok_def
  proof (intro conjI allI impI)
    fix j
    assume "j < length (table[i := obj])" and "present (table[i := obj] ! j) \<noteq> 0"
    then show "\<exists>k \<le> n + 1. c_string (cri_id (table[i := obj] ! j)) = name k"
      using old [of j] assms(5) by (cases "i = j") (auto intro: less_imp_le)
  next
    fix a b
    assume "a < length (table[i := obj])" "b < length (table[i := obj])"
      and "present (table[i := obj] ! a) \<noteq> 0" "present (table[i := obj] ! b) \<noteq> 0"
      and "c_string (cri_id (table[i := obj] ! a)) = c_string (cri_id (table[i := obj] ! b))"
    then show "a = b"
      using assms(1,3,5) old [of a] old [of b]
      by (cases "a = i"; cases "b = i") (auto simp: names_ok_def)
  qed
qed

lemma names_more: "names_ok name n table \<Longrightarrow> n \<noteq> - 1 \<Longrightarrow> names_ok name (n + 1) table"
  using below_next [of _ n] unfolding names_ok_def by (meson less_imp_le)

text \<open>A request that creates nothing gives out no number, and the objects it leaves had their identifiers before.\<close>

definition same_names :: "cri_object list \<Rightarrow> cri_object list \<Rightarrow> bool" where
  "same_names table table' \<longleftrightarrow> table' = table \<or> (\<exists>i < length table. \<exists>obj. table' = table[i := obj]
     \<and> (present obj \<noteq> 0 \<longrightarrow> present (table ! i) \<noteq> 0 \<and> cri_id obj = cri_id (table ! i)))"

definition keeps_names :: "'m orch \<Rightarrow> 'm orch \<Rightarrow> bool" where
  "keeps_names s s' \<longleftrightarrow> next_id s' = next_id s \<and> same_names (sandboxes s) (sandboxes s')
     \<and> same_names (containers s) (containers s')"

lemma same_names_refl [simp]: "same_names table table"
  by (simp add: same_names_def)

lemma same_names_update:
  "i < length table \<Longrightarrow> (present obj \<noteq> 0 \<longrightarrow> present (table ! i) \<noteq> 0 \<and> cri_id obj = cri_id (table ! i))
     \<Longrightarrow> same_names table (table[i := obj])"
  unfolding same_names_def by blast

lemma keeps_names_ids: "keeps_names s s' \<Longrightarrow> ids_ok s \<Longrightarrow> ids_ok s'"
  by (auto simp: keeps_names_def ids_ok_def same_names_def intro: names_keep)

lemma keeps_names_refl [simp]: "keeps_names s s"
  by (simp add: keeps_names_def)

lemma found_keeps:
  assumes "table_of object_ok table" and "cri_valid request"
    and "\<And>i r t. i < length table \<Longrightarrow> present (table ! i) \<noteq> 0 \<Longrightarrow> f i = Inr (r, t) \<Longrightarrow> keeps_names s t"
    and "with_found table (cri_id request) (Inr (m, s)) f = Inr (reply, s')"
  shows "keeps_names s s'"
proof (rule with_found_cases [OF assms(1,2), of "Inr (m, s)" f])
  assume "with_found table (cri_id request) (Inr (m, s)) f = Inr (m, s)"
  then show ?thesis using assms(4) by simp
next
  fix i
  assume "i < length table" "present (table ! i) \<noteq> 0" "with_found table (cri_id request) (Inr (m, s)) f = f i"
  then show ?thesis using assms(3) [of i reply s'] assms(4) by simp
qed

lemma stop_first:
  assumes "(if cri_state obj = 1 then orchestrator_cri_stop E p s else Inr (True, s)) = Inr (stopped, u)"
  shows "containers u = containers s \<and> sandboxes u = sandboxes s \<and> next_id u = next_id s"
proof (cases "cri_state obj = 1")
  case True
  then have "orchestrator_cri_stop E p s = Inr (stopped, u)" using assms by simp
  then obtain t where t: "called s t"
    and u: "u = (if stopped then t\<lparr>cri_slots_in_use := cri_slots_in_use t AND NOT (slot_bit p)\<rparr> else t)"
    using cri_stop_result [of E p s stopped u] by blast
  show ?thesis using called_fields [OF t] u by (cases stopped) simp_all
qed (use assms in simp)

lemma stop_found_keeps:
  assumes "i < length (containers s)" and "present (containers s ! i) \<noteq> 0" and "stop_found E i s = Inr (reply, s')"
  shows "keeps_names s s'"
  using assms(3) unfolding stop_found_def
proof (rule bindR_pairE)
  fix stopped u
  assume u: "(if cri_state (containers s ! i) = 1 then orchestrator_cri_stop E (network_ns (containers s ! i)) s
      else Inr (True, s)) = Inr (stopped, u)"
    and rest: "(if \<not> stopped then Inr ((CRI_INVALID, cri_zero), u)
     else
       let obj = (containers u ! i)\<lparr>cri_state := 2, finished_at := timestamp u + 1,
                    reason := copy_literal (reason (containers u ! i)) ''CarrelsStopped''\<rparr>
       in Inr ((CRI_OK, cri_zero), u\<lparr>containers := (containers u)[i := obj], timestamp := timestamp u + 1\<rparr>)) = Inr (reply, s')"
  show ?thesis
    using stop_first [OF u] rest assms(1,2)
    by (cases stopped) (auto simp: keeps_names_def Let_def intro!: same_names_update)
qed

lemma list_eq_update: "i < length table \<Longrightarrow> same_names table (table[i := (table ! i)\<lparr>cri_state := w\<rparr>])"
  by (rule same_names_update) simp_all

lemma cleared_names: "i < length table \<Longrightarrow> same_names table (table[i := cri_zero])"
  by (rule same_names_update) simp_all

lemma set_image_ref_keeps:
  "set_image_ref obj = Inr obj' \<Longrightarrow> present obj' = present obj \<and> cri_id obj' = cri_id obj \<and> cri_image obj' = cri_image obj"
  by (auto simp: set_image_ref_def split: if_splits elim!: bindR_InrE)

text \<open>What the creating requests add: an object with the next number.\<close>

lemma run_sandbox_new:
  assumes "cri_valid request" and "run_sandbox request s = ((result, response), s')"
  shows "(result = CRI_FULL \<and> s' = s) \<or> (result = CRI_OK \<and> (\<exists>i < length (sandboxes s). present (sandboxes s ! i) = 0
     \<and> c_string (cri_id response) = sandbox_name (next_id s + 1) \<and> present response = 1
     \<and> s' = s\<lparr>sandboxes := (sandboxes s)[i := response], next_id := next_id s + 1, timestamp := timestamp s + 1\<rparr>))"
proof (cases "allocate (sandboxes s)")
  case (Some it)
  then obtain i table where it: "allocate (sandboxes s) = Some (i, table)" by (cases it) simp
  have "c_string (store_string (cri_id request) (sandbox_name (next_id s + 1))) = sandbox_name (next_id s + 1)"
    using assms(1) name_bytes by (intro c_string_store) (simp_all add: cri_valid_iff)
  then show ?thesis
    using assms(2) it allocate_SomeD [OF it] by (auto simp: run_sandbox_def Let_def)
qed (use assms(2) in \<open>simp add: run_sandbox_def\<close>)

lemma create_container_new:
  assumes "cri_valid request" and "create_container request s = Inr ((result, response), s')"
  shows "(result = CRI_FULL \<and> s' = s) \<or> (result = CRI_OK \<and> (\<exists>i < length (containers s). present (containers s ! i) = 0
     \<and> c_string (cri_id response) = container_name (next_id s + 1) \<and> present response = 1
     \<and> s' = s\<lparr>containers := (containers s)[i := response], next_id := next_id s + 1, timestamp := timestamp s + 1\<rparr>))"
proof (cases "allocate (containers s)")
  case (Some it)
  then obtain i table where it: "allocate (containers s) = Some (i, table)" by (cases it) simp
  have name: "c_string (store_string (cri_id request) (container_name (next_id s + 1))) = container_name (next_id s + 1)"
    using assms(1) name_bytes by (intro c_string_store) (simp_all add: cri_valid_iff)
  obtain obj where "set_image_ref (request\<lparr>present := 1,
      cri_id := store_string (cri_id request) (container_name (next_id s + 1)), created_at := timestamp s + 1\<rparr>) = Inr obj"
    and "result = CRI_OK" "response = obj\<lparr>reason := copy_literal (reason obj) ''CarrelsCreated''\<rparr>"
    "s' = s\<lparr>containers := table[i := response], next_id := next_id s + 1, timestamp := timestamp s + 1\<rparr>"
    using assms(2) it by (auto simp: create_container_def Let_def elim!: bindR_InrE)
  then show ?thesis
    using set_image_ref_keeps name allocate_SomeD [OF it] by fastforce
qed (use assms(2) in \<open>simp add: create_container_def\<close>)

text \<open>Every other request keeps the names.\<close>

lemma found_same:
  assumes "tables_wf s" and "cri_valid request"
  shows "stop_sandbox request s = Inr (reply, s') \<Longrightarrow> keeps_names s s'"
    and "remove_sandbox request s = Inr (reply, s') \<Longrightarrow> keeps_names s s'"
    and "start_container request s = Inr (reply, s') \<Longrightarrow> keeps_names s s'"
    and "remove_container request s = Inr (reply, s') \<Longrightarrow> keeps_names s s'"
    and "stop_container E request s = Inr (reply, s') \<Longrightarrow> keeps_names s s'"
    and "reopen_log request s = Inr (reply, s') \<Longrightarrow> keeps_names s s'"
    and "remove_image request s = Inr (reply, s') \<Longrightarrow> keeps_names s s'"
  unfolding stop_sandbox_def remove_sandbox_def start_container_def remove_container_def stop_container_def reopen_log_def
    remove_image_def Let_def
  by (erule found_keeps [OF tables_wfD(1) [OF assms(1)] assms(2), rotated]
      found_keeps [OF tables_wfD(4) [OF assms(1)] assms(2), rotated]
      found_keeps [OF tables_wfD(5) [OF assms(1)] assms(2), rotated];
    auto simp: keeps_names_def list_eq_update cleared_names intro!: same_names_update
      dest: stop_found_keeps)+

lemma pure_keeps:
  "object_status table request s = Inr (reply, s') \<Longrightarrow> keeps_names s s'"
  "image_status request s = Inr (reply, s') \<Longrightarrow> keeps_names s s'"
  by (auto simp: object_status_def image_status_def with_found_def elim!: bindR_InrE split: option.splits)

lemma pull_keeps: "pull_image request s = Inr (reply, s') \<Longrightarrow> keeps_names s s'"
  by (auto simp: pull_image_def Let_def keeps_names_def elim!: bindR_InrE split: if_splits option.splits)

definition creates :: "u16 \<Rightarrow> bool" where
  "creates op \<longleftrightarrow> map_of cri_ops op \<in> {Some CRI_RUN_SANDBOX, Some CRI_CREATE_CONTAINER}"

lemma dispatch_keeps:
  assumes "tables_wf s" and "cri_valid request" and "\<not> creates op" and "cri_dispatch E op request s = Inr (reply, s')"
  shows "keeps_names s s'"
proof (cases "map_of cri_ops op")
  case None
  then show ?thesis using assms(4) by (simp add: cri_dispatch_def)
next
  case (Some what)
  show ?thesis
    using Some assms(3,4) found_same [OF assms(1,2), where reply = reply and s' = s']
      pure_keeps [where reply = reply and s' = s' and request = request] pull_keeps [of request s reply s']
    by (cases what) (auto simp: creates_def cri_dispatch_def)
qed

lemma short_terminated: "length (c_string a) < length a \<Longrightarrow> terminated a"
  by (induction a) (auto split: if_splits)

lemma finds_created:
  assumes "table_of object_ok table" and "names_ok name n table" and "i < length table" and "table ! i = obj"
    and "present obj = 1" and "cri_valid obj" and "length (c_string (cri_id obj)) < 64"
  shows "cri_find table (cri_id obj) = Inr (Some i)"
proof -
  have t: "terminated (cri_id obj)" using assms(6,7) by (intro short_terminated) (simp add: cri_valid_iff)
  let ?P = "\<lambda>x. present x \<noteq> 0 \<and> terminated (cri_id obj) \<and> c_string (cri_id x) = c_string (cri_id obj)"
  have "?P (table ! i)" using t assms(4,5) by simp
  then have "first_index ?P table \<noteq> None" using nth_mem [OF assms(3)] unfolding first_index_None_iff by blast
  then obtain k where k: "first_index ?P table = Some k" by blast
  have "k < length table" "?P (table ! k)" using first_index_SomeD [OF k] by simp_all
  then have "k = i" using assms(2,3,4,5) unfolding names_ok_def by simp
  then show ?thesis using cri_find_first [OF assms(1,6)] k by simp
qed

lemma created_unique:
  assumes "tables_wf s" and "ids_ok s" and "next_id s \<noteq> - 1" and "tables_wf s'" and "cri_valid response" and "present response = 1"
  shows "i < length (sandboxes s) \<Longrightarrow> present (sandboxes s ! i) = 0 \<Longrightarrow> c_string (cri_id response) = sandbox_name (next_id s + 1)
     \<Longrightarrow> s' = s\<lparr>sandboxes := (sandboxes s)[i := response], next_id := next_id s + 1, timestamp := v\<rparr>
     \<Longrightarrow> ids_ok s' \<and> (\<exists>k. cri_find (sandboxes s') (cri_id response) = Inr (Some k) \<and> sandboxes s' ! k = response)"
    and "i < length (containers s) \<Longrightarrow> present (containers s ! i) = 0 \<Longrightarrow> c_string (cri_id response) = container_name (next_id s + 1)
     \<Longrightarrow> s' = s\<lparr>containers := (containers s)[i := response], next_id := next_id s + 1, timestamp := v\<rparr>
     \<Longrightarrow> ids_ok s' \<and> (\<exists>k. cri_find (containers s') (cri_id response) = Inr (Some k) \<and> containers s' ! k = response)"
proof -
  assume i: "i < length (sandboxes s)" "present (sandboxes s ! i) = 0"
    and n: "c_string (cri_id response) = sandbox_name (next_id s + 1)"
    and s': "s' = s\<lparr>sandboxes := (sandboxes s)[i := response], next_id := next_id s + 1, timestamp := v\<rparr>"
  have "names_ok sandbox_name (next_id s + 1) (sandboxes s')"
    using assms(2,3) i n names_new [of sandbox_name "next_id s" "sandboxes s" i response] name_bytes
    by (simp add: s' ids_ok_def)
  moreover from this have "cri_find (sandboxes s') (cri_id response) = Inr (Some i)"
    using finds_created [OF tables_wfD(1) [OF assms(4)]] i n assms(5,6) name_bytes by (simp add: s')
  ultimately show "ids_ok s' \<and> (\<exists>k. cri_find (sandboxes s') (cri_id response) = Inr (Some k) \<and> sandboxes s' ! k = response)"
    using assms(2,3) i names_more by (auto simp: s' ids_ok_def)
next
  assume i: "i < length (containers s)" "present (containers s ! i) = 0"
    and n: "c_string (cri_id response) = container_name (next_id s + 1)"
    and s': "s' = s\<lparr>containers := (containers s)[i := response], next_id := next_id s + 1, timestamp := v\<rparr>"
  have "names_ok container_name (next_id s + 1) (containers s')"
    using assms(2,3) i n names_new [of container_name "next_id s" "containers s" i response] name_bytes
    by (simp add: s' ids_ok_def)
  moreover from this have "cri_find (containers s') (cri_id response) = Inr (Some i)"
    using finds_created [OF tables_wfD(4) [OF assms(4)]] i n assms(5,6) name_bytes by (simp add: s')
  ultimately show "ids_ok s' \<and> (\<exists>k. cri_find (containers s') (cri_id response) = Inr (Some k) \<and> containers s' ! k = response)"
    using assms(2,3) i names_more by (auto simp: s' ids_ok_def)
qed



end
