(* ===== verification/Cri_Slots.thy ===== *)
theory Cri_Slots
  imports Orch_Deploy
begin

unbundle bit_operations_syntax

text \<open>
  The slots of the container runtime that are lost: in use, but claimed by no container, so that no request
  gives them back.
\<close>

section \<open>Lost slots\<close>

definition claims :: "u32 \<Rightarrow> cri_object \<Rightarrow> bool" where
  "claims p obj \<longleftrightarrow> present obj \<noteq> 0 \<and> cri_state obj = 1 \<and> network_ns obj = p"

text \<open>A slot in use that no container claims and no deployment for a container is for.\<close>

definition leaked :: "u32 \<Rightarrow> 'm orch \<Rightarrow> bool" where
  "leaked p s \<longleftrightarrow> bit (cri_slots_in_use s) (unat p) \<and> (\<forall>obj \<in> set (containers s). \<not> claims p obj)
     \<and> (deploy_from_cri s \<longrightarrow> deploy_pc_id s \<noteq> p)"

lemma leaked_called: "called s t \<Longrightarrow> leaked p t = leaked p s"
  by (auto simp: called_def leaked_def)

lemma leaked_updates [simp]:
  "leaked p (s\<lparr>sandboxes := a\<rparr>) = leaked p s" "leaked p (s\<lparr>cri_images := a\<rparr>) = leaked p s"
  "leaked p (s\<lparr>next_id := n\<rparr>) = leaked p s" "leaked p (s\<lparr>timestamp := n\<rparr>) = leaked p s"
  "leaked p (s\<lparr>start_after_reply := r\<rparr>) = leaked p s" "leaked p (s\<lparr>sent := ps\<rparr>) = leaked p s"
  "leaked p (s\<lparr>tx_count := k\<rparr>) = leaked p s" "leaked p (s\<lparr>stream_len := k\<rparr>) = leaked p s"
  "leaked p (s\<lparr>fname_buf := f\<rparr>) = leaked p s" "leaked p (s\<lparr>loaders := l\<rparr>) = leaked p s"
  by (simp_all add: leaked_def)

lemma leaked_containers:
  assumes "leaked p s" and "\<not> claims p obj"
  shows "leaked p (s\<lparr>containers := (containers s)[i := obj]\<rparr>)"
  using assms set_update_subset_insert [of "containers s" i obj] by (auto simp: leaked_def)

lemma leaked_stop:
  assumes "leaked p s" and "q \<noteq> p" and "orchestrator_cri_stop E q s = Inr (b, u)"
  shows "leaked p u"
proof -
  obtain t where t: "called s t" "u = (if b then t\<lparr>cri_slots_in_use := cri_slots_in_use t AND NOT (slot_bit q)\<rparr> else t)"
    using cri_stop_result [OF assms(3)] by blast
  have "leaked p t" using leaked_called [OF t(1)] assms(1) by simp
  then show ?thesis
    using t(2) assms(2) by (cases b) (auto simp: leaked_def bit_and_iff bit_not_iff slot_bit_iff word_unat_eq_iff
      dest: bit_imp_le_length)
qed

lemma claims_updates [simp]:
  "claims p cri_zero = False" "claims p (obj\<lparr>cri_state := 2\<rparr>) = False" "claims p (obj\<lparr>finished_at := v\<rparr>) = claims p obj"
  "claims p (obj\<lparr>started_at := v\<rparr>) = claims p obj" "claims p (obj\<lparr>exit_code := w\<rparr>) = claims p obj"
  "claims p (obj\<lparr>reason := x\<rparr>) = claims p obj"
  by (simp_all add: claims_def)

lemma leaked_stop_found:
  assumes "leaked p s" and "i < length (containers s)" and "present (containers s ! i) \<noteq> 0"
    and "stop_found E i s = Inr (reply, s')"
  shows "leaked p s'"
  using assms(4) unfolding stop_found_def
proof (rule bindR_pairE)
  fix stopped u
  assume u: "(if cri_state (containers s ! i) = 1 then orchestrator_cri_stop E (network_ns (containers s ! i)) s
      else Inr (True, s)) = Inr (stopped, u)"
    and rest: "(if \<not> stopped then Inr ((CRI_INVALID, cri_zero), u)
     else
       let obj = (containers u ! i)\<lparr>cri_state := 2, finished_at := timestamp u + 1,
                    reason := copy_literal (reason (containers u ! i)) ''CarrelsStopped''\<rparr>
       in Inr ((CRI_OK, cri_zero), u\<lparr>containers := (containers u)[i := obj], timestamp := timestamp u + 1\<rparr>)) = Inr (reply, s')"
  have "leaked p u"
  proof (cases "cri_state (containers s ! i) = 1")
    case True
    have "\<not> claims p (containers s ! i)" using assms(1) nth_mem [OF assms(2)] by (simp add: leaked_def)
    then have "network_ns (containers s ! i) \<noteq> p" using True assms(3) by (simp add: claims_def)
    then show ?thesis using u True leaked_stop [OF assms(1)] by simp
  qed (use u assms(1) in simp)
  moreover have "\<not> claims p ((containers u ! i)\<lparr>cri_state := 2, finished_at := timestamp u + 1,
      reason := copy_literal (reason (containers u ! i)) ''CarrelsStopped''\<rparr>)" by (simp add: claims_def)
  ultimately show ?thesis
    using rest leaked_containers [of p u] by (cases stopped) (auto simp: Let_def)
qed

lemma create_container_state:
  assumes "create_container request s = Inr ((result, response), s')" and "leaked p s"
    and "\<not> (cri_state request = 1 \<and> network_ns request = p)"
  shows "leaked p s'"
proof (cases "allocate (containers s)")
  case (Some it)
  then obtain i table where it: "allocate (containers s) = Some (i, table)" by (cases it) simp
  let ?obj = "request\<lparr>present := 1, cri_id := store_string (cri_id request) (container_name (next_id s + 1)),
    created_at := timestamp s + 1\<rparr>"
  obtain obj where obj: "set_image_ref ?obj = Inr obj"
    and s': "s' = s\<lparr>containers := table[i := obj\<lparr>reason := copy_literal (reason obj) ''CarrelsCreated''\<rparr>],
      next_id := next_id s + 1, timestamp := timestamp s + 1\<rparr>"
    using assms(1) it by (auto simp: create_container_def Let_def elim!: bindR_InrE)
  have "cri_state obj = cri_state request \<and> network_ns obj = network_ns request"
    using obj by (auto simp: set_image_ref_def split: if_splits elim!: bindR_InrE)
  then have "\<not> claims p (obj\<lparr>reason := copy_literal (reason obj) ''CarrelsCreated''\<rparr>)" using assms(3) by (simp add: claims_def)
  then show ?thesis
    using leaked_containers [OF assms(2)] by (simp add: s' allocate_SomeD(3) [OF it])
qed (use assms in \<open>auto simp: create_container_def\<close>)

text \<open>A start request leaves the container it names in state 1 for a moment.\<close>

definition leaked_but :: "nat \<Rightarrow> u32 \<Rightarrow> 'm orch \<Rightarrow> bool" where
  "leaked_but i p s \<longleftrightarrow> bit (cri_slots_in_use s) (unat p) \<and> (deploy_from_cri s \<longrightarrow> deploy_pc_id s \<noteq> p)
     \<and> (\<forall>j < length (containers s). j \<noteq> i \<longrightarrow> \<not> claims p (containers s ! j))"

lemma leaked_but_restored: "leaked_but i p s \<Longrightarrow> \<not> claims p obj \<Longrightarrow> leaked p (s\<lparr>containers := (containers s)[i := obj]\<rparr>)"
proof -
  assume l: "leaked_but i p s" and obj: "\<not> claims p obj"
  have "\<not> claims p ((containers s)[i := obj] ! j)" if "j < length (containers s)" for j
    using l obj that by (cases "j = i") (simp_all add: leaked_but_def)
  then show ?thesis using l by (simp add: leaked_but_def leaked_def all_set_conv_all_nth)
qed

lemma leaked_is_but: "leaked p s \<Longrightarrow> leaked_but i p (s\<lparr>containers := (containers s)[i := obj]\<rparr>)"
  by (simp add: leaked_but_def leaked_def)

lemma leaked_but_updates [simp]:
  "leaked_but i p (s\<lparr>timestamp := n\<rparr>) = leaked_but i p s" "leaked_but i p (s\<lparr>start_after_reply := r\<rparr>) = leaked_but i p s"
  "leaked_but i p (s\<lparr>sent := ps\<rparr>) = leaked_but i p s" "leaked_but i p (s\<lparr>tx_count := k\<rparr>) = leaked_but i p s"
  "leaked_but i p (s\<lparr>stream_len := k\<rparr>) = leaked_but i p s" "leaked_but i p (s\<lparr>fname_buf := f\<rparr>) = leaked_but i p s"
  "leaked_but i p (s\<lparr>loaders := l\<rparr>) = leaked_but i p s"
  by (simp_all add: leaked_but_def)

lemma cri_start_leaked:
  assumes "leaked_but i p s" and "orchestrator_cri_start E img s = Inr (r, s')"
  shows "leaked_but i p s' \<and> r \<noteq> Some p"
  using assms(2)
proof (cases rule: cri_start_cases)
  case (refused f)
  then show ?thesis using assms(1) by simp
next
  case (no_stack f k)
  then have "k \<noteq> unat p" using assms(1) lowest_free_SomeD [OF no_stack(4)] by (auto simp: leaked_but_def slot_free)
  then show ?thesis using no_stack assms(1) lowest_free_SomeD [OF no_stack(4)]
    by (auto simp: leaked_but_def bit_and_iff bit_or_iff bit_not_iff slot_bit_iff dest: bit_imp_le_length)
next
  case (started f k)
  note k = lowest_free_SomeD [OF started(4)]
  have "k \<noteq> unat p" using assms(1) k by (auto simp: leaked_but_def slot_free)
  then have "word_of_nat k \<noteq> p" using k(3) by auto
  then show ?thesis using started assms(1)
    by (auto simp: leaked_but_def orch_yield_def slot_taken_def bit_or_iff)
qed

lemma start_after_leaked:
  assumes "leaked_but i p s" and "start_after E i s = Inr s'"
  shows "leaked p s'"
  using assms(2) unfolding start_after_def
proof (rule bindR_pairE)
  fix r t
  assume t: "orchestrator_cri_start E (cri_image (containers s ! i)) (s\<lparr>start_after_reply := None\<rparr>) = Inr (r, t)"
    and rest: "(let obj = containers t ! i in case r of
          None \<Rightarrow> Inr (t\<lparr>containers := (containers t)[i := obj\<lparr>cri_state := 2, exit_code := 1,
                            finished_at := timestamp t + 1,
                            reason := copy_literal (reason obj) ''CarrelsStartFailed''\<rparr>],
                         timestamp := timestamp t + 1\<rparr>)
        | Some p \<Rightarrow> Inr (t\<lparr>containers := (containers t)[i := obj\<lparr>network_ns := p\<rparr>]\<rparr>)) = Inr s'"
  have "leaked_but i p (s\<lparr>start_after_reply := None\<rparr>)" using assms(1) by simp
  note u = cri_start_leaked [OF this t]
  show ?thesis
  proof (cases r)
    case None
    have "\<not> claims p ((containers t ! i)\<lparr>cri_state := 2, exit_code := 1, finished_at := timestamp t + 1,
        reason := copy_literal (reason (containers t ! i)) ''CarrelsStartFailed''\<rparr>)" by (simp add: claims_def)
    from leaked_but_restored [OF conjunct1 [OF u] this] show ?thesis using rest None by (auto simp: Let_def)
  next
    case (Some q)
    then have "\<not> claims p ((containers t ! i)\<lparr>network_ns := q\<rparr>)" using u by (simp add: claims_def)
    from leaked_but_restored [OF conjunct1 [OF u] this] show ?thesis using rest Some by (auto simp: Let_def)
  qed
qed

text \<open>A request to create a container in state 1 in protocon \<open>p\<close>, which the runtime takes as it is.\<close>

definition forges :: "u32 \<Rightarrow> rpc_header \<Rightarrow> cri_object \<Rightarrow> bool" where
  "forges p h request \<longleftrightarrow> map_of cri_ops (rpc_op h) = Some CRI_CREATE_CONTAINER \<and> cri_state request = 1
     \<and> network_ns request = p"

lemma pure_requests:
  "object_status table request s = Inr (reply, s') \<Longrightarrow> s' = s"
  "image_status request s = Inr (reply, s') \<Longrightarrow> s' = s"
  "reopen_log request s = Inr (reply, s') \<Longrightarrow> s' = s"
  by (auto simp: object_status_def image_status_def reopen_log_def with_found_def elim!: bindR_InrE split: option.splits)

lemma other_tables:
  assumes "leaked p s"
  shows "stop_sandbox request s = Inr (reply, s') \<Longrightarrow> leaked p s'"
    and "remove_sandbox request s = Inr (reply, s') \<Longrightarrow> leaked p s'"
    and "run_sandbox request s = (reply, s') \<Longrightarrow> leaked p s'"
    and "remove_image request s = Inr (reply, s') \<Longrightarrow> leaked p s'"
    and "pull_image request s = Inr (reply, s') \<Longrightarrow> leaked p s'"
    and "remove_container request s = Inr (reply, s') \<Longrightarrow> leaked p s'"
  using assms leaked_containers [OF assms, of cri_zero]
  by (auto simp: stop_sandbox_def remove_sandbox_def run_sandbox_def remove_image_def pull_image_def remove_container_def
      with_found_def Let_def elim!: bindR_InrE split: option.splits if_splits)

lemma dispatch_leaked:
  assumes "leaked p s" and "tables_wf s" and "cri_valid request" and "\<not> forges p h request"
    and "cri_dispatch E (rpc_op h) request s = Inr ((result, response), s')"
    and "\<not> (map_of cri_ops (rpc_op h) = Some CRI_START_CONTAINER \<and> result = CRI_OK)"
  shows "leaked p s'"
proof (cases "map_of cri_ops (rpc_op h)")
  case None
  then show ?thesis using assms(1,5) by (simp add: cri_dispatch_def)
next
  case (Some what)
  have stop: "stop_container E request s = Inr (reply, s') \<Longrightarrow> leaked p s'" for reply
    by (rule with_found_cases [OF tables_wfD(4) [OF assms(2)] assms(3), of "Inr ((CRI_NOT_FOUND, cri_zero), s)" "\<lambda>i. stop_found E i s"])
      (use assms(1) leaked_stop_found [OF assms(1)] in \<open>auto simp: stop_container_def\<close>)
  have start: "start_container request s = Inr ((result, response), s') \<Longrightarrow> result \<noteq> CRI_OK \<Longrightarrow> s' = s"
    by (auto simp: start_container_def with_found_def Let_def elim!: bindR_InrE split: option.splits)
  have create: "create_container request s = Inr ((result, response), s') \<Longrightarrow> what = CRI_CREATE_CONTAINER \<Longrightarrow> leaked p s'"
    using create_container_state [OF _ assms(1)] assms(4) Some by (auto simp: forges_def)
  have pure: "object_status table request s = Inr ((result, response), s') \<Longrightarrow> leaked p s'"
    "image_status request s = Inr ((result, response), s') \<Longrightarrow> leaked p s'"
    "reopen_log request s = Inr ((result, response), s') \<Longrightarrow> leaked p s'" for table
    using pure_requests assms(1) by blast+
  note requests = stop start create pure other_tables [OF assms(1), of request "(result, response)" s']
  show ?thesis
    using Some assms(1,5,6) by (cases what) (auto simp: cri_dispatch_def dest: requests)
qed

lemma answer_leaked:
  assumes "leaked p s" and "tables_wf s" and "cri_valid request" and "\<not> forges p h request"
    and "answer_request E h request s = Inr s'"
  shows "leaked p s'"
proof -
  obtain result response t where d: "cri_dispatch E (rpc_op h) request s = Inr ((result, response), t)"
    using assms(5) by (auto simp: answer_request_def elim!: bindR_InrE)
  define u where "u = (snd (send_packet E VSOCK_OP_RW
      (pack rpc_fields (h\<lparr>rpc_status := cri_result_code result, rpc_length := word_of_nat SIZEOF_CRI_OBJECT\<rparr>)
        @ cri_pack response) t))\<lparr>stream_len := 0\<rparr>"
  obtain ps n where u: "u = t\<lparr>sent := ps, tx_count := n, stream_len := 0\<rparr>"
    using send_packet_state [of E VSOCK_OP_RW _ t] unfolding u_def by (metis (no_types))
  have s': "(if map_of cri_ops (rpc_op h) = Some CRI_START_CONTAINER \<and> result = CRI_OK
      then case start_after_reply u of None \<Rightarrow> Inr u | Some i \<Rightarrow> start_after E i u else Inr u) = Inr s'"
    using assms(5) d by (simp add: answer_request_def u_def Let_def split_beta cong: if_cong option.case_cong)
  show ?thesis
  proof (cases "map_of cri_ops (rpc_op h) = Some CRI_START_CONTAINER \<and> result = CRI_OK")
    case True
    then have "start_container request s = Inr ((CRI_OK, response), t)" using d by (simp add: cri_dispatch_def)
    then obtain i obj where t: "t = s\<lparr>containers := (containers s)[i := obj], timestamp := timestamp s + 1, start_after_reply := Some i\<rparr>"
      by (auto simp: start_container_def with_found_def Let_def elim!: bindR_InrE split: option.splits)
    have "leaked_but i p u" using leaked_is_but [OF assms(1)] by (simp add: u t)
    moreover have "start_after E i u = Inr s'" using s' True by (simp add: u t)
    ultimately show ?thesis by (rule start_after_leaked)
  next
    case False
    then have "leaked p t" using dispatch_leaked [OF assms(1-4) d] by blast
    moreover have "s' = u" using s' False by (auto split: if_splits)
    ultimately show ?thesis by (simp add: u)
  qed
qed

fun answer_requests :: "'m orch_env \<Rightarrow> (rpc_header \<times> cri_object) list \<Rightarrow> 'm orch \<Rightarrow> 'm orch res" where
  "answer_requests E [] s = Inr s"
| "answer_requests E ((h, request) # rs) s = bindR (answer_request E h request s) (answer_requests E rs)"

lemma requests_leaked:
  assumes "\<forall>(h, request) \<in> set rs. cri_valid request \<and> \<not> forges p h request"
  shows "leaked p s \<Longrightarrow> orch_inv E s \<Longrightarrow> answer_requests E rs s = Inr s' \<Longrightarrow> leaked p s'"
  using assms
proof (induction rs arbitrary: s)
  case (Cons r rs)
  obtain h request where r: "r = (h, request)" by (cases r)
  obtain t where t: "answer_request E h request s = Inr t" and rest: "answer_requests E rs t = Inr s'"
    using Cons.prems(3) r by (auto elim!: bindR_InrE)
  have v: "cri_valid request" "\<not> forges p h request" using Cons.prems(4) r by auto
  have "tables_wf s" using Cons.prems(2) by (simp add: orch_inv_def orch_base_def)
  from answer_leaked [OF Cons.prems(1) this v t] answer_request_inv [OF Cons.prems(2) v(1) t] rest Cons.prems(4) show ?case
    by (intro Cons.IH) auto
qed simp

end
