(* ===== verification/Orch_Properties.thy ===== *)
theory Orch_Properties
  imports Orch_Example Cri_Slots
begin

unbundle bit_operations_syntax

text \<open>
  Deployments for containers across the orchestrator and the monitor: how they are concluded, and the ways
  in which a container or a slot is lost.
\<close>

section \<open>Requests to the monitor\<close>

lemma targeted_answer:
  assumes "linked M E" and "base_ok (fst (orch_monitor s))" and "target_ok E pc_id peer_mask"
    and "0 < MAX_PROTOCON_PORTS E" and "unat (MAX_PROTOCON_PORTS E) \<le> unat (num_pc (fst (orch_monitor s)))"
    and "monitor_ppcall E [PC_MONITOR_CALL_DEPLOY_TO_PROTOCON, ucast pc_id, ucast peer_mask, if peers_all then 1 else 0] s = Inr (label, t)"
  shows "label \<notin> {MON_INVALID_PC_ID, MON_INVALID_PEER_SET}"
proof -
  let ?msg = "[PC_MONITOR_CALL_DEPLOY_TO_PROTOCON, ucast pc_id, ucast peer_mask, if peers_all then 1 else 0 :: u64]"
  let ?regs = "\<lambda>i. if i < length ?msg then ?msg ! i else mrs (fst (orch_monitor s)) i"
  let ?m = "(fst (monitor_sees (memory s) (orch_monitor s)))\<lparr>mrs := ?regs\<rparr>"
  have base: "base_ok ?m" using assms(2) by (simp add: base_defs monitor_sees_def)
  have "monitor_protected M 23 ?regs (monitor_sees (memory s) (orch_monitor s))
      = monitor_call_deploy_to_protocon M (ucast pc_id) (ucast peer_mask) (if peers_all then 1 else 0) (?m, snd (orch_monitor s))"
    by (simp add: monitor_protected_def monitor_main_handle_pccall_def call_numbers)
  then obtain n sys where call: "monitor_call_deploy_to_protocon M (ucast pc_id) (ucast peer_mask) (if peers_all then 1 else 0)
      (?m, snd (orch_monitor s)) = Inr ((label, n), sys)"
    using assms(6) linkedD [OF assms(1), of "memory s" "orch_monitor s" ?msg] by (auto simp: monitor_ppcall_def elim!: bindR_InrE)
  note answers = targeted_request_result [OF base call]
  have "unat pc_id < unat (MAX_PROTOCON_PORTS E)" using assms(3,4) by (auto simp: target_ok_def word_less_nat_alt)
  then have "(ucast pc_id :: u64) < num_pc ?m" using assms(5) by (simp add: word_less_nat_alt)
  moreover have "j < unat (num_pc ?m) \<and> j \<noteq> unat (ucast pc_id :: u64)" if "bit (ucast peer_mask :: u64) j" for j
    using that assms(3,5) by (fastforce simp: target_ok_def bit_ucast_iff)
  ultimately show ?thesis using answers by (auto simp: not_le [symmetric])
qed

text \<open>In particular the requests for the target and the peers that the orchestrator holds.\<close>

lemma requests_well_formed:
  assumes "orch_reaches E (orch_globals F m) s" and "linked M E" and "base_ok (fst (orch_monitor s))"
    and "0 < MAX_PROTOCON_PORTS E" and "unat (MAX_PROTOCON_PORTS E) \<le> unat (num_pc (fst (orch_monitor s)))"
    and "monitor_ppcall E [PC_MONITOR_CALL_DEPLOY_TO_PROTOCON, ucast (deploy_pc_id s), ucast (deploy_peer_mask s),
      if deploy_peers_all s then 1 else 0] s = Inr (label, t)"
  shows "label \<notin> {MON_INVALID_PC_ID, MON_INVALID_PEER_SET}"
proof (rule targeted_answer [OF assms(2,3) _ assms(4-6)])
  show "target_ok E (deploy_pc_id s) (deploy_peer_mask s)"
    using reachable_inv [OF assms(1)] by (simp add: orch_inv_def orch_base_def)
qed

text \<open>The example monitor refuses a request for a protocon in use.\<close>

lemma ex_unavailable:
  "\<exists>t. monitor_ppcall (ex_orch_env\<lparr>MAX_PROTOCON_PORTS := 2\<rparr>) [PC_MONITOR_CALL_DEPLOY_TO_PROTOCON, 0, 0, 0]
      (orch_globals ex_fs_state (ex_monitor [1, 1] [], CoNone)) = Inr (MON_PC_UNAVAILABLE, t)"
proof -
  let ?E = "ex_orch_env\<lparr>MAX_PROTOCON_PORTS := 2\<rparr>" and ?s = "orch_globals ex_fs_state (ex_monitor [1, 1] [], CoNone)"
  let ?msg = "[PC_MONITOR_CALL_DEPLOY_TO_PROTOCON, 0, 0, 0 :: u64]"
  define regs where "regs = (\<lambda>i. if i < length ?msg then ?msg ! i else mrs (fst (orch_monitor ?s)) i)"
  let ?m = "(ex_monitor [1, 1] [])\<lparr>memory := shared_view (memory ?s) (memory (ex_monitor [1, 1] [])), mrs := regs\<rparr>"
  have regs: "regs 0 = PC_MONITOR_CALL_DEPLOY_TO_PROTOCON" "regs (Suc 0) = 0" "regs 2 = 0" "regs 3 = 0" by (simp_all add: regs_def)
  have tab: "tables_ok ?m" using ex_base [of "[1, 1]"] by (simp add: base_defs)
  have n: "num_pc (ex_monitor [1, 1] []) = 2" by (simp add: ex_monitor_def)
  have "lifecycles ?m ! 0 = PROTOCON_ACTIVE"
    by (simp add: lifecycles_def ex_states ex_pc_def ex_monitor_def lifecycle_consts)
  then have "accepted_peers 0 0 0 ?m = Inl MON_PC_UNAVAILABLE" by (simp add: accepted_peers_def n lifecycle_consts)
  then have "monitor_call_deploy_to_protocon ex_mon_env 0 0 0 (?m, CoNone) = Inr ((MON_PC_UNAVAILABLE, 0), (?m, CoNone))"
    unfolding to_protocon_eq [OF tab] by simp
  then have "monitor_protected ex_mon_env 23 regs (monitor_sees (memory ?s) (orch_monitor ?s)) = Inr ((MON_PC_UNAVAILABLE, 0), (?m, CoNone))"
    by (simp add: monitor_protected_def monitor_main_handle_pccall_def call_numbers regs monitor_sees_def)
  moreover have link: "linked ex_mon_env ?E" using ex_linked by (simp add: linked_def)
  ultimately have call: "monitor_ppcall ?E ?msg ?s = Inr (MON_PC_UNAVAILABLE, ?s\<lparr>orch_monitor := (?m, CoNone), orch_mrs := mrs ?m\<rparr>)"
    unfolding monitor_ppcall_def linkedD [OF link] regs_def [symmetric] by simp
  then show ?thesis by blast
qed

section \<open>The result of a deployment\<close>

text \<open>C14: a deployment for a container that the monitor has finished is concluded at the next notification: the orchestrator
  does not stop on the way, the deployment is no longer pending, the container that was starting in the protocon is running or
  has failed, depending on whether the protocon runs, all others are as before, and the slot is free again exactly
  after a failure.\<close>

theorem deployment_concluded:
  assumes "linked M E" and "orch_inv E s" and "deploy_from_cri s"
    and "res_ready (deploy_result m)" and "res_error (deploy_result m) \<noteq> MON_DEPLOY_IN_PROGRESS"
    and "m = fst (orch_monitor s)" and "p = res_target_pc (deploy_result m)"
  shows "\<exists>s'. print_deploy_result E s = Inr s' \<and> \<not> deploy_pending s' \<and> \<not> deploy_from_cri s' \<and> loaders s' = loaders s
    \<and> containers s' = conclude p (\<not> went_well E m) (timestamp s + 1) (containers s)
    \<and> (\<forall>j. bit (cri_slots_in_use s') j \<longleftrightarrow> bit (cri_slots_in_use s) j \<and> (went_well E m \<or> j \<noteq> unat p))"
  using result_concludes [OF assms] .

theorem deployment_concluded_witness:
  "\<exists>s'. print_deploy_result ex_orch_env (ex_deploying 1 (ex_reports 1)) = Inr s' \<and> \<not> deploy_pending s'
    \<and> containers s' = (replicate CRI_MAX_OBJECTS cri_zero)[0 := concluded False 1 (ex_container 1)]
    \<and> bit (cri_slots_in_use s') 1"
proof -
  have f: "res_ready (deploy_result (ex_reports 1))" "res_error (deploy_result (ex_reports 1)) \<noteq> MON_DEPLOY_IN_PROGRESS"
    "1 = res_target_pc (deploy_result (ex_reports 1))" "orch_inv ex_orch_env (ex_deploying 1 (ex_reports 1))"
    "timestamp (ex_deploying 1 (ex_reports 1)) = 0"
    by (simp_all add: ex_reports_fields ex_deploying_inv) (simp add: ex_deploying_def)
  have "conclude 1 False (0 + 1) (containers (ex_deploying 1 (ex_reports 1)))
      = (replicate CRI_MAX_OBJECTS cri_zero)[0 := concluded False 1 (ex_container 1)]"
    using ex_table [of 0 1] by (simp add: conclude_def ex_deploying_fields ex_first ex_objects del: first_index_None_iff)
  then show ?thesis
    using deployment_concluded [OF ex_linked f(4) ex_deploying_fields(2) f(1,2) ex_deploying_fields(3) [symmetric] f(3)] ex_went_well
    unfolding f(5) ex_deploying_fields(4) by (auto simp: slot_bit_iff)
qed

text \<open>C23: a notification of the monitor that concerns something else takes the result of an earlier targeted deployment
  for that of the deployment in progress, whose loader may not even have asked the monitor yet: the container that is
  starting in another protocon keeps its slot and stays in state starting, and no later result changes it.\<close>

theorem stale_result_strands_container:
  assumes "linked M E" and "orch_inv E s" and "deploy_from_cri s"
    and "res_ready (deploy_result m)" and "res_error (deploy_result m) \<noteq> MON_DEPLOY_IN_PROGRESS"
    and "m = fst (orch_monitor s)" and "res_target_pc (deploy_result m) \<noteq> q"
    and "starting q (containers s ! i)" and "bit (cri_slots_in_use s) (unat q)"
  shows "\<exists>s'. print_deploy_result E s = Inr s' \<and> \<not> deploy_pending s' \<and> loaders s' = loaders s
    \<and> starting q (containers s' ! i) \<and> bit (cri_slots_in_use s') (unat q)
    \<and> (\<forall>t t'. \<not> deploy_from_cri t \<longrightarrow> print_deploy_result E t = Inr t' \<longrightarrow> containers t' = containers t)"
proof -
  obtain s' where "print_deploy_result E s = Inr s'" "\<not> deploy_pending s'" "loaders s' = loaders s"
    "containers s' = conclude (res_target_pc (deploy_result m)) (\<not> went_well E m) (timestamp s + 1) (containers s)"
    "bit (cri_slots_in_use s') (unat q) \<longleftrightarrow> bit (cri_slots_in_use s) (unat q)"
    using result_concludes [OF assms(1-6) refl] assms(7) by (auto simp: word_unat_eq_iff)
  then show ?thesis
    using starting_changed [OF assms(7,8)] assms(8,9) result_keeps_containers by (intro exI [of _ s']) auto
qed

theorem stale_result_strands_container_witness:
  "\<exists>s'. print_deploy_result ex_orch_env (ex_deploying 2 (ex_reports 1)) = Inr s' \<and> \<not> deploy_pending s'
    \<and> starting 2 (containers s' ! 0)"
proof -
  have f: "res_ready (deploy_result (ex_reports 1))" "res_error (deploy_result (ex_reports 1)) \<noteq> MON_DEPLOY_IN_PROGRESS"
    "res_target_pc (deploy_result (ex_reports 1)) \<noteq> 2" "orch_inv ex_orch_env (ex_deploying 2 (ex_reports 1))"
    "starting 2 (containers (ex_deploying 2 (ex_reports 1)) ! 0)" "bit (cri_slots_in_use (ex_deploying 2 (ex_reports 1))) (unat (2 :: u32))"
    by (simp_all add: ex_reports_fields ex_deploying_inv)
      (simp_all add: ex_deploying_fields ex_table ex_starting slot_bit_iff ex_objects)
  show ?thesis
    using stale_result_strands_container [OF ex_linked f(4) ex_deploying_fields(2) f(1,2) ex_deploying_fields(3) [symmetric] f(3,5,6)]
    by blast
qed

section \<open>Slots\<close>

text \<open>C21: stopping a container while it is starting, with a stop the monitor accepts, gives its slot back although
  the deployment goes on; when the protocon then comes to run, no container stands for it and its slot
  is still free, so the next start is given a slot whose protocon runs.\<close>

theorem stop_while_starting:
  assumes "linked M E" and "orch_inv E s" and "deploy_from_cri s" and "cri_valid request"
    and "cri_find (containers s) (cri_id request) = Inr (Some i)" and "starting p (containers s ! i)"
    and "\<forall>j < length (containers s). starting p (containers s ! j) \<longrightarrow> j = i"
    and "orchestrator_cri_stop E p s = Inr (True, u)"
    and "res_ready (deploy_result m)" and "res_target_pc (deploy_result m) = p" and "went_well E m"
  shows "\<exists>s'. stop_container E request s = Inr ((CRI_OK, cri_zero), s') \<and> deploy_pending s' \<and> loaders s' = loaders s
    \<and> \<not> bit (cri_slots_in_use s') (unat p)
    \<and> (\<exists>s''. print_deploy_result E (s'\<lparr>orch_monitor := (m, co)\<rparr>) = Inr s'' \<and> \<not> deploy_pending s''
         \<and> containers s'' = containers s' \<and> cri_state (containers s'' ! i) = 2 \<and> \<not> bit (cri_slots_in_use s'') (unat p))"
proof -
  let ?stopped = "(containers s ! i)\<lparr>cri_state := 2, finished_at := timestamp s + 1,
      reason := copy_literal (reason (containers s ! i)) ''CarrelsStopped''\<rparr>"
  define s' where "s' = u\<lparr>containers := (containers s)[i := ?stopped], timestamp := timestamp s + 1\<rparr>"
  have ns: "network_ns (containers s ! i) = p" "cri_state (containers s ! i) = 1" using assms(6) by (simp_all add: starting_def)
  have stop: "stop_container E request s = Inr ((CRI_OK, cri_zero), s')"
    using stop_accepted [OF assms(5)] ns assms(8) by (simp add: s'_def)
  obtain t where t: "called s t" "u = t\<lparr>cri_slots_in_use := cri_slots_in_use s AND NOT (slot_bit p)\<rparr>"
    using cri_stop_accepted [OF assms(8)] by blast
  have wf: "tables_wf s" and pending: "deploy_pending s" using assms(2,3) by (simp_all add: orch_inv_def orch_base_def)
  have keep: "deploy_pending s'" "deploy_from_cri s'" "loaders s' = loaders s" "\<not> bit (cri_slots_in_use s') (unat p)"
    using t pending assms(3) by (auto simp: s'_def called_def bit_and_iff bit_not_iff slot_bit_iff dest: bit_imp_le_length)
  have i: "i < length (containers s)" using found_index(1) [OF tables_wfD(4) [OF wf] assms(4,5)] .
  have "done_ok s ((CRI_OK, cri_zero), s')" using conjunct1 [OF stop_container_done [OF wf assms(4), of E]] stop by blast
  then have "orch_base E s'" "start_after_reply s' = None"
    using done_base [of E s "((CRI_OK, cri_zero), s')"] assms(2) by (simp_all add: orch_inv_def) (simp add: done_ok_def)
  then have inv: "orch_inv E (s'\<lparr>orch_monitor := (m, co)\<rparr>)" by (simp add: orch_inv_def)
  have none: "\<forall>obj \<in> set (containers s'). \<not> starting p obj"
  proof
    fix obj
    assume "obj \<in> set (containers s')"
    then obtain j where j: "j < length (containers s)" "obj = (containers s)[i := ?stopped] ! j"
      unfolding s'_def by (auto simp: in_set_conv_nth)
    show "\<not> starting p obj"
    proof (cases "j = i")
      case True
      then have "cri_state obj = 2" using j by simp
      then show ?thesis by (simp add: starting_def)
    next
      case False
      then have "obj = containers s ! j" using j(2) by simp
      then show ?thesis using assms(7) j(1) False by blast
    qed
  qed
  have err: "res_error (deploy_result m) \<noteq> MON_DEPLOY_IN_PROGRESS" using assms(11) by (simp add: went_well_def)
  let ?w = "s'\<lparr>orch_monitor := (m, co)\<rparr>"
  have w: "deploy_from_cri ?w" "m = fst (orch_monitor ?w)" "p = res_target_pc (deploy_result m)"
    "containers ?w = containers s'" "cri_slots_in_use ?w = cri_slots_in_use s'"
    using keep(2) assms(10) by simp_all
  from result_concludes [OF assms(1) inv w(1) assms(9) err w(2,3)] obtain s'' where
    s'': "print_deploy_result E ?w = Inr s''" "\<not> deploy_pending s''"
    "containers s'' = conclude p (\<not> went_well E m) (timestamp ?w + 1) (containers s')"
    and slots: "\<forall>j. bit (cri_slots_in_use s'') j \<longleftrightarrow> bit (cri_slots_in_use s') j \<and> (went_well E m \<or> j \<noteq> unat p)"
    unfolding w(4,5) by blast
  have slot: "\<not> bit (cri_slots_in_use s'') (unat p)" using slots keep(4) by blast
  have "cri_state (containers s' ! i) = 2" using i by (simp add: s'_def)
  then have "containers s'' = containers s' \<and> cri_state (containers s'' ! i) = 2" using conclude_none [OF none] s''(3) by simp
  then show ?thesis using stop keep s''(1,2) slot by blast
qed

theorem stop_while_starting_witness:
  "\<exists>s'. stop_container ex_orch_env ex_named (ex_deploying 1 (ex_monitor [2, 2] [])) = Inr ((CRI_OK, cri_zero), s')
    \<and> deploy_pending s' \<and> \<not> bit (cri_slots_in_use s') 1"
proof -
  let ?s = "ex_deploying 1 (ex_monitor [2, 2] [])"
  obtain u where u: "orchestrator_cri_stop ex_orch_env 1 ?s = Inr (True, u)" using ex_stop by blast
  have c: "starting 1 (containers ?s ! 0)" "\<forall>j < length (containers ?s). starting 1 (containers ?s ! j) \<longrightarrow> j = 0"
    by (auto simp: ex_deploying_fields ex_table ex_starting ex_objects split: if_splits)
  have inv: "orch_inv ex_orch_env ?s" by (rule ex_deploying_inv) simp
  show ?thesis
    using stop_while_starting [OF ex_linked inv ex_deploying_fields(2) ex_named_valid ex_find c u ex_reports_fields(1,3) ex_went_well]
    by auto
qed

text \<open>C22: removing a container that runs does not stop its protocon: the monitor is not called, and
  the slot stays in use through all the requests that follow, unless one creates a container that claims it.\<close>

theorem removed_container_loses_slot:
  assumes "orch_inv E s" and "cri_valid request" and "cri_find (containers s) (cri_id request) = Inr (Some i)"
    and "claims p (containers s ! i)" and "\<forall>j < length (containers s). claims p (containers s ! j) \<longrightarrow> j = i"
    and "bit (cri_slots_in_use s) (unat p)" and "deploy_from_cri s \<longrightarrow> deploy_pc_id s \<noteq> p"
  shows "\<exists>s'. remove_container request s = Inr ((CRI_OK, cri_zero), s') \<and> orch_monitor s' = orch_monitor s
    \<and> present (containers s' ! i) = 0
    \<and> (\<forall>rs s''. (\<forall>(h, r) \<in> set rs. cri_valid r \<and> \<not> forges p h r) \<longrightarrow> answer_requests E rs s' = Inr s''
         \<longrightarrow> bit (cri_slots_in_use s'') (unat p))"
proof -
  let ?s' = "s\<lparr>containers := (containers s)[i := cri_zero]\<rparr>"
  have wf: "tables_wf s" using assms(1) by (simp add: orch_inv_def orch_base_def)
  have i: "i < length (containers s)" using found_index(1) [OF tables_wfD(4) [OF wf] assms(2,3)] .
  have "leaked_but i p s" using assms(5-7) by (auto simp: leaked_but_def)
  from leaked_but_restored [OF this] have l: "leaked p ?s'" by simp
  have "orch_inv E ?s'" using update_container_base(1) [of E s cri_zero i] assms(1) by (simp add: orch_inv_def)
  then have "bit (cri_slots_in_use s'') (unat p)"
    if "\<forall>(h, r) \<in> set rs. cri_valid r \<and> \<not> forges p h r" and "answer_requests E rs ?s' = Inr s''" for rs s''
    using requests_leaked [OF that(1) l _ that(2)] by (simp add: leaked_def)
  then show ?thesis
    using assms(3) i by (intro exI [of _ ?s']) (simp add: remove_container_def with_found_def)
qed

theorem removed_container_loses_slot_witness:
  "\<exists>s'. remove_container ex_named ((ex_deploying 1 (ex_reports 1))\<lparr>deploy_from_cri := False, deploy_pending := False\<rparr>)
      = Inr ((CRI_OK, cri_zero), s') \<and> (\<forall>s''. answer_requests ex_orch_env [] s' = Inr s'' \<longrightarrow> bit (cri_slots_in_use s'') 1)"
proof -
  let ?s = "(ex_deploying 1 (ex_reports 1))\<lparr>deploy_from_cri := False, deploy_pending := False\<rparr>"
  have inv: "orch_inv ex_orch_env ?s"
    using ex_deploying_inv [of 1 "ex_reports 1"] by (simp add: orch_inv_def orch_base_def)
  have find: "cri_find (containers ?s) (cri_id ex_named) = Inr (Some 0)" using ex_find [of 1 "ex_reports 1"] by simp
  have c: "claims 1 (containers ?s ! 0)" "\<forall>j < length (containers ?s). claims 1 (containers ?s ! j) \<longrightarrow> j = 0"
    "bit (cri_slots_in_use ?s) (unat (1 :: u32))" "deploy_from_cri ?s \<longrightarrow> deploy_pc_id ?s \<noteq> 1"
    by (auto simp: ex_deploying_fields ex_table ex_fields claims_def slot_bit_iff ex_objects split: if_splits)
  show ?thesis
    using removed_container_loses_slot [OF inv ex_named_valid find c] by (auto dest: spec [of _ "[]"])
qed

end
