(* ===== verification/Microrl_Screen.thy ===== *)
theory Microrl_Screen
  imports Microrl
begin

text \<open>
  The line editor on an ordinary line, one without zero bytes: what the editor prints, and that its editing operations are those of a
  line with a cursor in it.
\<close>

section \<open>A line with a cursor\<close>

text \<open>The bytes before the cursor and those from the cursor on; behind the line the buffer is zero.\<close>

definition on_line :: "u8 list \<Rightarrow> u8 list \<Rightarrow> microrl \<Rightarrow> bool" where
  "on_line l r mrl \<longleftrightarrow>
     cmdline_str mrl = l @ r @ replicate (129 - length (l @ r)) 0 \<and> length (l @ r) \<le> 128
     \<and> mrl_cursor mrl = length l \<and> cmdlen mrl = length (l @ r) \<and> 0 \<notin> set (l @ r)"

lemma on_line_fields:
  assumes "on_line l r mrl"
  shows "mrl_cursor mrl = length l" and "cmdlen mrl = length l + length r" and "length (cmdline_str mrl) = 129"
    and "length l + length r \<le> 128" and "0 \<notin> set l" and "0 \<notin> set r"
    and "cmdline_str mrl = l @ r @ replicate (129 - (length l + length r)) 0"
  using assms by (simp_all add: on_line_def)

lemma on_line_updates [simp]:
  "on_line l r (mrl\<lparr>last_endl := c\<rparr>) = on_line l r mrl" "on_line l r (mrl\<lparr>escape := b\<rparr>) = on_line l r mrl"
  "on_line l r (mrl\<lparr>esc_code := e\<rparr>) = on_line l r mrl" "on_line l r (out_fn str mrl) = on_line l r mrl"
  "on_line l r (mrl\<lparr>ring_hist := h\<rparr>) = on_line l r mrl"
  by (simp_all add: on_line_def out_fn_def)

lemma on_line_end: "on_line l r mrl \<Longrightarrow> \<exists>post. cmdline_str mrl = l @ r @ 0 # post"
proof -
  assume on: "on_line l r mrl"
  then have "129 - length (l @ r) = Suc (128 - length (l @ r))" unfolding on_line_def by linarith
  then show ?thesis using on by (auto simp: on_line_def)
qed

section \<open>Printing\<close>

text \<open>
  The local buffer of \<open>prv_terminal_print_line\<close>: a string of length \<open>n\<close>, of which the places before \<open>p\<close> are to be given
  out.
\<close>

definition holds_string :: "nat \<Rightarrow> u8 list \<Rightarrow> nat \<Rightarrow> bool" where
  "holds_string n str p \<longleftrightarrow> n + 1 < length str \<and> 0 \<notin> set (take n str) \<and> (\<forall>i. n \<le> i \<longrightarrow> i < length str \<longrightarrow> str ! i = 0) \<and> p \<le> n"

lemma c_string_split: "n < length a \<Longrightarrow> 0 \<notin> set (take n a) \<Longrightarrow> a ! n = 0 \<Longrightarrow> c_string a = take n a"
  by (metis c_string_terminated id_take_nth_drop)

lemma terminated_nth: "i < length a \<Longrightarrow> a ! i = 0 \<Longrightarrow> terminated a"
  by (auto simp: terminated_def in_set_conv_nth)

text \<open>Once the string has grown behind the start sequence, its length stays.\<close>

lemma print_chars_prints:
  assumes "holds_string n str p" and "p < n" and "0 \<notin> set cs"
  shows "\<exists>str' p' out'. print_chars cs str p out = Inr (str', p', out') \<and> holds_string n str' p' \<and> p' < n
    \<and> length str' = length str \<and> out' @ take p' str' = out @ take p str @ cs"
  using assms
proof (induction cs arbitrary: str p out)
  case (Cons c cs)
  let ?str = "str[p := c]"
  have len: "n + 1 < length str" and zero: "\<And>i. n \<le> i \<Longrightarrow> i < length str \<Longrightarrow> str ! i = 0" and nz: "0 \<notin> set (take n str)"
    using Cons.prems(1) by (auto simp: holds_string_def)
  have nz': "0 \<notin> set (take n ?str)"
    using nz Cons.prems(3) set_update_subset_insert [of "take n str" p c] by (auto simp: take_update_swap)
  have held: "holds_string n ?str p" using Cons.prems(1,2) nz' by (auto simp: holds_string_def nth_list_update)
  have shown_str: "c_string ?str = take n ?str" using c_string_split [of n ?str] nz' len zero [of n] Cons.prems(2) by simp
  have ended: "terminated ?str" using terminated_nth [of n ?str] zero [of n] Cons.prems(2) len by simp
  have p: "p < length str" using Cons.prems(2) len by simp
  have take: "take (p + 1) ?str = take p str @ [c]" using p by (simp add: take_Suc_conv_app_nth)
  show ?case
  proof (cases "p + 1 = n")
    case True
    have "holds_string n ?str 0" "0 < n" using held Cons.prems(2) by (auto simp: holds_string_def)
    then obtain str' p' out' where "print_chars cs ?str 0 (out @ take n ?str) = Inr (str', p', out')" "holds_string n str' p'" "p' < n"
      "length str' = length ?str" "out' @ take p' str' = (out @ take n ?str) @ take 0 ?str @ cs"
      using Cons.IH [of ?str 0 "out @ take n ?str"] Cons.prems(3) by auto
    then show ?thesis using p shown_str ended True take by (auto simp: read_string_def Let_def)
  next
    case False
    then have "holds_string n ?str (p + 1)" "p + 1 < n" using held Cons.prems(2) by (auto simp: holds_string_def)
    then obtain str' p' out' where "print_chars cs ?str (p + 1) out = Inr (str', p', out')" "holds_string n str' p'" "p' < n"
      "length str' = length ?str" "out' @ take p' str' = out @ take (p + 1) ?str @ cs"
      using Cons.IH [of ?str "p + 1" out] Cons.prems(3) by auto
    then show ?thesis using p shown_str ended False take len by (auto simp: read_string_def Let_def)
  qed
qed simp

lemma decimal_short: "n < 10 ^ Suc k \<Longrightarrow> length (decimal n) \<le> Suc k"
proof (induction k arbitrary: n)
  case (Suc k)
  then have "length (decimal (n div 10)) \<le> Suc k" by (simp add: less_mult_imp_div_less)
  then show ?case by (subst decimal.simps) simp
qed (subst decimal.simps, simp)

lemma digit_nonzero: "d < 10 \<Longrightarrow> (48 :: u8) + word_of_nat d \<noteq> 0"
proof -
  assume "d < 10"
  then have "unat (word_of_nat (48 + d) :: u8) = 48 + d" by (intro unat_word_of_nat_lt) simp
  then show ?thesis by auto
qed

lemma decimal_nonzero: "0 \<notin> set (decimal n)"
proof (induction n rule: decimal.induct)
  case (1 n)
  have "0 \<noteq> (48 :: u8) + word_of_nat d" if "d < 10" for d using digit_nonzero [OF that] by metis
  then show ?case using 1 decimal.simps [of n] by auto
qed

lemma move_facts: "length (prv_cursor_generate_move i) \<le> 6" "0 \<notin> set (prv_cursor_generate_move i)"
  using decimal_short [of "nat \<bar>max (- 999) (min 999 i)\<bar>" 2] decimal_nonzero
  by (auto simp: prv_cursor_generate_move_def Let_def)

lemma print_chars_start:
  assumes "length start \<le> 7" and "0 \<notin> set start" and "0 \<notin> set cs"
  shows "\<exists>str p out. print_chars cs (start @ [0] @ drop (Suc (length start)) (replicate 64 0)) (length start) [] = Inr (str, p, out)
    \<and> length str = 64 \<and> p \<le> 8 \<and> 0 \<notin> set (take p str) \<and> out @ take p str = start @ cs"
proof (cases cs)
  case Nil
  then show ?thesis using assms by simp
next
  case (Cons c cs)
  let ?n = "Suc (length start)"
  let ?str = "(start @ [c]) @ replicate (63 - length start) 0"
  have written: "(start @ [0] @ drop ?n (replicate 64 0))[length start := c] = ?str"
    by (simp add: list_update_append)
  have rest: "replicate (63 - length start) 0 = (0 :: u8) # replicate (62 - length start) 0"
  proof -
    have "63 - length start = Suc (62 - length start)" using assms(1) by simp
    then show ?thesis by (metis replicate_Suc)
  qed
  have "c_string ?str = start @ [c]" "terminated ?str"
    using assms Cons c_string_terminated [of "start @ [c]" "replicate (62 - length start) 0"]
    by (simp_all add: terminated_def rest)
  then have first: "print_chars (c # cs) (start @ [0] @ drop ?n (replicate 64 0)) (length start) []
      = print_chars cs ?str 0 (start @ [c])"
    using assms(1) written by (simp add: read_string_def Let_def)
  have "holds_string ?n ?str 0"
    using assms Cons by (auto simp: holds_string_def nth_append)
  from print_chars_prints [OF this, of cs "start @ [c]"] assms(3) Cons obtain str p out
    where "print_chars cs ?str 0 (start @ [c]) = Inr (str, p, out)" "holds_string ?n str p" "p < ?n"
      "length str = length ?str" "out @ take p str = (start @ [c]) @ cs"
    by auto
  moreover from this have "0 \<notin> set (take p str)"
    using set_take_subset_set_take [of p ?n str] by (auto simp: holds_string_def)
  ultimately show ?thesis using first Cons assms(1) by (intro exI [of _ str] exI [of _ p] exI [of _ out]) auto
qed

text \<open>
  What a redraw prints: the start of the line when it is asked for, the bytes of the line, and the sequences that clear the
  rest and move the cursor back.
\<close>

lemma print_line_prints:
  assumes "on_line l r mrl" and "pos \<le> length l + length r"
  shows "prv_terminal_print_line pos reset mrl =
    Inr (out_fn ((if reset then 13 # prv_cursor_generate_move (int (prompt_size mrl) + int pos) else [])
      @ drop pos (l @ r) @ [27, 91, 75] @ prv_cursor_generate_move (- int (length r))) mrl)"
proof -
  define start where "start = (if reset then 13 # prv_cursor_generate_move (int (prompt_size mrl) + int pos) else [])"
  define move where "move = prv_cursor_generate_move (- int (length r))"
  have start: "length start \<le> 7" "0 \<notin> set start" using move_facts [of "int (prompt_size mrl) + int pos"] by (auto simp: start_def)
  have move: "length move \<le> 6" "0 \<notin> set move" using move_facts [of "- int (length r)"] by (simp_all add: move_def)
  define str0 where "str0 = start @ [0] @ drop (Suc (length start)) (replicate 64 (0 :: u8))"
  have str0: "mem_put (replicate MICRORL_CFG_PRINT_BUFFER_LEN 0) 0 (start @ [0]) = Inr str0"
    using start by (simp add: mem_put_def str0_def MICRORL_CFG_PRINT_BUFFER_LEN_def)
  have chars: "drop pos (take (length l + length r) (cmdline_str mrl)) = drop pos (l @ r)" and len: "length (cmdline_str mrl) = 129"
    using on_line_fields [OF assms(1)] by simp_all
  have nz: "0 \<notin> set (drop pos (l @ r))" using on_line_fields(5,6) [OF assms(1)] by (auto dest: in_set_dropD)
  obtain str p out where printed: "print_chars (drop pos (l @ r)) str0 (length start) [] = Inr (str, p, out)"
    and str: "length str = 64" "p \<le> 8" "0 \<notin> set (take p str)" and out: "out @ take p str = start @ drop pos (l @ r)"
    using print_chars_start [OF start nz] unfolding str0_def by blast
  have full: "\<not> p + 3 + 6 + 1 > length str" using str by simp
  define tail where "tail = [27, 91, 75] @ move"
  have tail: "length tail \<le> 9" "0 \<notin> set tail" using move by (simp_all add: tail_def)
  define str1 where "str1 = take p str @ (tail @ [0]) @ drop (p + length (tail @ [0])) str"
  have str1: "mem_put str p ([27, 91, 75] @ move @ [0]) = Inr str1"
    using str tail by (simp add: mem_put_def str1_def tail_def)
  have "c_string str1 = take p str @ tail"
    using c_string_terminated [of "take p str @ tail"] str(3) tail(2) by (simp add: str1_def)
  then have shown: "out @ c_string str1 = start @ drop pos (l @ r) @ tail" using out by simp
  have "prv_terminal_print_line pos reset mrl = Inr (out_fn (out @ c_string str1) mrl)"
    using printed full str1 len on_line_fields(4) [OF assms(1)]
    by (simp add: prv_terminal_print_line_def Let_def start_def [symmetric] str0 chars move_def on_line_fields(1,2) [OF assms(1)]
        del: drop_append append_Cons)
  then show ?thesis unfolding shown tail_def start_def move_def by simp
qed

text \<open>
  A zero on the line, as a completion leaves them, keeps the loop from giving the buffer out: the buffer of 64 bytes is full
  before a line that goes on for 64 bytes more ends.
\<close>

lemma print_chars_stuck:
  "terminated (take p str) \<Longrightarrow> p \<le> length str \<Longrightarrow> length str < p + length cs \<Longrightarrow> print_chars cs str p out = Inl UB"
proof (induction cs arbitrary: str p)
  case (Cons c cs)
  show ?case
  proof (cases "p < length str")
    case True
    let ?str = "str[p := c]"
    have split: "?str = take p str @ drop p ?str"
      by (metis append_take_drop_id list_update_beyond take_update_cancel order_refl)
    have "terminated (take p str @ drop p ?str)" "c_string (take p str @ drop p ?str) = c_string (take p str)"
      using Cons.prems(1) by (simp_all add: c_string_append)
    then have ended: "terminated ?str" "c_string ?str = c_string (take p str)" using split by simp_all
    moreover have "length (c_string (take p str)) < p"
      using length_c_string_lt [OF Cons.prems(1)] Cons.prems(2) by simp
    moreover have "terminated (take (p + 1) ?str)" using True Cons.prems(1) by (simp add: take_Suc_conv_app_nth)
    ultimately show ?thesis using Cons.IH [of "p + 1" ?str] True Cons.prems(3) by (simp add: read_string_def Let_def)
  qed simp
qed simp

lemma print_chars_zero:
  "length str = 64 \<Longrightarrow> 64 \<le> length post \<Longrightarrow> print_chars (pre @ 0 # post) str p out = Inl UB"
proof (induction pre arbitrary: str p out)
  case Nil
  show ?case
  proof (cases "p < length str")
    case True
    have 1: "terminated (take (p + 1) (str[p := 0]))" using True by (simp add: take_Suc_conv_app_nth)
    have "terminated (str[p := 0])" "length (c_string (str[p := 0])) \<le> p"
      using True upd_conv_take_nth_drop [OF True, of 0] by (auto simp: c_string_append length_c_string_le intro: le_trans [OF length_c_string_le])
    then show ?thesis
      using print_chars_stuck [OF 1, of post out] True Nil by (simp add: read_string_def Let_def)
  qed simp
next
  case (Cons c pre)
  show ?case
    using Cons.IH [of "str[p := c]"] Cons.prems
    by (auto simp: Let_def read_string_def)
qed

lemma print_line_overflows:
  assumes "length (cmdline_str mrl) = 129" and "cmdlen mrl \<le> 128" and "cmdline_str mrl ! k = 0" and "pos \<le> k" and "k + 65 \<le> cmdlen mrl"
  shows "prv_terminal_print_line pos reset mrl = Inl UB"
proof -
  let ?line = "drop pos (take (cmdlen mrl) (cmdline_str mrl))"
  have k: "k - pos < length ?line" "?line ! (k - pos) = 0" using assms by simp_all
  define pre post where "pre = take (k - pos) ?line" and "post = drop (Suc (k - pos)) ?line"
  have line: "?line = pre @ 0 # post" using id_take_nth_drop [OF k(1)] k(2) by (simp add: pre_def post_def)
  have post: "64 \<le> length post" using assms by (simp add: post_def)
  have put: "mem_put (replicate MICRORL_CFG_PRINT_BUFFER_LEN 0) 0 bs = Inl UB
      \<or> (\<exists>str. mem_put (replicate MICRORL_CFG_PRINT_BUFFER_LEN 0) 0 bs = Inr str \<and> length str = 64)" for bs
    by (auto simp: mem_put_def MICRORL_CFG_PRINT_BUFFER_LEN_def)
  have stuck: "print_chars ?line str p out = Inl UB" if "length str = 64" for str p out
    unfolding line using print_chars_zero [OF that post] .
  show ?thesis
    using put [of "(if reset then 13 # prv_cursor_generate_move (int (prompt_size mrl) + int pos) else []) @ [0]"] stuck assms(1,2)
    by (auto simp: prv_terminal_print_line_def Let_def)
qed

section \<open>Moves inside the line buffer\<close>

lemma zeros_split: "m \<le> n \<Longrightarrow> replicate n (0 :: u8) = replicate m 0 @ replicate (n - m) 0"
  by (simp flip: replicate_add)

lemma mem_put_app: "length b' = length b \<Longrightarrow> n = length a \<Longrightarrow> mem_put (a @ b @ c) n b' = Inr (a @ b' @ c)"
  by (simp add: mem_put_def)

lemma mem_set_app: "n = length a \<Longrightarrow> m = length b \<Longrightarrow> mem_set (a @ b @ c) n v m = Inr (a @ replicate m v @ c)"
  by (simp add: mem_set_def)

lemma mem_move_left:
  "m = length a \<Longrightarrow> n = length a + length b \<Longrightarrow> k = length c
     \<Longrightarrow> mem_move (a @ b @ c @ d) m n k = Inr (a @ c @ drop k (b @ c) @ d)"
  by (simp add: mem_move_def)

lemma mem_move_right:
  "m = length a + length b \<Longrightarrow> n = length a \<Longrightarrow> k = length c
     \<Longrightarrow> mem_move (a @ c @ b @ d) m n k = Inr (a @ take (length b) (c @ b) @ c @ d)"
  by (simp add: mem_move_def)

end
