(* ===== verification/Microrl_Editing.thy ===== *)
theory Microrl_Editing
  imports Microrl_Screen
begin

text \<open>
  The editing keys as operations on a line with a cursor, given by the bytes before the cursor and those behind it.
\<close>

section \<open>The buffer operations\<close>

definition place :: "u8 list \<Rightarrow> u8 list \<Rightarrow> microrl \<Rightarrow> microrl" where
  "place l r mrl = mrl\<lparr>cmdline_str := l @ r @ replicate (129 - (length l + length r)) 0, mrl_cursor := length l,
     cmdlen := length l + length r\<rparr>"

lemma on_line_place: "length l + length r \<le> 128 \<Longrightarrow> 0 \<notin> set l \<Longrightarrow> 0 \<notin> set r \<Longrightarrow> on_line l r (place l r mrl)"
  by (simp add: on_line_def place_def)

lemma place_fields [simp]:
  "ring_hist (place l r mrl) = ring_hist mrl" "escape (place l r mrl) = escape mrl" "last_endl (place l r mrl) = last_endl mrl"
  "prompt_ptr (place l r mrl) = prompt_ptr mrl" "prompt_size (place l r mrl) = prompt_size mrl"
  "cmdlen (place l r mrl) = length l + length r" "mrl_cursor (place l r mrl) = length l"
  by (simp_all add: place_def)

lemma on_line_is_place: "on_line l r mrl \<Longrightarrow> place l r mrl = mrl"
  by (simp add: on_line_def place_def)

lemma insert_text_line:
  assumes "on_line l r mrl" and "length l + length r + length str \<le> 128"
  shows "prv_cmdline_buf_insert_text str mrl = Inr (microrlOK, place (l @ str) r mrl)"
proof -
  note f = on_line_fields [OF assms(1)]
  let ?n = "length str" and ?m = "length l + length r"
  define rest where "rest = replicate (129 - (?m + ?n)) (0 :: u8)"
  have rest: "rest = replicate (128 - (?m + ?n)) 0 @ [0]"
    using assms(2) by (simp add: rest_def replicate_append_same flip: replicate_Suc)
  have line: "cmdline_str mrl = l @ r @ replicate ?n 0 @ rest"
    using f(7) zeros_split [of ?n "129 - ?m"] le_diff_conv2 [of ?m 129 ?n] assms(2) by (simp add: rest_def add.commute)
  have 1: "mem_move (cmdline_str mrl) (length l + ?n) (length l) (length r) = Inr (l @ take ?n (r @ replicate ?n 0) @ r @ rest)"
    unfolding line using mem_move_right [of "length l + ?n" l "replicate ?n 0" "length l" "length r" r rest] by simp
  have 2: "mem_put (l @ take ?n (r @ replicate ?n 0) @ r @ rest) (length l) str = Inr (l @ str @ r @ rest)"
    by (rule mem_put_app) simp_all
  have 3: "mem_set (l @ str @ r @ rest) (?m + ?n) 0 (128 - (?m + ?n)) = Inr (l @ str @ r @ rest)"
    using mem_set_app [of "?m + ?n" "l @ str @ r" "128 - (?m + ?n)" "replicate (128 - (?m + ?n)) 0" "[0]" 0]
    by (simp add: rest)
  show ?thesis
    using f(1-4) assms(2) 1 2 3
    by (simp add: prv_cmdline_buf_insert_text_def Let_def place_def rest_def add.commute add.left_commute)
qed

lemma backspace_line:
  assumes "on_line (l @ [c]) r mrl"
  shows "prv_cmdline_buf_backspace 1 mrl = Inr (place l r mrl)"
proof -
  note f = on_line_fields [OF assms]
  define rest where "rest = replicate (127 - (length l + length r)) (0 :: u8)"
  have line: "cmdline_str mrl = l @ [c] @ (r @ [0]) @ rest"
    using f(4,7) by (simp add: rest_def flip: replicate_Suc)
  have 1: "mem_move (cmdline_str mrl) (length l) (length l + 1) (length r + 1) = Inr (l @ r @ [0, 0] @ rest)"
    unfolding line using mem_move_left [of "length l" l "length l + 1" "[c]" "length r + 1" "r @ [0]" rest] by simp
  have 2: "mem_put (l @ r @ [0, 0] @ rest) (length l + length r + 1) [0] = Inr (l @ r @ [0, 0] @ rest)"
    using mem_put_app [of "[0]" "[0]" "length l + length r + 1" "l @ r @ [0]" rest] by simp
  have 3: "[0, 0] @ rest = replicate (129 - (length l + length r)) 0"
    using f(4) by (simp add: rest_def flip: replicate_Suc)
  show ?thesis
    using f(1-4) 1 2 unfolding prv_cmdline_buf_backspace_def place_def 3 [symmetric]
    by (simp add: add.commute add.left_commute)
qed

lemma delete_line:
  assumes "on_line l (c # r) mrl" and "length l + length r < 127"
  shows "prv_cmdline_buf_delete mrl = Inr (place l r mrl)"
proof -
  note f = on_line_fields [OF assms(1)]
  define rest where "rest = replicate (126 - (length l + length r)) (0 :: u8)"
  have line: "cmdline_str mrl = l @ [c] @ (r @ [0, 0]) @ rest"
    using assms(2) f(7) by (simp add: rest_def flip: replicate_Suc)
  have 1: "mem_move (cmdline_str mrl) (length l) (length l + 1) (length r + 2) = Inr (l @ r @ [0, 0, 0] @ rest)"
    unfolding line using mem_move_left [of "length l" l "length l + 1" "[c]" "length r + 2" "r @ [0, 0]" rest] by simp
  have 2: "mem_put (l @ r @ [0, 0, 0] @ rest) (length l + length r + 1) [0] = Inr (l @ r @ [0, 0, 0] @ rest)"
    using mem_put_app [of "[0]" "[0]" "length l + length r + 1" "l @ r @ [0]" "0 # rest"] by simp
  have 3: "[0, 0, 0] @ rest = replicate (129 - (length l + length r)) 0"
    using assms(2) by (simp add: rest_def flip: replicate_Suc)
  show ?thesis
    using f(1-4) 1 2 unfolding prv_cmdline_buf_delete_def place_def 3 [symmetric]
    by (simp add: add.commute add.left_commute)
qed

text \<open>The edges: a full line, and a line that is cut in its second half.\<close>

lemma delete_full_line: "on_line l (c # r) mrl \<Longrightarrow> length l + length r = 127 \<Longrightarrow> prv_cmdline_buf_delete mrl = Inl UB"
  using on_line_fields [of l "c # r" mrl] by (simp add: prv_cmdline_buf_delete_def mem_move_def)

lemma kill_line_overreads:
  "on_line l r mrl \<Longrightarrow> 129 < 2 * length l + length r \<Longrightarrow> prv_cmdline_buf_backspace (length l) mrl = Inl UB"
  using on_line_fields [of l r mrl] by (simp add: prv_cmdline_buf_backspace_def mem_move_def)

section \<open>Keys\<close>

text \<open>What a key does to a line, for the keys that edit it in place and the printable bytes.\<close>

definition edit_key :: "u8 \<Rightarrow> u8 list \<times> u8 list \<Rightarrow> u8 list \<times> u8 list" where
  "edit_key ch z =
     (case z of (l, r) \<Rightarrow>
        if ch = 0x7f \<or> ch = 0x08 then (butlast l, r)
        else if ch = 0x04 then (l, tl r)
        else if ch = 0x01 then ([], l @ r)
        else if ch = 0x05 then (l @ r, [])
        else if ch = 0x06 then (l @ take 1 r, tl r)
        else if ch = 0x02 then (butlast l, (if l = [] then r else last l # r))
        else (l @ [ch], r))"

text \<open>The keys that edit: printable bytes, and the control keys above.\<close>

definition edits :: "u8 \<Rightarrow> bool" where
  "edits ch \<longleftrightarrow> \<not> is_control_char ch \<or> ch \<in> {0x7f, 0x08, 0x04, 0x01, 0x05, 0x06, 0x02}"

text \<open>
  The keys at which the rest of the input is given up, with the result: a space on an empty line, and a
  printable byte on a full one. Delete with the cursor inside a full line is undefined.
\<close>

definition edit_stop :: "u8 \<Rightarrow> u8 list \<times> u8 list \<Rightarrow> microrlr res option" where
  "edit_stop ch z =
     (if ch = 32 \<and> z = ([], []) then Some (Inr microrlOK)
      else if length (fst z) + length (snd z) < 128 then None
      else if \<not> is_control_char ch then Some (Inr microrlERRCLFULL)
      else if ch = 0x04 \<and> snd z \<noteq> [] then Some (Inl UB)
      else None)"

text \<open>The result of the keys and the line after them.\<close>

fun edit_keys :: "u8 list \<Rightarrow> u8 list \<times> u8 list \<Rightarrow> (microrlr \<times> u8 list \<times> u8 list) res" where
  "edit_keys [] z = Inr (microrlOK, z)"
| "edit_keys (ch # keys) z =
     (case edit_stop ch z of
        None \<Rightarrow> edit_keys keys (edit_key ch z)
      | Some stop \<Rightarrow> bindR stop (\<lambda>res. Inr (res, z)))"

text \<open>The line after the keys if none of them ends the input.\<close>

fun edit_through :: "u8 list \<Rightarrow> u8 list \<times> u8 list \<Rightarrow> (u8 list \<times> u8 list) option" where
  "edit_through [] z = Some z"
| "edit_through (ch # keys) z = (if edits ch \<and> edit_stop ch z = None then edit_through keys (edit_key ch z) else None)"

text \<open>What editing leaves alone.\<close>

definition same_session :: "microrl \<Rightarrow> microrl \<Rightarrow> bool" where
  "same_session mrl mrl' \<longleftrightarrow> ring_hist mrl' = ring_hist mrl \<and> prompt_ptr mrl' = prompt_ptr mrl
     \<and> prompt_size mrl' = prompt_size mrl \<and> escape mrl' = escape mrl \<and> last_endl mrl' = last_endl mrl"

lemma same_session_simps [simp]:
  "same_session mrl mrl" "same_session mrl (out_fn str mrl') = same_session mrl mrl'"
  "same_session mrl (place l r mrl') = same_session mrl mrl'" "same_session mrl (mrl'\<lparr>mrl_cursor := n\<rparr>) = same_session mrl mrl'"
  "same_session (place l r mrl) mrl' = same_session mrl mrl'"
  by (simp_all add: same_session_def out_fn_def)

lemma same_session_trans: "same_session a b \<Longrightarrow> same_session b c \<Longrightarrow> same_session a c"
  by (simp add: same_session_def)

lemma redraw_line:
  assumes "on_line l r mrl" and "pos \<le> length l + length r"
  shows "\<exists>mrl'. prv_terminal_print_line pos reset mrl = Inr mrl' \<and> on_line l r mrl' \<and> same_session mrl mrl'"
  using assms by (simp add: print_line_prints)

lemma insert_key:
  assumes "on_line l r mrl" and "length l + length r < 128" and "ch \<noteq> 0"
  shows "\<exists>mrl'. prv_insert_char ch mrl = Inr (microrlOK, mrl') \<and> on_line (l @ [ch]) r mrl' \<and> same_session mrl mrl'"
proof -
  have ins: "prv_cmdline_buf_insert_text [ch] mrl = Inr (microrlOK, place (l @ [ch]) r mrl)"
    by (rule insert_text_line [OF assms(1)]) (use assms(2) in simp)
  have "on_line (l @ [ch]) r (place (l @ [ch]) r mrl)"
    by (rule on_line_place) (use on_line_fields(5,6) [OF assms(1)] assms(2,3) in auto)
  then show ?thesis
    using ins redraw_line [of "l @ [ch]" r "place (l @ [ch]) r mrl" "length l" False] by (cases "r = []") (auto simp: prv_insert_char_def)
qed

lemma delete_key:
  assumes "on_line l r mrl" and "length l + length r < 128 \<or> r = []"
  shows "\<exists>mrl'. delete_at_cursor mrl = Inr mrl' \<and> on_line l (tl r) mrl' \<and> same_session mrl mrl'"
proof (cases r)
  case Nil
  then have "prv_cmdline_buf_delete mrl = Inr mrl" using on_line_fields(1,2) [OF assms(1)] by (simp add: prv_cmdline_buf_delete_def)
  then show ?thesis using redraw_line [OF assms(1)] Nil on_line_fields(1) [OF assms(1)] by (simp add: delete_at_cursor_def)
next
  case (Cons c r')
  have del: "prv_cmdline_buf_delete mrl = Inr (place l r' mrl)"
    by (rule delete_line) (use assms Cons in auto)
  have "on_line l r' (place l r' mrl)" using on_line_fields(4-6) [OF assms(1)] Cons by (intro on_line_place) auto
  then show ?thesis using del Cons redraw_line [of l r' "place l r' mrl" "length l" False] by (auto simp: delete_at_cursor_def)
qed

lemma rubout_key:
  assumes "on_line (l @ [c]) r mrl"
  shows "\<exists>mrl'. bindR (prv_cmdline_buf_backspace 1 mrl) (\<lambda>mrl.
      if mrl_cursor mrl = cmdlen mrl then Inr (microrlOK, prv_terminal_backspace mrl)
      else bindR (prv_terminal_print_line (mrl_cursor mrl) True mrl) (\<lambda>mrl. Inr (microrlOK, mrl))) = Inr (microrlOK, mrl')
    \<and> on_line l r mrl' \<and> same_session mrl mrl'"
proof -
  have "on_line l r (place l r mrl)" using on_line_fields(4-6) [OF assms] by (intro on_line_place) auto
  then show ?thesis
    using backspace_line [OF assms] redraw_line [of l r "place l r mrl" "length l" True]
    by (cases "r = []") (auto simp: prv_terminal_backspace_def)
qed

lemma moved_line:
  assumes "on_line l r mrl" and "l' @ r' = l @ r"
  shows "on_line l' r' ((prv_terminal_move_cursor i mrl)\<lparr>mrl_cursor := length l'\<rparr>)"
    and "same_session mrl ((prv_terminal_move_cursor i mrl)\<lparr>mrl_cursor := length l'\<rparr>)"
proof -
  have "length l' + length r' = length l + length r" "set l' \<union> set r' = set l \<union> set r"
    using arg_cong [OF assms(2), of length] arg_cong [OF assms(2), of set] by simp_all
  moreover have "cmdline_str mrl = l' @ r' @ replicate (129 - (length l' + length r')) 0"
    using on_line_fields(7) [OF assms(1)] assms(2) calculation(1) by (metis append_assoc)
  ultimately show "on_line l' r' ((prv_terminal_move_cursor i mrl)\<lparr>mrl_cursor := length l'\<rparr>)"
    using assms(1) by (auto simp: on_line_def prv_terminal_move_cursor_def out_fn_def)
  show "same_session mrl ((prv_terminal_move_cursor i mrl)\<lparr>mrl_cursor := length l'\<rparr>)"
    by (simp add: prv_terminal_move_cursor_def)
qed

lemma move_keys:
  assumes "on_line l r mrl"
  shows "on_line [] (l @ r) (move_home mrl) \<and> same_session mrl (move_home mrl)"
    and "on_line (l @ r) [] (move_end mrl) \<and> same_session mrl (move_end mrl)"
    and "on_line (l @ take 1 r) (tl r) (move_right mrl) \<and> same_session mrl (move_right mrl)"
    and "on_line (butlast l) (if l = [] then r else last l # r) (move_left mrl) \<and> same_session mrl (move_left mrl)"
proof -
  note f = on_line_fields [OF assms]
  note m = moved_line [OF assms]
  show "on_line [] (l @ r) (move_home mrl) \<and> same_session mrl (move_home mrl)"
    using m [of "[]" "l @ r"] by (simp add: move_home_def)
  show "on_line (l @ r) [] (move_end mrl) \<and> same_session mrl (move_end mrl)"
    using m [of "l @ r" "[]"] f(2) by (simp add: move_end_def)
  show "on_line (l @ take 1 r) (tl r) (move_right mrl) \<and> same_session mrl (move_right mrl)"
    using m [of "l @ take 1 r" "tl r"] f(1,2) assms by (cases r) (simp_all add: move_right_def)
  show "on_line (butlast l) (if l = [] then r else last l # r) (move_left mrl) \<and> same_session mrl (move_left mrl)"
    using m [of "butlast l" "last l # r"] f(1) assms by (cases l rule: rev_cases) (simp_all add: move_left_def)
qed

lemma control_key:
  assumes "on_line l r mrl" and "ch \<in> {0x7f, 0x08, 0x04, 0x01, 0x05, 0x06, 0x02}"
    and "ch = 0x04 \<longrightarrow> length l + length r < 128 \<or> r = []"
  shows "\<exists>mrl'. prv_control_char_process F ch mrl = Inr (microrlOK, mrl')
    \<and> on_line (fst (edit_key ch (l, r))) (snd (edit_key ch (l, r))) mrl' \<and> same_session mrl mrl'"
proof -
  have rub: ?thesis if "ch = 0x7f \<or> ch = 0x08"
  proof (cases l rule: rev_cases)
    case Nil
    then show ?thesis
      using that assms(1) on_line_fields(1) [OF assms(1)] by (auto simp: prv_control_char_process_def edit_key_def)
  next
    case (snoc l' c)
    then show ?thesis
      using that rubout_key [of l' c r mrl] assms(1) on_line_fields(1) [OF assms(1)]
      by (auto simp: prv_control_char_process_def edit_key_def)
  qed
  have del: ?thesis if "ch = 0x04"
    using that delete_key [OF assms(1) assms(3) [rule_format, OF that]] by (auto simp: prv_control_char_process_def edit_key_def)
  show ?thesis
    using assms(2) rub del move_keys [OF assms(1)] by (auto simp: prv_control_char_process_def edit_key_def)
qed

text \<open>A key of the input in front of the loop.\<close>

lemma process_key:
  assumes "on_line l r mrl" and "\<not> escape mrl" and "edits ch" and "edit_stop ch (l, r) = None"
  shows "\<exists>mrl'. process_chars F (ch # input) mrl s = process_chars F input mrl' s
    \<and> on_line (fst (edit_key ch (l, r))) (snd (edit_key ch (l, r))) mrl' \<and> same_session (mrl\<lparr>last_endl := 0\<rparr>) mrl'"
proof -
  let ?m = "mrl\<lparr>last_endl := 0\<rparr>"
  have endl: "ch \<noteq> 0x0d" "ch \<noteq> 0x0a" using assms(3) by (auto simp: edits_def is_control_char_def)
  have m: "on_line l r ?m" using assms(1) by simp
  show ?thesis
  proof (cases "is_control_char ch")
    case True
    then have k: "ch \<in> {0x7f, 0x08, 0x04, 0x01, 0x05, 0x06, 0x02}" using assms(3) by (simp add: edits_def)
    have "ch = 0x04 \<longrightarrow> length l + length r < 128 \<or> r = []" using assms(4) True by (auto simp: edit_stop_def split: if_splits)
    from control_key [OF m k this] obtain mrl' where "prv_control_char_process F ch ?m = Inr (microrlOK, mrl')"
      "on_line (fst (edit_key ch (l, r))) (snd (edit_key ch (l, r))) mrl'" "same_session ?m mrl'" by blast
    then show ?thesis using assms(2) endl True by (auto simp: Let_def)
  next
    case False
    then have nz: "ch \<noteq> 0" "ch \<noteq> 0x7f" "ch \<notin> {0x08, 0x04, 0x01, 0x05, 0x06, 0x02}" by (auto simp: is_control_char_def)
    then have key: "edit_key ch (l, r) = (l @ [ch], r)" by (simp add: edit_key_def)
    have room: "length l + length r < 128" "\<not> (ch = 32 \<and> l = [] \<and> r = [])"
      using assms(4) False by (auto simp: edit_stop_def split: if_splits)
    from insert_key [OF m room(1) nz(1)] obtain mrl' where "prv_insert_char ch ?m = Inr (microrlOK, mrl')"
      "on_line (l @ [ch]) r mrl'" "same_session ?m mrl'" by blast
    then show ?thesis using assms(2) room(2) endl False on_line_fields(2) [OF assms(1)] unfolding key by (auto simp: Let_def)
  qed
qed

text \<open>A key that ends the input.\<close>

lemma process_stop:
  assumes "on_line l r mrl" and "\<not> escape mrl" and "edits ch" and "edit_stop ch (l, r) = Some stop"
  shows "process_chars F (ch # input) mrl s = bindR stop (\<lambda>res. Inr (res, mrl\<lparr>last_endl := 0\<rparr>, s))"
proof -
  let ?m = "mrl\<lparr>last_endl := 0\<rparr>"
  have endl: "ch \<noteq> 0x0d" "ch \<noteq> 0x0a" using assms(3) by (auto simp: edits_def is_control_char_def)
  have m: "on_line l r ?m" using assms(1) by simp
  note f = on_line_fields [OF m]
  consider (space) "ch = 32" "l = []" "r = []" "stop = Inr microrlOK"
    | (full) "length l + length r = 128" "\<not> is_control_char ch" "stop = Inr microrlERRCLFULL"
    | (delete) c r' where "length l + length r = 128" "ch = 0x04" "r = c # r'" "stop = Inl UB"
    using assms(4) f(4) by (cases r) (auto simp: edit_stop_def split: if_splits)
  then show ?thesis
  proof cases
    case space
    then show ?thesis using assms(2) f(2) by (simp add: is_control_char_def Let_def)
  next
    case full
    then have "l @ r \<noteq> []" by auto
    moreover have "prv_insert_char ch ?m = Inr (microrlERRCLFULL, ?m)"
      using full f(1-4,7) by (simp add: prv_insert_char_def prv_cmdline_buf_insert_text_def Let_def)
    ultimately show ?thesis using assms(2) endl full f(2) by (auto simp: Let_def)
  next
    case delete
    then have "prv_cmdline_buf_delete ?m = Inl UB" using m by (intro delete_full_line [of l c r']) simp_all
    then have "prv_control_char_process F ch ?m = Inl UB"
      using delete by (simp add: prv_control_char_process_def delete_at_cursor_def)
    then show ?thesis using assms(2) delete by (simp add: is_control_char_def Let_def)
  qed
qed

text \<open>The editor refines the editing of a line with a cursor.\<close>

lemma process_edited:
  "on_line l r mrl \<Longrightarrow> \<not> escape mrl \<Longrightarrow> \<forall>ch \<in> set keys. edits ch \<Longrightarrow>
    (case edit_keys keys (l, r) of
       Inl e \<Rightarrow> process_chars F keys mrl s = Inl e
     | Inr (res, l', r') \<Rightarrow> \<exists>m. process_chars F keys mrl s = Inr (res, m, s) \<and> on_line l' r' m \<and> \<not> escape m
          \<and> ring_hist m = ring_hist mrl)"
proof (induction keys arbitrary: l r mrl)
  case (Cons ch keys)
  show ?case
  proof (cases "edit_stop ch (l, r)")
    case None
    obtain l1 r1 where key: "edit_key ch (l, r) = (l1, r1)" by fastforce
    obtain m where m: "process_chars F (ch # keys) mrl s = process_chars F keys m s" "on_line l1 r1 m"
      "same_session (mrl\<lparr>last_endl := 0\<rparr>) m"
      using process_key [OF Cons.prems(1,2) _ None, of F keys s] Cons.prems(3) key by auto
    then have "\<not> escape m" "ring_hist m = ring_hist mrl" using Cons.prems(2) by (simp_all add: same_session_def)
    with Cons.IH [OF m(2) this(1)] Cons.prems(3) m(1) show ?thesis
      by (simp add: None key del: process_chars.simps split: sum.splits prod.splits)
  next
    case (Some stop)
    have "on_line l r (mrl\<lparr>last_endl := 0\<rparr>)" using Cons.prems(1) by simp
    then show ?thesis using process_stop [OF Cons.prems(1,2) _ Some, of F keys s] Cons.prems(2,3) Some
      by (cases stop) (simp_all del: process_chars.simps)
  qed
qed simp

lemma process_edit_keys:
  "on_line l r mrl \<Longrightarrow> \<not> escape mrl \<Longrightarrow> edit_through keys (l, r) = Some (l', r')
    \<Longrightarrow> \<exists>mrl'. process_chars F (keys @ input) mrl s = process_chars F input mrl' s \<and> on_line l' r' mrl'
      \<and> same_session (if keys = [] then mrl else mrl\<lparr>last_endl := 0\<rparr>) mrl'"
proof (induction keys arbitrary: l r mrl)
  case (Cons ch keys)
  obtain l1 r1 where key: "edit_key ch (l, r) = (l1, r1)" by fastforce
  have ok: "edits ch" "edit_stop ch (l, r) = None" "edit_through keys (l1, r1) = Some (l', r')"
    using Cons.prems(3) key by (auto split: if_split_asm)
  obtain m where m: "process_chars F (ch # keys @ input) mrl s = process_chars F (keys @ input) m s" "on_line l1 r1 m"
    "same_session (mrl\<lparr>last_endl := 0\<rparr>) m"
    using process_key [OF Cons.prems(1,2) ok(1,2), of F "keys @ input" s] key by auto
  have "\<not> escape m" using m(3) Cons.prems(2) by (simp add: same_session_def)
  from Cons.IH [OF m(2) this ok(3)] show ?case
    using m by (cases "keys = []") (auto simp: same_session_def)
qed auto

text \<open>A line of printable bytes.\<close>

definition plain_line :: "u8 list \<Rightarrow> bool" where
  "plain_line line \<longleftrightarrow> line \<noteq> [] \<and> hd line \<noteq> 32 \<and> (\<forall>c \<in> set line. \<not> is_control_char c)"

lemma edit_through_printable:
  "\<forall>c \<in> set line. \<not> is_control_char c \<Longrightarrow> l \<noteq> [] \<Longrightarrow> length l + length line \<le> 128 \<Longrightarrow> edit_through line (l, []) = Some (l @ line, [])"
proof (induction line arbitrary: l)
  case (Cons c line)
  have "edit_key c (l, []) = (l @ [c], [])" using Cons.prems(1) by (auto simp: edit_key_def is_control_char_def)
  then show ?case using Cons by (simp add: edits_def edit_stop_def)
qed simp

lemma edit_through_plain: "plain_line line \<Longrightarrow> length line \<le> 128 \<Longrightarrow> edit_through line ([], []) = Some (line, [])"
proof (cases line)
  case (Cons c line')
  assume plain: "plain_line line" "length line \<le> 128"
  then have "edit_key c ([], []) = ([c], [])" using Cons by (auto simp: edit_key_def is_control_char_def plain_line_def)
  then show ?thesis using plain Cons edit_through_printable [of line' "[c]"] by (simp add: plain_line_def edits_def edit_stop_def)
qed (simp add: plain_line_def)

end
