(* ===== verification/Microrl_Browse.thy ===== *)
theory Microrl_Browse
  imports Microrl_Editing Microrl_Invariant
begin

text \<open>
  The history of the line editor as a list of records, as long as all of them fit: what is found in it, and what is added.
\<close>

section \<open>The records\<close>

definition ring :: "u8 list list \<Rightarrow> u8 list" where
  "ring recs = concat (map (\<lambda>x. 0 # x) recs)"

lemma ring_simps [simp]: "ring [] = []" "ring (x # recs) = 0 # x @ ring recs" "ring (recs @ recs') = ring recs @ ring recs'"
  by (simp_all add: ring_def)

text \<open>The records from the oldest to the latest; the place behind the last one is marked by a zero too.\<close>

definition holds_records :: "microrl_hist_rbuf \<Rightarrow> u8 list list \<Rightarrow> bool" where
  "holds_records r recs \<longleftrightarrow>
     ring_buf r = ring recs @ replicate (128 - length (ring recs)) 0 \<and> length (ring recs) < 128
     \<and> hist_head r = 0 \<and> hist_tail r = length (ring recs) \<and> hist_count r \<le> length recs \<and> (\<forall>x \<in> set recs. 0 \<notin> set x)"

lemma holds_records_buf:
  assumes "holds_records r recs"
  shows "length (ring_buf r) = 128" and "\<exists>post. ring_buf r = ring recs @ 0 # post"
proof -
  have "length (ring recs) < 128" using assms by (simp add: holds_records_def)
  then have "128 - length (ring recs) = Suc (127 - length (ring recs))" by linarith
  then show "\<exists>post. ring_buf r = ring recs @ 0 # post"
    using assms by (simp add: holds_records_def)
qed (use assms in \<open>simp add: holds_records_def\<close>)

lemma holds_records_count [simp]: "n \<le> length recs \<Longrightarrow> holds_records r recs \<Longrightarrow> holds_records (r\<lparr>hist_count := n\<rparr>) recs"
  by (simp add: holds_records_def)

lemma next_record_found:
  "0 \<notin> set x \<Longrightarrow> idx + 1 = length pre \<Longrightarrow> prv_hist_next_record (pre @ x @ 0 # post) idx = Inr (length pre + length x)"
proof (induction x arbitrary: pre idx)
  case Nil
  then show ?case by (simp add: prv_hist_next_record.simps [of _ idx])
next
  case (Cons c x)
  have "(pre @ (c # x) @ 0 # post) ! (idx + 1) = c" using Cons.prems(2) by (simp add: nth_append)
  then show ?case
    using Cons.IH [where pre = "pre @ [c]" and idx = "idx + 1"] Cons.prems by (simp add: prv_hist_next_record.simps [of _ idx])
qed

lemma records_counted:
  "\<forall>x \<in> set recs. 0 \<notin> set x \<Longrightarrow> hist_records (pre @ ring recs @ 0 # post) (length pre + length (ring recs)) (length pre) = Inr (length recs)"
proof (induction recs arbitrary: pre)
  case Nil
  then show ?case by (simp add: hist_records.simps [of _ _ "length pre"])
next
  case (Cons x recs)
  obtain z where z: "ring recs @ 0 # post = 0 # z" by (cases recs) auto
  have "prv_hist_next_record (pre @ ring (x # recs) @ 0 # post) (length pre) = Inr (length pre + 1 + length x)"
    using next_record_found [of x "length pre" "pre @ [0]" z] Cons.prems z by simp
  then show ?case
    using Cons.IH [of "pre @ 0 # x"] Cons.prems by (simp add: hist_records.simps [of _ _ "length pre"] add.commute add.left_commute)
qed

lemma records_skipped:
  "\<forall>x \<in> set recs. 0 \<notin> set x \<Longrightarrow> k \<le> length recs \<Longrightarrow>
    hist_skip k (pre @ ring recs @ 0 # post) (length pre) = Inr (length pre + length (ring (take k recs)))"
proof (induction k arbitrary: recs pre)
  case (Suc k)
  then obtain x rest where recs: "recs = x # rest" by (cases recs) auto
  obtain z where z: "ring rest @ 0 # post = 0 # z" by (cases rest) auto
  have "prv_hist_next_record (pre @ ring recs @ 0 # post) (length pre) = Inr (length pre + 1 + length x)"
    using next_record_found [of x "length pre" "pre @ [0]" z] Suc.prems recs z by simp
  then show ?case using Suc.IH [of rest "pre @ 0 # x"] Suc.prems recs by (simp add: add.commute add.left_commute)
qed simp

lemma record_measured:
  "0 \<notin> set x \<Longrightarrow> length x < n \<Longrightarrow> hist_record_len n (pre @ x @ 0 # post) (length pre) = Inr (length x)"
proof (induction x arbitrary: n pre)
  case Nil
  then show ?case by (cases n) auto
next
  case (Cons c x)
  obtain m where n: "n = Suc m" using Cons.prems(2) by (cases n) auto
  then show ?case using Cons.IH [of m "pre @ [c]"] Cons.prems by (simp add: nth_append)
qed

section \<open>Finding a record\<close>

text \<open>The record at a place of the navigation counter, which counts from the latest.\<close>

definition hist_entry :: "u8 list list \<Rightarrow> nat \<Rightarrow> u8 list" where
  "hist_entry recs n = (if n = 0 then [] else recs ! (length recs - n))"

lemma hist_entry_split:
  assumes "0 < n" and "n \<le> length recs"
  shows "recs = take (length recs - n) recs @ hist_entry recs n # drop (Suc (length recs - n)) recs"
    and "hist_entry recs n \<in> set recs"
  using assms id_take_nth_drop [of "length recs - n" recs] by (simp_all add: hist_entry_def)

lemma entry_shorter: "0 < n \<Longrightarrow> n \<le> length recs \<Longrightarrow> length (hist_entry recs n) < length (ring recs)"
  using arg_cong [OF hist_entry_split(1) [of n recs], of "\<lambda>rs. length (ring rs)"] by simp

lemma length_entry: "n \<le> length recs \<Longrightarrow> length (hist_entry recs n) \<le> length (ring recs)"
  using entry_shorter [of n recs] by (cases "n = 0") (auto simp: hist_entry_def)

lemma copy_record:
  assumes "length line = 129" and "length pre + length x < 128" and "length (pre @ x @ post) = 128"
  shows "hist_copy_line (pre @ x @ post) (length pre) (length x) line = Inr (x @ replicate (128 - length x) 0 @ drop 128 line)"
proof -
  define n where "n = (128 :: nat)"
  have n: "MICRORL_CFG_CMDLINE_LEN = n" "n \<le> length line" "length x \<le> n"
    using assms(1,2) by (simp_all add: n_def MICRORL_CFG_CMDLINE_LEN_def)
  then have set: "mem_set line 0 0 n = Inr (replicate n 0 @ drop n line)" by (simp add: mem_set_def)
  have "mem_put (replicate n 0 @ drop n line) 0 x = Inr (x @ replicate (n - length x) 0 @ drop n line)"
    using mem_put_app [of x "replicate (length x) 0" 0 "[]"] zeros_split [OF n(3)] by simp
  then show ?thesis using set assms(2,3) by (simp add: hist_copy_line_def n(1)) (simp add: n_def)
qed

lemma restore_record:
  assumes "holds_records r recs" and "length line = 129" and "hist_navigate (length recs) (hist_count r) dir = (Some n, c)"
    and "n \<le> length recs" and "n = 0 \<longrightarrow> recs = []"
  shows "prv_hist_restore_line dir line r = Inr (Some (length (hist_entry recs n)),
    hist_entry recs n @ replicate (128 - length (hist_entry recs n)) 0 @ drop 128 line, r\<lparr>hist_count := c\<rparr>)"
proof -
  let ?x = "hist_entry recs n" and ?pre = "ring (take (length recs - n) recs)"
  obtain post where post: "ring_buf r = ring recs @ 0 # post" using holds_records_buf(2) [OF assms(1)] by blast
  have len: "length (ring_buf r) = 128" using holds_records_buf(1) [OF assms(1)] .
  have nz: "\<forall>x \<in> set recs. 0 \<notin> set x" using assms(1) by (simp add: holds_records_def)
  have fields: "hist_head r = 0" "hist_tail r = length (ring recs)" "length (ring recs) < 128" using assms(1) by (simp_all add: holds_records_def)
  have cnt: "hist_records (ring_buf r) (hist_tail r) (hist_head r) = Inr (length recs)"
    using records_counted [OF nz, of "[]" post] fields post by simp
  have skip: "hist_skip (length recs - n) (ring_buf r) (hist_head r) = Inr (length ?pre)"
    using records_skipped [OF nz, of "length recs - n" "[]" post] fields post by simp
  obtain z where z: "ring_buf r = (?pre @ [0]) @ ?x @ 0 # z" and nzx: "0 \<notin> set ?x"
  proof (cases "n = 0")
    case True
    then have "ring_buf r = replicate 128 0" using assms(1,5) unfolding holds_records_def by simp
    moreover have "replicate (Suc (Suc 126)) 0 = 0 # 0 # replicate 126 (0 :: u8)" by (simp only: replicate_Suc)
    ultimately have "ring_buf r = 0 # 0 # replicate 126 0" by simp
    then show thesis using that [of "replicate 126 0"] True assms(5) by (simp add: hist_entry_def)
  next
    case False
    obtain w where w: "ring (drop (Suc (length recs - n)) recs) @ 0 # post = 0 # w"
      by (cases "drop (Suc (length recs - n)) recs") auto
    have "ring recs = ?pre @ 0 # ?x @ ring (drop (Suc (length recs - n)) recs)"
      using arg_cong [OF hist_entry_split(1) [OF _ assms(4)], of ring] False by simp
    then show thesis using that [of w] w post nz hist_entry_split(2) [OF _ assms(4)] False by auto
  qed
  have bound: "length (?pre @ [0]) + length ?x < 128" using len unfolding z by simp
  have rec_len: "hist_record_len (length (ring_buf r) + 1) (ring_buf r) (length ?pre + 1) = Inr (length ?x)"
    using record_measured [OF nzx, of "length (ring_buf r) + 1" "?pre @ [0]" z] bound len unfolding z [symmetric] by simp
  have copy: "hist_copy_line (ring_buf r) (length ?pre + 1) (length ?x) line = Inr (?x @ replicate (128 - length ?x) 0 @ drop 128 line)"
    using copy_record [OF assms(2) bound, of "0 # z"] len unfolding z [symmetric] by simp
  show ?thesis using cnt assms(3,4) skip rec_len copy by (simp add: prv_hist_restore_line_def del: hist_record_len.simps)
qed

section \<open>Browsing\<close>

definition browse_step :: "u8 list list \<Rightarrow> microrl_hist_dir \<Rightarrow> nat \<Rightarrow> nat" where
  "browse_step recs dir n =
     (case dir of MICRORL_HIST_DIR_UP \<Rightarrow> min (n + 1) (length recs) | MICRORL_HIST_DIR_DOWN \<Rightarrow> n - 1 | MICRORL_HIST_DIR_NONE \<Rightarrow> n)"

lemma cleared_line:
  assumes "length line = 129" and "line ! 128 = 0" and "k \<le> 128"
  shows "mem_set line k 0 (length line - 1 - k) = Inr (take k line @ replicate (129 - k) 0)"
proof -
  have "drop 128 line = [0]" using assms(1,2) by (metis Cons_nth_drop_Suc drop_all lessI less_eq_Suc_le numeral_eq_Suc pred_numeral_simps(2,3) BitM.simps order_refl)
  moreover have "129 - k = Suc (128 - k)" using assms(3) by linarith
  ultimately show ?thesis using assms(1,3) by (simp add: mem_set_def replicate_append_same flip: replicate_Suc)
qed

lemma search_finds:
  assumes "on_line l r mrl" and "holds_records (ring_hist mrl) recs" and "dir \<noteq> MICRORL_HIST_DIR_NONE"
    and "n = browse_step recs dir (hist_count (ring_hist mrl))"
  shows "\<exists>mrl'. prv_hist_search dir mrl = Inr mrl' \<and> on_line (hist_entry recs n) [] mrl'
    \<and> same_session (mrl\<lparr>ring_hist := ring_hist mrl\<lparr>hist_count := n\<rparr>\<rparr>) mrl'"
proof -
  let ?x = "hist_entry recs n" and ?c = "hist_count (ring_hist mrl)" and ?line = "cmdline_str mrl"
  have c: "?c \<le> length recs" "length (ring recs) < 128" "\<forall>x \<in> set recs. 0 \<notin> set x"
    using assms(2) by (simp_all add: holds_records_def)
  have line: "length ?line = 129" "?line ! 128 = 0" using assms(1) by (auto simp: on_line_def nth_append)
  have n: "n \<le> length recs" using c(1) assms(4) by (cases dir) (auto simp: browse_step_def)
  then have x: "length ?x < 128" "0 \<notin> set ?x"
    using length_entry [OF n] c hist_entry_split(2) [OF _ n] by (auto simp: hist_entry_def)
  obtain found line' where restored: "prv_hist_restore_line dir ?line (ring_hist mrl) = Inr (found, line', ring_hist mrl\<lparr>hist_count := n\<rparr>)"
    and len: "(case found of None \<Rightarrow> 0 | Some m \<Rightarrow> m) = length ?x" and line': "take (length ?x) line' = ?x" "length line' = 129" "line' ! 128 = 0"
  proof (cases "dir = MICRORL_HIST_DIR_DOWN \<and> ?c \<le> 1")
    case True
    then have "n = 0" "hist_navigate (length recs) ?c dir = (None, 0)" using assms(4) by (auto simp: browse_step_def hist_navigate_def)
    moreover obtain post where "ring_buf (ring_hist mrl) = ring recs @ 0 # post" using holds_records_buf(2) [OF assms(2)] by blast
    then have "hist_records (ring_buf (ring_hist mrl)) (hist_tail (ring_hist mrl)) (hist_head (ring_hist mrl)) = Inr (length recs)"
      using records_counted [OF c(3), of "[]" post] assms(2) by (simp add: holds_records_def)
    ultimately show thesis using that [of None ?line] line by (simp add: prv_hist_restore_line_def hist_entry_def)
  next
    case False
    then have nav: "hist_navigate (length recs) ?c dir = (Some n, n) \<and> (n = 0 \<longrightarrow> recs = [])"
    proof (cases dir)
      case MICRORL_HIST_DIR_UP
      then show ?thesis using c(1) assms(4) by (auto simp: browse_step_def hist_navigate_def min_def)
    next
      case MICRORL_HIST_DIR_DOWN
      then have "\<not> ?c \<le> 1" using False by simp
      then show ?thesis using MICRORL_HIST_DIR_DOWN assms(4) by (simp add: browse_step_def hist_navigate_def)
    qed (use assms(3) in simp)
    note restored = restore_record [OF assms(2) line(1) conjunct1 [OF nav] n conjunct2 [OF nav]]
    define k where "k = 128 - length ?x"
    have k: "length (?x @ replicate k 0) = 128" using x(1) by (simp add: k_def)
    have last: "(?x @ replicate k 0 @ drop 128 ?line) ! 128 = 0"
      using line k nth_append_length_plus [of "?x @ replicate k 0" "drop 128 ?line" 0] by simp
    show thesis
    proof (rule that)
      show "prv_hist_restore_line dir ?line (ring_hist mrl)
        = Inr (Some (length ?x), ?x @ replicate k 0 @ drop 128 ?line, ring_hist mrl\<lparr>hist_count := n\<rparr>)"
        using restored unfolding k_def .
      show "(?x @ replicate k 0 @ drop 128 ?line) ! 128 = 0" by (rule last)
      show "length (?x @ replicate k 0 @ drop 128 ?line) = 129" using k line(1) by simp
    qed simp_all
  qed
  have cleared: "mem_set line' (length ?x) 0 (length line' - 1 - length ?x) = Inr (?x @ replicate (129 - length ?x) 0)"
    using cleared_line [OF line'(2,3), of "length ?x"] x(1) line'(1) by simp
  let ?m = "mrl\<lparr>ring_hist := ring_hist mrl\<lparr>hist_count := n\<rparr>, cmdline_str := ?x @ replicate (129 - length ?x) 0,
    mrl_cursor := length ?x, cmdlen := length ?x\<rparr>"
  have "on_line ?x [] ?m" using x by (simp add: on_line_def)
  from redraw_line [OF this, of 0 True] obtain mrl' where "prv_terminal_print_line 0 True ?m = Inr mrl'" "on_line ?x [] mrl'" "same_session ?m mrl'"
    by auto
  then show ?thesis using restored len cleared by (simp add: prv_hist_search_def Let_def same_session_def)
qed

section \<open>Adding a record\<close>

text \<open>The record a new line is compared with: the latest, unless the user has gone further back.\<close>

definition compared :: "u8 list list \<Rightarrow> nat \<Rightarrow> u8 list" where
  "compared recs c = hist_entry recs (if c = 1 then 1 else min (c + 1) (length recs))"

lemma save_line_compares:
  assumes "holds_records r recs" and "length line = 129" and "terminated line" and "len \<le> 127"
  shows "\<exists>n. prv_hist_save_line line len r = (
    if c_string line = compared recs (hist_count r) then Inr (r\<lparr>hist_count := 0\<rparr>)
    else bindR (hist_make_room len (r\<lparr>hist_count := n\<rparr>)) (hist_store line len))"
proof -
  define dir where "dir = (if hist_count r = 1 then MICRORL_HIST_DIR_NONE else MICRORL_HIST_DIR_UP)"
  define n where "n = (if hist_count r = 1 then 1 else min (hist_count r + 1) (length recs))"
  have c: "hist_count r \<le> length recs" "\<forall>x \<in> set recs. 0 \<notin> set x" using assms(1) by (simp_all add: holds_records_def)
  have nav: "hist_navigate (length recs) (hist_count r) dir = (Some n, n)" "n \<le> length recs" "n = 0 \<longrightarrow> recs = []"
    using c(1) by (auto simp: dir_def n_def hist_navigate_def min_def split: if_splits)
  define local_line where "local_line = replicate (MICRORL_CFG_CMDLINE_LEN + 1) (0 :: u8)"
  have len_local: "length local_line = 129" by (simp add: local_line_def MICRORL_CFG_CMDLINE_LEN_def)
  define last_record where "last_record = hist_entry recs n @ replicate (128 - length (hist_entry recs n)) 0 @ drop 128 local_line"
  have restored: "prv_hist_restore_line dir local_line r = Inr (Some (length (hist_entry recs n)), last_record, r\<lparr>hist_count := n\<rparr>)"
    using restore_record [OF assms(1) len_local nav] by (simp add: last_record_def)
  have x: "0 \<notin> set (hist_entry recs n)" "length (hist_entry recs n) < 128"
    using hist_entry_split(2) [OF _ nav(2)] c(2) length_entry [OF nav(2)] assms(1) by (auto simp: hist_entry_def holds_records_def)
  have "replicate (128 - length (hist_entry recs n)) (0 :: u8) = 0 # replicate (127 - length (hist_entry recs n)) 0"
    using x(2) by (simp flip: replicate_Suc)
  then have "terminated last_record" "c_string last_record = hist_entry recs n"
    using x(1) by (simp_all add: last_record_def terminated_def)
  then have same: "strcmp_eq line last_record = Inr (c_string line = compared recs (hist_count r))"
    using strcmp_eq_terminated [OF assms(3)] by (simp add: compared_def n_def)
  have "length (ring_buf r) = 128" using holds_records_buf(1) [OF assms(1)] .
  then show ?thesis
    using restored same assms(4)
    unfolding prv_hist_save_line_def dir_def [symmetric] local_line_def [symmetric] by auto
qed

lemma save_line_fits:
  assumes "holds_records r recs" and "length line = 129" and "terminated line" and "length (ring recs) + len + 1 < 128"
  shows "prv_hist_save_line line len r = Inr (
    if c_string line = compared recs (hist_count r) then r\<lparr>hist_count := 0\<rparr>
    else r\<lparr>ring_buf := ring recs @ 0 # take len line @ replicate (127 - (length (ring recs) + len)) 0,
           hist_tail := length (ring recs) + len + 1, hist_count := 0\<rparr>)"
proof -
  have "len \<le> 127" using assms(4) by simp
  from save_line_compares [OF assms(1-3) this] obtain n where n: "prv_hist_save_line line len r = (
    if c_string line = compared recs (hist_count r) then Inr (r\<lparr>hist_count := 0\<rparr>)
    else bindR (hist_make_room len (r\<lparr>hist_count := n\<rparr>)) (hist_store line len))" by blast
  let ?r = "r\<lparr>hist_count := n\<rparr>" and ?t = "length (ring recs)" and ?new = "take len line"
  have fields: "ring_buf r = ring recs @ replicate (128 - ?t) 0" "hist_head r = 0" "hist_tail r = ?t" "length (ring_buf r) = 128"
    using assms(1) by (auto simp: holds_records_def)
  have "prv_hist_is_space_for_new ?r len" using fields assms(4) by (simp add: prv_hist_is_space_for_new_def)
  then have room: "hist_make_room len ?r = Inr ?r" by (simp add: hist_make_room.simps [of len])
  have new: "length ?new = len" using assms(2,4) by simp
  define rest where "rest = replicate (127 - (?t + len)) (0 :: u8)"
  have "replicate (128 - ?t) 0 = (replicate (Suc len) 0 :: u8 list) @ rest"
    using zeros_split [of "Suc len" "128 - ?t"] assms(4) by (simp add: rest_def)
  then have buf: "ring_buf r = (ring recs @ [0]) @ replicate len 0 @ rest" using fields(1) by simp
  have put: "mem_put (ring_buf r) (?t + 1) ?new = Inr ((ring recs @ [0]) @ ?new @ rest)"
    unfolding buf by (rule mem_put_app) (use new in simp_all)
  have "rest = [0] @ replicate (126 - (?t + len)) 0" using assms(4) by (simp add: rest_def flip: replicate_Suc)
  then have mark: "mem_put (ring recs @ 0 # ?new @ rest) (?t + len + 1) [0] = Inr (ring recs @ 0 # ?new @ rest)"
    using mem_put_app [of "[0]" "[0]" "?t + len + 1" "ring recs @ 0 # ?new"] new by simp
  have small: "len < length (ring_buf r) - hist_tail r - 1" using fields(3,4) assms(4) by linarith
  have "length (ring recs @ 0 # ?new @ rest) = 128" using new assms(4) by (simp add: rest_def)
  then have store: "hist_store line len ?r = Inr (r\<lparr>ring_buf := ring recs @ 0 # ?new @ rest, hist_tail := ?t + len + 1, hist_count := 0\<rparr>)"
    using put mark small fields(3) assms(4) by (simp add: hist_store_def Let_def)
  show ?thesis using n room store unfolding rest_def by simp
qed

section \<open>A full ring\<close>

text \<open>Erasing the oldest records makes room for any line of up to 126 bytes.\<close>

lemma make_room_ends:
  "\<forall>x \<in> set recs. 0 \<notin> set x \<Longrightarrow> ring_buf r = pre @ ring recs @ 0 # post \<Longrightarrow> length (ring_buf r) = 128 \<Longrightarrow>
   hist_head r = length pre \<Longrightarrow> hist_tail r = length pre + length (ring recs) \<Longrightarrow> len \<le> 126 \<Longrightarrow>
   \<exists>h. hist_make_room len r = Inr (r\<lparr>hist_head := h\<rparr>) \<and> h \<le> hist_tail r \<and> hist_tail r + len < 127 + h"
proof (induction recs arbitrary: r pre)
  case (Nil r pre)
  then have "prv_hist_is_space_for_new r len" by (auto simp: prv_hist_is_space_for_new_def)
  then have "hist_make_room len r = Inr (r\<lparr>hist_head := hist_head r\<rparr>)" by (simp add: hist_make_room.simps [of len r])
  then show ?case using Nil.prems by auto
next
  case (Cons x recs r pre)
  show ?case
  proof (cases "prv_hist_is_space_for_new r len")
    case True
    then have "hist_make_room len r = Inr (r\<lparr>hist_head := hist_head r\<rparr>)" by (simp add: hist_make_room.simps [of len r])
    then show ?thesis using True Cons.prems(2-5) by (auto simp: prv_hist_is_space_for_new_def)
  next
    case False
    obtain z where z: "ring recs @ 0 # post = 0 # z" by (cases recs) auto
    have next_pos: "prv_hist_next_record (ring_buf r) (hist_head r) = Inr (length pre + 1 + length x)"
      using next_record_found [of x "length pre" "pre @ [0]" z] Cons.prems(1,2,4) z by simp
    let ?r = "r\<lparr>hist_head := length (pre @ 0 # x)\<rparr>"
    have "hist_make_room len r = hist_make_room len ?r"
      using False next_pos by (subst hist_make_room.simps) (simp add: prv_hist_erase_older_def)
    moreover obtain h where "hist_make_room len ?r = Inr (?r\<lparr>hist_head := h\<rparr>)" "h \<le> hist_tail ?r" "hist_tail ?r + len < 127 + h"
      using Cons.IH [of ?r "pre @ 0 # x"] Cons.prems by auto
    ultimately show ?thesis by auto
  qed
qed

text \<open>
  A ring in which the latest record starts behind \<open>t\<close> and runs over the end of the array. Every walk
  from the head comes to that record and reads on past the end.
\<close>

definition wrapped :: "microrl_hist_rbuf \<Rightarrow> bool" where
  "wrapped r \<longleftrightarrow> length (ring_buf r) = 128 \<and> (\<exists>t < 128. hist_tail r < hist_head r \<and> hist_head r \<le> t
     \<and> ring_buf r ! t = 0 \<and> (\<forall>j. t < j \<longrightarrow> j < 128 \<longrightarrow> ring_buf r ! j \<noteq> 0))"

lemma next_record_before:
  "i < t \<Longrightarrow> t < length buf \<Longrightarrow> buf ! t = 0 \<Longrightarrow> \<exists>j. prv_hist_next_record buf i = Inr j \<and> i < j \<and> j \<le> t"
proof (induction "t - i" arbitrary: i)
  case (Suc n)
  show ?case
  proof (cases "buf ! (i + 1) = 0")
    case True
    then show ?thesis using Suc.prems by (simp add: prv_hist_next_record.simps [of buf i])
  next
    case False
    then have lt: "i + 1 < t" using Suc.prems by (cases "i + 1 = t") auto
    have n: "n = t - (i + 1)" using Suc.hyps(2) by linarith
    obtain j where j: "prv_hist_next_record buf (i + 1) = Inr j" "i + 1 < j" "j \<le> t"
      using Suc.hyps(1) [of "i + 1", OF n] lt Suc.prems by blast
    then have "prv_hist_next_record buf i = Inr j"
      using False Suc.prems by (subst prv_hist_next_record.simps) simp
    then show ?thesis using j by auto
  qed
qed simp

lemma next_record_overruns: "\<forall>j. i < j \<longrightarrow> j < length buf \<longrightarrow> buf ! j \<noteq> 0 \<Longrightarrow> prv_hist_next_record buf i = Inl UB"
proof (induction buf i rule: prv_hist_next_record.induct)
  case (1 buf i)
  show ?case
  proof (cases "i + 1 \<ge> length buf")
    case True
    then show ?thesis by (subst prv_hist_next_record.simps) simp
  next
    case False
    then have "buf ! (i + 1) \<noteq> 0" using "1.prems" by simp
    moreover have "prv_hist_next_record buf (i + 1) = Inl UB"
      by (rule "1.IH") (use False calculation "1.prems" in auto)
    ultimately show ?thesis using False by (subst prv_hist_next_record.simps) simp
  qed
qed

lemma records_overrun:
  "tail_pos < i \<Longrightarrow> i \<le> t \<Longrightarrow> t < length buf \<Longrightarrow> buf ! t = 0 \<Longrightarrow> \<forall>j. t < j \<longrightarrow> j < length buf \<longrightarrow> buf ! j \<noteq> 0
    \<Longrightarrow> hist_records buf tail_pos i = Inl UB"
proof (induction "t - i" arbitrary: i rule: less_induct)
  case less
  show ?case
  proof (cases "i = t")
    case True
    then show ?thesis using less.prems next_record_overruns [of t buf] by (subst hist_records.simps) simp
  next
    case False
    then obtain j where j: "prv_hist_next_record buf i = Inr j" "i < j" "j \<le> t"
      using next_record_before [of i t buf] less.prems by auto
    have "hist_records buf tail_pos j = Inl UB" by (rule less.hyps) (use j less.prems in auto)
    then show ?thesis using j less.prems(1) by (subst hist_records.simps) simp
  qed
qed

lemma wrapped_undefined:
  assumes "wrapped r"
  shows "prv_hist_restore_line dir line r = Inl UB" and "len \<le> 127 \<Longrightarrow> prv_hist_save_line line len r = Inl UB"
proof -
  have "hist_records (ring_buf r) (hist_tail r) (hist_head r) = Inl UB" "length (ring_buf r) = 128"
    using assms records_overrun by (auto simp: wrapped_def)
  then show "prv_hist_restore_line dir line r = Inl UB" "len \<le> 127 \<Longrightarrow> prv_hist_save_line line len r = Inl UB"
    by (simp_all add: prv_hist_save_line_def prv_hist_restore_line_def)
qed

lemma store_wraps:
  assumes "length (ring_buf r) = 128" and "hist_tail r < 128" and "hist_head r \<le> hist_tail r" and "ring_buf r ! hist_tail r = 0"
    and "128 \<le> hist_tail r + len + 1" and "hist_tail r + len < 127 + hist_head r"
    and "len \<le> length line" and "0 \<notin> set (take len line)"
  shows "\<exists>r'. hist_store line len r = Inr r' \<and> wrapped r'"
proof -
  let ?t = "hist_tail r" and ?k = "127 - hist_tail r" and ?n = "hist_tail r + len - 127"
  have k: "?k \<le> len" "length (take ?k line) = ?k" "length (take (len - ?k) (drop ?k line)) = ?n" "?n < hist_head r"
    using assms(2,3,5-7) by auto
  define a where "a = take (?t + 1) (ring_buf r) @ take ?k line"
  have a: "mem_put (ring_buf r) (?t + 1) (take ?k line) = Inr a" "length a = 128"
    using k(2) assms(1,2) by (simp_all add: mem_put_def a_def)
  define b where "b = take (len - ?k) (drop ?k line) @ drop ?n a"
  have b: "mem_put a 0 (take (len - ?k) (drop ?k line)) = Inr b" "length b = 128"
    using k(3,4) a(2) assms(2,3) by (simp_all add: mem_put_def b_def)
  define c where "c = take ?n b @ [0] @ drop (?n + 1) b"
  have c: "mem_put b ?n [0] = Inr c" "length c = 128"
    using b(2) k(4) assms(2,3) by (simp_all add: mem_put_def c_def)
  have same: "c ! j = a ! j" if "?n < j" "j < 128" for j
  proof -
    have "Suc ?n \<le> j" using that(1) by (rule Suc_leI)
    then obtain i where "j = Suc ?n + i" using le_Suc_ex by blast
    then have i: "j = ?n + 1 + i" by simp
    have "length (take ?n b @ [0]) = ?n + 1" using b(2) k(4) assms(2,3) by simp
    then have "c ! j = b ! j"
      using nth_append_length_plus [of "take ?n b @ [0]" "drop (?n + 1) b" i] that(2) b(2) unfolding c_def i by simp
    also have "\<dots> = drop ?n a ! (Suc i)"
      using nth_append_length_plus [of "take (len - ?k) (drop ?k line)" "drop ?n a" "Suc i"] unfolding b_def i k(3) by simp
    also have "\<dots> = a ! j" using a(2) that(2) by (simp add: i)
    finally show ?thesis .
  qed
  have "c ! ?t = 0" using same [of ?t] k(4) assms(1-4) by (simp add: a_def nth_append)
  moreover have "c ! j \<noteq> 0" if "?t < j" "j < 128" for j
  proof -
    have "j - (?t + 1) < ?k" using that by linarith
    then have "a ! j = take len line ! (j - (?t + 1))" using that assms(1,7) k(1) by (simp add: a_def nth_append)
    moreover have "take len line ! (j - (?t + 1)) \<in> set (take len line)" using that k(1) assms(7) by (intro nth_mem) simp
    ultimately show ?thesis using same [of j] that assms(2,3,8) k(4) by auto
  qed
  ultimately have "wrapped (r\<lparr>ring_buf := c, hist_tail := ?n, hist_count := 0\<rparr>)"
    using c(2) k(4) assms(2,3) by (auto simp: wrapped_def)
  moreover have "hist_store line len r = Inr (r\<lparr>ring_buf := c, hist_tail := ?n, hist_count := 0\<rparr>)"
  proof -
    have e: "length (ring_buf r) - hist_tail r - 1 = ?k" "\<not> len < ?k" using assms(1) k(1) by simp_all
    have n: "(if hist_tail r + len + 1 \<ge> length b then hist_tail r + len + 1 - length b else hist_tail r + len + 1) = ?n"
      using b(2) assms(5) by simp
    show ?thesis unfolding hist_store_def e(1) if_not_P [OF e(2)] Let_def bindR_assoc a(1) bindR_simps b(1) n c(1) by simp
  qed
  ultimately show ?thesis by blast
qed

text \<open>A line for which there is no room is saved too, but leaves a ring that runs over the end.\<close>

lemma save_line_wraps:
  assumes "holds_records r recs" and "length line = 129" and "terminated line" and "len \<le> 126"
    and "128 \<le> length (ring recs) + len + 1" and "0 \<notin> set (take len line)" and "c_string line \<noteq> compared recs (hist_count r)"
  shows "\<exists>r'. prv_hist_save_line line len r = Inr r' \<and> wrapped r'"
proof -
  obtain n where n: "prv_hist_save_line line len r = bindR (hist_make_room len (r\<lparr>hist_count := n\<rparr>)) (hist_store line len)"
    using save_line_compares [OF assms(1-3)] assms(4,7) by fastforce
  obtain post where post: "ring_buf r = ring recs @ 0 # post" using holds_records_buf(2) [OF assms(1)] by blast
  have f: "length (ring_buf r) = 128" "hist_head r = 0" "hist_tail r = length (ring recs)" "length (ring recs) < 128" "\<forall>x \<in> set recs. 0 \<notin> set x"
    using assms(1) holds_records_buf(1) [OF assms(1)] by (simp_all add: holds_records_def)
  obtain h where h: "hist_make_room len (r\<lparr>hist_count := n\<rparr>) = Inr (r\<lparr>hist_count := n, hist_head := h\<rparr>)"
    "h \<le> length (ring recs)" "length (ring recs) + len < 127 + h"
    using make_room_ends [OF f(5), of "r\<lparr>hist_count := n\<rparr>" "[]" post len] post f(1-3) assms(4) by auto
  have "\<exists>r'. hist_store line len (r\<lparr>hist_count := n, hist_head := h\<rparr>) = Inr r' \<and> wrapped r'"
    by (rule store_wraps) (use f h assms(2,4-6) post in \<open>simp_all add: nth_append\<close>)
  then show ?thesis using n h(1) by auto
qed

end
