(* ===== verification/Microrl_Words.thy ===== *)
theory Microrl_Words
  imports Microrl
begin

text \<open>
  The tokens of a line without quotes are its words: \<open>prv_cmdline_buf_split\<close> against a definition on lists.
\<close>

text \<open>The words between single spaces; after a final space there is none.\<close>

fun shell_words :: "u8 list \<Rightarrow> u8 list list" where
  "shell_words [] = []"
| "shell_words (c # cs) =
     (let w = takeWhile (\<lambda>c. c \<noteq> 32) (c # cs) in w # shell_words (drop (length w + 1) (c # cs)))"

declare shell_words.simps(2) [simp del]

lemma shell_words_unfold:
  "t \<noteq> [] \<Longrightarrow> takeWhile (\<lambda>c. c \<noteq> 32) t = w \<Longrightarrow> shell_words t = w # shell_words (drop (length w + 1) t)"
  by (cases t) (simp_all add: shell_words.simps(2) Let_def)

lemma shell_words_last: "w \<noteq> [] \<Longrightarrow> 32 \<notin> set w \<Longrightarrow> shell_words w = [w]"
  using shell_words_unfold [of w w] by (simp add: takeWhile_eq_all_conv) metis

lemma shell_words_space: "32 \<notin> set w \<Longrightarrow> shell_words (w @ 32 # t) = w # shell_words t"
proof -
  assume "32 \<notin> set w"
  then have "takeWhile (\<lambda>c. c \<noteq> 32) (w @ 32 # t) = w" by (simp add: takeWhile_append2 takeWhile_tail) metis
  then show ?thesis using shell_words_unfold [of "w @ 32 # t" w] by simp
qed

text \<open>Both cases of a line that is not empty.\<close>

lemma first_word_cases:
  obtains (empty) "t = []" | (last) "t \<noteq> []" "32 \<notin> set t" | (more) w t' where "t = w @ 32 # t'" "32 \<notin> set w"
  using split_list_first [of 32 t] by blast

lemma shell_words_induct [case_names empty last more]:
  assumes "P []" and "\<And>w. w \<noteq> [] \<Longrightarrow> 32 \<notin> set w \<Longrightarrow> P w" and "\<And>w t. 32 \<notin> set w \<Longrightarrow> P t \<Longrightarrow> P (w @ 32 # t)"
  shows "P t"
proof (induction t rule: length_induct)
  case (1 t)
  then show ?case using assms by (cases rule: first_word_cases [of t]) auto
qed

definition no_quotes :: "u8 list \<Rightarrow> bool" where
  "no_quotes t \<longleftrightarrow> 0 \<notin> set t \<and> 34 \<notin> set t \<and> 39 \<notin> set t"

lemma no_quotes_simps [simp]:
  "no_quotes []" "no_quotes (c # t) \<longleftrightarrow> c \<noteq> 0 \<and> c \<noteq> 34 \<and> c \<noteq> 39 \<and> no_quotes t"
  "no_quotes (t @ u) \<longleftrightarrow> no_quotes t \<and> no_quotes u"
  by (auto simp: no_quotes_def)

text \<open>The line with its spaces replaced by zeros.\<close>

definition zero_spaces :: "u8 list \<Rightarrow> u8 list" where
  "zero_spaces t = map (\<lambda>c. if c = 32 then 0 else c) t"

lemma zero_spaces_simps [simp]: "zero_spaces [] = []" "zero_spaces (c # t) = (if c = 32 then 0 else c) # zero_spaces t" "zero_spaces (t @ u) = zero_spaces t @ zero_spaces u" "length (zero_spaces t) = length t"
  by (simp_all add: zero_spaces_def)

lemma zero_spaces_word: "32 \<notin> set w \<Longrightarrow> zero_spaces w = w"
  by (induction w) auto

lemma split_plain_word:
  "no_quotes w \<Longrightarrow> 32 \<notin> set w \<Longrightarrow> c = 32 \<or> c = 0 \<Longrightarrow> length pre + length w \<le> limit \<Longrightarrow>
     split_plain limit (pre @ w @ c # post) (length pre) = Inr (False, length pre + length w, pre @ w @ c # post)"
proof (induction w arbitrary: pre)
  case Nil
  then show ?case by (auto simp: split_plain.simps [of limit _ "length pre"])
next
  case (Cons x w)
  from Cons.IH [of "pre @ [x]"] Cons.prems show ?case
    by (auto simp: split_plain.simps [of limit _ "length pre"] nth_append)
qed

lemma token_str_word: "no_quotes w \<Longrightarrow> token_str (pre @ w @ 0 # post) (length pre) = w"
  by (simp add: token_str_def no_quotes_def)

lemma split_tokens_word:
  assumes "no_quotes w" and "32 \<notin> set w" and "no_quotes t" and "length pre + length w + 1 + length t \<le> limit"
  shows "split_tokens limit (pre @ w @ 32 # t @ 0 # post) (length pre) tokens =
    (if length tokens + 1 = MICRORL_CFG_CMD_TOKEN_NMB \<and> t \<noteq> [] then Inr (microrlERRTKNNUM, [], pre @ w @ 0 # t @ 0 # post)
     else split_tokens limit (pre @ w @ 0 # t @ 0 # post) (length pre + length w + 1) (tokens @ [length pre]))"
proof -
  let ?a = "pre @ w @ 32 # t @ 0 # post" and ?q = "length pre + length w"
  have plain: "split_plain limit ?a (length pre) = Inr (False, ?q, ?a)"
    using split_plain_word [of w 32 pre limit "t @ 0 # post"] assms by simp
  have put: "?a[?q := 0] = pre @ w @ 0 # t @ 0 # post" by (simp add: list_update_append)
  have first: "?a ! length pre = (if w = [] then 32 else hd w)" by (cases w) (simp_all add: nth_append)
  have "hd w \<notin> {0, 34, 39}" if "w \<noteq> []" using assms(1) that by (cases w) auto
  then have start: "?a ! length pre \<noteq> 0" "\<not> is_quote (?a ! length pre)" "length pre < length ?a" using first by auto
  have follow: "?a ! ?q = 32" "?a ! (?q + 1) = 0 \<longleftrightarrow> t = []" "?q + 1 < length ?a"
    using assms(3) by (cases t; auto simp: nth_append)+
  show ?thesis using start follow plain put by (auto simp: split_tokens.simps [of limit ?a "length pre"])
qed

lemma split_tokens_words:
  "no_quotes t \<Longrightarrow> length tokens + length (shell_words t) \<le> MICRORL_CFG_CMD_TOKEN_NMB \<Longrightarrow> length pre + length t \<le> limit \<Longrightarrow>
    \<exists>ps. split_tokens limit (pre @ t @ 0 # post) (length pre) tokens = Inr (microrlOK, tokens @ ps, pre @ zero_spaces t @ 0 # post)
      \<and> map (token_str (pre @ zero_spaces t @ 0 # post)) ps = shell_words t"
proof (induction t arbitrary: pre tokens rule: shell_words_induct)
  case empty
  then show ?case by (auto simp: split_tokens.simps [of limit _ "length pre"])
next
  case (last w)
  then show ?case
    using split_plain_word [of w 0 pre limit post] token_str_word [of w pre post] zero_spaces_word [of w] shell_words_last [of w]
    by (cases w) (auto simp: split_tokens.simps [of limit _ "length pre"] nth_append intro!: exI [of _ "[length pre]"])
next
  case (more w t)
  let ?pre = "pre @ w @ [0]"
  have words: "shell_words (w @ 32 # t) = w # shell_words t" using shell_words_space [OF more.hyps] .
  have "t = [] \<or> shell_words t \<noteq> []" using shell_words_unfold [of t] by auto
  then have room: "\<not> (length tokens + 1 = MICRORL_CFG_CMD_TOKEN_NMB \<and> t \<noteq> [])"
    using more.prems(2) words by (cases "shell_words t") auto
  obtain ps where ps: "split_tokens limit (?pre @ t @ 0 # post) (length ?pre) (tokens @ [length pre])
      = Inr (microrlOK, (tokens @ [length pre]) @ ps, ?pre @ zero_spaces t @ 0 # post)"
    "map (token_str (?pre @ zero_spaces t @ 0 # post)) ps = shell_words t"
    using more.IH [of "tokens @ [length pre]" ?pre] more.prems words by auto
  then show ?case
    using split_tokens_word [of w t pre limit post tokens] room words token_str_word [of w pre "zero_spaces t @ 0 # post"] more.prems
      more.hyps zero_spaces_word [OF more.hyps]
    by (intro exI [of _ "length pre # ps"]) auto
qed

lemma split_tokens_many:
  "no_quotes t \<Longrightarrow> length tokens < MICRORL_CFG_CMD_TOKEN_NMB \<Longrightarrow> MICRORL_CFG_CMD_TOKEN_NMB < length tokens + length (shell_words t) \<Longrightarrow>
    length pre + length t \<le> limit \<Longrightarrow>
    \<exists>a. split_tokens limit (pre @ t @ 0 # post) (length pre) tokens = Inr (microrlERRTKNNUM, [], a)"
proof (induction t arbitrary: pre tokens rule: shell_words_induct)
  case (last w)
  then show ?case by (simp add: shell_words_last)
next
  case (more w t)
  have words: "shell_words (w @ 32 # t) = w # shell_words t" using shell_words_space [OF more.hyps] .
  have "t \<noteq> []" using more.prems(2,3) words by auto
  then show ?case
    using split_tokens_word [of w t pre limit post tokens] more.IH [of "tokens @ [length pre]" "pre @ w @ [0]"] more.prems words
      more.hyps
    by (cases "length tokens + 1 = MICRORL_CFG_CMD_TOKEN_NMB") auto
qed simp

end
