(* ===== verification/Microrl_Properties.thy ===== *)
theory Microrl_Properties
  imports Microrl_Browse Microrl_Words
begin

text \<open>
  What the user of the line editor sees: lines that are typed, edited, completed, found in the history, and executed.
\<close>

section \<open>A session\<close>

text \<open>Between commands: the records in the history, and an empty line.\<close>

definition session :: "u8 list list \<Rightarrow> microrl \<Rightarrow> bool" where
  "session recs mrl \<longleftrightarrow> on_line [] [] mrl \<and> \<not> escape mrl \<and> holds_records (ring_hist mrl) recs"

text \<open>A typed line that may be executed and has a place in the history.\<close>

definition saved :: "u8 list \<Rightarrow> u8 list list \<Rightarrow> nat \<Rightarrow> u8 list list" where
  "saved line recs n = (if line = compared recs n then recs else recs @ [line])"

lemma session_init: "session [] microrl_init"
  by (simp add: session_def on_line_def holds_records_def microrl_init_def microrl_set_prompt_def
      MICRORL_CFG_CMDLINE_LEN_def MICRORL_CFG_RING_HISTORY_LEN_def)

text \<open>A user that records its commands, and a session with a history.\<close>

definition ex_fns :: "u8 list list list microrl_fns" where
  "ex_fns = \<lparr>exec_fn = \<lambda>argv s. Inr (0, s @ [argv]), get_completion_fn = Some (\<lambda>argv. []), sigint_fn = None\<rparr>"

definition remembering :: "u8 list list \<Rightarrow> microrl" where
  "remembering recs = microrl_init\<lparr>ring_hist := \<lparr>ring_buf = ring recs @ replicate (128 - length (ring recs)) 0, hist_head = 0,
     hist_tail = length (ring recs), hist_count = 0\<rparr>\<rparr>"

lemma remembering_session: "length (ring recs) < 128 \<Longrightarrow> \<forall>x \<in> set recs. 0 \<notin> set x \<Longrightarrow> session recs (remembering recs)"
  using session_init by (simp add: session_def remembering_def holds_records_def)

lemma typed_line:
  assumes "session recs mrl" and "plain_line line" and "length line \<le> 128"
  shows "\<exists>m. process_chars F (line @ input) mrl s = process_chars F input m s \<and> on_line line [] m
    \<and> \<not> escape m \<and> holds_records (ring_hist m) recs \<and> hist_count (ring_hist m) = hist_count (ring_hist mrl) \<and> last_endl m = 0"
  using process_edit_keys [of "[]" "[]" mrl line line "[]" F input s] edit_through_plain [OF assms(2,3)] assms
  by (auto simp: session_def same_session_def plain_line_def)

lemma reset_session:
  assumes "length (cmdline_str mrl) = 129" and "\<not> escape mrl" and "holds_records (ring_hist mrl) recs"
  shows "session recs (prv_cmdline_buf_reset mrl)"
  using assms by (simp add: session_def prv_cmdline_buf_reset_def on_line_def)

lemma newline_fields [simp]:
  "cmdlen (prv_terminal_newline mrl) = cmdlen mrl" "cmdline_str (prv_terminal_newline mrl) = cmdline_str mrl"
  "ring_hist (prv_terminal_newline mrl) = ring_hist mrl"
  by (simp_all add: prv_terminal_newline_def out_fn_def)

lemma split_words:
  assumes "no_quotes line" and "a = line @ 0 # post"
  shows "\<exists>ps b. split_tokens (length line) a 0 [] = Inr (if length (shell_words line) \<le> MICRORL_CFG_CMD_TOKEN_NMB
      then microrlOK else microrlERRTKNNUM, ps, b) \<and> length b = length a
    \<and> (length (shell_words line) \<le> MICRORL_CFG_CMD_TOKEN_NMB \<longrightarrow> map (token_str b) ps = shell_words line)"
proof (cases "length (shell_words line) \<le> MICRORL_CFG_CMD_TOKEN_NMB")
  case True
  then show ?thesis using split_tokens_words [of line "[]" "[]" "length line" post] assms by auto
next
  case False
  have "0 < MICRORL_CFG_CMD_TOKEN_NMB" by (simp add: MICRORL_CFG_CMD_TOKEN_NMB_def)
  then obtain b where b: "split_tokens (length line) a 0 [] = Inr (microrlERRTKNNUM, [], b)"
    using split_tokens_many [of line "[]" "[]" "length line" post] assms False by auto
  then have "length b = length a" using split_tokens_zeros [OF b] by (simp add: zeros_kept_def)
  then show ?thesis using b False by auto
qed

text \<open>
  The editor after a line: empty, with the line among the records as long as there is room for it. The
  first line without room makes the ring run over its end.
\<close>

definition remembers :: "u8 list \<Rightarrow> u8 list list \<Rightarrow> nat \<Rightarrow> microrl_hist_rbuf \<Rightarrow> bool" where
  "remembers line recs n r \<longleftrightarrow>
     (if line = compared recs n \<or> length (ring recs) + length line + 1 < 128 then holds_records r (saved line recs n)
      else wrapped r)"

lemma save_line_remembers:
  assumes "holds_records r recs" and "length str = 129" and "terminated str" and "c_string str = line"
    and "take (length line) str = line" and "0 \<notin> set line" and "length line \<le> 126"
  shows "\<exists>r'. prv_hist_save_line str (length line) r = Inr r' \<and> remembers line recs (hist_count r) r'"
proof (cases "line \<noteq> compared recs (hist_count r) \<and> 128 \<le> length (ring recs) + length line + 1")
  case True
  then show ?thesis using save_line_wraps [OF assms(1-3,7)] assms(4-6) by (auto simp: remembers_def)
next
  case False
  show ?thesis
  proof (cases "line = compared recs (hist_count r)")
    case True
    moreover obtain n where "prv_hist_save_line str (length line) r = (
      if c_string str = compared recs (hist_count r) then Inr (r\<lparr>hist_count := 0\<rparr>)
      else bindR (hist_make_room (length line) (r\<lparr>hist_count := n\<rparr>)) (hist_store str (length line)))"
      using save_line_compares [OF assms(1-3), of "length line"] assms(7) by auto
    ultimately show ?thesis using assms(1,4) by (simp add: remembers_def saved_def)
  next
    case new: False
    then have fits: "length (ring recs) + length line + 1 < 128" using False by simp
    have "holds_records (r\<lparr>ring_buf := ring recs @ 0 # line @ replicate (127 - (length (ring recs) + length line)) 0,
        hist_tail := length (ring recs) + length line + 1, hist_count := 0\<rparr>) (recs @ [line])"
      using assms(1,6) fits by (auto simp: holds_records_def)
    then show ?thesis using save_line_fits [OF assms(1-3) fits] assms(4,5) new fits
      by (simp add: remembers_def saved_def)
  qed
qed

lemma empty_line_reset:
  assumes "length (cmdline_str mrl) = 129" and "\<not> escape mrl"
  shows "on_line [] [] (prv_cmdline_buf_reset mrl)" "\<not> escape (prv_cmdline_buf_reset mrl)"
    "ring_hist (prv_cmdline_buf_reset mrl) = ring_hist mrl"
  using assms by (simp_all add: prv_cmdline_buf_reset_def on_line_def)

lemma reset_escape [simp]: "escape (prv_cmdline_buf_reset mrl) = escape mrl"
  by (simp add: prv_cmdline_buf_reset_def)

text \<open>The end of a line that was typed or found in the history.\<close>

lemma newline_executes:
  assumes "on_line l r mrl" and "\<not> escape mrl" and "line = l @ r" and "line \<noteq> []" and "no_quotes line"
    and "holds_records (ring_hist mrl) recs" and "length line \<le> 126"
  shows "\<exists>m. on_line [] [] m \<and> \<not> escape m \<and> remembers line recs (hist_count (ring_hist mrl)) (ring_hist m) \<and> prv_handle_newline F mrl s =
    (if length (shell_words line) \<le> MICRORL_CFG_CMD_TOKEN_NMB then bindR (exec_fn F (shell_words line) s) (\<lambda>(_, t). Inr (microrlOK, m, t))
     else Inr (microrlERRTKNNUM, m, s))"
proof -
  note f = on_line_fields [OF assms(1)]
  have len: "cmdlen mrl = length line" using f(2) assms(3) by simp
  let ?c = "hist_count (ring_hist mrl)" and ?r = "ring_hist mrl"
  obtain post where post: "cmdline_str mrl = line @ 0 # post" using on_line_end [OF assms(1)] unfolding assms(3) append_assoc by blast
  have nz: "0 \<notin> set line" and str: "c_string (cmdline_str mrl) = line" "terminated (cmdline_str mrl)" "take (length line) (cmdline_str mrl) = line"
    using f(5,6) assms(3) c_string_terminated [of line post] unfolding post by (auto simp: terminated_def)
  obtain q where q: "prv_hist_save_line (cmdline_str mrl) (length line) ?r = Inr q" and recs: "remembers line recs ?c q"
    using save_line_remembers [OF assms(6) f(3) str(2,1,3) nz assms(7)] by blast
  let ?m = "(prv_terminal_newline mrl)\<lparr>ring_hist := q\<rparr>"
  have m: "cmdline_str ?m = line @ 0 # post" "\<not> escape ?m" "length (cmdline_str ?m) = 129"
    using post assms(2) f(3) by (simp_all add: prv_terminal_newline_def out_fn_def)
  have split: "\<exists>ps a. prv_cmdline_buf_split (length line) ?m = Inr (if length (shell_words line) \<le> MICRORL_CFG_CMD_TOKEN_NMB
      then microrlOK else microrlERRTKNNUM, ps, ?m\<lparr>cmdline_str := a\<rparr>) \<and> length a = 129
      \<and> (length (shell_words line) \<le> MICRORL_CFG_CMD_TOKEN_NMB \<longrightarrow> map (token_str a) ps = shell_words line)"
    using split_words [OF assms(5) m(1)] m(3) by (auto simp: prv_cmdline_buf_split_def)
  then obtain ps a where ps: "prv_cmdline_buf_split (length line) ?m = Inr (if length (shell_words line) \<le> MICRORL_CFG_CMD_TOKEN_NMB
      then microrlOK else microrlERRTKNNUM, ps, ?m\<lparr>cmdline_str := a\<rparr>)" and a: "length a = 129"
    "length (shell_words line) \<le> MICRORL_CFG_CMD_TOKEN_NMB \<longrightarrow> map (token_str a) ps = shell_words line"
    by blast
  define ok where "ok = prv_cmdline_buf_reset (prv_terminal_print_prompt (?m\<lparr>cmdline_str := a\<rparr>))"
  define many where "many = prv_cmdline_buf_reset (prv_terminal_print_prompt (prv_terminal_newline
       (out_fn (c_bytes ''ERROR: too many tokens'') (?m\<lparr>cmdline_str := a\<rparr>))))"
  have finished: "on_line [] [] ok" "\<not> escape ok" "remembers line recs ?c (ring_hist ok)"
    "on_line [] [] many" "\<not> escape many" "remembers line recs ?c (ring_hist many)"
    unfolding ok_def many_def using a(1) m(2) recs
    by (auto intro!: empty_line_reset simp: empty_line_reset(3) prv_terminal_print_prompt_def prv_terminal_newline_def out_fn_def)
  show ?thesis
  proof (cases "length (shell_words line) \<le> MICRORL_CFG_CMD_TOKEN_NMB")
    case True
    then have "prv_handle_newline F mrl s = bindR (exec_fn F (shell_words line) s) (\<lambda>(_, t). Inr (microrlOK, ok, t))"
      using q ps a(2) len assms(4) by (simp add: prv_handle_newline_def Let_def ok_def)
    then show ?thesis using True finished(1-3) by auto
  next
    case False
    then have "prv_handle_newline F mrl s = Inr (microrlERRTKNNUM, many, s)"
      using q ps len assms(4) by (simp add: prv_handle_newline_def Let_def many_def)
    then show ?thesis using False finished(4-6) by auto
  qed
qed

lemma enter_key:
  assumes "\<not> escape mrl" and "last_endl mrl = 0"
  shows "microrl_processing_input F [13] mrl s =
    bindR (prv_handle_newline F (mrl\<lparr>last_endl := 13\<rparr>) s) (\<lambda>(status, m, t).
      Inr (if status \<noteq> microrlOK then microrlERRTKNNUM else microrlOK, m, t))"
  using assms by (auto simp: microrl_processing_input_def intro!: arg_cong [where f = "bindR _"])

lemma processing_from:
  "process_chars F (line @ c # input) mrl s = process_chars F (c # input) m s
     \<Longrightarrow> microrl_processing_input F (line @ c # input) mrl s = microrl_processing_input F (c # input) m s"
  by (simp add: microrl_processing_input_def)

text \<open>A typed line runs the command of its words, is remembered, and leaves an empty line.\<close>

lemma newline_key_executes:
  assumes "on_line l r mrl" and "\<not> escape mrl" and "last_endl mrl = 0" and "line = l @ r" and "line \<noteq> []" and "no_quotes line"
    and "holds_records (ring_hist mrl) recs" and "length line \<le> 126"
  shows "\<exists>m. on_line [] [] m \<and> \<not> escape m \<and> remembers line recs (hist_count (ring_hist mrl)) (ring_hist m) \<and> microrl_processing_input F [13] mrl s =
    (if length (shell_words line) \<le> MICRORL_CFG_CMD_TOKEN_NMB then bindR (exec_fn F (shell_words line) s) (\<lambda>(_, t). Inr (microrlOK, m, t))
     else Inr (microrlERRTKNNUM, m, s))"
proof -
  have "on_line l r (mrl\<lparr>last_endl := 13\<rparr>)" "\<not> escape (mrl\<lparr>last_endl := 13\<rparr>)" "holds_records (ring_hist (mrl\<lparr>last_endl := 13\<rparr>)) recs"
    using assms by simp_all
  from newline_executes [OF this(1,2) assms(4-6) this(3) assms(8), of F s]
  show ?thesis unfolding enter_key [OF assms(2,3)] by (auto simp: bindR_assoc split_def)
qed

lemma typed_line_executes:
  assumes "session recs mrl" and "plain_line line" and "no_quotes line" and "length line \<le> 126"
  shows "\<exists>m. on_line [] [] m \<and> \<not> escape m \<and> remembers line recs (hist_count (ring_hist mrl)) (ring_hist m)
    \<and> microrl_processing_input F (line @ [13]) mrl s =
    (if length (shell_words line) \<le> MICRORL_CFG_CMD_TOKEN_NMB then bindR (exec_fn F (shell_words line) s) (\<lambda>(_, t). Inr (microrlOK, m, t))
     else Inr (microrlERRTKNNUM, m, s))"
proof -
  obtain m where m: "process_chars F (line @ [13]) mrl s = process_chars F [13] m s" "on_line line [] m" "\<not> escape m"
    "holds_records (ring_hist m) recs" "hist_count (ring_hist m) = hist_count (ring_hist mrl)" "last_endl m = 0"
    using typed_line [OF assms(1,2)] assms(4) by fastforce
  have nonempty: "line \<noteq> []" using assms(2) by (simp add: plain_line_def)
  show ?thesis
    using newline_key_executes [OF m(2,3,6) append_Nil2 [symmetric] nonempty assms(3) m(4) assms(4), of F s] unfolding processing_from [OF m(1)] m(5) .
qed

text \<open>C16: the keys that edit a line - printable bytes, backspace, delete, and the moves of the cursor - change the buffer of the editor in
  the way they change a line with a cursor in it: the bytes before the cursor and those behind it. This holds for any such keys, up to a
  full line of 128 bytes; a space on an empty line and a printable byte on a full one make the editor drop the rest of the input, the
  latter with an error, and Delete with the cursor inside a full line is undefined behaviour. The history is left alone.
\<close>

theorem editing_refines_line:
  assumes "on_line l r mrl" and "\<not> escape mrl" and "keys \<noteq> []" and "\<forall>ch \<in> set keys. edits ch"
  shows "case edit_keys keys (l, r) of
      Inl e \<Rightarrow> microrl_processing_input F keys mrl s = Inl e
    | Inr (res, l', r') \<Rightarrow> \<exists>m. microrl_processing_input F keys mrl s = Inr (res, m, s) \<and> on_line l' r' m \<and> \<not> escape m
        \<and> ring_hist m = ring_hist mrl"
proof -
  have "microrl_processing_input F keys mrl s = process_chars F keys mrl s" using assms(3) by (simp add: microrl_processing_input_def)
  then show ?thesis using process_edited [OF assms(1,2,4), of F s] by (cases "edit_keys keys (l, r)") auto
qed

lemma editing_refines_line_witness:
  "\<exists>m. microrl_processing_input ex_fns [97, 99, 2, 98] microrl_init [] = Inr (microrlOK, m, []) \<and> on_line [97, 98] [99] m
    \<and> \<not> escape m \<and> ring_hist m = ring_hist microrl_init"
  using editing_refines_line [of "[]" "[]" microrl_init "[97, 99, 2, 98]" ex_fns "[]"] session_init
  by (simp add: session_def edit_key_def edits_def edit_stop_def is_control_char_def)

section \<open>A history that is full\<close>



section \<open>Browsing the history\<close>

definition browse_key :: "microrl_hist_dir \<Rightarrow> u8" where
  "browse_key dir = (if dir = MICRORL_HIST_DIR_UP then 0x10 else 0x0e)"

lemma process_browse_key:
  assumes "on_line l r mrl" and "\<not> escape mrl" and "holds_records (ring_hist mrl) recs" and "dir \<noteq> MICRORL_HIST_DIR_NONE"
  shows "\<exists>m. process_chars F (browse_key dir # input) mrl s = process_chars F input m s
    \<and> on_line (hist_entry recs (browse_step recs dir (hist_count (ring_hist mrl)))) [] m \<and> \<not> escape m \<and> last_endl m = 0
    \<and> ring_hist m = ring_hist mrl\<lparr>hist_count := browse_step recs dir (hist_count (ring_hist mrl))\<rparr>"
proof -
  have "on_line l r (mrl\<lparr>last_endl := 0\<rparr>)" "holds_records (ring_hist (mrl\<lparr>last_endl := 0\<rparr>)) recs" using assms by simp_all
  from search_finds [OF this assms(4) refl] assms(2,4) show ?thesis
    by (cases dir) (auto simp: browse_key_def is_control_char_def Let_def prv_control_char_process_def same_session_def)
qed

lemma browse_step_bound: "n \<le> length recs \<Longrightarrow> browse_step recs dir n \<le> length recs"
  by (cases dir) (auto simp: browse_step_def)

text \<open>C17: in a ring that has neither erased nor wrapped, keys that go back and forth in the history move a counter over the list of records, and the line is the record at the counter, counted
  from the latest one, or empty at zero. The end of the list stops the counter.
\<close>

theorem browsing_refines_list:
  assumes "on_line l r mrl" and "\<not> escape mrl" and "holds_records (ring_hist mrl) recs" and "dirs \<noteq> []"
    and "MICRORL_HIST_DIR_NONE \<notin> set dirs" and "n = fold (browse_step recs) dirs (hist_count (ring_hist mrl))"
  shows "\<exists>m. microrl_processing_input F (map browse_key dirs) mrl s = Inr (microrlOK, m, s) \<and> on_line (hist_entry recs n) [] m
    \<and> hist_count (ring_hist m) = n \<and> holds_records (ring_hist m) recs"
proof -
  have "\<exists>m. process_chars F (map browse_key dirs) mrl s = Inr (microrlOK, m, s) \<and> on_line (hist_entry recs n) [] m
    \<and> hist_count (ring_hist m) = n \<and> holds_records (ring_hist m) recs"
    using assms
  proof (induction dirs arbitrary: l r mrl)
    case (Cons dir dirs)
    let ?k = "browse_step recs dir (hist_count (ring_hist mrl))"
    obtain m where m: "process_chars F (map browse_key (dir # dirs)) mrl s = process_chars F (map browse_key dirs) m s"
      "on_line (hist_entry recs ?k) [] m" "\<not> escape m" "ring_hist m = ring_hist mrl\<lparr>hist_count := ?k\<rparr>"
      using process_browse_key [OF Cons.prems(1-3), of dir F "map browse_key dirs" s] Cons.prems(5) by auto
    have "?k \<le> length recs" using Cons.prems(3) browse_step_bound by (simp add: holds_records_def)
    then have held: "holds_records (ring_hist m) recs" "hist_count (ring_hist m) = ?k" using Cons.prems(3) m(4) by simp_all
    show ?case
    proof (cases "dirs = []")
      case True
      then show ?thesis using m held Cons.prems(6) by auto
    next
      case False
      from Cons.IH [OF m(2,3) held(1) False] Cons.prems(5,6) m(1) held(2) show ?thesis by simp
    qed
  qed simp
  then show ?thesis using assms(4) by (simp add: microrl_processing_input_def)
qed

lemma browsing_refines_list_witness:
  "\<exists>m. microrl_processing_input ex_fns [0x10, 0x10, 0x0e] (remembering [[97], [98], [99]]) [] = Inr (microrlOK, m, [])
    \<and> on_line [99] [] m \<and> hist_count (ring_hist m) = 1 \<and> holds_records (ring_hist m) [[97], [98], [99]]"
  using browsing_refines_list [of "[]" "[]" "remembering [[97], [98], [99]]" "[[97], [98], [99]]"
      "[MICRORL_HIST_DIR_UP, MICRORL_HIST_DIR_UP, MICRORL_HIST_DIR_DOWN]" 1 ex_fns "[]"]
    remembering_session [of "[[97], [98], [99]]"]
  by (simp add: session_def browse_key_def browse_step_def hist_entry_def remembering_def)

section \<open>Completion of a second word\<close>

lemma tab_fails:
  assumes "session recs mrl" and "plain_line line" and "no_quotes line" and "length line \<le> 128" and "32 \<in> set line"
    and "length (shell_words line) \<le> 6" and "get_completion_fn F = Some f" and "\<forall>argv. 1 < length argv \<longrightarrow> f argv = []"
  shows "\<exists>m post. microrl_processing_input F (line @ [9]) mrl s = Inr (microrlERRCPLT, m, s) \<and> cmdline_str m = zero_spaces line @ 0 # post
    \<and> length (cmdline_str m) = 129 \<and> cmdlen m = length line \<and> \<not> escape m \<and> last_endl m = 0 \<and> holds_records (ring_hist m) recs"
proof -
  obtain m where m: "process_chars F (line @ [9]) mrl s = process_chars F [9] m s" "on_line line [] m" "\<not> escape m"
    "holds_records (ring_hist m) recs" "last_endl m = 0"
    using typed_line [OF assms(1,2,4)] by fastforce
  note f = on_line_fields [OF m(2)]
  obtain post where post: "cmdline_str m = line @ 0 # post" using on_line_end [OF m(2)] by auto
  obtain ps where ps: "prv_cmdline_buf_split (length line) m = Inr (microrlOK, ps, m\<lparr>cmdline_str := zero_spaces line @ 0 # post\<rparr>)"
    "length ps = length (shell_words line)"
    using split_tokens_words [of line "[]" "[]" "length line" post] assms(3,6) post
    by (auto simp: prv_cmdline_buf_split_def MICRORL_CFG_CMD_TOKEN_NMB_def dest: arg_cong [where f = length])
  obtain w t where line: "line = w @ 32 # t" "32 \<notin> set w" using split_list_first [OF assms(5)] by blast
  define ts where "ts = map Some ps @ (if (zero_spaces line @ 0 # post) ! (length line - 1) = 0 then [None] else [])"
  have "1 < length ts"
  proof (cases t)
    case Nil
    then have "(zero_spaces line @ 0 # post) ! (length line - 1) = 0" using line by (simp add: nth_append)
    then show ?thesis using ps(2) shell_words_space [OF line(2), of t] line(1) by (simp add: ts_def)
  next
    case (Cons c t')
    then have "1 < length (shell_words line)" using shell_words_space [OF line(2), of t] line(1) shell_words_unfold [of t] by simp
    then show ?thesis using ps(2) by (simp add: ts_def)
  qed
  then have "f (map (\<lambda>t. case t of None \<Rightarrow> [] | Some p \<Rightarrow> token_str (zero_spaces line @ 0 # post) p) ts) = []" using assms(8) by simp
  moreover have "0 < length line" "length line \<le> length (zero_spaces line @ 0 # post)" using line by simp_all
  moreover have "length ps + 1 < MICRORL_CFG_CMD_TOKEN_NMB" using ps(2) assms(6) by (simp add: MICRORL_CFG_CMD_TOKEN_NMB_def)
  ultimately have completed: "prv_complete_get_input f m = Inr (microrlERRCPLT, m\<lparr>cmdline_str := zero_spaces line @ 0 # post\<rparr>)"
    using ps(1) f(1) by (simp add: prv_complete_get_input_def Let_def ts_def)
  have "prv_complete_get_input f (m\<lparr>last_endl := 0\<rparr>) = Inr (microrlERRCPLT, m\<lparr>cmdline_str := zero_spaces line @ 0 # post\<rparr>)"
    using m(5) completed by (cases m) simp
  then have "process_chars F [9] m s = Inr (microrlERRCPLT, m\<lparr>cmdline_str := zero_spaces line @ 0 # post\<rparr>, s)"
    using m(3,5) assms(7) by (simp add: is_control_char_def prv_control_char_process_def)
  then show ?thesis
    using processing_from [OF m(1)] m(3-5) f(2,3) post
    by (auto simp: microrl_processing_input_def)
qed

text \<open>C24: a completion that finds nothing leaves zeros in place of the spaces: when the user of the editor completes first words only, Tab
  behind a later word fails, and Enter then runs the first word alone, without the arguments that are still on the screen.
\<close>

theorem tab_truncates_command:
  assumes "session recs mrl" and "plain_line line" and "no_quotes line" and "length (ring recs) + length line + 1 < 128"
    and "32 \<in> set line" and "length (shell_words line) \<le> 6" and "get_completion_fn F = Some f"
    and "\<forall>argv. 1 < length argv \<longrightarrow> f argv = []"
  shows "\<exists>m m'. microrl_processing_input F (line @ [9]) mrl s = Inr (microrlERRCPLT, m, s)
    \<and> microrl_processing_input F [13] m s = bindR (exec_fn F [hd (shell_words line)] s) (\<lambda>(_, t). Inr (microrlOK, m', t))"
proof -
  obtain m post where m: "microrl_processing_input F (line @ [9]) mrl s = Inr (microrlERRCPLT, m, s)" "cmdline_str m = zero_spaces line @ 0 # post"
    "length (cmdline_str m) = 129" "cmdlen m = length line" "\<not> escape m" "last_endl m = 0" "holds_records (ring_hist m) recs"
    using tab_fails [OF assms(1-3) _ assms(5-8)] assms(4) by fastforce
  obtain w t where line: "line = w @ 32 # t" "32 \<notin> set w" using split_list_first [OF assms(5)] by blast
  have w: "w \<noteq> []" "no_quotes w" using assms(2,3) line by (auto simp: plain_line_def)
  have hd: "hd (shell_words line) = w" using shell_words_space [OF line(2)] line(1) by simp
  have str: "cmdline_str m = w @ 0 # zero_spaces t @ 0 # post" using m(2) line zero_spaces_word by simp
  have "terminated (cmdline_str m)" unfolding str by (simp add: terminated_def)
  from save_line_fits [OF m(7,3) this assms(4)]
  obtain r where r: "prv_hist_save_line (cmdline_str m) (length line) (ring_hist m) = Inr r" by blast
  obtain ps where ps: "split_tokens (length line) (cmdline_str m) 0 [] = Inr (microrlOK, ps, cmdline_str m)" "map (token_str (cmdline_str m)) ps = [w]"
    using split_tokens_words [of w "[]" "[]" "length line" "zero_spaces t @ 0 # post"] w line zero_spaces_word [OF line(2)] shell_words_last [OF w(1) line(2)] str
    by (auto simp: MICRORL_CFG_CMD_TOKEN_NMB_def)
  let ?m = "(prv_terminal_newline (m\<lparr>last_endl := 13\<rparr>))\<lparr>ring_hist := r\<rparr>"
  have "line \<noteq> []" using line by simp
  then have "prv_handle_newline F (m\<lparr>last_endl := 13\<rparr>) s = bindR (exec_fn F [w] s) (\<lambda>(_, t). Inr (microrlOK,
      prv_cmdline_buf_reset (prv_terminal_print_prompt (?m\<lparr>cmdline_str := cmdline_str m\<rparr>)), t))"
    using r ps m(4) by (simp add: prv_handle_newline_def Let_def prv_cmdline_buf_split_def)
  then have "microrl_processing_input F [13] m s = bindR (exec_fn F [w] s) (\<lambda>(_, t). Inr (microrlOK,
      prv_cmdline_buf_reset (prv_terminal_print_prompt (?m\<lparr>cmdline_str := cmdline_str m\<rparr>)), t))"
    unfolding enter_key [OF m(5,6)] by (simp add: bindR_assoc split_def)
  then show ?thesis using m(1) unfolding hd by blast
qed

lemma tab_truncates_command_witness:
  "\<exists>m m'. microrl_processing_input ex_fns (c_bytes ''stop -i 3'' @ [9]) microrl_init [] = Inr (microrlERRCPLT, m, [])
    \<and> microrl_processing_input ex_fns [13] m [] = Inr (microrlOK, m', [[c_bytes ''stop'']])"
  using tab_truncates_command [OF session_init, of "c_bytes ''stop -i 3''" ex_fns "\<lambda>argv. []" "[]"]
  by (simp add: ex_fns_def c_bytes_def plain_line_def is_control_char_def shell_words.simps(2) Let_def)

text \<open>C25: after a Tab behind a later word for which no completion is found, the zero behind the first word keeps \<open>prv_terminal_print_line\<close> from giving out its buffer of 64 bytes: on a line
  that goes on for 64 bytes behind it, a redraw (\<open>^R\<close>) writes past the end of the buffer on the stack.
\<close>

theorem redraw_after_tab_overflows:
  assumes "session recs mrl" and "plain_line line" and "no_quotes line" and "length line \<le> 128"
    and "32 \<in> set line" and "length (shell_words line) \<le> 6" and "get_completion_fn F = Some f"
    and "\<forall>argv. 1 < length argv \<longrightarrow> f argv = []" and "length (hd (shell_words line)) + 65 \<le> length line"
  shows "\<exists>m. microrl_processing_input F (line @ [9]) mrl s = Inr (microrlERRCPLT, m, s) \<and> microrl_processing_input F [0x12] m s = Inl UB"
proof -
  obtain m post where m: "microrl_processing_input F (line @ [9]) mrl s = Inr (microrlERRCPLT, m, s)" "cmdline_str m = zero_spaces line @ 0 # post"
    "length (cmdline_str m) = 129" "cmdlen m = length line" "\<not> escape m"
    using tab_fails [OF assms(1-8)] by fastforce
  obtain w t where line: "line = w @ 32 # t" "32 \<notin> set w" using split_list_first [OF assms(5)] by blast
  have hd: "hd (shell_words line) = w" using shell_words_space [OF line(2)] line(1) by simp
  let ?m = "prv_terminal_print_prompt (prv_terminal_newline (m\<lparr>last_endl := 0\<rparr>))"
  have fields: "cmdline_str ?m = cmdline_str m" "cmdlen ?m = cmdlen m"
    by (simp_all add: prv_terminal_print_prompt_def prv_terminal_newline_def out_fn_def)
  have zero: "cmdline_str ?m ! length w = 0" using m(2) line fields(1) zero_spaces_word by (simp add: nth_append)
  have "prv_terminal_print_line 0 False ?m = Inl UB"
    by (rule print_line_overflows [OF _ _ zero]) (use m(3,4) fields assms(4,9) hd in simp_all)
  then have "microrl_processing_input F [0x12] m s = Inl UB"
    using m(5) by (simp add: microrl_processing_input_def is_control_char_def prv_control_char_process_def Let_def)
  then show ?thesis using m(1) by blast
qed

lemma redraw_after_tab_overflows_witness:
  "\<exists>m. microrl_processing_input ex_fns ((c_bytes ''start'' @ 32 # replicate 70 97) @ [9]) microrl_init [] = Inr (microrlERRCPLT, m, [])
    \<and> microrl_processing_input ex_fns [0x12] m [] = Inl UB"
proof (rule redraw_after_tab_overflows [OF session_init])
  define k where "k = (70 :: nat)"
  have words: "shell_words (c_bytes ''start'' @ 32 # replicate k 97) = [c_bytes ''start'', replicate k 97]"
    using shell_words_space [of "c_bytes ''start''" "replicate k 97"] shell_words_last [of "replicate k 97"] k_def
    by (simp add: c_bytes_def)
  have "plain_line (c_bytes ''start'' @ 32 # replicate k 97)" "no_quotes (c_bytes ''start'' @ 32 # replicate k 97)"
    by (simp_all add: plain_line_def no_quotes_def is_control_char_def c_bytes_def)
  then show "plain_line (c_bytes ''start'' @ 32 # replicate 70 97)" "no_quotes (c_bytes ''start'' @ 32 # replicate 70 97)"
    unfolding k_def .
  show "length (shell_words (c_bytes ''start'' @ 32 # replicate 70 97)) \<le> 6"
    "length (hd (shell_words (c_bytes ''start'' @ 32 # replicate 70 97))) + 65 \<le> length (c_bytes ''start'' @ 32 # replicate 70 97)"
    unfolding words [unfolded k_def] by (simp_all add: c_bytes_def)
  show "get_completion_fn ex_fns = Some (\<lambda>argv. [])" by (simp add: ex_fns_def)
qed (simp_all add: c_bytes_def)

section \<open>A line that does not fit\<close>

lemma no_room_127: "hist_head r < length (ring_buf r) \<Longrightarrow> length (ring_buf r) = 128 \<Longrightarrow> hist_make_room 127 r \<noteq> Inr r'"
  using make_room_ok [of 127 r r'] by (auto simp: prv_hist_is_space_for_new_def split: if_splits)

lemma length_compared:
  assumes "holds_records r recs"
  shows "length (compared recs (hist_count r)) < 127"
proof -
  let ?n = "if hist_count r = 1 then 1 else min (hist_count r + 1) (length recs)"
  have "?n \<le> length recs" "length (ring recs) < 128" using assms by (auto simp: holds_records_def)
  then show ?thesis using entry_shorter [of ?n recs] unfolding compared_def by (cases "?n = 0") (auto simp: hist_entry_def)
qed

text \<open>C26:   Enter after a line of 127 bytes does not return: no erasing of older records makes room for it, as one byte of the 128 is kept free
  besides the mark of the record, so the loop runs on until it leaves the array.
\<close>

theorem long_line_never_returns:
  assumes "session recs mrl" and "plain_line line" and "no_quotes line" and "length line = 127"
  shows "microrl_processing_input F (line @ [13]) mrl s \<noteq> Inr out"
proof -
  obtain m where m: "process_chars F (line @ [13]) mrl s = process_chars F [13] m s" "on_line line [] m" "\<not> escape m"
    "holds_records (ring_hist m) recs" "last_endl m = 0"
    using typed_line [OF assms(1,2)] assms(4) by fastforce
  note f = on_line_fields [OF m(2)]
  obtain post where post: "cmdline_str m = line @ 0 # post" using on_line_end [OF m(2)] by auto
  have line: "terminated (cmdline_str m)" "c_string (cmdline_str m) = line" using f(5) post by (auto simp: terminated_def)
  obtain n where n: "prv_hist_save_line (cmdline_str m) 127 (ring_hist m) = (
    if line = compared recs (hist_count (ring_hist m)) then Inr (ring_hist m\<lparr>hist_count := 0\<rparr>)
    else bindR (hist_make_room 127 (ring_hist m\<lparr>hist_count := n\<rparr>)) (hist_store (cmdline_str m) 127))"
    using save_line_compares [OF m(4) f(3) line(1), of 127] line(2) by auto
  have "line \<noteq> compared recs (hist_count (ring_hist m))"
    using length_compared [OF m(4)] assms(4) by auto
  moreover have "hist_make_room 127 (ring_hist m\<lparr>hist_count := n\<rparr>) \<noteq> Inr r" for r
    by (rule no_room_127) (use holds_records_buf(1) [OF m(4)] m(4) in \<open>simp_all add: holds_records_def\<close>)
  then have "bindR (hist_make_room 127 (ring_hist m\<lparr>hist_count := n\<rparr>)) (hist_store (cmdline_str m) 127) \<noteq> Inr r" for r
    by (auto simp: bindR_Inr_iff)
  ultimately have "prv_hist_save_line (cmdline_str m) 127 (ring_hist m) \<noteq> Inr r" for r using n by simp
  then have "prv_handle_newline F (m\<lparr>last_endl := 13\<rparr>) s \<noteq> Inr z" for z
    using f(2) assms(4) by (auto simp: prv_handle_newline_def Let_def bindR_Inr_iff)
  then show ?thesis unfolding processing_from [OF m(1)] enter_key [OF m(3,5)] by (auto simp: bindR_Inr_iff)
qed

lemma long_line_never_returns_witness:
  "microrl_processing_input ex_fns (replicate 127 97 @ [13]) microrl_init [] \<noteq> Inr (microrlOK, microrl_init, [])"
proof (rule long_line_never_returns [OF session_init])
  have "plain_line (replicate (Suc k) 97)" "no_quotes (replicate k 97)" for k
    by (simp_all add: plain_line_def no_quotes_def is_control_char_def)
  from this(1) [of 126] this(2) [of 127] show "plain_line (replicate 127 97)" "no_quotes (replicate 127 97)" by simp_all
qed simp

end
