(* ===== verification/Orch_Console.thy ===== *)
theory Orch_Console
  imports Orch_Invariant Microrl_Properties Orch_Example
begin

text \<open>
  The console of the orchestrator from the serial line to the command: the bytes that arrive, the blocks that the editor gets, the line
  it holds, and the command it runs.
\<close>

lemma serial_blocks_split:
  "length input < SHELL_INPUT_BUFFER_SIZE \<Longrightarrow>
     concat (serial_blocks received input) = input @ map shell_normalise_input received \<and> [] \<notin> set (serial_blocks received input)"
proof (induction received arbitrary: input)
  case (Cons c received)
  then show ?case
    using Cons.IH [of "[]"] Cons.IH [of "input @ [shell_normalise_input c]"]
    by (auto simp: Let_def SHELL_INPUT_BUFFER_SIZE_def)
qed simp

lemma edit_through_append: "edit_through (ks @ ks') z = Option.bind (edit_through ks z) (edit_through ks')"
  by (induction ks arbitrary: z) auto

text \<open>
  A line that is typed in several blocks: the editor takes each block to the end, and the last one ends the
  line.
\<close>

lemma blocks_execute:
  assumes "edit_through keys (l0, r0) = Some (l, r)" and "concat blocks = keys @ [13]" and "[] \<notin> set blocks"
    and "on_line l0 r0 (shell s)" and "\<not> escape (shell s)" and "keys = [] \<longrightarrow> last_endl (shell s) = 0"
    and "holds_records (ring_hist (shell s)) recs" and "l @ r \<noteq> []" and "no_quotes (l @ r)" and "length (l @ r) \<le> 126"
  shows "\<exists>m m'. on_line [] [] m' \<and> \<not> escape m' \<and> remembers (l @ r) recs (hist_count (ring_hist (shell s))) (ring_hist m')
    \<and> process_blocks E blocks s =
      (if length (shell_words (l @ r)) \<le> MICRORL_CFG_CMD_TOKEN_NMB
       then bindR (shell_execute E (shell_words (l @ r)) (s\<lparr>shell := m\<rparr>)) (\<lambda>(_, t). Inr (t\<lparr>shell := m'\<rparr>))
       else Inr (s\<lparr>shell := m'\<rparr>))"
  using assms
proof (induction blocks arbitrary: keys l0 r0 s)
  case (Cons b blocks)
  show ?case
  proof (cases "blocks = []")
    case True
    then have b: "b = keys @ [13]" using Cons.prems(2) by simp
    obtain m where m: "process_chars (shell_fns E) (keys @ [13]) (shell s) s = process_chars (shell_fns E) [13] m s"
      "on_line l r m" "same_session (if keys = [] then shell s else (shell s)\<lparr>last_endl := 0\<rparr>) m"
      using process_edit_keys [OF Cons.prems(4,5,1), of "shell_fns E" "[13]" s] by blast
    have f: "\<not> escape m" "last_endl m = 0" "ring_hist m = ring_hist (shell s)"
      using m(3) Cons.prems(5,6) by (auto simp: same_session_def split: if_splits)
    have held: "holds_records (ring_hist m) recs" using f(3) Cons.prems(7) by simp
    obtain m' where m': "on_line [] [] m'" "\<not> escape m'" "remembers (l @ r) recs (hist_count (ring_hist m)) (ring_hist m')"
      "microrl_processing_input (shell_fns E) [13] m s =
        (if length (shell_words (l @ r)) \<le> MICRORL_CFG_CMD_TOKEN_NMB
         then bindR (exec_fn (shell_fns E) (shell_words (l @ r)) s) (\<lambda>(_, t). Inr (microrlOK, m', t))
         else Inr (microrlERRTKNNUM, m', s))"
      using newline_key_executes [OF m(2) f(1,2) refl Cons.prems(8,9) held Cons.prems(10), of "shell_fns E" s] by blast
    have "process_blocks E [b] s = bindR (microrl_processing_input (shell_fns E) [13] m s) (\<lambda>(_, mrl, t). Inr (t\<lparr>shell := mrl\<rparr>))"
      unfolding b using processing_from [OF m(1)] by simp
    also have "\<dots> = (if length (shell_words (l @ r)) \<le> MICRORL_CFG_CMD_TOKEN_NMB
       then bindR (shell_execute E (shell_words (l @ r)) (s\<lparr>shell := shell s\<rparr>)) (\<lambda>(_, t). Inr (t\<lparr>shell := m'\<rparr>))
       else Inr (s\<lparr>shell := m'\<rparr>))"
      unfolding m'(4) by (simp add: bindR_assoc split_def)
    finally have last: "process_blocks E (b # blocks) s = \<dots>" using True by simp
    show ?thesis
      by (intro exI [of _ "shell s"] exI [of _ m'] conjI m'(1,2)) (use m'(3) f(3) in simp, rule last)
  next
    case False
    obtain ys y where blocks: "blocks = ys @ [y]" using False by (cases blocks rule: rev_cases) blast+
    obtain z c where y: "y = z @ [c]" using Cons.prems(3) blocks by (cases y rule: rev_cases) auto
    have ks: "keys = b @ concat ys @ z" "concat blocks = (concat ys @ z) @ [13]"
      using Cons.prems(2) unfolding blocks y by simp_all
    have b: "b \<noteq> []" using Cons.prems(3) by auto
    obtain l1 r1 where e: "edit_through b (l0, r0) = Some (l1, r1)" "edit_through (concat ys @ z) (l1, r1) = Some (l, r)"
      using Cons.prems(1) unfolding ks(1) edit_through_append by (auto simp: bind_eq_Some_conv)
    obtain m where m: "process_chars (shell_fns E) (b @ []) (shell s) s = process_chars (shell_fns E) [] m s"
      "on_line l1 r1 m" "same_session (if b = [] then shell s else (shell s)\<lparr>last_endl := 0\<rparr>) m"
      using process_edit_keys [OF Cons.prems(4,5) e(1), of "shell_fns E" "[]" s] by blast
    have f: "\<not> escape m" "last_endl m = 0" "ring_hist m = ring_hist (shell s)"
      using m(3) Cons.prems(5) b by (simp_all add: same_session_def)
    have step: "process_blocks E (b # blocks) s = process_blocks E blocks (s\<lparr>shell := m\<rparr>)"
      using m(1) b by (simp add: microrl_processing_input_def)
    have pre: "on_line l1 r1 (shell (s\<lparr>shell := m\<rparr>))" "\<not> escape (shell (s\<lparr>shell := m\<rparr>))"
      "concat ys @ z = [] \<longrightarrow> last_endl (shell (s\<lparr>shell := m\<rparr>)) = 0" "holds_records (ring_hist (shell (s\<lparr>shell := m\<rparr>))) recs" "[] \<notin> set blocks"
      using m(2) f Cons.prems(3,7) by simp_all
    have same: "s\<lparr>shell := m, shell := x\<rparr> = s\<lparr>shell := x\<rparr>" "ring_hist (shell (s\<lparr>shell := m\<rparr>)) = ring_hist (shell s)" for x
      using f(3) by simp_all
    show ?thesis using Cons.IH [OF e(2) ks(2) pre(5,1-4) Cons.prems(8-10)] unfolding same step .
  qed
qed simp

text \<open>C15: A line that is typed at the serial device, in a session with an empty line whose history has not yet wrapped: printable bytes, in any
  number, with corrections by backspace, delete and moves of the cursor, and a carriage return. However the bytes fall into the blocks
  of 64 that the editor gets, the shell executes the words between the spaces of the line that is left, or nothing when there are more
  than eight; the editor is ready for the next line. The line has no quotes and at most 126 bytes, and no key is refused (as a space
  on an empty line is). The line enters the history unless the record it is compared with is the same; without room for it the ring
  runs over its end.
\<close>

theorem serial_line_runs_command:
  assumes "session recs (shell s)" and "edit_through (map shell_normalise_input typed) ([], []) = Some (l, r)" and "line = l @ r"
    and "line \<noteq> []" and "no_quotes line" and "length line \<le> 126"
  shows "\<exists>m mrl. on_line [] [] mrl \<and> \<not> escape mrl \<and> remembers line recs (hist_count (ring_hist (shell s))) (ring_hist mrl)
    \<and> orche_handle_serial_event E (typed @ [13]) s =
    (if length (shell_words line) \<le> MICRORL_CFG_CMD_TOKEN_NMB
     then bindR (shell_execute E (shell_words line) (s\<lparr>shell := m\<rparr>)) (\<lambda>(_, t). Inr (t\<lparr>shell := mrl\<rparr>))
     else Inr (s\<lparr>shell := mrl\<rparr>))"
proof -
  have blocks: "concat (serial_blocks (typed @ [13]) []) = map shell_normalise_input typed @ [13]" "[] \<notin> set (serial_blocks (typed @ [13]) [])"
    using serial_blocks_split [of "[]" "typed @ [13]"] by (simp_all add: SHELL_INPUT_BUFFER_SIZE_def shell_normalise_input_def)
  have start: "on_line [] [] (shell s)" "\<not> escape (shell s)" "holds_records (ring_hist (shell s)) recs"
    using assms(1) by (simp_all add: session_def)
  have "map shell_normalise_input typed \<noteq> []" using assms(2-4) by (cases typed) auto
  then have "map shell_normalise_input typed = [] \<longrightarrow> last_endl (shell s) = 0" by simp
  from blocks_execute [OF assms(2) blocks start(1,2) this start(3), of E] assms(4-6)
  show ?thesis unfolding orche_handle_serial_event_def assms(3) by blast
qed

lemma serial_line_runs_command_witness:
  "\<exists>m mrl. remembers (c_bytes ''suspend -i 3'') [] 0 (ring_hist mrl)
    \<and> orche_handle_serial_event ex_orch_env (c_bytes ''suspend -i 4'' @ [127, 51, 13]) (orch_globals ex_fs_state (ex_reports 1, CoNone))
      = bindR (shell_execute ex_orch_env [c_bytes ''suspend'', c_bytes ''-i'', c_bytes ''3'']
          ((orch_globals ex_fs_state (ex_reports 1, CoNone))\<lparr>shell := m\<rparr>)) (\<lambda>(_, t). Inr (t\<lparr>shell := mrl\<rparr>))"
proof -
  let ?s = "orch_globals ex_fs_state (ex_reports 1, CoNone)" and ?line = "c_bytes ''suspend -i 3''"
    and ?typed = "c_bytes ''suspend -i 4'' @ [127, 51]"
  have shell: "shell ?s = microrl_init" by (simp add: orch_globals_def)
  have start: "hist_count (ring_hist microrl_init) = 0" by (simp add: microrl_init_def microrl_set_prompt_def)
  have line: "no_quotes ?line" "?line \<noteq> []" "length ?line \<le> 126"
    "shell_words ?line = [c_bytes ''suspend'', c_bytes ''-i'', c_bytes ''3'']"
    by (simp_all add: c_bytes_def shell_words.simps(2) Let_def)
  have typed: "edit_through (map shell_normalise_input ?typed) ([], []) = Some (?line, [])"
    by (simp add: c_bytes_def shell_normalise_input_def edits_def edit_stop_def edit_key_def is_control_char_def)
  have "?typed @ [13] = c_bytes ''suspend -i 4'' @ [127, 51, 13]" by simp
  with serial_line_runs_command [of "[]" ?s ?typed ?line "[]" ?line ex_orch_env, OF _ typed _ line(2,1,3)]
  show ?thesis by (simp add: shell session_init start line(4) MICRORL_CFG_CMD_TOKEN_NMB_def) blast
qed

end
