(* ===== verification/Deploy_Command.thy ===== *)
theory Deploy_Command
  imports Orch_Example
begin

unbundle bit_operations_syntax

text \<open>
  The deploy command of the shell from its words to the monitor: the orchestrator reads the image into the memory that both
  domains share and sends the request, and the monitor starts a deployment of this image in this protocon for these peers.
\<close>

section \<open>Accepted requests\<close>

text \<open>The peers a request asks for.\<close>

definition asks_for :: "u32 \<Rightarrow> u32 \<Rightarrow> bool \<Rightarrow> monitor \<Rightarrow> nat \<Rightarrow> bool" where
  "asks_for pc_id peer_mask peers_all m j \<longleftrightarrow>
     (if peers_all then j < unat (num_pc m) \<and> j \<noteq> unat pc_id else bit peer_mask j)"

lemma request_accepted:
  assumes "tables_ok m" and "unat pc_id < unat (num_pc m)" and "\<And>j. bit peer_mask j \<Longrightarrow> j < unat (num_pc m) \<and> j \<noteq> unat pc_id"
    and "lifecycles m ! unat pc_id = PROTOCON_PASSIVE" and "\<not> deploy_request_active m" and "cothread_spawn M (events m)"
  shows "\<exists>peers. monitor_call_deploy_to_protocon M (ucast pc_id) (ucast peer_mask) (if peers_all then 1 else 0) (m, co)
      = bindR (co_settle M (deploy_target (ucast pc_id) peers m, CoSpawned)) (\<lambda>sys. Inr ((MON_NO_ERROR, 0), sys))
     \<and> (\<forall>j. bit (ucast peers :: u32) j \<longleftrightarrow> asks_for pc_id peer_mask peers_all m j)"
proof -
  have n: "unat (num_pc m) \<le> 16" "unat pc_id < 16" using assms(1,2) by (simp_all add: tables_ok_def)
  have id: "unat (ucast pc_id :: u64) = unat pc_id" by simp
  have known: "\<not> (ucast pc_id :: u64) \<ge> num_pc m" using assms(2) by (simp add: word_le_nat_alt)
  let ?valid = "push_bit (unat (num_pc m)) 1 - 1 :: u64"
  let ?peers = "if peers_all then ?valid AND NOT (push_bit (unat pc_id) 1) else ucast peer_mask"
  have "(ucast peer_mask :: u64) AND NOT ?valid = 0 \<and> (ucast peer_mask :: u64) AND push_bit (unat pc_id) 1 = 0"
  proof -
    have "\<not> (\<exists>j. bit (ucast peer_mask :: u64) j \<and> (unat (num_pc m) \<le> j \<or> j = unat pc_id))"
      using assms(3) by (fastforce simp: bit_ucast_iff)
    then show ?thesis using bad_peers_iff [OF n(1) assms(2), of "ucast peer_mask"] by blast
  qed
  then have acc: "accepted_peers (ucast pc_id) (ucast peer_mask) (if peers_all then 1 else 0) m = Inr ?peers"
    using known assms(4,5) by (simp add: accepted_peers_def Let_def id del: push_bit_of_1)
  have "events (deploy_target (ucast pc_id) ?peers m) = events m" by (simp add: deploy_target_def)
  then have call: "monitor_call_deploy_to_protocon M (ucast pc_id) (ucast peer_mask) (if peers_all then 1 else 0) (m, co)
      = bindR (co_settle M (deploy_target (ucast pc_id) ?peers m, CoSpawned)) (\<lambda>sys. Inr ((MON_NO_ERROR, 0), sys))"
    unfolding to_protocon_eq [OF assms(1)] acc using assms(6) by (simp add: monitor_deploy_second_half_def)
  have "bit (ucast ?peers :: u32) j \<longleftrightarrow> asks_for pc_id peer_mask peers_all m j" for j
  proof (cases peers_all)
    case True
    then show ?thesis using all_peers_bit [OF n(1) assms(2), of j] n by (auto simp: asks_for_def bit_ucast_iff simp del: push_bit_of_1)
  next
    case False
    then show ?thesis by (auto simp: asks_for_def bit_ucast_iff dest: bit_imp_le_length)
  qed
  then show ?thesis using call by blast
qed

section \<open>The shared image\<close>

text \<open>What the orchestrator holds at the image is what the monitor finds at the payload.\<close>

lemma payload_seen:
  assumes "mem_holds mem shared2 bytes" and "length bytes \<le> 0x800000"
  shows "mem_holds (shared_view mem m) carrels_payload_start bytes"
proof -
  have same: "shared_view mem m (carrels_payload_start + word_of_nat i) = mem (shared2 + word_of_nat i)" if "i < length bytes" for i
  proof -
    have i: "unat (word_of_nat i :: u64) = i" using that assms(2) by (intro unat_word_of_nat_lt) simp
    have "unat (carrels_payload_start + word_of_nat i - 0x6000000) = 0x1000000 + i"
      "unat (carrels_payload_start + word_of_nat i - 0x6800000) = 0x800000 + i"
      using i that assms(2) by (simp_all add: carrels_payload_start_def unat_word_ariths)
    then show ?thesis using i that assms(2) by (simp add: shared_view_def image_size_def word_less_nat_alt)
  qed
  have "mem_read (shared_view mem m) carrels_payload_start (length bytes) = mem_read mem shared2 (length bytes)"
    unfolding mem_read_def by (intro map_cong refl) (simp add: same)
  then show ?thesis using assms(1) by (simp add: mem_holds_def)
qed

lemma own_memory_kept:
  assumes "a - 0x6000000 \<ge> image_size" and "a - 0x6800000 \<ge> image_size" and "a - carrels_payload_start \<ge> image_size"
  shows "shared_view mem m a = m a"
  using assms by (simp add: shared_view_def not_less [symmetric])

section \<open>The command\<close>

text \<open>The image can be read: the server has the file, it fits the shared memory and the bound of the read loop, and the share is elsewhere.\<close>

definition image_there :: "'m orch_env \<Rightarrow> 'm orch \<Rightarrow> u8 list \<Rightarrow> u64 \<Rightarrow> u8 list \<Rightarrow> bool" where
  "image_there E s name fd data \<longleftrightarrow> serves_file (orch_fs E) name fd data \<and> fd \<noteq> -1 \<and> vfs_ready (orch_fs E) s
     \<and> length name < FS_BUFFER_SIZE (orch_fs E) \<and> length data \<le> 0x800000 \<and> length data < orch_read_bound E
     \<and> block shared2 (word_of_nat (length data)) \<inter> share_region (orch_fs E) = {}"

text \<open>The command can be accepted: the file system is mounted, no deployment is pending, a coroutine is left, and the name and the
  numbers are good.\<close>

definition command_good :: "'m orch_env \<Rightarrow> 'm orch \<Rightarrow> u8 list \<Rightarrow> u32 \<Rightarrow> u8 list \<Rightarrow> u32 \<Rightarrow> bool \<Rightarrow> bool" where
  "command_good E s name pc_id ports peer_mask peers_all \<longleftrightarrow> fs_init s \<and> \<not> deploy_pending s \<and> loaders s = [] \<and> orch_spawn E 0
     \<and> name \<noteq> [] \<and> 0 \<notin> set name \<and> length name < FNAME_BUF_SIZE \<and> pc_id < MAX_PROTOCON_PORTS E
     \<and> parse_peer_ports (MAX_PROTOCON_PORTS E) ports pc_id = Some (peer_mask, peers_all)"

text \<open>The monitor can take it: it has as many protocons, the target is free, no request is active, and a coroutine is left.\<close>

definition monitor_free :: "mon_env \<Rightarrow> 'm orch_env \<Rightarrow> monitor \<Rightarrow> u32 \<Rightarrow> bool" where
  "monitor_free M E m pc_id \<longleftrightarrow> unat (MAX_PROTOCON_PORTS E) \<le> unat (num_pc m) \<and> lifecycles m ! unat pc_id = PROTOCON_PASSIVE
     \<and> \<not> deploy_request_active m \<and> cothread_spawn M (events m)"

definition deploy_words :: "u8 list \<Rightarrow> u32 \<Rightarrow> u8 list \<Rightarrow> u8 list list" where
  "deploy_words name pc_id ports = [c_bytes ''deploy'', c_bytes ''-a'', name, c_bytes ''-pc'', decimal (unat pc_id), c_bytes ''-peers'', ports]"

lemma command_accepted:
  assumes "command_good E s name pc_id ports peer_mask peers_all"
  shows "shell_execute E (deploy_words name pc_id ports) s = Inr (0, (set_fname name s)\<lparr>deploy_pc_id := pc_id,
    deploy_peer_mask := peer_mask, deploy_peers_all := peers_all, deploy_pending := True, loaders := [Reading LoadTargeted name]\<rparr>)"
proof -
  have g: "fs_init s" "\<not> deploy_pending s" "loaders s = []" "orch_spawn E 0" "name \<noteq> []" "0 \<notin> set name"
    "length name < FNAME_BUF_SIZE" "pc_id < MAX_PROTOCON_PORTS E"
    "parse_peer_ports (MAX_PROTOCON_PORTS E) ports pc_id = Some (peer_mask, peers_all)"
    using assms by (simp_all add: command_good_def)
  have "shell_execute E (deploy_words name pc_id ports) s = Inr (cmd_deploy E (deploy_words name pc_id ports) s)"
    by (simp add: shell_execute_def deploy_words_def c_bytes_def)
  moreover have "cmd_deploy E (deploy_words name pc_id ports) s = (0, (set_fname name s)\<lparr>deploy_pc_id := pc_id,
    deploy_peer_mask := peer_mask, deploy_peers_all := peers_all, deploy_pending := True, loaders := [Reading LoadTargeted name]\<rparr>)"
    using g by (simp add: cmd_deploy_def deploy_words_def not_le [symmetric] orch_cothread_spawn_def orch_yield_def
        set_fname_def loader_begin_def)
  ultimately show ?thesis by simp
qed

lemma request_reaches_monitor:
  assumes "linked M E" and "orch_monitor s = (m, co)" and "tables_ok m" and "unat pc_id < unat (num_pc m)"
    and "\<And>j. bit peer_mask j \<Longrightarrow> j < unat (num_pc m) \<and> j \<noteq> unat pc_id"
    and "lifecycles m ! unat pc_id = PROTOCON_PASSIVE" and "\<not> deploy_request_active m" and "cothread_spawn M (events m)"
  shows "\<exists>peers regs. monitor_ppcall E [PC_MONITOR_CALL_DEPLOY_TO_PROTOCON, ucast pc_id, ucast peer_mask, if peers_all then 1 else 0] s
      = bindR (co_settle M (deploy_target (ucast pc_id) peers (m\<lparr>memory := shared_view (memory s) (memory m), mrs := regs\<rparr>), CoSpawned))
         (\<lambda>sys. Inr (MON_NO_ERROR, s\<lparr>orch_monitor := sys, orch_mrs := mrs (fst sys)\<rparr>))
     \<and> (\<forall>j. bit (ucast peers :: u32) j \<longleftrightarrow> asks_for pc_id peer_mask peers_all m j)"
proof -
  let ?msg = "[PC_MONITOR_CALL_DEPLOY_TO_PROTOCON, ucast pc_id, ucast peer_mask, if peers_all then 1 else 0 :: u64]"
  define regs where "regs = (\<lambda>i. if i < length ?msg then ?msg ! i else mrs (fst (orch_monitor s)) i)"
  let ?m = "m\<lparr>memory := shared_view (memory s) (memory m), mrs := regs\<rparr>"
  have m: "tables_ok ?m" "num_pc ?m = num_pc m" "lifecycles ?m = lifecycles m" "events ?m = events m"
    "deploy_request_active ?m = deploy_request_active m"
    using assms(3) by (simp_all add: tables_ok_def lifecycles_def)
  obtain peers where p: "monitor_call_deploy_to_protocon M (ucast pc_id) (ucast peer_mask) (if peers_all then 1 else 0) (?m, co)
      = bindR (co_settle M (deploy_target (ucast pc_id) peers ?m, CoSpawned)) (\<lambda>sys. Inr ((MON_NO_ERROR, 0), sys))"
    "\<forall>j. bit (ucast peers :: u32) j \<longleftrightarrow> asks_for pc_id peer_mask peers_all ?m j"
    using request_accepted [OF m(1), of pc_id peer_mask M peers_all co] assms(4-8) m by auto
  have r: "regs 0 = PC_MONITOR_CALL_DEPLOY_TO_PROTOCON" "regs (Suc 0) = ucast pc_id" "regs 2 = ucast peer_mask"
    "regs 3 = (if peers_all then 1 else 0)"
    by (simp_all add: regs_def)
  have "monitor_protected M 23 regs (monitor_sees (memory s) (orch_monitor s))
      = monitor_call_deploy_to_protocon M (ucast pc_id) (ucast peer_mask) (if peers_all then 1 else 0) (?m, co)"
    by (simp add: monitor_protected_def monitor_main_handle_pccall_def call_numbers r monitor_sees_def assms(2))
  then have "monitor_ppcall E ?msg s = bindR (co_settle M (deploy_target (ucast pc_id) peers ?m, CoSpawned))
      (\<lambda>sys. Inr (MON_NO_ERROR, s\<lparr>orch_monitor := sys, orch_mrs := mrs (fst sys)\<rparr>))"
    unfolding monitor_ppcall_def linkedD [OF assms(1)] regs_def [symmetric] p(1) by (simp add: bindR_assoc split_def)
  then show ?thesis using p(2) by (auto simp: asks_for_def)
qed

lemma rest_loading:
  "rest_of (s' :: 'm orch) = rest_of s \<Longrightarrow> orch_monitor s' = orch_monitor s \<and> deploy_pc_id s' = deploy_pc_id s
     \<and> deploy_peer_mask s' = deploy_peer_mask s \<and> deploy_peers_all s' = deploy_peers_all s \<and> deploy_pending s' = deploy_pending s
     \<and> loaders s' = loaders s"
  by (cases s; cases s') simp

section \<open>Properties\<close>

text \<open>C5: with a good deploy command, an image that the file server has and a monitor that is free, the shell accepts the command, and when
  the image is read the monitor starts the coroutine of a deployment for exactly the protocon and the peers of the command; the
  payload it finds is the image, byte for byte, and its own memory, its protocons and its policies are as they were. Unless the
  coroutine stops the monitor, the orchestrator then waits for the result.\<close>

theorem deploy_command_starts_deployment:
  assumes "linked M E" and "orch_monitor s = (m, co)" and "base_ok m" and "monitor_free M E m pc_id"
    and "command_good E s name pc_id ports peer_mask peers_all" and "image_there E s name fd data"
  shows "\<exists>t u m'. shell_execute E (deploy_words name pc_id ports) s = Inr (0, t)
     \<and> loader_finish E 0 t = bindR (co_settle M (m', CoSpawned)) (\<lambda>sys. Inr (u\<lparr>orch_monitor := sys, orch_mrs := mrs (fst sys)\<rparr>))
     \<and> deploy_pending u \<and> loaders u = []
     \<and> deploy_request_active m' \<and> targeted (deploy_request m') \<and> target_pc (deploy_request m') = pc_id
     \<and> (\<forall>j. bit (req_peer_mask (deploy_request m')) j \<longleftrightarrow> asks_for pc_id peer_mask peers_all m j)
     \<and> \<not> res_ready (deploy_result m')
     \<and> mem_holds (memory m') carrels_payload_start data
     \<and> (\<forall>a. a - 0x6000000 \<ge> image_size \<and> a - 0x6800000 \<ge> image_size \<and> a - carrels_payload_start \<ge> image_size
          \<longrightarrow> memory m' a = memory m a)
     \<and> protocon_states m' = protocon_states m \<and> peer_policy m' = peer_policy m"
proof -
  let ?t = "(set_fname name s)\<lparr>deploy_pc_id := pc_id, deploy_peer_mask := peer_mask, deploy_peers_all := peers_all,
    deploy_pending := True, loaders := [Reading LoadTargeted name]\<rparr>"
  let ?r = "(set_fname name s)\<lparr>deploy_pc_id := pc_id, deploy_peer_mask := peer_mask, deploy_peers_all := peers_all,
    deploy_pending := True, loaders := []\<rparr>"
  have f: "serves_file (orch_fs E) name fd data" "fd \<noteq> -1" "vfs_ready (orch_fs E) s" "length name < FS_BUFFER_SIZE (orch_fs E)"
    "length data \<le> 0x800000" "length data < orch_read_bound E" "block shared2 (word_of_nat (length data)) \<inter> share_region (orch_fs E) = {}"
    using assms(6) by (simp_all add: image_there_def)
  have g: "pc_id < MAX_PROTOCON_PORTS E" "parse_peer_ports (MAX_PROTOCON_PORTS E) ports pc_id = Some (peer_mask, peers_all)"
    using assms(5) by (simp_all add: command_good_def)
  have free: "unat (MAX_PROTOCON_PORTS E) \<le> unat (num_pc m)" "lifecycles m ! unat pc_id = PROTOCON_PASSIVE"
    "\<not> deploy_request_active m" "cothread_spawn M (events m)"
    using assms(4) by (simp_all add: monitor_free_def)
  have ready: "vfs_ready (orch_fs E) ?r"
    using f(3) by (simp add: vfs_ready_def fs_ready_def fs_wf_def set_fname_def)
  have "length data < 2 ^ 63" using f(5) by simp
  from readfile2buf_whole_file [OF f(1) ready f(4,2) this f(6,7)] obtain u where
    u: "pico_vfs_readfile2buf (orch_read_bound E) (orch_fs E) shared2 name ?r = Inr (0, word_of_nat (length data), u)"
    "mem_holds (memory u) shared2 data" by blast
  note rest = rest_loading [OF readfile2buf_rest [OF u(1)]]
  have fields: "orch_monitor u = (m, co)" "deploy_pc_id u = pc_id" "deploy_peer_mask u = peer_mask" "deploy_peers_all u = peers_all"
    "deploy_pending u" "loaders u = []"
    using rest assms(2) by (simp_all add: set_fname_def)
  have id: "unat pc_id < unat (num_pc m)" using g(1) free(1) by (simp add: word_less_nat_alt)
  have peers: "j < unat (num_pc m) \<and> j \<noteq> unat pc_id" if "bit peer_mask j" for j
    using parse_peer_ports_bits [OF g(2) that] free(1) by simp
  have tab: "tables_ok m" using assms(3) by (simp add: base_ok_def)
  obtain ps regs where call: "monitor_ppcall E [PC_MONITOR_CALL_DEPLOY_TO_PROTOCON, ucast pc_id, ucast peer_mask, if peers_all then 1 else 0] u
      = bindR (co_settle M (deploy_target (ucast pc_id) ps (m\<lparr>memory := shared_view (memory u) (memory m), mrs := regs\<rparr>), CoSpawned))
         (\<lambda>sys. Inr (MON_NO_ERROR, u\<lparr>orch_monitor := sys, orch_mrs := mrs (fst sys)\<rparr>))"
    and bits: "\<forall>j. bit (ucast ps :: u32) j \<longleftrightarrow> asks_for pc_id peer_mask peers_all m j"
    using request_reaches_monitor [OF assms(1) fields(1) tab id peers free(2-4), where peers_all = peers_all] by blast
  let ?m = "deploy_target (ucast pc_id) ps (m\<lparr>memory := shared_view (memory u) (memory m), mrs := regs\<rparr>)"
  have "loader_finish E 0 ?t = load_targeted_elf_payload E name ?r"
    by (simp add: loader_finish_def)
  also have "\<dots> = bindR (co_settle M (?m, CoSpawned)) (\<lambda>sys. Inr (u\<lparr>orch_monitor := sys, orch_mrs := mrs (fst sys)\<rparr>))"
    by (simp add: load_targeted_elf_payload_def u(1) fields(2-4) call bindR_assoc)
  finally have run: "loader_finish E 0 ?t = bindR (co_settle M (?m, CoSpawned)) (\<lambda>sys. Inr (u\<lparr>orch_monitor := sys, orch_mrs := mrs (fst sys)\<rparr>))" .
  have m': "memory ?m = shared_view (memory u) (memory m)" by (simp add: deploy_target_def)
  have narrow: "ucast (ucast pc_id :: u64) = pc_id" by (rule bit_word_eqI) (auto simp: bit_ucast_iff)
  show ?thesis
    using command_accepted [OF assms(5)] run fields(5,6) bits payload_seen [OF u(2) f(5), of "memory m"] m' narrow own_memory_kept
    by (intro exI [of _ ?t] exI [of _ u] exI [of _ ?m]) (simp add: deploy_target_def)
qed

theorem deploy_command_starts_deployment_witness:
  "\<exists>t (m' :: monitor). shell_execute (ex_orch_env\<lparr>MAX_PROTOCON_PORTS := 2\<rparr>) (deploy_words [97] 0 (c_bytes ''1''))
       ((orch_globals ex_fs_state (ex_monitor [2, 2] [], CoNone))\<lparr>fs_init := True\<rparr>) = Inr (0, t)
     \<and> target_pc (deploy_request m') = 0 \<and> bit (req_peer_mask (deploy_request m')) 1
     \<and> mem_holds (memory m') carrels_payload_start ex_data"
proof -
  let ?E = "ex_orch_env\<lparr>MAX_PROTOCON_PORTS := 2\<rparr>" and ?m = "ex_monitor [2, 2] []"
  let ?s = "(orch_globals ex_fs_state (?m, CoNone))\<lparr>fs_init := True\<rparr>"
  have link: "linked ex_mon_env ?E" using ex_linked by (simp add: linked_def)
  have mon: "orch_monitor ?s = (?m, CoNone)" by (simp add: orch_globals_def)
  have free: "monitor_free ex_mon_env ?E ?m 0"
    using ex_free by (simp add: monitor_free_def) (simp add: ex_monitor_def ex_mon_env_def)
  have "parse_peer_ports 2 (c_bytes ''1'') 0 = Some (0b10, False)" by code_simp
  then have cmd: "command_good ?E ?s [97] 0 (c_bytes ''1'') 0b10 False"
    by (simp add: command_good_def orch_globals_def FNAME_BUF_SIZE_def ex_orch_env_def)
  have "vfs_ready (ex_fs_env ex_file_server) ?s"
    using ex_vfs_ready [of ex_file_server] by (simp add: vfs_ready_def fs_ready_def fs_wf_def orch_globals_def)
  moreover have "block shared2 20 \<inter> share_region (ex_fs_env ex_file_server) = {}"
    by (auto simp: share_region_def ex_fs_env_def NUM_BUFFERS_def block_range shared2_def simp del: mem_block_iff)
  ultimately have img: "image_there ?E ?s [97] 7 ex_data"
    using ex_serves_file [of "[97]"]
    by (simp add: image_there_def ex_orch_env_def ex_data_def) (simp add: ex_fs_env_def)
  have "asks_for 0 0b10 False ?m 1" by (simp add: asks_for_def)
  then show ?thesis using deploy_command_starts_deployment [OF link mon ex_base free cmd img] by blast
qed

end
