(* ===== verification/Monitor_Boot.thy ===== *)
theory Monitor_Boot
  imports Monitor_Init
begin

unbundle bit_operations_syntax

text \<open>
  Initialisation of the monitor (\<open>src/monitor/init/minit.c\<close>) comes to its end: with a file server that serves the
  two databases and the symbols of the protocons, and well-formed databases that fit their places.
\<close>

section \<open>The disk\<close>

record boot_disk =
  svc_file :: "u8 list"
  dlg_file :: "u8 list"
  sym_file :: "u32 \<Rightarrow> u8 list"
  file_handle :: "u8 list \<Rightarrow> u64"
  loader_elf :: "u8 list"

text \<open>The last field is no file: it is the image of the loader of the protocons, linked into the monitor. The server
  accepts the mount command.\<close>

definition mounts :: "fs_env \<Rightarrow> bool" where
  "mounts E \<longleftrightarrow> (\<forall>cmds m. cmds \<noteq> [] \<and> cmd_body (last cmds) = FS_CMD_INITIALISE \<longrightarrow>
     (\<exists>c m'. fs_answers E cmds m c m' \<and> cmpl_status c = FS_STATUS_SUCCESS E \<and> agree_outside (share_region E) m m'))"

text \<open>The server has the file under its name, and it fits its place and the bound of the read loop.\<close>

definition has_file :: "mon_env \<Rightarrow> boot_disk \<Rightarrow> u8 list \<Rightarrow> u8 list \<Rightarrow> nat \<Rightarrow> bool" where
  "has_file E D name data room \<longleftrightarrow> serves_file (mon_fs E) name (file_handle D name) data \<and> file_handle D name \<noteq> -1
     \<and> length name < FS_BUFFER_SIZE (mon_fs E) \<and> length data \<le> room \<and> length data < read_bound E"

definition disk_ready :: "mon_env \<Rightarrow> boot_disk \<Rightarrow> bool" where
  "disk_ready E D \<longleftrightarrow> mounts (mon_fs E)
     \<and> has_file E D (svc_file_name E) (svc_file D) 0x10000 \<and> has_file E D (dlg_file_name E) (dlg_file D) 0x10000
     \<and> (\<forall>i. unat i < 16 \<longrightarrow> has_file E D (sym_file_name i) (sym_file D i) 0x1000)"

text \<open>What the monitor reads lies between \<open>SVC_BASE\<close> and the end of the symbols, away from the share of the file system.\<close>

definition boot_region :: "u64 set" where
  "boot_region = block SVC_BASE 0x30000"

section \<open>Files\<close>

lemma load_required_reads:
  fixes s :: monitor
  assumes "has_file E D name data room" and "room \<le> 0x10000" and "vfs_ready (mon_fs E) s"
    and "block buf (word_of_nat room) \<subseteq> boot_region" and "boot_region \<inter> share_region (mon_fs E) = {}"
  shows "\<exists>s'. load_required E buf name s = Inr s' \<and> mem_holds (memory s') buf data
     \<and> agree_outside (block buf (word_of_nat room) \<union> share_region (mon_fs E)) (memory s) (memory s')
     \<and> vfs_ready (mon_fs E) s' \<and> rest_of s' = rest_of s"
proof -
  have f: "serves_file (mon_fs E) name (file_handle D name) data" "file_handle D name \<noteq> -1"
    "length name < FS_BUFFER_SIZE (mon_fs E)" "length data \<le> room" "length data < read_bound E"
    using assms(1) by (simp_all add: has_file_def)
  have "unat (word_of_nat (length data) :: u64) = length data" "unat (word_of_nat room :: u64) = room"
    using f(4) assms(2) by (auto intro!: unat_word_of_nat_lt)
  then have sub: "block buf (word_of_nat (length data)) \<subseteq> block buf (word_of_nat room)"
    using f(4) by (auto simp: word_less_nat_alt)
  have "length data < 2 ^ 63" using f(4) assms(2) by simp
  moreover have "block buf (word_of_nat (length data)) \<inter> share_region (mon_fs E) = {}" using sub assms(4,5) by blast
  ultimately obtain s' where s': "pico_vfs_readfile2buf (read_bound E) (mon_fs E) buf name s = Inr (0, word_of_nat (length data), s')"
    "mem_holds (memory s') buf data"
    "agree_outside (block buf (word_of_nat (length data)) \<union> share_region (mon_fs E)) (memory s) (memory s')"
    "vfs_ready (mon_fs E) s'"
    using readfile2buf_whole_file [OF f(1) assms(3) f(3,2) _ f(5)] by blast
  have "load_required E buf name s = Inr s'" by (simp add: load_required_def s'(1))
  moreover have "agree_outside (block buf (word_of_nat room) \<union> share_region (mon_fs E)) (memory s) (memory s')"
    by (rule agree_mono [OF s'(3)]) (use sub in blast)
  ultimately show ?thesis using s' readfile2buf_rest [OF s'(1)] by blast
qed

lemma mount_succeeds:
  fixes s :: monitor
  assumes "mounts (mon_fs E)" and "vfs_ready (mon_fs E) s"
  shows "\<exists>c s'. fs_command_blocking (mon_fs E) FS_CMD_INITIALISE None s = Inr (0, Some c, s')
     \<and> cmpl_status c = FS_STATUS_SUCCESS (mon_fs E) \<and> vfs_ready (mon_fs E) s' \<and> rest_of s' = rest_of s
     \<and> agree_outside (share_region (mon_fs E)) (memory s) (memory s')"
proof -
  let ?cmds = "issued s @ [\<lparr>cmd_id = word_of_nat (next_request s), cmd_body = FS_CMD_INITIALISE\<rparr>]"
  have ready: "fs_ready (mon_fs E) s" using assms(2) by (simp add: vfs_ready_def)
  obtain c m' where a: "fs_answers (mon_fs E) ?cmds (memory s) c m'" "cmpl_status c = FS_STATUS_SUCCESS (mon_fs E)"
    "agree_outside (share_region (mon_fs E)) (memory s) m'"
    using assms(1) [unfolded mounts_def, rule_format, of ?cmds "memory s"] by auto
  note b = fs_command_blocking_answered [OF ready a(1), of None]
  have "vfs_ready (mon_fs E) (fs_answered FS_CMD_INITIALISE c m' s)"
    using fs_answered_ready(1) [OF ready] assms(2) by (simp add: vfs_ready_def fs_answered_def Let_def)
  moreover have "memory (fs_answered FS_CMD_INITIALISE c m' s) = m'" by (simp add: fs_answered_def Let_def)
  ultimately show ?thesis using a(2,3) b command_blocking_rest [OF b] by metis
qed

section \<open>Places\<close>

lemmas boot_consts = SVC_BASE_def DLG_BASE_def PROTOCON_MKTSYMB_BASE_def PROTOCON_MKTSYMB_SLOT_SIZE_def

lemma places:
  "block SVC_BASE 0x10000 \<subseteq> boot_region" "block DLG_BASE 0x10000 \<subseteq> boot_region"
  "block SVC_BASE 0x10000 \<inter> block DLG_BASE 0x10000 = {}"
  by (auto simp: boot_region_def block_range boot_consts simp del: mem_block_iff)

definition symbols_at :: "u32 \<Rightarrow> u64" where
  "symbols_at i = PROTOCON_MKTSYMB_BASE + ucast (i * PROTOCON_MKTSYMB_SLOT_SIZE)"

lemma symbol_places:
  assumes "unat i < 16"
  shows "block (symbols_at i) 0x1000 \<subseteq> boot_region" and "block SVC_BASE 0x10000 \<inter> block (symbols_at i) 0x1000 = {}"
proof -
  have "unat (i * 0x1000) = unat i * 0x1000" using assms by (simp add: unat_word_ariths)
  then have at: "unat (symbols_at i) = 0xaaaaa20000 + unat i * 0x1000"
    using assms by (simp add: symbols_at_def boot_consts unat_word_ariths)
  have ok: "unat (symbols_at i) + unat (0x1000 :: u64) \<le> 2 ^ 64" using assms by (simp add: at)
  show "block (symbols_at i) 0x1000 \<subseteq> boot_region" "block SVC_BASE 0x10000 \<inter> block (symbols_at i) 0x1000 = {}"
    using assms by (auto simp: boot_region_def block_range [OF ok] block_range boot_consts at simp del: mem_block_iff)
qed

text \<open>The images of the protocons are below.\<close>

lemma images_below:
  assumes "unat cid < 16"
  shows "block SVC_BASE 0x10000 \<inter> loaded_regions cid = {}"
proof -
  have "block SVC_BASE 0x10000 \<inter> region_of r cid = {}"
    if r: "r \<in> {loader_program monitor_vm_layout, trampoline_image monitor_vm_layout, container_image monitor_vm_layout}" for r
  proof -
    have mem: "r \<in> set vm_regions" using r by (auto simp: vm_regions_def)
    have "unat (ucast cid :: u64) < 16" using assms by simp
    note base = region_base_exact [OF mem this]
    have sz: "unat (region_size r) = 0x800000" "unat (region_base r) \<le> 0x50000000"
      using r by (auto simp: monitor_vm_layout_def)
    have "unat cid * 0x800000 \<le> 15 * 0x800000" using assms by simp
    then have lt: "unat (monitor_vm_region_base r (ucast cid)) + unat (region_size r) \<le> 0x60000000" using base sz by simp
    then have ok: "unat (monitor_vm_region_base r (ucast cid)) + unat (region_size r) \<le> 2 ^ 64" by simp
    show ?thesis using lt by (auto simp: region_of_def block_range [OF ok] block_range boot_consts simp del: mem_block_iff)
  qed
  then show ?thesis unfolding loaded_regions_def by blast
qed

section \<open>The databases\<close>

definition delegation_file :: "u8 list \<Rightarrow> dlg_header \<Rightarrow> bool" where
  "delegation_file bytes h \<longleftrightarrow> (\<forall>m. mem_holds m DLG_BASE bytes \<longrightarrow> dlg_parse m DLG_BASE dlg_header_zero = (True, h))"

definition service_file :: "u8 list \<Rightarrow> svc_table \<Rightarrow> bool" where
  "service_file bytes v \<longleftrightarrow> (\<forall>m. mem_holds m SVC_BASE bytes \<longrightarrow> svc_parse m SVC_BASE svc_table_zero = (True, v)
     \<and> (\<forall>p \<in> set (take (unat (service_count v)) (services v)). placeable m p))"

abbreviation away :: "mon_env \<Rightarrow> bool" where
  "away E \<equiv> boot_region \<inter> share_region (mon_fs E) = {}"

text \<open>Bytes stay where nothing is written.\<close>

lemma held_stays:
  assumes "mem_holds m p bytes" and "length bytes \<le> unat n" and "agree_outside A m m'" and "block p n \<inter> A = {}"
  shows "mem_holds m' p bytes"
proof (rule mem_holds_agree [OF assms(1,3)])
  have "unat n < 2 ^ LENGTH(64)" by (rule unsigned_less)
  then show "length bytes < 2 ^ 64" using assms(2) by simp
  then have "unat (word_of_nat (length bytes) :: u64) = length bytes" by (intro unat_word_of_nat_lt) simp
  then have "block p (word_of_nat (length bytes)) \<subseteq> block p n" using assms(2) by (auto simp: word_less_nat_alt)
  then show "A \<inter> block p (word_of_nat (length bytes)) = {}" using assms(4) by blast
qed

lemma services_stay:
  assumes "mem_holds m SVC_BASE bytes" and "length bytes \<le> 0x10000" and "agree_outside A m m'"
    and "block SVC_BASE 0x10000 \<inter> A = {}"
  shows "mem_holds m' SVC_BASE bytes"
  using held_stays [OF assms(1) _ assms(3,4)] assms(2) by simp

section \<open>The loader\<close>

text \<open>
  The image of the loader lies apart from everything that is written while the monitor starts, and \<open>load_elf\<close> accepts
  it for each of the 16 places. The proofs use \<open>loader_there\<close>: the image is in memory.
\<close>

abbreviation loader_block :: "mon_env \<Rightarrow> u64 set" where
  "loader_block E \<equiv> block (carrels_protocon_start E) (monitor_protocon_capacity E)"

abbreviation loader_there :: "mon_env \<Rightarrow> boot_disk \<Rightarrow> mem \<Rightarrow> bool" where
  "loader_there E D m \<equiv> mem_holds m (carrels_protocon_start E) (loader_elf D)"

definition loader_ready :: "mon_env \<Rightarrow> boot_disk \<Rightarrow> bool" where
  "loader_ready E D \<longleftrightarrow> load_elf_contained E \<and> images_fit E
     \<and> length (loader_elf D) \<le> unat (monitor_protocon_capacity E)
     \<and> loader_block E \<inter> (boot_region \<union> share_region (mon_fs E)) = {}
     \<and> (\<forall>cid. unat cid < 16 \<longrightarrow> loader_block E \<inter> loaded_regions cid = {})
     \<and> (\<forall>m (cid :: u32). unat cid < 16 \<and> loader_there E D m \<longrightarrow>
          fst (load_elf E m (carrels_protocon_start E) (monitor_protocon_capacity E)
            (monitor_vm_region_base (loader_program monitor_vm_layout) (ucast cid)) (tsldr_loader_program_base E)
            (region_size (loader_program monitor_vm_layout))))"

lemma loader_stays:
  assumes "loader_ready E D" and "loader_there E D m" and "agree_outside A m m'" and "loader_block E \<inter> A = {}"
  shows "loader_there E D m'"
  using held_stays [OF assms(2) _ assms(3,4)] assms(1) by (simp add: loader_ready_def)

lemma loader_apart:
  assumes "loader_ready E D" and "A \<subseteq> boot_region"
  shows "loader_block E \<inter> (A \<union> share_region (mon_fs E)) = {}" and "loader_block E \<inter> share_region (mon_fs E) = {}"
  using assms unfolding loader_ready_def by blast+

lemma loader_loads:
  assumes "loader_ready E D" and "unat cid < 16" and "loader_there E D (memory s)"
  shows "\<exists>s'. monitor_main_load_trustedlo E cid s = Inr s' \<and> s' = s\<lparr>memory := memory s'\<rparr>
    \<and> agree_outside (loaded_regions cid) (memory s) (memory s') \<and> loader_there E D (memory s')"
proof -
  have l: "load_elf_contained E" "images_fit E" using assms(1) by (simp_all add: loader_ready_def)
  define pb tb where "pb = monitor_vm_region_base (loader_program monitor_vm_layout) (ucast cid)"
    and "tb = monitor_vm_region_base (trampoline_image monitor_vm_layout) (ucast cid)"
  let ?m = "mem_fill (mem_fill (memory s) pb (monitor_protocon_capacity E) 0) tb (monitor_trampoline_capacity E) 0"
  have sub: "block pb (monitor_protocon_capacity E) \<subseteq> loaded_regions cid" "block tb (monitor_trampoline_capacity E) \<subseteq> loaded_regions cid"
    using l(2) block_mono [of "monitor_protocon_capacity E" "region_size (loader_program monitor_vm_layout)" pb]
      block_mono [of "monitor_trampoline_capacity E" "region_size (trampoline_image monitor_vm_layout)" tb]
    unfolding images_fit_def loaded_regions_def region_of_def pb_def tb_def by auto
  have apart: "loader_block E \<inter> loaded_regions cid = {}" using assms(1,2) by (simp add: loader_ready_def)
  have "agree_outside (loaded_regions cid) (memory s) ?m"
    by (rule agree_trans; rule agree_outside_fill; rule sub)
  from loader_stays [OF assms(1,3) this apart] have "loader_there E D ?m" .
  then have "fst (load_elf E ?m (carrels_protocon_start E) (monitor_protocon_capacity E) pb (tsldr_loader_program_base E)
      (region_size (loader_program monitor_vm_layout)))"
    using assms(1,2) unfolding loader_ready_def pb_def by blast
  then obtain m' where "load_elf E ?m (carrels_protocon_start E) (monitor_protocon_capacity E) pb (tsldr_loader_program_base E)
      (region_size (loader_program monitor_vm_layout)) = (True, m')"
    by (metis prod.collapse)
  then obtain s' where s': "monitor_main_load_trustedlo E cid s = Inr s'"
    by (simp add: monitor_main_load_trustedlo_def Let_def pb_def tb_def assertR_def)
  note f = load_trustedlo_frame [OF l s']
  show ?thesis
    using s' f loader_stays [OF assms(1,3) _ apart, of "memory s'"] by blast
qed

lemma storage_succeeds:
  assumes disk: "disk_ready E D" and away: "away E" and dlg: "delegation_file (dlg_file D) h" and svc: "service_file (svc_file D) v"
    and ready: "vfs_ready (mon_fs E) s" and zero: "dlg s = dlg_header_zero" "svc s = svc_table_zero"
    and loader: "loader_ready E D" "loader_there E D (memory s)"
  shows "\<exists>s'. ca_monitor_init_storage E s = Inr s' \<and> dlg s' = h \<and> svc s' = v
     \<and> mem_holds (memory s') SVC_BASE (svc_file D) \<and> vfs_ready (mon_fs E) s' \<and> protocon_states s' = protocon_states s
     \<and> events s' = events s \<and> loader_there E D (memory s')"
proof -
  have d: "mounts (mon_fs E)" "has_file E D (svc_file_name E) (svc_file D) 0x10000"
    "has_file E D (dlg_file_name E) (dlg_file D) 0x10000"
    using disk by (simp_all add: disk_ready_def)
  have room: "word_of_nat 0x10000 = (0x10000 :: u64)" by simp
  obtain c s1 where s1: "fs_command_blocking (mon_fs E) FS_CMD_INITIALISE None s = Inr (0, Some c, s1)"
    "cmpl_status c = FS_STATUS_SUCCESS (mon_fs E)" "vfs_ready (mon_fs E) s1" "rest_of s1 = rest_of s"
    "agree_outside (share_region (mon_fs E)) (memory s) (memory s1)"
    using mount_succeeds [OF d(1) ready] by blast
  obtain s2 where s2: "load_required E SVC_BASE (svc_file_name E) s1 = Inr s2" "mem_holds (memory s2) SVC_BASE (svc_file D)"
    "vfs_ready (mon_fs E) s2" "rest_of s2 = rest_of s1"
    "agree_outside (block SVC_BASE 0x10000 \<union> share_region (mon_fs E)) (memory s1) (memory s2)"
    using load_required_reads [OF d(2) _ s1(3) _ away, of SVC_BASE, unfolded room] places(1) by auto
  obtain s3 where s3: "load_required E DLG_BASE (dlg_file_name E) s2 = Inr s3" "mem_holds (memory s3) DLG_BASE (dlg_file D)"
    "agree_outside (block DLG_BASE 0x10000 \<union> share_region (mon_fs E)) (memory s2) (memory s3)"
    "vfs_ready (mon_fs E) s3" "rest_of s3 = rest_of s2"
    using load_required_reads [OF d(3) _ s2(3) _ away, of DLG_BASE, unfolded room] places(2) by auto
  have apart: "block SVC_BASE 0x10000 \<inter> (block DLG_BASE 0x10000 \<union> share_region (mon_fs E)) = {}"
    using places(1,3) away by blast
  have holds: "mem_holds (memory s3) SVC_BASE (svc_file D)"
    by (rule services_stay [OF s2(2) _ s3(3) apart]) (use d(2) in \<open>simp add: has_file_def\<close>)
  have "loader_there E D (memory s1)" by (rule loader_stays [OF loader s1(5) loader_apart(2) [OF loader(1) order_refl]])
  then have "loader_there E D (memory s2)" by (rule loader_stays [OF loader(1) _ s2(5) loader_apart(1) [OF loader(1) places(1)]])
  then have there: "loader_there E D (memory s3)" by (rule loader_stays [OF loader(1) _ s3(3) loader_apart(1) [OF loader(1) places(2)]])
  have rest: "rest_of s3 = rest_of s" using s1(4) s2(4) s3(5) by simp
  note f = rest_databases [OF rest] rest_fields [OF rest]
  have "dlg_parse (memory s3) DLG_BASE (dlg s3) = (True, h)" using dlg s3(2) f zero by (simp add: delegation_file_def)
  moreover have "svc_parse (memory s3) SVC_BASE (svc s3) = (True, v)" using svc holds f zero by (simp add: service_file_def)
  ultimately have "ca_monitor_init_storage E s = Inr (s3\<lparr>dlg := h, svc := v\<rparr>)"
    by (simp add: ca_monitor_init_storage_def s1(1,2) s2(1) s3(1))
  moreover have "vfs_ready (mon_fs E) (s3\<lparr>dlg := h, svc := v\<rparr>)"
    using s3(4) by (simp add: vfs_ready_def fs_ready_def fs_wf_def)
  ultimately show ?thesis using holds there f by (intro exI [of _ "s3\<lparr>dlg := h, svc := v\<rparr>"]) simp
qed

section \<open>The protocons\<close>

definition booting :: "mon_env \<Rightarrow> boot_disk \<Rightarrow> dlg_header \<Rightarrow> svc_table \<Rightarrow> monitor \<Rightarrow> bool" where
  "booting E D h v s \<longleftrightarrow> vfs_ready (mon_fs E) s \<and> mem_holds (memory s) SVC_BASE (svc_file D)
     \<and> loader_there E D (memory s) \<and> dlg s = h \<and> svc s = v \<and> no_services (protocon_states s)"

lemma ready_update [simp]:
  "vfs_ready F (s\<lparr>protocon_states := states\<rparr>) = vfs_ready F s" "vfs_ready F (s\<lparr>num_pc := n\<rparr>) = vfs_ready F (s :: monitor)"
  by (simp_all add: vfs_ready_def fs_ready_def fs_wf_def)

lemma no_services_update:
  assumes "no_services states"
    and "\<And>st. avail_service_per_type st = replicate 8 0 \<and> avail_service_refs st = replicate 8 (replicate 8 0)
      \<Longrightarrow> avail_service_per_type (f st) = replicate 8 0 \<and> avail_service_refs (f st) = replicate 8 (replicate 8 0)"
  shows "no_services (states[i := f (states ! i)])"
proof (cases "i < length states")
  case True
  then have "states ! i \<in> set states" by simp
  then show ?thesis using assms set_update_subset_insert [of states i "f (states ! i)"] by (auto simp: no_services_def)
qed (use assms in \<open>simp add: list_update_beyond\<close>)

lemma booting_update:
  assumes "booting E D h v s"
    and "\<And>st. avail_service_per_type st = replicate 8 0 \<and> avail_service_refs st = replicate 8 (replicate 8 0)
      \<Longrightarrow> avail_service_per_type (f st) = replicate 8 0 \<and> avail_service_refs (f st) = replicate 8 (replicate 8 0)"
  shows "booting E D h v (update_pc i f s)"
  using assms no_services_update [of "protocon_states s" f "unat i"] by (simp add: booting_def update_pc_def)

lemma init_protocon_succeeds:
  assumes disk: "disk_ready E D" and away: "away E" and loader: "loader_ready E D" and b: "booting E D h v s" and i: "unat i < 16"
  shows "\<exists>s'. init_protocon_state E i s = Inr s' \<and> booting E D h v s'"
proof -
  let ?z = "protocon_state_memzero_symb_header i (protocon_state_memzero_context E i
      (protocon_state_memzero_services i (update_pc i (\<lambda>p. p\<lparr>state_pc_id := i\<rparr>) s)))"
  have z: "booting E D h v ?z"
    unfolding protocon_state_memzero_symb_header_def protocon_state_memzero_context_def protocon_state_memzero_services_def
    by (intro booting_update b) (simp_all add: monitor_consts)
  have sym: "has_file E D (sym_file_name i) (sym_file D i) 0x1000" using disk i by (simp add: disk_ready_def)
  have room: "word_of_nat 0x1000 = (0x1000 :: u64)" by simp
  have ready: "vfs_ready (mon_fs E) ?z" using z by (simp add: booting_def)
  obtain t where t: "load_required E (symbols_at i) (sym_file_name i) ?z = Inr t" "vfs_ready (mon_fs E) t" "rest_of t = rest_of ?z"
    "agree_outside (block (symbols_at i) 0x1000 \<union> share_region (mon_fs E)) (memory ?z) (memory t)"
    using load_required_reads [OF sym _ ready _ away, of "symbols_at i", unfolded room] symbol_places(1) [OF i] by auto
  have fits: "length (svc_file D) \<le> 0x10000" using disk by (simp add: disk_ready_def has_file_def)
  have apart: "block SVC_BASE 0x10000 \<inter> (block (symbols_at i) 0x1000 \<union> share_region (mon_fs E)) = {}"
    using places(1) symbol_places(2) [OF i] away by blast
  have "mem_holds (memory t) SVC_BASE (svc_file D)"
    by (rule services_stay [OF _ fits t(4) apart]) (use z in \<open>simp add: booting_def\<close>)
  moreover have "loader_there E D (memory t)"
    by (rule loader_stays [OF loader _ t(4) loader_apart(1) [OF loader symbol_places(1) [OF i]]])
      (use z in \<open>simp add: booting_def\<close>)
  ultimately have bt: "booting E D h v t"
    using z t(2) rest_databases [OF t(3)] rest_fields(2) [OF t(3)] by (simp add: booting_def)
  define u where "u = update_pc i (\<lambda>p. p\<lparr>sym_header := mktsymb_read E (memory t) (symbols_at i)\<rparr>) t"
  have u: "booting E D h v u" unfolding u_def by (rule booting_update [OF bt]) simp
  have su: "protocon_state_init_symb_header E i ?z = Inr u"
    using t(1) by (simp add: protocon_state_init_symb_header_def symbols_at_def u_def)
  obtain w where w: "monitor_main_load_trustedlo E i u = Inr w" "w = u\<lparr>memory := memory w\<rparr>"
    "agree_outside (loaded_regions i) (memory u) (memory w)" "loader_there E D (memory w)"
    using loader_loads [OF loader i] u unfolding booting_def by blast
  have "mem_holds (memory w) SVC_BASE (svc_file D)"
    by (rule services_stay [OF _ fits w(3) images_below [OF i]]) (use u in \<open>simp add: booting_def\<close>)
  moreover have "dlg w = dlg u" "svc w = svc u" "protocon_states w = protocon_states u" "vfs_ready (mon_fs E) w = vfs_ready (mon_fs E) u"
    by (subst w(2), simp add: vfs_ready_def fs_ready_def fs_wf_def)+
  ultimately have bw: "booting E D h v w" using u w(4) by (simp add: booting_def)
  have "booting E D h v (protocon_state_set_lifecycle_state i PROTOCON_PASSIVE w)"
    unfolding protocon_state_set_lifecycle_state_def by (rule booting_update [OF bw]) simp
  then show ?thesis by (simp add: init_protocon_state_def su w(1))
qed

lemma init_loop_succeeds:
  assumes disk: "disk_ready E D" and away: "away E" and loader: "loader_ready E D"
  shows "booting E D h v s \<Longrightarrow> i + k \<le> 16 \<Longrightarrow> \<exists>s'. init_protocon_loop E k i s = Inr s' \<and> booting E D h v s'"
proof (induction k arbitrary: i s)
  case (Suc k)
  have u: "unat (word_of_nat i :: u32) = i" using Suc.prems(2) by (intro unat_word_of_nat_lt) simp
  then obtain t where t: "init_protocon_state E (word_of_nat i) s = Inr t" "booting E D h v t"
    using init_protocon_succeeds [OF disk away loader Suc.prems(1), of "word_of_nat i"] Suc.prems(2) by auto
  show ?case using Suc.IH [OF t(2), of "Suc i"] Suc.prems(2) by (simp add: t(1))
qed simp

text \<open>The services of the database, in the order of the file, as the registry keeps them.\<close>

abbreviation listed :: "svc_table \<Rightarrow> u64 list" where
  "listed v \<equiv> take (unat (service_count v)) (services v)"

lemma states_succeed:
  assumes disk: "disk_ready E D" and away: "away E" and loader: "loader_ready E D" and svc: "service_file (svc_file D) v"
    and b: "booting E D h v s" and n: "0 < unat (delegator_count h)" "unat (delegator_count h) \<le> 16"
  shows "\<exists>s' states. ca_monitor_init_states E s = Inr s' \<and> dlg s' = h \<and> svc s' = v \<and> num_pc s' = ucast (delegator_count h)
     \<and> no_services states \<and> protocon_states s' = registered (memory s') (listed v) states
     \<and> mem_holds (memory s') SVC_BASE (svc_file D)"
proof -
  let ?n = "ucast (delegator_count h) :: u64"
  let ?s = "s\<lparr>num_pc := ?n\<rparr>"
  have un: "unat ?n = unat (delegator_count h)" by simp
  have d: "dlg s = h" "svc s = v" using b by (simp_all add: booting_def)
  have bs: "booting E D h v ?s" using b by (simp add: booting_def)
  obtain t where t: "init_protocon_loop E (unat ?n) 0 ?s = Inr t" "booting E D h v t"
    using init_loop_succeeds [OF disk away loader bs, of 0 "unat ?n"] n un by auto
  have ft: "dlg t = h" "svc t = v" "mem_holds (memory t) SVC_BASE (svc_file D)" "no_services (protocon_states t)"
    using t(2) by (simp_all add: booting_def)
  have num: "num_pc t = ?n"
  proof -
    have "length (protocon_states ?s) = 16" using b by (simp add: booting_def no_services_def)
    then show ?thesis using init_loop_result [OF t(1), unfolded un] n(2) by simp
  qed
  have place: "\<forall>p \<in> set (listed v). placeable (memory t) p"
    using svc ft(3) by (simp add: service_file_def)
  have reg: "registry_add_all (memory t) (listed v) (protocon_states t) = Inr (registered (memory t) (listed v) (protocon_states t))"
    using registry_add_all_registered [OF place, of "[]" "protocon_states t"] no_services_registered [OF ft(4)] by simp
  have "delegator_count h \<noteq> 0" using n(1) by (simp add: unat_gt_0)
  then have "ca_monitor_init_states E s
      = Inr (monitor_acl_initialise (ucast (num_pc t)) (t\<lparr>protocon_states := registered (memory t) (listed v) (protocon_states t)\<rparr>))"
    using n(2) t(1) reg
    by (simp add: ca_monitor_init_states_def d ca_monitor_init_get_pcnum_def ca_monitor_init_validate_pc_count_def
        ca_monitor_init_protocon_states_def service_registry_create_def ft(2) PC_CHILD_PER_MONITOR_MAX_NUM_def assertR_def)
  then show ?thesis using ft num by (simp add: monitor_acl_initialise_def) blast
qed

section \<open>Initialisation returns\<close>

definition boots :: "mon_env \<Rightarrow> boot_disk \<Rightarrow> dlg_header \<Rightarrow> svc_table \<Rightarrow> monitor \<Rightarrow> bool" where
  "boots E D h v s \<longleftrightarrow> disk_ready E D \<and> away E \<and> loader_ready E D \<and> loader_there E D (memory s) \<and> cothread_spawn E []
     \<and> delegation_file (dlg_file D) h \<and> service_file (svc_file D) v
     \<and> 0 < unat (delegator_count h) \<and> unat (delegator_count h) \<le> 16
     \<and> vfs_ready (mon_fs E) s \<and> dlg s = dlg_header_zero \<and> svc s = svc_table_zero"

lemma zero_globals_ready: "vfs_ready F (zero_globals E s) = vfs_ready F s"
  by (simp add: zero_globals_def vfs_ready_def fs_ready_def fs_wf_def)

lemma zero_globals_no_services: "no_services (protocon_states (zero_globals E s))"
  by (auto simp: zero_globals_def no_services_def zero_pc_state_def PC_CHILD_PER_MONITOR_MAX_NUM_def)

lemma init_system_returns:
  assumes "boots E D h v s"
  shows "\<exists>s' states. ca_monitor_init_system E (zero_globals E s) = Inr s' \<and> dlg s' = h \<and> svc s' = v
     \<and> num_pc s' = ucast (delegator_count h)
     \<and> no_services states \<and> protocon_states s' = registered (memory s') (listed v) states
     \<and> mem_holds (memory s') SVC_BASE (svc_file D)"
proof -
  let ?z = "zero_globals E s"
  have b: "disk_ready E D" "away E" "loader_ready E D" "cothread_spawn E []" "delegation_file (dlg_file D) h"
    "service_file (svc_file D) v" "0 < unat (delegator_count h)" "unat (delegator_count h) \<le> 16"
    using assms by (simp_all add: boots_def)
  have z0: "loader_there E D (memory ?z)" using assms by (simp add: boots_def zero_globals_def)
  have z: "vfs_ready (mon_fs E) ?z" "dlg ?z = dlg_header_zero" "svc ?z = svc_table_zero" "events ?z = []"
    using assms by (simp_all add: boots_def zero_globals_ready) (simp_all add: zero_globals_def)
  obtain t where t: "ca_monitor_init_storage E ?z = Inr t" "dlg t = h" "svc t = v" "mem_holds (memory t) SVC_BASE (svc_file D)"
    "vfs_ready (mon_fs E) t" "protocon_states t = protocon_states ?z" "events t = events ?z"
    "loader_there E D (memory t)"
    using storage_succeeds [OF b(1,2,5,6) z(1-3) b(3) z0] by blast
  have "booting E D h v t" using t zero_globals_no_services by (simp add: booting_def)
  from states_succeed [OF b(1-3,6) this b(7,8)] show ?thesis
    by (simp add: ca_monitor_init_system_def ca_monitor_init_cothread_spawn_def z(4) b(4) t(1,7))
qed

end
