(* ===== verification/Monitor_Count.thy ===== *)
theory Monitor_Count
  imports Monitor_Invariant
begin

text \<open>
  The number of protocons is set when the monitor is initialised (\<open>src/monitor/init/minit.c\<close>): no call, notification
  or fault changes it, on any path of \<open>src/monitor/request\<close>.
\<close>

section \<open>The coroutine\<close>

lemma count_fields [simp]:
  "num_pc (monitor_finish_deploy_request s) = num_pc s" "num_pc (deploy_set_error err s) = num_pc s"
  "num_pc (deploy_set_ready s) = num_pc s" "num_pc (deploy_target pc peers s) = num_pc s"
  by (simp_all add: monitor_finish_deploy_request_def monitor_deploy_refresh_request_def deploy_target_def
      monitor_main_notify_orchestrator_def deploy_set_error_def deploy_set_ready_def)

lemma calm_count: "calm s s' \<Longrightarrow> num_pc s' = num_pc s"
  by (simp add: calm_def)

lemma co_end_count:
  assumes "base_ok s" and "deploy_request_active s"
  shows "num_pc (fst (co_end E err s)) = num_pc s"
  using assms conclude_base [of s E err] by (simp add: co_end_def)

lemma co_begin_count:
  assumes "co_begin E info target n s = Inr sys'" and "base_ok s" and "deploy_request_active s"
  shows "num_pc (fst sys') = num_pc s"
proof -
  obtain found s' where p: "protocon_prepare E info target s = Inr (found, s')"
    using assms(1) by (auto simp: co_begin_def elim!: bindR_InrE)
  have "calm s s'" by (subst prepared_memory(1) [OF p]) simp
  then have s': "base_ok s'" "deploy_request_active s'" "num_pc s' = num_pc s"
    using assms(2,3) calm_base by (auto simp: calm_def)
  then show ?thesis using assms(1) p co_end_count [OF s'(1,2)] by (auto simp: co_begin_def split: option.splits)
qed

lemma co_start_count:
  assumes "co_start E s = Inr sys'" and "base_ok s" and "deploy_request_active s"
  shows "num_pc (fst sys') = num_pc s"
  using assms by (auto simp: co_start_def Let_def split: if_splits prod.splits dest: co_begin_count)

lemma co_step_count:
  assumes "co_step E (s, co) = Inr sys'" and "monitor_inv E (s, co)"
  shows "num_pc (fst sys') = num_pc s"
proof (cases co)
  case CoNone
  then show ?thesis using assms by auto
next
  case CoSpawned
  then show ?thesis using assms co_start_count by (auto simp: monitor_inv_def)
next
  case (CoInstall plan info elf i x n)
  have base: "base_ok s" "deploy_request_active s" using assms(2) CoInstall by (simp_all add: monitor_inv_def)
  obtain req where req: "plan_req plan = Some req" using assms(1) CoInstall by (cases "plan_req plan") auto
  show ?thesis
  proof (cases "i < unat (req_service_count req)")
    case True
    then show ?thesis
      using assms(1) CoInstall req by (auto elim!: bindR_InrE dest!: install_rest calm_rest calm_count)
  next
    case False
    let ?h = "service_installer_initialise_ac_rt_req_header E (plan_base_serialised_service plan) x s"
    have h: "base_ok ?h" "deploy_request_active ?h" "num_pc ?h = num_pc s"
      using base by (simp_all add: service_installer_initialise_ac_rt_req_header_def Let_def base_defs)
    obtain t where t: "protocon_start E plan ?h = Inr t"
      and rest: "(if targeted (deploy_request t) \<or> n \<le> 1 then Inr (co_end E MON_NO_ERROR t)
                      else co_begin E info None (n - 1) t) = Inr sys'"
      using assms(1) CoInstall req False by (auto elim!: bindR_InrE)
    have t': "base_ok t" "deploy_request_active t" "num_pc t = num_pc s"
      using start_calm_except [OF t h(1)] start_result(1) [OF t] h(2,3) by (simp_all add: control_def)
    show ?thesis
    proof (cases "targeted (deploy_request t) \<or> n \<le> 1")
      case True
      then show ?thesis using rest co_end_count [OF t'(1,2)] t'(3) by auto
    next
      case False
      then have "co_begin E info None (n - 1) t = Inr sys'" using rest by simp
      from co_begin_count [OF this t'(1,2)] t'(3) show ?thesis by simp
    qed
  qed
qed

lemma co_settle_count: "monitor_inv E sys \<Longrightarrow> co_settle E sys = Inr sys' \<Longrightarrow> num_pc (fst sys') = num_pc (fst sys)"
proof (induction E sys rule: co_settle.induct)
  case (1 E sys)
  show ?case
  proof (cases "snd sys = CoNone \<or> co_waits E sys")
    case True
    then show ?thesis using "1.prems" by (simp add: co_settle.simps [of E sys])
  next
    case False
    then obtain mid where mid: "co_step E sys = Inr mid" "co_settle E mid = Inr sys'"
      using "1.prems"(2) by (auto simp: co_settle.simps [of E sys] split: sum.splits)
    have "monitor_inv E mid" "num_pc (fst mid) = num_pc (fst sys)"
      using co_step_inv [of E "fst sys" "snd sys" "fst mid" "snd mid"] co_step_count [of E "fst sys" "snd sys" mid]
        "1.prems"(1) mid(1) by simp_all
    then show ?thesis using "1.IH" [OF False mid(1)] mid(2) by simp
  qed
qed

section \<open>Every step\<close>

lemma spawn_count: "monitor_deploy_second_half E (s, co) = (err, sys) \<Longrightarrow> num_pc (fst sys) = num_pc s"
  by (auto simp: monitor_deploy_second_half_def split: if_splits)

lemma deploy_count:
  assumes "monitor_inv E (s, co)"
  shows "monitor_call_deploy_first_half E num (s, co) = Inr (reply, sys') \<Longrightarrow> num_pc (fst sys') = num_pc s"
    and "monitor_call_deploy_to_protocon E pc_id peer_mask peers_all (s, co) = Inr (reply, sys') \<Longrightarrow> num_pc (fst sys') = num_pc s"
proof -
  have base: "base_ok s" and idle: "deploy_request_active s \<longleftrightarrow> co \<noteq> CoNone" using assms by (simp_all add: monitor_inv_def)
  show "num_pc (fst sys') = num_pc s" if call: "monitor_call_deploy_first_half E num (s, co) = Inr (reply, sys')"
  proof -
    let ?s = "s\<lparr>deploy_request := empty_deploy_request\<lparr>num_req_pc := ucast num\<rparr>, req_pc_num := ucast num,
      deploy_request_active := True\<rparr>"
    obtain err sys1 where sp: "monitor_deploy_second_half E (?s, co) = (err, sys1)"
      by (cases "monitor_deploy_second_half E (?s, co)")
    consider "sys' = (s, co)" | "co = CoNone" "sys' = sys1 \<or> co_settle E sys1 = Inr sys'"
      using call idle sp
      by (auto simp: monitor_call_deploy_first_half_def monitor_reset_deploy_request_def Let_def
          split: if_splits elim!: bindR_InrE)
    then show ?thesis
    proof cases
      case 2
      have "base_ok ?s" using base by (simp add: base_defs empty_deploy_request_def)
      then have "monitor_inv E sys1" by (rule spawn_inv [OF _ _ sp 2(1)]) simp
      then show ?thesis using 2(2) co_settle_count [of E sys1 sys'] spawn_count [OF sp] by auto
    qed simp
  qed
  show "num_pc (fst sys') = num_pc s" if call: "monitor_call_deploy_to_protocon E pc_id peer_mask peers_all (s, co) = Inr (reply, sys')"
  proof (cases "accepted_peers pc_id peer_mask peers_all s")
    case (Inl err)
    then show ?thesis using call base by (auto simp: to_protocon_eq base_ok_def)
  next
    case (Inr peers)
    note acc = accepted_ok [OF Inr base]
    obtain err sys1 where sp: "monitor_deploy_second_half E (deploy_target pc_id peers s, co) = (err, sys1)"
      by (cases "monitor_deploy_second_half E (deploy_target pc_id peers s, co)")
    have "monitor_inv E sys1"
      by (rule spawn_inv [OF acc(1) _ sp]) (use idle acc(2) in \<open>simp_all add: deploy_target_def\<close>)
    then show ?thesis
      using call base Inr sp spawn_count [OF sp] co_settle_count [of E sys1 sys']
      by (auto simp: to_protocon_eq base_ok_def Let_def split: if_splits elim!: bindR_InrE)
  qed
qed

lemma co_resume_count:
  assumes "co_resume E sys = Inr sys'" and "monitor_inv E sys"
  shows "num_pc (fst sys') = num_pc (fst sys)"
proof -
  obtain mid where mid: "co_step E (fst sys, snd sys) = Inr mid" "co_settle E mid = Inr sys'"
    using assms(1) by (auto simp: co_resume_def elim!: bindR_InrE)
  have "monitor_inv E mid" using co_step_inv [of E "fst sys" "snd sys" "fst mid" "snd mid"] assms(2) mid(1) by simp
  then show ?thesis using co_settle_count [OF _ mid(2)] co_step_count [OF mid(1)] assms(2) by simp
qed

interpretation keeps_count: calm_steps E "\<lambda>sys sys'. num_pc (fst sys') = num_pc (fst sys)" for E
proof
  show "num_pc (fst sys') = num_pc (fst sys)"
    if "monitor_call_deploy_first_half E num sys = Inr (reply, sys')" "monitor_inv E sys" for num sys reply sys'
    using deploy_count(1) [of E "fst sys" "snd sys"] that by simp
  show "num_pc (fst sys') = num_pc (fst sys)"
    if "monitor_call_deploy_to_protocon E pc_id peer_mask peers_all sys = Inr (reply, sys')" "monitor_inv E sys"
    for pc_id peer_mask peers_all sys reply sys'
    using deploy_count(2) [of E "fst sys" "snd sys"] that by simp
qed (auto simp: calm_count co_resume_count)

lemma reaches_count:
  "monitor_reaches E start sys \<Longrightarrow> monitor_inv E start \<Longrightarrow> num_pc (fst sys) = num_pc (fst start)"
proof (induction rule: monitor_reaches.induct)
  case (step sys sys')
  then show ?case using keeps_count.any_step [OF step(2)] reaches_inv [OF step(1)] by simp
qed simp

end
