(* ===== verification/Carrels_System.thy ===== *)
theory Carrels_System
  imports Orch_Properties Monitor_Init Monitor_Count
begin

unbundle bit_operations_syntax

text \<open>
  The two domains together: the orchestrator of \<open>src/orchestrator\<close>, which calls the monitor of \<open>src/monitor\<close>, while
  the monitor is also called by the protocons, resumed by the file system and notified of faults, in any order.
  Whatever the orchestrator does is a sequence of calls to the monitor, so that what holds of every run of the
  monitor holds of the system.
\<close>

section \<open>Clients of the monitor\<close>

text \<open>What no call to the monitor can break, the orchestrator does not break.\<close>

lemma rest_monitor: "rest_of (s' :: 'm orch) = rest_of s \<Longrightarrow> orch_monitor s' = orch_monitor s"
  by (cases s; cases s') simp

lemma unchanged_monitor [simp]:
  "orch_monitor (fs_process_completions F s) = orch_monitor s" "orch_monitor (orch_yield s) = orch_monitor s"
  "orch_monitor (snd (send_packet E op payload s)) = orch_monitor s"
  "orch_monitor (snd (orch_cothread_spawn E k s)) = orch_monitor s" "orch_monitor (set_fname f s) = orch_monitor s"
  "orch_monitor (snd (cmd_start E argv s)) = orch_monitor s" "orch_monitor (snd (cmd_deploy E argv s)) = orch_monitor s"
  using send_packet_state [of E op payload s] rest_monitor [OF process_completions_rest, of F s]
  by (auto simp: orch_yield_def orch_cothread_spawn_def set_fname_def cmd_start_def cmd_deploy_def Let_def
      split: option.split)

lemmas read_monitor = rest_monitor [OF readfile2buf_rest]
lemmas exists_monitor = rest_monitor [OF file_exists_rest]
lemmas blocking_monitor = rest_monitor [OF command_blocking_rest]

lemma same_monitor:
  "cmd_start E argv s = (r, s') \<Longrightarrow> orch_monitor s' = orch_monitor s"
  "cmd_deploy E argv s = (r, s') \<Longrightarrow> orch_monitor s' = orch_monitor s"
  "orchestrator_cri_start E img s = Inr (p, s') \<Longrightarrow> orch_monitor s' = orch_monitor s"
  "cri_runtime_deploy_complete pc failed s = Inr s' \<Longrightarrow> orch_monitor s' = orch_monitor s"
  "start_after E i s = Inr s' \<Longrightarrow> orch_monitor s' = orch_monitor s"
  "targeted_failed s = Inr s' \<Longrightarrow> orch_monitor s' = orch_monitor s"
proof -
  show "cmd_start E argv s = (r, s') \<Longrightarrow> orch_monitor s' = orch_monitor s"
    "cmd_deploy E argv s = (r, s') \<Longrightarrow> orch_monitor s' = orch_monitor s"
    using unchanged_monitor(6,7) [of E argv s] by simp_all
  show start: "orch_monitor s' = orch_monitor s" if "orchestrator_cri_start E img s = Inr (p, s')" for img s p s'
    using that by (cases rule: cri_start_cases) (auto simp: slot_taken_def)
  show complete: "orch_monitor s' = orch_monitor s" if "cri_runtime_deploy_complete pc failed s = Inr s'" for pc failed s s'
    using that by (auto simp: cri_runtime_deploy_complete_def elim!: bindR_InrE)
  show "start_after E i s = Inr s' \<Longrightarrow> orch_monitor s' = orch_monitor s"
    by (auto simp: start_after_def Let_def split: option.splits elim!: bindR_InrE dest!: start)
  show "targeted_failed s = Inr s' \<Longrightarrow> orch_monitor s' = orch_monitor s"
    by (auto simp: targeted_failed_def split: if_splits elim!: bindR_InrE dest!: complete)
qed

locale monitor_client =
  fixes E :: "'m orch_env" and P :: "'m \<Rightarrow> bool"
  assumes call: "P m \<Longrightarrow> ppcall E mem m msg = Inr (label, regs, m') \<Longrightarrow> P m'"
begin

lemma ppcall_keeps: "monitor_ppcall E msg s = Inr (label, s') \<Longrightarrow> P (orch_monitor s) \<Longrightarrow> P (orch_monitor s')"
  by (auto simp: monitor_ppcall_def elim!: bindR_InrE intro: call)

lemma is_running_keeps: "monitor_protocon_is_running E pc s = Inr (r, s') \<Longrightarrow> P (orch_monitor s) \<Longrightarrow> P (orch_monitor s')"
  by (auto simp: monitor_protocon_is_running_def split: if_splits elim!: bindR_InrE dest: ppcall_keeps)

lemma cri_stop_keeps: "orchestrator_cri_stop E pc s = Inr (r, s') \<Longrightarrow> P (orch_monitor s) \<Longrightarrow> P (orch_monitor s')"
  by (auto simp: orchestrator_cri_stop_def split: if_splits elim!: bindR_InrE)
    (blast intro: ppcall_keeps is_running_keeps)+

lemma stop_container_keeps:
  "stop_container E request s = Inr (r, s') \<Longrightarrow> P (orch_monitor s) \<Longrightarrow> P (orch_monitor s')"
  by (auto simp: stop_container_def with_found_def stop_found_def Let_def split: if_splits option.splits
      elim!: bindR_InrE)
    (blast intro: cri_stop_keeps)+

lemma request_keeps:
  assumes "cri_dispatch E op request s = Inr (r, s')" and "P (orch_monitor s)"
  shows "P (orch_monitor s')"
proof -
  have "orch_monitor s' = orch_monitor s" if "map_of cri_ops op \<noteq> Some CRI_STOP_CONTAINER"
    using assms(1) that
    by (auto simp: run_sandbox_def cri_dispatch_def stop_sandbox_def remove_sandbox_def object_status_def create_container_def start_container_def
        remove_container_def reopen_log_def pull_image_def remove_image_def image_status_def with_found_def Let_def
        split: option.splits cri_op.splits if_splits elim!: bindR_InrE)
  moreover have "P (orch_monitor s')" if "map_of cri_ops op = Some CRI_STOP_CONTAINER"
    using assms that stop_container_keeps by (auto simp: cri_dispatch_def)
  ultimately show ?thesis using assms(2) by metis
qed

lemma answer_keeps:
  assumes "answer_request E header request s = Inr s'" and "P (orch_monitor s)"
  shows "P (orch_monitor s')"
proof -
  obtain result response t where d: "cri_dispatch E (rpc_op header) request s = Inr ((result, response), t)"
    using assms(1) by (auto simp: answer_request_def elim!: bindR_InrE)
  then have "orch_monitor s' = orch_monitor t"
    using assms(1)
    by (auto simp: answer_request_def Let_def split_beta split: if_splits option.splits dest!: same_monitor(5))
  then show ?thesis using request_keeps [OF d assms(2)] by simp
qed

lemma packet_keeps: "process_packet E packet s = Inr s' \<Longrightarrow> P (orch_monitor s) \<Longrightarrow> P (orch_monitor s')"
  by (auto simp: process_packet_def receive_payload_def process_stream_def Let_def split_beta split: if_splits
      dest: answer_keeps)

lemma packets_keep: "cri_runtime_notified E packets s = Inr s' \<Longrightarrow> P (orch_monitor s) \<Longrightarrow> P (orch_monitor s')"
  by (induction packets arbitrary: s) (auto elim!: bindR_InrE dest: packet_keeps)

lemma container_result_keeps:
  "container_result E error pc s = Inr s' \<Longrightarrow> P (orch_monitor s) \<Longrightarrow> P (orch_monitor s')"
  by (auto simp: container_result_def Let_def split: if_splits elim!: bindR_InrE dest!: same_monitor(4))
    (blast intro: is_running_keeps)+

lemma result_keeps: "print_deploy_result E s = Inr s' \<Longrightarrow> P (orch_monitor s) \<Longrightarrow> P (orch_monitor s')"
  by (auto simp: print_deploy_result_unfold split: if_splits elim!: bindR_InrE)
    (blast intro: ppcall_keeps container_result_keeps)+

lemma loader_keeps: "loader_finish E k s = Inr s' \<Longrightarrow> P (orch_monitor s) \<Longrightarrow> P (orch_monitor s')"
  by (auto simp: loader_finish_def load_elf_payload_def load_targeted_elf_payload_def Let_def
      split: if_splits loader.splits loader_kind.splits elim!: bindR_InrE dest!: read_monitor same_monitor(6))
    (use ppcall_keeps in fastforce)+

lemma execute_keeps: "shell_execute E argv s = Inr (r, s') \<Longrightarrow> P (orch_monitor s) \<Longrightarrow> P (orch_monitor s')"
  unfolding shell_execute_def
  by (auto simp: cmd_no_argument_def cmd_pd_control_def cmd_set_acl_def call_monitor_def
      split: if_split_asm option.splits elim!: bindR_InrE dest: ppcall_keeps dest!: same_monitor(1,2))

lemma serial_keeps: "process_blocks E blocks s = Inr s' \<Longrightarrow> P (orch_monitor s) \<Longrightarrow> P (orch_monitor s')"
proof (induction blocks arbitrary: s)
  case (Cons b blocks)
  obtain r mrl t where t: "microrl_processing_input (shell_fns E) b (shell s) s = Inr (r, mrl, t)"
    and rest: "process_blocks E blocks (t\<lparr>shell := mrl\<rparr>) = Inr s'"
    using Cons.prems(1) by (auto elim!: bindR_InrE)
  have "P (orch_monitor t)"
    by (rule processing_input_user [where P = "\<lambda>s. P (orch_monitor s)", OF _ t Cons.prems(2)]) (simp add: execute_keeps)
  then show ?case using Cons.IH [OF rest] by simp
qed simp

lemma prologue_keeps: "orchestrator_prologue E s = Inr s' \<Longrightarrow> P (orch_monitor s) \<Longrightarrow> P (orch_monitor s')"
  by (auto simp: orchestrator_prologue_def split: if_splits elim!: bindR_InrE
      dest!: read_monitor exists_monitor blocking_monitor)

lemma runs_keep: "orch_runs E s s' \<Longrightarrow> P (orch_monitor s) \<Longrightarrow> P (orch_monitor s')"
  by (cases rule: orch_runs.cases)
    (auto simp: orch_notified_def orche_handle_serial_event_def Let_def split: orch_channel.splits if_splits
      dest: packets_keep serial_keeps result_keeps loader_keeps prologue_keeps)

end

text \<open>The monitor itself behind the channel.\<close>

definition link_monitor :: "mon_env \<Rightarrow> monitor_system orch_env \<Rightarrow> monitor_system orch_env" where
  "link_monitor M E = E\<lparr>ppcall := \<lambda>mem sys msg.
     bindR (monitor_protected M 23 (\<lambda>i. if i < length msg then msg ! i else mrs (fst sys) i) (monitor_sees mem sys)) (\<lambda>((label, _), sys).
     Inr (label, mrs (fst sys), sys))\<rparr>"

lemma linked_link: "linked M E \<longleftrightarrow> E = link_monitor M E"
proof
  assume "linked M E"
  then have "ppcall E = ppcall (link_monitor M E)" by (intro ext) (simp add: linkedD link_monitor_def)
  then show "E = link_monitor M E" by (cases E) (simp add: link_monitor_def)
next
  assume "E = link_monitor M E"
  then have "ppcall E = ppcall (link_monitor M E)" by (rule arg_cong)
  then show "linked M E" by (simp add: linked_def link_monitor_def)
qed

lemma link_steps:
  assumes "ppcall (link_monitor M E) mem sys msg = Inr (label, regs, sys')"
  shows "\<exists>sys1. monitor_step M sys sys1 \<and> monitor_step M sys1 sys'"
proof -
  obtain reply where "monitor_protected M 23 (\<lambda>i. if i < length msg then msg ! i else mrs (fst sys) i) (monitor_sees mem sys)
      = Inr (reply, sys')"
    using assms by (auto simp: link_monitor_def elim!: bindR_InrE)
  then have "monitor_step M (monitor_sees mem sys) sys'" by (rule monitor_step.protected)
  moreover have "monitor_step M sys (monitor_sees mem sys)"
    using monitor_step.written [of M "fst sys" "snd sys"] by (simp add: monitor_sees_def)
  ultimately show ?thesis by blast
qed

interpretation runs: monitor_client "link_monitor M E" "monitor_reaches M m0" for M E m0
proof
  show "monitor_reaches M m0 m'" if "monitor_reaches M m0 m" "ppcall (link_monitor M E) mem m msg = Inr (label, regs, m')"
    for m mem msg label regs m'
    using that(1) link_steps [OF that(2)] by (blast intro: monitor_reaches.step)
qed

section \<open>The system\<close>

inductive system_step :: "mon_env \<Rightarrow> monitor_system orch_env \<Rightarrow> monitor_system orch \<Rightarrow> monitor_system orch \<Rightarrow> bool" for M E where
  orchestrator: "orch_runs E s s' \<Longrightarrow> system_step M E s s'"
| monitor: "monitor_step M (orch_monitor s) sys \<Longrightarrow> system_step M E s (s\<lparr>orch_monitor := sys\<rparr>)"

inductive system_reaches :: "mon_env \<Rightarrow> monitor_system orch_env \<Rightarrow> monitor_system orch \<Rightarrow> monitor_system orch \<Rightarrow> bool"
  for M E s0 where
  boot: "system_reaches M E s0 s0"
| goes_on: "system_reaches M E s0 s \<Longrightarrow> system_step M E s s' \<Longrightarrow> system_reaches M E s0 s'"

text \<open>Each domain sees a run of its own.\<close>

lemma system_runs:
  assumes "linked M E" and "system_reaches M E s0 s"
  shows "monitor_reaches M (orch_monitor s0) (orch_monitor s)" and "orch_reaches E s0 s"
  using assms(2)
proof (induction rule: system_reaches.induct)
  case boot
  { case 1 show ?case by (rule monitor_reaches.start) }
  { case 2 show ?case by (rule orch_reaches.here) }
next
  case (goes_on s s')
  have E: "link_monitor M E = E" using assms(1) linked_link by metis
  { case 1
    show ?case using goes_on(2)
    proof (cases rule: system_step.cases)
      case orchestrator
      then show ?thesis using runs.runs_keep [of M E s s', unfolded E] goes_on.IH(1) by blast
    next
      case (monitor sys)
      then show ?thesis using monitor_reaches.step [OF goes_on.IH(1) monitor(2)] by simp
    qed }
  { case 2
    show ?case using goes_on(2)
    proof (cases rule: system_step.cases)
      case orchestrator
      then show ?thesis by (rule orch_reaches.more [OF goes_on.IH(2) orch_step.runs])
    next
      case (monitor sys)
      then show ?thesis using orch_reaches.more [OF goes_on.IH(2) orch_step.monitor_alone] by simp
    qed }
qed

text \<open>From an initialised monitor, on every path, both domains stay in order.\<close>

lemma system_in_order:
  assumes "linked M E" and "monitor_inv M (m0, CoNone)" and "system_reaches M E (orch_globals F (m0, CoNone)) s"
  shows "orch_inv E s" and "monitor_inv M (orch_monitor s)" and "num_pc (fst (orch_monitor s)) = num_pc m0"
  using reaches_inv [OF system_runs(1) [OF assms(1,3)]] reaches_count [OF system_runs(1) [OF assms(1,3)]]
    reachable_inv [OF system_runs(2) [OF assms(1,3)]] assms(2) by simp_all

section \<open>The requests of the orchestrator\<close>

text \<open>C18: in every state that the system reaches from its start, whatever was typed or asked for by the container
  runtime, a targeted request with the target and the peers that the orchestrator holds is never refused by the monitor
  as malformed: the target is a protocon of the system, and the peers are others, provided the monitor booted with at
  least as many protocons as the orchestrator was built for.\<close>

theorem system_requests_well_formed:
  assumes "linked M E" and "monitor_inv M (m0, CoNone)" and "system_reaches M E (orch_globals F (m0, CoNone)) s"
    and "0 < MAX_PROTOCON_PORTS E" and "unat (MAX_PROTOCON_PORTS E) \<le> unat (num_pc m0)"
    and "monitor_ppcall E [PC_MONITOR_CALL_DEPLOY_TO_PROTOCON, ucast (deploy_pc_id s), ucast (deploy_peer_mask s),
      if deploy_peers_all s then 1 else 0] s = Inr (label, t)"
  shows "label \<notin> {MON_INVALID_PC_ID, MON_INVALID_PEER_SET}"
proof (rule requests_well_formed [OF system_runs(2) [OF assms(1,3)] assms(1) _ assms(4) _ assms(6)])
  note mon = system_runs(1) [OF assms(1,3), simplified]
  show "base_ok (fst (orch_monitor s))" using reaches_inv [OF mon assms(2)] by (simp add: monitor_inv_def)
  show "unat (MAX_PROTOCON_PORTS E) \<le> unat (num_pc (fst (orch_monitor s)))"
    using reaches_count [OF mon assms(2)] assms(5) by simp
qed

theorem system_requests_well_formed_witness:
  "\<exists>label t. monitor_ppcall (ex_orch_env\<lparr>MAX_PROTOCON_PORTS := 2\<rparr>) [PC_MONITOR_CALL_DEPLOY_TO_PROTOCON, 0, 0, 0]
      (orch_globals ex_fs_state (ex_monitor [1, 1] [], CoNone)) = Inr (label, t)
    \<and> label \<notin> {MON_INVALID_PC_ID, MON_INVALID_PEER_SET}"
proof -
  let ?E = "ex_orch_env\<lparr>MAX_PROTOCON_PORTS := 2\<rparr>"
  have link: "linked ex_mon_env ?E" using ex_linked by (simp add: linked_def)
  have inv: "monitor_inv ex_mon_env (ex_monitor [1, 1] [], CoNone)"
    using ex_base [of "[1, 1]"] by (simp add: monitor_inv_def) (simp add: ex_monitor_def)
  have n: "num_pc (ex_monitor [1, 1] []) = 2" by (simp add: ex_monitor_def)
  have all: "\<not> deploy_peers_all (orch_globals ex_fs_state (ex_monitor [1, 1] [], CoNone))" by (simp add: orch_globals_def)
  obtain t where "monitor_ppcall ?E [PC_MONITOR_CALL_DEPLOY_TO_PROTOCON, 0, 0, 0]
      (orch_globals ex_fs_state (ex_monitor [1, 1] [], CoNone)) = Inr (MON_PC_UNAVAILABLE, t)"
    using ex_unavailable by blast
  with system_requests_well_formed [OF link inv system_reaches.boot [of _ _ "orch_globals ex_fs_state (ex_monitor [1, 1] [], CoNone)"]]
  show ?thesis by (simp add: n all)
qed

end
