(* ===== verification/Carrels_Boot.thy ===== *)
theory Carrels_Boot
  imports Carrels_System
begin

text \<open>
  The entry points \<open>init\<close> of the two domains (\<open>src/monitor/entry.c\<close>, \<open>src/orchestrator/orchestrator.c\<close>) and the output
  callback of the shell. The configuration that the build patches into the images is a parameter: whether each part has its
  magic number, and what the queues of the file server hold. Setting up the queues of the drivers and
  the stacks of the coroutines is code of the libraries.
\<close>

section \<open>Configuration\<close>

record domain_config =
  serial_config_magic :: bool
  fs_config_magic :: bool
  server_command_queue :: "fs_cmd list"
  server_completion_queue :: "fs_cmpl list"

record monitor_config = domain_config +
  net_config_magic :: bool
  vswitch_config_magic :: bool

record orch_config = domain_config +
  vsock_config_magic :: bool
  prologue_spawned :: bool

text \<open>\<open>fs_set_blocking_wait\<close> and the assignments of the queues.\<close>

definition use_file_server :: "'c domain_config_scheme \<Rightarrow> 's fs_state_scheme \<Rightarrow> 's fs_state_scheme" where
  "use_file_server cfg s = s\<lparr>blocking_wait_set := True, fs_command_queue := server_command_queue cfg,
     fs_completion_queue := server_completion_queue cfg\<rparr>"

section \<open>The monitor\<close>

text \<open>\<open>init\<close> of \<open>src/monitor/entry.c\<close>.\<close>

definition monitor_entry_init :: "mon_env \<Rightarrow> monitor_config \<Rightarrow> monitor \<Rightarrow> monitor res" where
  "monitor_entry_init E cfg s =
     bindR (assertR (serial_config_magic cfg)) (\<lambda>_.
     bindR (assertR (fs_config_magic cfg)) (\<lambda>_.
     let s = use_file_server cfg s
     in bindR (assertR (net_config_magic cfg)) (\<lambda>_.
        bindR (assertR (vswitch_config_magic cfg)) (\<lambda>_.
        ca_monitor_init_system E s))))"

section \<open>The orchestrator\<close>

text \<open>
  \<open>init\<close> of \<open>src/orchestrator/orchestrator.c\<close>: the coroutine that mounts the file system is spawned and waits, then the
  line editor is set up with its callbacks. A failure stops the orchestrator with code -1.
\<close>

definition orch_init :: "'m orch_env \<Rightarrow> orch_config \<Rightarrow> 'm orch \<Rightarrow> ('m orch \<times> 'm orch microrl_fns) res" where
  "orch_init E cfg s =
     bindR (assertR (serial_config_magic cfg)) (\<lambda>_.
     bindR (assertR (fs_config_magic cfg)) (\<lambda>_.
     bindR (assertR (vsock_config_magic cfg)) (\<lambda>_.
     let s = (use_file_server cfg s)\<lparr>fs_init := False\<rparr>
     in if \<not> prologue_spawned cfg then Inl (Crash (-1))
        else
          let s = s\<lparr>shell := microrl_init\<rparr>;
              fns = \<lparr>exec_fn = shell_execute E, get_completion_fn = None, sigint_fn = None\<rparr>;
              (result, fns) = microrl_set_complete_callback (Some shell_complete) fns
          in if result \<noteq> microrlOK then Inl (Crash (-1))
             else
               let (result, fns) = microrl_set_sigint_callback (Some shell_sigint) fns
               in if result \<noteq> microrlOK then Inl (Crash (-1)) else Inr (s, fns))))"

text \<open>
  \<open>shell_output\<close>: what is written so far, and the number of characters, or 0 for \<open>NULL\<close>. The line editor calls it with
  terminated strings.
\<close>

fun output_chars :: "u8 list \<Rightarrow> int \<Rightarrow> u8 list \<Rightarrow> (int \<times> u8 list) res" where
  "output_chars [] count out = Inl UB"
| "output_chars (c # str) count out = (if c = 0 then Inr (count, out) else output_chars str (count + 1) (out @ [c]))"

definition shell_output :: "u8 list option \<Rightarrow> u8 list \<Rightarrow> (int \<times> u8 list) res" where
  "shell_output str out = (case str of None \<Rightarrow> Inr (0, out) | Some str \<Rightarrow> output_chars str 0 out)"

lemma output_chars_terminated:
  "terminated str \<Longrightarrow> output_chars str n out = Inr (n + int (length (c_string str)), out @ c_string str)"
  by (induction str arbitrary: n out) auto

text \<open>So the output function of the line editor is this one.\<close>

lemma shell_output_out_fn:
  "terminated str \<Longrightarrow> shell_output (Some str) (printed mrl) = Inr (int (length (c_string str)), printed (out_fn (c_string str) mrl))"
  by (simp add: shell_output_def output_chars_terminated out_fn_def)

section \<open>Starting the system\<close>

text \<open>The orchestrator starts in the state that its runs begin with, with the callbacks that its notifications use.\<close>

lemma orch_init_starts:
  assumes "orch_init E cfg ((orch_globals F m)\<lparr>shell := mrl\<rparr>) = Inr (s, fns)"
  shows "s = orch_globals (use_file_server cfg F) m" and "fns = shell_fns E"
proof -
  have "(use_file_server cfg ((orch_globals F m)\<lparr>shell := mrl\<rparr>))\<lparr>fs_init := False, shell := microrl_init\<rparr>
      = orch_globals (use_file_server cfg F) m"
    by (simp add: use_file_server_def orch_globals_def)
  then show "s = orch_globals (use_file_server cfg F) m" "fns = shell_fns E"
    using assms
    by (auto simp: orch_init_def shell_fns_def microrl_set_complete_callback_def microrl_set_sigint_callback_def Let_def
        split: if_splits elim!: bindR_InrE)
qed

lemma use_file_server_zero: "use_file_server cfg (zero_globals M s) = zero_globals M (use_file_server cfg s)"
  by (cases s) (simp add: use_file_server_def zero_globals_def)

lemma monitor_init_starts:
  assumes "monitor_entry_init M cfg (zero_globals M s) = Inr m"
  shows "ca_monitor_init_system M (zero_globals M (use_file_server cfg s)) = Inr m"
proof -
  show ?thesis using assms by (auto simp: monitor_entry_init_def use_file_server_zero Let_def elim!: bindR_InrE)
qed

end
