(* ===== verification/Boot_Properties.thy ===== *)
theory Boot_Properties
  imports Monitor_Boot Carrels_Boot Orch_Example
begin

text \<open>
  The monitor starts: the theorem on its initialisation and the file server of its witness, which serves the two
  example databases of the parsers.
\<close>

section \<open>An example disk\<close>

definition boot_symbols :: "u8 list" where
  "boot_symbols = [1, 2, 3, 4]"

definition boot_data :: "u64 \<Rightarrow> u8 list" where
  "boot_data fd = (if fd = 1 then svc_example else if fd = 2 then dlg_example else boot_symbols)"

text \<open>\<open>m.svc\<close> and \<open>m.dlg\<close>; what else is opened has the symbols.\<close>

definition boot_opened :: "mem \<Rightarrow> u64 \<Rightarrow> u64" where
  "boot_opened m p = (if mem_holds m p [109, 46, 115, 118, 99, 0] then 1 else if mem_holds m p [109, 46, 100, 108, 103, 0] then 2 else 3)"

definition boot_answer :: "fs_cmd list \<Rightarrow> u64 \<Rightarrow> u64 \<Rightarrow> mem \<Rightarrow> fs_wake list" where
  "boot_answer cmds fd l m = [\<lparr>wake_consumed = 1, wake_completions =
     [\<lparr>cmpl_id = cmd_id (last cmds), cmpl_status = 0, cmpl_fd = fd, cmpl_len_read = l\<rparr>], wake_memory = m\<rparr>]"

definition boot_server :: "fs_cmd list \<Rightarrow> mem \<Rightarrow> fs_wake list" where
  "boot_server cmds m =
     (case cmd_body (last cmds) of
        FS_CMD_FILE_OPEN b n flg \<Rightarrow> boot_answer cmds (boot_opened m (0x1000 + word_of_int b)) 0 m
      | FS_CMD_FILE_READ f pos b n \<Rightarrow>
          let chunk = take (unat n) (drop (unat pos) (boot_data f))
          in boot_answer cmds 0 (word_of_nat (length chunk)) (mem_write m (0x1000 + word_of_int b) chunk)
      | _ \<Rightarrow> boot_answer cmds 0 0 m)"

definition boot_fs :: fs_env where
  "boot_fs = (ex_fs_env boot_server)\<lparr>FS_BUFFER_SIZE := 32\<rparr>"

lemma boot_fs_fields [simp]:
  "FS_QUEUE_CAPACITY boot_fs = 2" "FS_BUFFER_SIZE boot_fs = 32" "FS_STATUS_SUCCESS boot_fs = 0" "fs_share boot_fs = 0x1000"
  "fs_server boot_fs = boot_server"
  by (simp_all add: boot_fs_def ex_fs_env_def)

lemma boot_sizes: "fs_sizes_ok boot_fs"
  by (simp add: fs_sizes_ok_def NUM_BUFFERS_def)

lemma boot_share: "share_region boot_fs = block 0x1000 0x100"
  by (simp add: share_region_def NUM_BUFFERS_def)

lemma boot_answers:
  assumes "boot_server cmds m = boot_answer cmds fd l m'"
  shows "fs_answers boot_fs cmds m \<lparr>cmpl_id = cmd_id (last cmds), cmpl_status = 0, cmpl_fd = fd, cmpl_len_read = l\<rparr> m'"
  unfolding fs_answers_def using assms
  by (intro exI [of _ "[]"] exI [of _ "\<lparr>wake_consumed = 1, wake_completions =
     [\<lparr>cmpl_id = cmd_id (last cmds), cmpl_status = 0, cmpl_fd = fd, cmpl_len_read = l\<rparr>], wake_memory = m'\<rparr>"])
    (simp add: boot_answer_def)

lemma length_boot_data: "length (boot_data fd) \<le> 70"
  by (simp add: boot_data_def svc_example_def dlg_example_def boot_symbols_def svc_magic_def dlg_magic_def)

lemma boot_serves:
  assumes opened: "\<And>m p. mem_holds m p (path @ [0]) \<Longrightarrow> boot_opened m p = fd"
  shows "serves_file boot_fs path fd (boot_data fd)"
  unfolding serves_file_def
proof (intro allI impI)
  fix cmds :: "fs_cmd list" and m :: mem
  let ?E = boot_fs
  let ?c = "\<lambda>fd l. \<lparr>cmpl_id = cmd_id (last cmds), cmpl_status = 0, cmpl_fd = fd, cmpl_len_read = l\<rparr>"
  have same: "agree_outside A m m" for A m by (simp add: agree_outside_def)
  show "case cmd_body (last cmds) of
        FS_CMD_INITIALISE \<Rightarrow> True
      | FS_CMD_FILE_OPEN b n flg \<Rightarrow> mem_holds m (fs_buffer_ptr ?E b) (path @ [0]) \<longrightarrow>
          (\<exists>c m'. fs_answers ?E cmds m c m' \<and> cmpl_status c = FS_STATUS_SUCCESS ?E \<and> cmpl_fd c = fd
             \<and> agree_outside (share_region ?E) m m')
      | FS_CMD_FILE_SIZE f \<Rightarrow> f = fd \<longrightarrow>
          (\<exists>c m'. fs_answers ?E cmds m c m' \<and> cmpl_status c = FS_STATUS_SUCCESS ?E
             \<and> agree_outside (share_region ?E) m m')
      | FS_CMD_FILE_READ f pos b n \<Rightarrow> f = fd \<and> b \<in> buffer_offsets ?E \<and> unat n \<le> FS_BUFFER_SIZE ?E \<longrightarrow>
          (\<exists>c m'. fs_answers ?E cmds m c m' \<and> cmpl_status c = FS_STATUS_SUCCESS ?E
             \<and> cmpl_len_read c = word_of_nat (length (take (unat n) (drop (unat pos) (boot_data fd))))
             \<and> mem_holds m' (fs_buffer_ptr ?E b) (take (unat n) (drop (unat pos) (boot_data fd)))
             \<and> agree_outside (share_region ?E) m m')
      | FS_CMD_FILE_CLOSE f \<Rightarrow> f = fd \<longrightarrow>
          (\<exists>c m'. fs_answers ?E cmds m c m' \<and> cmpl_status c = FS_STATUS_SUCCESS ?E
             \<and> agree_outside (share_region ?E) m m')"
  proof (cases "cmd_body (last cmds)")
    case (FS_CMD_FILE_OPEN b n flg)
    have a: "fs_answers ?E cmds m (?c fd 0) m" if "mem_holds m (fs_buffer_ptr ?E b) (path @ [0])"
      using opened [OF that] by (intro boot_answers) (simp add: boot_server_def FS_CMD_FILE_OPEN fs_buffer_ptr_def)
    have "mem_holds m (fs_buffer_ptr ?E b) (path @ [0]) \<longrightarrow>
        (\<exists>c m'. fs_answers ?E cmds m c m' \<and> cmpl_status c = FS_STATUS_SUCCESS ?E \<and> cmpl_fd c = fd
           \<and> agree_outside (share_region ?E) m m')"
      using same [of "share_region ?E" m] by (intro impI exI [of _ "?c fd 0"] exI [of _ m]) (simp add: a)
    then show ?thesis by (simp only: FS_CMD_FILE_OPEN fs_body.case)
  next
    case (FS_CMD_FILE_READ f pos b n)
    let ?chunk = "take (unat n) (drop (unat pos) (boot_data fd))"
    let ?m = "mem_write m (fs_buffer_ptr ?E b) ?chunk"
    have a: "fs_answers ?E cmds m (?c 0 (word_of_nat (length ?chunk))) ?m" if "f = fd"
      by (rule boot_answers) (simp add: boot_server_def FS_CMD_FILE_READ fs_buffer_ptr_def that)
    have "agree_outside (share_region ?E) m ?m" if "b \<in> buffer_offsets ?E" "unat n \<le> FS_BUFFER_SIZE ?E"
      using that by (intro mem_write_share boot_sizes) simp_all
    moreover have "mem_holds ?m (fs_buffer_ptr ?E b) ?chunk"
      by (rule mem_holds_mem_write) (use length_boot_data [of fd] in simp)
    ultimately have "f = fd \<and> b \<in> buffer_offsets ?E \<and> unat n \<le> FS_BUFFER_SIZE ?E \<longrightarrow>
        (\<exists>c m'. fs_answers ?E cmds m c m' \<and> cmpl_status c = FS_STATUS_SUCCESS ?E
             \<and> cmpl_len_read c = word_of_nat (length ?chunk) \<and> mem_holds m' (fs_buffer_ptr ?E b) ?chunk
             \<and> agree_outside (share_region ?E) m m')"
      using a by (intro impI exI [of _ "?c 0 (word_of_nat (length ?chunk))"] exI [of _ ?m]) simp
    then show ?thesis by (simp only: FS_CMD_FILE_READ fs_body.case)
  qed (use boot_answers [of cmds m 0 0 m] same in \<open>auto simp: boot_server_def intro!: exI [of _ "?c 0 0"] exI [of _ m]\<close>)
qed

lemma boot_mounts: "mounts boot_fs"
  unfolding mounts_def
proof (intro allI impI)
  fix cmds :: "fs_cmd list" and m :: mem
  assume "cmds \<noteq> [] \<and> cmd_body (last cmds) = FS_CMD_INITIALISE"
  then have "boot_server cmds m = boot_answer cmds 0 0 m" by (simp add: boot_server_def)
  from boot_answers [OF this] show "\<exists>c m'. fs_answers boot_fs cmds m c m' \<and> cmpl_status c = FS_STATUS_SUCCESS boot_fs
      \<and> agree_outside (share_region boot_fs) m m'"
    by (intro exI [of _ "\<lparr>cmpl_id = cmd_id (last cmds), cmpl_status = 0, cmpl_fd = 0, cmpl_len_read = 0\<rparr>"] exI [of _ m])
      (simp add: agree_outside_def)
qed

section \<open>The databases anywhere\<close>

lemma dlg_example_anywhere:
  assumes "mem_holds m 0xAAAAA10000 dlg_example"
  shows "dlg_parse m 0xAAAAA10000 dlg_header_zero = (True, dlg_example_header)"
proof -
  have magic: "mem_holds m 0xAAAAA10000 dlg_magic"
    and "mem_holds m (0xAAAAA10000 + 8) (le_bytes 4 (2 :: u32))"
    and "mem_holds m (0xAAAAA10000 + 12) (le_bytes 4 (70 :: u32))"
    and "mem_holds m (0xAAAAA10000 + 16) (le_bytes 2 (38 :: u16))"
    and "mem_holds m (0xAAAAA10000 + 18) (le_bytes 2 (1 :: u16))"
    and "mem_holds m (0xAAAAA10000 + 54) (le_bytes 2 (16 :: u16))"
    and "mem_holds m (0xAAAAA10000 + 56) (le_bytes 2 (0 :: u16))"
    using assms by (simp_all add: dlg_example_def dlg_magic_def)
  note r = this(2-3) [THEN read_u32_le_bytes] this(4-7) [THEN read_u16_le_bytes]
  have reads: "read_u32 m 0xAAAAA10008 = 2" "read_u32 m 0xAAAAA1000C = 70" "read_u16 m 0xAAAAA10010 = 38" "read_u16 m 0xAAAAA10012 = 1"
    "read_u16 m 0xAAAAA10036 = 16" "read_u16 m 0xAAAAA10038 = 0"
    using r by simp_all
  define ds where "ds = replicate 16 (0 :: u64)"
  have zero: "dlg_header_zero = \<lparr>delegator_count = 0, total_size = 0, delegators = ds\<rparr>"
    unfolding dlg_header_zero_def ds_def ..
  have "dlg_records m 0xAAAAA10046 (Suc (Suc 0)) 0 0xAAAAA10010 ds = (True, ds[0 := 0xAAAAA10010, Suc 0 := 0xAAAAA10036])"
    by (simp add: reads dlg_consts)
  then have recs: "dlg_records m 0xAAAAA10046 2 0 0xAAAAA10010 ds = (True, ds[0 := 0xAAAAA10010, Suc 0 := 0xAAAAA10036])"
    by (simp only: numeral_2_eq_2)
  have "ds[0 := 0xAAAAA10010, Suc 0 := 0xAAAAA10036] = [0xAAAAA10010, 0xAAAAA10036] @ replicate 14 0"
    by (rule nth_equalityI) (auto simp: ds_def nth_append nth_list_update nth_Cons split: nat.split)
  then show ?thesis
    using magic recs by (simp add: dlg_parse_def zero dlg_example_header_def reads dlg_consts del: dlg_records.simps)
qed

lemma svc_example_anywhere:
  assumes "mem_holds m 0xAAAAA00000 svc_example"
  shows "svc_parse m 0xAAAAA00000 svc_table_zero = (True, svc_example_table)"
    and "svc_pd_id (svc_service_at m 0xAAAAA00014) = 0"
proof -
  have magic: "mem_holds m 0xAAAAA00000 svc_magic"
    and "mem_holds m (0xAAAAA00000 + 8) (le_bytes 2 (1 :: u16))"
    and "mem_holds m (0xAAAAA00000 + 12) (le_bytes 4 (1 :: u32))"
    and "mem_holds m (0xAAAAA00000 + 16) (le_bytes 4 (52 :: u32))"
    and "mem_holds m (0xAAAAA00000 + 20) (le_bytes 4 (32 :: u32))"
    and "mem_holds m (0xAAAAA00000 + 34) (le_bytes 4 (1 :: u32))"
    and "mem_holds m (0xAAAAA00000 + 38) (le_bytes 4 (1 :: u32))"
    and pd: "mem_holds m (0xAAAAA00000 + 24) (le_bytes 8 (0 :: u64))"
    using assms by (simp_all add: svc_example_def svc_magic_def)
  note r = this(2) [THEN read_u16_le_bytes] this(3-7) [THEN read_u32_le_bytes]
  have reads: "read_u16 m 0xAAAAA00008 = 1" "read_u32 m 0xAAAAA0000C = 1" "read_u32 m 0xAAAAA00010 = 52"
    "read_u32 m 0xAAAAA00014 = 32" "read_u32 m 0xAAAAA00022 = 1" "read_u32 m 0xAAAAA00026 = 1"
    using r by simp_all
  define ss where "ss = replicate 64 (0 :: u64)"
  have zero: "svc_table_zero = \<lparr>svc_version = 0, service_count = 0, svc_total_size = 0, services = ss\<rparr>"
    unfolding svc_table_zero_def ss_def ..
  have "svc_records m 0xAAAAA00034 (Suc 0) 0 0xAAAAA00014 ss = (True, ss[0 := 0xAAAAA00014])"
    by (simp add: reads svc_consts)
  then have recs: "svc_records m 0xAAAAA00034 1 0 0xAAAAA00014 ss = (True, ss[0 := 0xAAAAA00014])"
    by (simp only: One_nat_def)
  have "ss[0 := 0xAAAAA00014] = 0xAAAAA00014 # replicate 63 0"
    by (rule nth_equalityI) (auto simp: ss_def nth_list_update nth_Cons split: nat.split)
  then show "svc_parse m 0xAAAAA00000 svc_table_zero = (True, svc_example_table)"
    using magic recs by (simp add: svc_parse_def zero svc_example_table_def reads svc_consts del: svc_records.simps)
  show "svc_pd_id (svc_service_at m 0xAAAAA00014) = 0"
    using pd [THEN read_u64_le_bytes] by (simp add: svc_service_at_def)
qed

section \<open>The monitor of the example\<close>

definition boot_env :: mon_env where
  "boot_env = ex_mon_env\<lparr>mon_fs := boot_fs, read_bound := 100\<rparr>"

definition ex_disk :: boot_disk where
  "ex_disk = \<lparr>svc_file = svc_example, dlg_file = dlg_example, sym_file = (\<lambda>_. boot_symbols),
     file_handle = (\<lambda>name. if name = [109, 46, 115, 118, 99] then 1 else if name = [109, 46, 100, 108, 103] then 2 else 3),
     loader_elf = [0x7F, 0x45, 0x4C, 0x46]\<rparr>"

definition boot_state :: monitor where
  "boot_state = (ex_monitor [] [])\<lparr>memory := mem_write (\<lambda>_. 0) 0x2000000 [0x7F, 0x45, 0x4C, 0x46],
     dlg := dlg_header_zero, svc := svc_table_zero\<rparr>"

lemma boot_env_fields [simp]:
  "mon_fs boot_env = boot_fs" "read_bound boot_env = 100" "microkit_name boot_env = [109]"
  "carrels_protocon_start boot_env = 0x2000000" "monitor_protocon_capacity boot_env = 0x100"
  "cothread_spawn boot_env ev"
  by (simp_all add: boot_env_def ex_mon_env_def monitor_protocon_capacity_def)

lemma boot_names [simp]:
  "svc_file_name boot_env = [109, 46, 115, 118, 99]" "dlg_file_name boot_env = [109, 46, 100, 108, 103]"
  by (simp_all add: svc_file_name_def dlg_file_name_def cut80_def)

lemma length_decimal:
  assumes "n < 100"
  shows "length (decimal n) \<le> 2"
  using assms by (subst decimal.simps, subst decimal.simps) (auto simp: not_less)

lemma sym_names:
  assumes "unat i < 16"
  shows "\<exists>rest. sym_file_name i = 112 # rest" and "length (sym_file_name i) \<le> 17"
  using length_decimal [of "unat i"] assms by (simp_all add: sym_file_name_def cut80_def)

lemma ex_disk_ready: "disk_ready boot_env ex_disk"
proof -
  have "serves_file boot_fs [109, 46, 115, 118, 99] 1 (boot_data 1)"
    by (rule boot_serves) (simp add: boot_opened_def)
  then have svc: "has_file boot_env ex_disk (svc_file_name boot_env) (svc_file ex_disk) 0x10000"
    using length_boot_data [of 1] by (simp add: has_file_def ex_disk_def boot_data_def)
  have "serves_file boot_fs [109, 46, 100, 108, 103] 2 (boot_data 2)"
    by (rule boot_serves) (simp add: boot_opened_def)
  then have dlg: "has_file boot_env ex_disk (dlg_file_name boot_env) (dlg_file ex_disk) 0x10000"
    using length_boot_data [of 2] by (simp add: has_file_def ex_disk_def boot_data_def)
  have "has_file boot_env ex_disk (sym_file_name i) (sym_file ex_disk i) 0x1000" if i: "unat i < 16" for i
  proof -
    obtain rest where rest: "sym_file_name i = 112 # rest" using sym_names(1) [OF i] by blast
    have "serves_file boot_fs (sym_file_name i) 3 (boot_data 3)"
      by (rule boot_serves) (simp add: boot_opened_def rest)
    then show ?thesis using sym_names(2) [OF i] length_boot_data [of 3]
      by (simp add: has_file_def ex_disk_def boot_data_def rest)
  qed
  then show ?thesis using svc dlg boot_mounts by (simp add: disk_ready_def)
qed

lemma low_share:
  assumes "0x1100 \<le> unat p" and "unat p + unat n \<le> 2 ^ 64"
  shows "block p n \<inter> share_region boot_fs = {}"
  using assms by (auto simp: boot_share block_range simp del: mem_block_iff)

lemma boot_away: "away boot_env"
  using low_share [of SVC_BASE "0x30000"] by (simp add: boot_region_def boot_consts)

lemma ex_loader_ready: "loader_ready boot_env ex_disk"
proof -
  have "load_elf boot_env = load_elf ex_mon_env" "monitor_trampoline_capacity boot_env = monitor_trampoline_capacity ex_mon_env"
    by (simp_all add: boot_env_def ex_mon_env_def monitor_trampoline_capacity_def)
  moreover have "monitor_protocon_capacity ex_mon_env = 0x100" by (simp add: ex_mon_env_def monitor_protocon_capacity_def)
  ultimately have l: "load_elf_contained boot_env" "images_fit boot_env"
    using ex_load_contained ex_images_fit by (simp_all add: load_elf_contained_def images_fit_def)
  have low: "block 0x2000000 0x100 \<inter> block p n = {}"
    if "0x2000100 \<le> unat p" "unat p + unat n \<le> 2 ^ 64" for p n :: u64
    using that by (auto simp: block_range simp del: mem_block_iff)
  have region: "block 0x2000000 0x100 \<inter> region_of r cid = {}"
    if r: "r \<in> {loader_program monitor_vm_layout, trampoline_image monitor_vm_layout, container_image monitor_vm_layout}"
      and cid: "unat cid < 16" for r and cid :: u32
  proof -
    have mem: "r \<in> set vm_regions" using r by (auto simp: vm_regions_def)
    have "unat (ucast cid :: u64) < 16" using cid by simp
    note base = region_base_exact [OF mem this]
    have sz: "unat (region_size r) = 0x800000" "unat (region_base r) \<le> 0x50000000" "0x10000000 \<le> unat (region_base r)"
      using r by (auto simp: monitor_vm_layout_def)
    have "unat cid * 0x800000 \<le> 15 * 0x800000" using cid by simp
    then show ?thesis unfolding region_of_def using base sz by (intro low) simp_all
  qed
  have "block 0x2000000 0x100 \<inter> loaded_regions cid = {}" if "unat cid < 16" for cid
    using region [OF _ that] unfolding loaded_regions_def by blast
  moreover have "block 0x2000000 0x100 \<inter> (boot_region \<union> share_region boot_fs) = {}"
    using low [of SVC_BASE "0x30000"] low_share [of "0x2000000" "0x100"]
    by (simp add: boot_region_def boot_consts Int_Un_distrib)
  moreover have "fst (load_elf boot_env m src 0x100 dst v (region_size (loader_program monitor_vm_layout)))" for m src dst v
    by (simp add: boot_env_def ex_mon_env_def monitor_vm_layout_def)
  ultimately show ?thesis using l by (simp add: loader_ready_def ex_disk_def)
qed

lemma boot_state_queues:
  "request_table boot_state = [ex_request, ex_request]" "buffer_table boot_state = replicate 8 False"
  "blocking_wait_set boot_state" "fs_command_queue boot_state = []" "fs_completion_queue boot_state = []"
  by (simp_all only: boot_state_def ex_monitor_def fs_state.simps monitor.simps)

lemma ex_boots: "boots boot_env ex_disk dlg_example_header svc_example_table boot_state"
proof -
  have "delegation_file (dlg_file ex_disk) dlg_example_header"
    using dlg_example_anywhere by (simp add: delegation_file_def ex_disk_def boot_consts)
  moreover have "service_file (svc_file ex_disk) svc_example_table"
    using svc_example_anywhere
    by (simp add: service_file_def ex_disk_def boot_consts svc_example_table_def placeable_def)
  moreover have "vfs_ready boot_fs boot_state"
    using boot_state_queues
    by (simp add: vfs_ready_def fs_ready_def fs_wf_def boot_sizes NUM_BUFFERS_def ex_request_def) (rule exI [of _ False], simp)
  moreover have "dlg boot_state = dlg_header_zero" "svc boot_state = svc_table_zero"
    by (simp_all add: boot_state_def)
  moreover have "mem_holds (memory boot_state) 0x2000000 (loader_elf ex_disk)"
    by (simp add: boot_state_def ex_disk_def mem_holds_mem_write del: mem_holds_Cons)
  ultimately show ?thesis using ex_disk_ready boot_away ex_loader_ready
    by (simp add: boots_def dlg_example_header_def)
qed

section \<open>The start of the system\<close>

text \<open>Both domains start; then the monitor waits for calls and the orchestrator for events.\<close>

definition system_boot :: "mon_env \<Rightarrow> monitor_system orch_env \<Rightarrow> monitor_config \<Rightarrow> orch_config \<Rightarrow> monitor \<Rightarrow> fs_state
    \<Rightarrow> microrl \<Rightarrow> monitor_system orch res" where
  "system_boot M E mcfg ocfg s F mrl =
     bindR (monitor_entry_init M mcfg (zero_globals M s)) (\<lambda>m.
     bindR (orch_init E ocfg ((orch_globals F (m, CoNone))\<lparr>shell := mrl\<rparr>)) (\<lambda>(s, fns). Inr s))"

text \<open>The build has patched the configuration into the images, and the first coroutine of the orchestrator exists.\<close>

definition configured :: "monitor_config \<Rightarrow> orch_config \<Rightarrow> bool" where
  "configured mcfg ocfg \<longleftrightarrow> serial_config_magic mcfg \<and> fs_config_magic mcfg \<and> net_config_magic mcfg \<and> vswitch_config_magic mcfg
     \<and> serial_config_magic ocfg \<and> fs_config_magic ocfg \<and> vsock_config_magic ocfg \<and> prologue_spawned ocfg"

lemma orch_init_succeeds:
  assumes "configured mcfg ocfg"
  shows "\<exists>s fns. orch_init E ocfg t = Inr (s, fns)"
  using assms
  by (simp add: configured_def orch_init_def assertR_def microrl_set_complete_callback_def microrl_set_sigint_callback_def Let_def)

lemma system_boot_starts:
  assumes "configured mcfg ocfg" and "ca_monitor_init_system M (zero_globals M (use_file_server mcfg s)) = Inr m"
  shows "system_boot M E mcfg ocfg s F mrl = Inr (orch_globals (use_file_server ocfg F) (m, CoNone))"
proof -
  obtain t fns where t: "orch_init E ocfg ((orch_globals F (m, CoNone))\<lparr>shell := mrl\<rparr>) = Inr (t, fns)"
    using orch_init_succeeds [OF assms(1)] by blast
  have "monitor_entry_init M mcfg (zero_globals M s) = Inr m"
    using assms by (simp add: configured_def monitor_entry_init_def use_file_server_zero assertR_def)
  then show ?thesis using t orch_init_starts(1) [OF t] by (simp add: system_boot_def)
qed

section \<open>Properties\<close>

text \<open>C2: with a file server that has well-formed databases and the symbols of the protocons, and images that fit their
  places, the system starts, with one protocon for each delegator and each service of the database registered with its
  protocon; and from there, on every path, the orchestrator's tables, buffers, slots and line editor are in order, the
  monitor's request, policies and plan are, and the number of protocons stays the one it started with.\<close>

theorem system_boots:
  assumes "linked M E" and "configured mcfg ocfg" and "boots M D h v (use_file_server mcfg s)"
  shows "\<exists>s0 states. system_boot M E mcfg ocfg s F mrl = Inr s0 \<and> no_services states
     \<and> protocon_states (fst (orch_monitor s0)) = registered (memory (fst (orch_monitor s0))) (listed v) states
     \<and> (\<forall>t. system_reaches M E s0 t \<longrightarrow>
          orch_inv E t \<and> monitor_inv M (orch_monitor t) \<and> num_pc (fst (orch_monitor t)) = ucast (delegator_count h))"
proof -
  obtain m states where m: "ca_monitor_init_system M (zero_globals M (use_file_server mcfg s)) = Inr m"
    "num_pc m = ucast (delegator_count h)" "no_services states" "protocon_states m = registered (memory m) (listed v) states"
    using init_system_returns [OF assms(3)] by blast
  show ?thesis
    using system_boot_starts [OF assms(2) m(1)] m(2-4) system_in_order [OF assms(1) init_establishes(1) [OF m(1)]] by auto
qed

definition ex_monitor_config :: monitor_config where
  "ex_monitor_config = \<lparr>serial_config_magic = True, fs_config_magic = True, server_command_queue = [], server_completion_queue = [],
     net_config_magic = True, vswitch_config_magic = True\<rparr>"

definition ex_orch_config :: orch_config where
  "ex_orch_config = \<lparr>serial_config_magic = True, fs_config_magic = True, server_command_queue = [], server_completion_queue = [],
     vsock_config_magic = True, prologue_spawned = True\<rparr>"

lemma linked_again: "linked M (link_monitor M E)"
  unfolding linked_link by (simp add: link_monitor_def)

theorem system_boots_witness:
  "\<exists>s0. system_boot boot_env (link_monitor boot_env ex_orch_env) ex_monitor_config ex_orch_config boot_state ex_fs_state microrl_init = Inr s0
     \<and> num_pc (fst (orch_monitor s0)) = 2"
proof -
  have cfg: "configured ex_monitor_config ex_orch_config"
    by (simp add: configured_def ex_monitor_config_def ex_orch_config_def)
  have "use_file_server ex_monitor_config boot_state = boot_state"
    using boot_state_queues by (simp add: use_file_server_def ex_monitor_config_def)
  then have "boots boot_env ex_disk dlg_example_header svc_example_table (use_file_server ex_monitor_config boot_state)"
    using ex_boots by simp
  from system_boots [OF linked_again cfg this, of ex_orch_env ex_fs_state microrl_init] show ?thesis
    using system_reaches.boot by (fastforce simp: dlg_example_header_def)
qed

end
