(* ===== verification/Client_Whoami.thy ===== *)
theory Client_Whoami
  imports C_Strings
begin

text \<open>
  The demo client (\<open>src/client/whoami.c\<close>): it prints when it was started and how long it has been running, once at the
  start and then whenever the timer driver notifies it. The timer is a function of the number of earlier readings.
\<close>

section \<open>Environment and state\<close>

record whoami_env =
  serial_magic_ok :: bool
  timer_magic_ok :: bool
  pd_name :: "u8 list"
  timer_driver_id :: u32
  time_now :: "nat \<Rightarrow> u64"
  NS_IN_S :: u64

record whoami =
  started_at_ns :: u64
  readings :: nat
  lines_printed :: "u8 list list"
  timeouts :: "u64 list"

section \<open>Operations\<close>

definition sddf_timer_time_now :: "whoami_env \<Rightarrow> whoami \<Rightarrow> u64 \<times> whoami" where
  "sddf_timer_time_now E s = (time_now E (readings s), s\<lparr>readings := Suc (readings s)\<rparr>)"

definition sddf_timer_set_timeout :: "u64 \<Rightarrow> whoami \<Rightarrow> whoami" where
  "sddf_timer_set_timeout ns s = s\<lparr>timeouts := timeouts s @ [ns]\<rparr>"

definition print_identity :: "whoami_env \<Rightarrow> u64 \<Rightarrow> whoami \<Rightarrow> whoami" where
  "print_identity E now_ns s = s\<lparr>lines_printed := lines_printed s @
     [c_bytes ''WHOAMI| slot='' @ pd_name E @ c_bytes '' started_at='' @ decimal (unat (started_at_ns s))
      @ c_bytes '' ns uptime='' @ decimal (unat (now_ns - started_at_ns s)) @ c_bytes '' ns'' @ [10]]\<rparr>"

definition whoami_init :: "whoami_env \<Rightarrow> whoami \<Rightarrow> whoami res" where
  "whoami_init E s =
     bindR (assertR (serial_magic_ok E)) (\<lambda>_.
     bindR (assertR (timer_magic_ok E)) (\<lambda>_.
     let (now, s) = sddf_timer_time_now E s;
         s = s\<lparr>started_at_ns := now\<rparr>;
         s = print_identity E (started_at_ns s) s
     in Inr (sddf_timer_set_timeout (NS_IN_S E) s)))"

definition whoami_notified :: "whoami_env \<Rightarrow> u32 \<Rightarrow> whoami \<Rightarrow> whoami" where
  "whoami_notified E ch s =
     (if ch \<noteq> timer_driver_id E then s
      else
        let (now, s) = sddf_timer_time_now E s;
            s = print_identity E now s
        in sddf_timer_set_timeout (NS_IN_S E) s)"

definition whoami_zero :: whoami where
  "whoami_zero = \<lparr>started_at_ns = 0, readings = 0, lines_printed = [], timeouts = []\<rparr>"

section \<open>What it prints\<close>

definition identity_line :: "whoami_env \<Rightarrow> u64 \<Rightarrow> u64 \<Rightarrow> u8 list" where
  "identity_line E start now =
     c_bytes ''WHOAMI| slot='' @ pd_name E @ c_bytes '' started_at='' @ decimal (unat start)
      @ c_bytes '' ns uptime='' @ decimal ((unat now + 2 ^ 64 - unat start) mod 2 ^ 64) @ c_bytes '' ns'' @ [10]"

lemma uptime: "unat (now - start :: u64) = (unat now + 2 ^ 64 - unat start) mod 2 ^ 64"
proof (cases "unat start \<le> unat now")
  case True
  have lt: "unat now - unat start < 2 ^ 64" using unsigned_less [of now, where ?'a = nat] by simp
  have "unat now + 2 ^ 64 - unat start = (unat now - unat start) + 2 ^ 64" using True by simp
  then have "(unat now + 2 ^ 64 - unat start) mod 2 ^ 64 = (unat now - unat start) mod 2 ^ 64" by (simp only: mod_add_self2)
  also have "\<dots> = unat now - unat start" using lt by (rule mod_less)
  finally show ?thesis using True by (simp add: unat_sub_if')
next
  case False
  then have "unat now + 2 ^ 64 - unat start < 2 ^ 64" by simp
  then show ?thesis using False by (simp add: unat_sub_if')
qed

definition reported :: "whoami_env \<Rightarrow> nat \<Rightarrow> whoami" where
  "reported E k = \<lparr>started_at_ns = time_now E 0, readings = Suc k,
     lines_printed = map (\<lambda>i. identity_line E (time_now E 0) (time_now E i)) [0..<Suc k],
     timeouts = replicate (Suc k) (NS_IN_S E)\<rparr>"

lemma init_reported: "serial_magic_ok E \<Longrightarrow> timer_magic_ok E \<Longrightarrow> whoami_init E whoami_zero = Inr (reported E 0)"
  by (simp add: whoami_init_def whoami_zero_def reported_def sddf_timer_time_now_def sddf_timer_set_timeout_def
      print_identity_def identity_line_def)

lemma notified_reported: "whoami_notified E ch (reported E k) = reported E (if ch = timer_driver_id E then Suc k else k)"
  by (simp add: whoami_notified_def reported_def sddf_timer_time_now_def sddf_timer_set_timeout_def
      print_identity_def identity_line_def uptime replicate_append_same)

text \<open>once started, whatever notifications come, the client has printed one line at the start and one for each
  notification of the timer driver, with the time of the start and the time since, modulo \<open>2 ^ 64\<close>, and has asked for as
  many timeouts of a second, so that the next one is always under way; other notifications change nothing.\<close>

theorem whoami_reports:
  "bindR (whoami_init E whoami_zero) (\<lambda>s. Inr (fold (whoami_notified E) chs s)) =
     (if serial_magic_ok E \<and> timer_magic_ok E then Inr (reported E (count_list chs (timer_driver_id E))) else Inl AssertFail)"
proof -
  have "fold (whoami_notified E) chs (reported E k) = reported E (k + count_list chs (timer_driver_id E))" for k
    by (induction chs arbitrary: k) (simp_all add: notified_reported)
  then show ?thesis
    by (cases "serial_magic_ok E"; cases "timer_magic_ok E"; simp add: init_reported; simp add: whoami_init_def)
qed

end
