(* ===== verification/Fat_Compat.thy ===== *)
theory Fat_Compat
  imports C_Strings Slot_Pool
begin

text \<open>
  The C library function that the FAT component brings along (\<open>components/fat/compat.c\<close>). The string is an array of
  bytes; the pointer that is returned is an index into it, or none for \<open>NULL\<close>.
\<close>

fun strchr_loop :: "u8 list \<Rightarrow> u8 \<Rightarrow> nat \<Rightarrow> nat option res" where
  "strchr_loop [] c i = Inl UB"
| "strchr_loop (b # a) c i = (if b = c then Inr (Some i) else if b = 0 then Inr None else strchr_loop a c (Suc i))"

definition strchr :: "u8 list \<Rightarrow> u32 \<Rightarrow> nat option res" where
  "strchr a c = strchr_loop a (ucast c) 0"

lemma strchr_loop_first:
  "strchr_loop a c i =
     (case first_index (\<lambda>b. b = c) (c_string a) of
        Some k \<Rightarrow> Inr (Some (i + k))
      | None \<Rightarrow> if \<not> terminated a then Inl UB else Inr (if c = 0 then Some (i + length (c_string a)) else None))"
  by (induction a arbitrary: i) (auto split: option.split simp del: first_index_None_iff)

text \<open>the first place where the character stands in the string, also when it is the zero at its end, and otherwise
  \<open>NULL\<close>; only the low byte of the argument counts. Without a zero in the array a character that is not in it is
  searched for past the end.\<close>

theorem strchr_finds_first:
  "strchr a c =
     (case first_index (\<lambda>b. b = ucast c) (c_string a) of
        Some k \<Rightarrow> Inr (Some k)
      | None \<Rightarrow> if \<not> terminated a then Inl UB
                 else Inr (if ucast c = (0 :: u8) then Some (length (c_string a)) else None))"
  unfolding strchr_def strchr_loop_first
  by (cases "first_index (\<lambda>b. b = ucast c) (c_string a)") (simp_all del: first_index_None_iff)

end
