(* ===== verification/Spec2Isabelle.thy ===== *)
theory Spec2Isabelle
  imports Delegation Service_Db Service_Manifest Vm_Layout Fs_Frame Service_Installer Deploy_Properties
    Deploy_Outcome Monitor_Init Cri_Properties Cri_Names Orch_Properties Orch_Console Deploy_Command Boot_Properties Client_Whoami Fat_Compat
begin

text \<open>
  A verification of carrels: a system on the seL4 microkit in which a monitor loads client programs into a fixed set of dynamic
  protection domains (\<open>protocons\<close>), connects them to services and to each other, and an orchestrator asks it to do so, on behalf of a
  shell on the serial line and of a container runtime interface (CRI) behind a virtio socket. All definitions are translated from
  the C code; the reader finds the names of its functions, constants and struct fields.

  \<^bold>\<open>Parts and their theories\<close>

  \<^item> \<open>Carrels_Prelude\<close>, \<open>C_Strings\<close>, \<open>Carrels_Memory\<close>, \<open>Elf_Image\<close>, \<open>Packed_Struct\<close>: machine words, functions that may stop without
    returning, C strings in arrays, the byte memory of a domain, ELF headers, structs without padding. They model the language and
    its library, and have no code of their own.
  \<^item> \<open>Record_Walk\<close> states the interface of a parser that walks over records, \<open>Slot_Pool\<close> that of a pool of slots; the parsers and pools of
    the code are instances.
  \<^item> \<open>Delegation\<close> (\<open>include/monitor/delegation.h\<close>) and \<open>Service_Db\<close> (\<open>include/service/manifest.h\<close>): the two databases that the monitor reads
    when it starts.
  \<^item> \<open>Service_Manifest\<close> (\<open>src/monitor/service/service_manifest.c\<close>, \<open>tools/service-helper.py\<close>): the manifest in front of a client's image,
    its parser and the tool that writes it.
  \<^item> \<open>Vm_Layout\<close> (\<open>config/monitor_vm_layout.py\<close>, \<open>tools/gen_vm_layout.py\<close>): where the regions of the domains are.
  \<^item> \<open>Fs_Helpers\<close> (\<open>lib/fs/helpers/helpers.c\<close>), \<open>Pico_Vfs\<close> (\<open>src/util/pico_vfs.c\<close>), \<open>Fs_Frame\<close>: the client side of the file system, and
    \<open>Vfs_Returns\<close>: what a server has to do for it to return (\<open>server_sound\<close>). The
    state \<open>fs_state\<close> is extended by the monitor and by the orchestrator, which both link this code.
  \<^item> \<open>Monitor_State\<close> (\<open>include/carrels-monitor.h\<close>, \<open>include/pcmcall/\<close>), then one theory per source of the monitor: \<open>Monitor_Acl\<close>
    (\<open>request/network.c\<close>), \<open>Monitor_Control\<close> (\<open>request/stop.c\<close>, \<open>suspend.c\<close>, \<open>resume.c\<close>, \<open>query.c\<close>, \<open>support.c\<close>, \<open>fault/fault.c\<close>),
    \<open>Service_Registry\<close>, \<open>Service_Planner\<close>, \<open>Service_Installer\<close> (\<open>service/\<close>), \<open>Monitor_Deploy\<close>, \<open>Monitor_Coroutine\<close> and \<open>Monitor_Call\<close>
    (\<open>request/deploy.c\<close>, \<open>mcall.c\<close>, \<open>entry.c\<close>), \<open>Monitor_Init\<close> (\<open>init/minit.c\<close>). \<open>Monitor_Invariant\<close> and \<open>Deploy_Properties\<close> reason about
    the monitor as a transition system; \<open>Monitor_Count\<close> shows that its number of protocons is fixed. \<open>Deploy_Run\<close> runs a
    deployment to its end with calls of others in between (\<open>co_run_with\<close>), and \<open>Deploy_Outcome\<close> says how it ends, with an example
    that installs a service and starts a protocon. What is shown of every step is
    shown of the operations once, in the locale \<open>calm_steps\<close>.
  \<^item> \<open>Microrl_Line\<close>, \<open>Microrl_History\<close>, \<open>Microrl\<close> (\<open>microrl/microrl.c\<close>): the line editor of the shell. \<open>Microrl_Invariant\<close> keeps it inside its
    arrays; \<open>Microrl_Screen\<close>, \<open>Microrl_Editing\<close>, \<open>Microrl_Words\<close> and \<open>Microrl_Browse\<close> compare printing, editing, tokens and history with
    definitions on lists; \<open>Microrl_Properties\<close> is what its user sees.
  \<^item> \<open>Orch_Parse\<close>, \<open>Orch_State\<close>, \<open>Orch_Shell\<close> (\<open>src/orchestrator/orchestrator.c\<close>): the orchestrator, its shell and its loaders.
  \<^item> \<open>Cri_Object\<close>, \<open>Cri_Runtime\<close>, \<open>Cri_Stream\<close> (\<open>src/orchestrator/cri_runtime.c\<close>): the container runtime inside the orchestrator. \<open>Cri_Tables\<close>,
    \<open>Cri_Names\<close> and \<open>Cri_Slots\<close> hold what requests keep of its tables, its identifiers and its slots, \<open>Cri_Properties\<close> what it promises.
  \<^item> \<open>Orch_Invariant\<close> is the orchestrator as a transition system; \<open>Orch_Deploy\<close>, \<open>Orch_Properties\<close> put the monitor behind its channel, and
    \<open>Orch_Console\<close> the serial line and the editor in front of its shell. \<open>Deploy_Command\<close> follows a deploy command from its words to the
    coroutine of the monitor. \<open>Orch_Example\<close> holds the states of the witnesses.
  \<^item> \<open>Carrels_System\<close> composes the two domains: their steps in any order, over the memory and the channels that
    \<open>examples/simple/meta/engine.py\<close> lets them share (\<open>linked\<close>). The locale \<open>monitor_client\<close> says what the orchestrator cannot break.
    \<open>Carrels_Boot\<close> is the \<open>init\<close> of both (\<open>src/monitor/entry.c\<close>, \<open>src/orchestrator/orchestrator.c\<close>), \<open>Monitor_Boot\<close> shows that the
    monitor's comes to its end when the disk is in order (\<open>boots\<close>), and \<open>Boot_Properties\<close> that the system starts, with an example of
    such a disk.
  \<^item> \<open>Client_Whoami\<close> (\<open>src/client/whoami.c\<close>) is the demonstration client, \<open>Fat_Compat\<close> (\<open>components/fat/compat.c\<close>) the search function of the
    FAT component.

  \<^bold>\<open>How the code is modelled\<close>

  A function returns \<open>Inr\<close> its result and new state, or \<open>Inl\<close> the way in which it stops: a failed assertion, a crash, an endless
  loop, or undefined behaviour, which a failed bound check of the model stands for wherever the code makes none. State is passed
  explicitly. Integers have the width of the code and wrap around; indices whose arithmetic cannot wrap are natural numbers. A \<open>char\<close> is
  unsigned, as on AArch64.

  Code outside the repository is a parameter: the records \<open>fs_env\<close>, \<open>mon_env\<close> and \<open>orch_env\<close> hold the file-system server, the virtual switch,
  the answers of the kernel, the formats of the trusted loader, the coroutine library's spawning and the vsock queue, each as a function
  of what was asked before where its answer may change. The monitor is a parameter of the orchestrator (\<open>ppcall\<close>); \<open>linked\<close> says that
  it is the monitor of this development, which sees in the shared images what the orchestrator has written there. The line editor's callbacks are a record of functions that the orchestrator fills (\<open>shell_fns\<close>).

  Coroutines interleave at the places where the code waits: in the monitor a deployment is a machine that stops at each read of a file
  (\<open>co_step\<close>), and calls, notifications, faults and writes of other domains to its memory happen in any order between its steps
  (\<open>monitor_step\<close>). Where the end of one deployment is followed (\<open>co_run_with\<close>), what happens between two of its steps is any function of
  the state; \<open>bystanders\<close> says which parts of the state it must leave alone for the deployment to succeed. In the orchestrator a loader is
  spawned, has passed its file name on, and finishes (\<open>orch_runs\<close>), while the monitor goes on by itself (\<open>orch_step\<close>, and \<open>system_step\<close> with the monitor's own steps). A file read is one step: interleavings
  inside it, while the blocking helper waits for the server, are not modelled. Nor are calls that arrive while the initialisation of the
  monitor waits for its files: it is one step.

  The byte memory holds what the code reaches by addresses: images, databases, shared buffers. The global variables of the monitor
  (\<open>protocon_states\<close>, \<open>peer_policy\<close>, \<open>deploy_request\<close> and the others) are fields of its state, outside of that memory: the writes that the
  code does not check, of the payload and of the installer, can reach images of other protocons in the model, but not these variables.

  The history of the line editor is compared with a list of records (\<open>holds_records\<close>) as long as its ring has neither erased a record nor
  wrapped around. That is all that can be used of it: the first line without room still runs, and makes the ring run over its end
  (\<open>wrapped\<close>); every later search in it is undefined behaviour of the code, which reads past the array.

  Loops are recursive functions that end by a measure. Fuel is used where an external party decides when a loop ends: the blocking wait of the
  file system takes as many wake-ups as the server's list of pending actions, and the loop that reads a file the bound
  \<open>orch_read_bound\<close> of the environment; the properties about them have hypotheses or conclusions that say that the bound suffices. The run out of fuel is the value
  \<open>Inl Spin\<close>, a wait or loop that never ends; \<open>deployment_never_waits_forever\<close> shows that it does not come up when the server answers and
  \<open>read_bound\<close> exceeds the size of the largest file. That the system starts
  assumes that \<open>read_bound\<close> exceeds the length of each file. The length
  of a record in the editor's history is counted with one unit of fuel for each byte of the ring and one more, which a ring with a zero never uses up.

  \<^bold>\<open>What is shown\<close>

  \<^item> System: with the files it needs the system starts, and both invariants hold from there on, on every path of the two domains; and the
    monitor never finds a request of the orchestrator malformed.
  \<^item> Monitor: every step starts a program only in a free protocon and once; the invariant of all reachable states, from initialisation
    on; a deployment never waits for ever, and what a targeted one reports and leaves behind; the errors of a
    request in their order; isolation of the images and the places where it fails; what connecting and releasing peers do to the switch.
  \<^item> Parsers: the databases are accepted exactly when they are well-formed; manifests and peer lists are parsed back as
    they were written.
  \<^item> File system: what is read is what the server holds, nothing else changes, and nothing leaks, or the conditions under which it does.
  \<^item> Orchestrator and container runtime: the invariant of all reachable states; a request is answered in the same way however it is cut into
    packets; identifiers are unique; a deploy command starts the deployment it names; a finished one is concluded; behaviour is undefined for exactly one kind of request; and three ways in
    which slots and containers are lost.
  \<^item> Line editor: what is typed, with its corrections, is executed word for word; editing and browsing refine a line with a cursor and a
    list of records; and the inputs on which it drops arguments, overflows a buffer or its history, or does not return.

  \<^bold>\<open>Not modelled\<close>

  Debug printing and messages to the user; the set-up of driver queues and coroutine stacks in the \<open>init\<close> functions, which only passes
  addresses to external code; the parts of the line editor that its configuration leaves out (echo modes, colours, printing through the
  C library, command hooks); and the declarations in
  \<open>include/service/registry.h\<close>, \<open>include/service/service-desc.h\<close> and the unused protocol headers, which no code refers to.
\<close>

end
